(* ===== verification/Prelude.thy ===== *)
theory Prelude
  imports Main "HOL-Library.AList" "HOL-Library.List_Lexorder" "HOL-Library.Char_ord"
    "HOL-Library.Word"
begin

text \<open>
  What every theory of the development shares: the types that stand for Go's base types, errors
  as values, the number and quoting formats the messages use, Go maps as association lists, and
  filters whose test may panic.

  Conventions.  A Go \<open>string\<close> is a list of bytes (\<open>string\<close>).  \<open>time.Time\<close> and
  \<open>time.Duration\<close> are nanoseconds (\<open>int\<close>); the zero time is \<open>0\<close>.  A Go map is an association
  list with distinct keys, and where the code ranges over a map the list's order is the order Go
  happens to pick: Go leaves it open, so a theorem about every list is a theorem about every
  order.  An error is a sentinel (what \<open>errors.Is\<close> sees) and its message.
\<close>

section \<open>Base types\<close>

type_synonym time = int
type_synonym duration = int

abbreviation (input) zero_time :: time where "zero_time \<equiv> 0"

text \<open>\<open>t.After(u)\<close> of Go's \<open>time\<close> package.\<close>

definition after_time :: "time \<Rightarrow> time \<Rightarrow> bool" where
  "after_time t u \<longleftrightarrow> t > u"

text \<open>
  Two's complement 64-bit arithmetic written out: \<open>wrap64 x\<close> is what an \<open>int64\<close> holds
  after an operation whose exact result is \<open>x\<close>.  It is used wherever the operands come from
  outside the platform (reported tokens and cost, a configured ceiling); counters that the
  store raises by one are left exact.
\<close>

definition wrap64 :: "int \<Rightarrow> int" where
  "wrap64 x = (x + 2 ^ 63) mod 2 ^ 64 - 2 ^ 63"

definition in_int64 :: "int \<Rightarrow> bool" where
  "in_int64 x \<longleftrightarrow> - (2 ^ 63) \<le> x \<and> x < 2 ^ 63"

lemma wrap64_id [simp]: "in_int64 x \<Longrightarrow> wrap64 x = x"
  by (simp add: wrap64_def in_int64_def mod_pos_pos_trivial)

lemma in_int64_wrap64 [simp]: "in_int64 (wrap64 x)"
  by (simp add: wrap64_def in_int64_def)

section \<open>Errors\<close>

text \<open>
  The sentinels of the modelled packages; \<open>Opaque\<close> is an error built by
  \<open>fmt.Errorf\<close> without \<open>%w\<close>, and \<open>Panic\<close> a run-time panic (a nil task dereferenced).
\<close>

datatype (plugins only: code) sentinel =
    Opaque | Panic
  \<comment> \<open>task\<close>
  | ErrUnknownTask | ErrCycle | ErrIllegalMove | ErrNoIdempotency
  \<comment> \<open>goal\<close>
  | ErrNotDurable | ErrNoCriteria | ErrIllegalState | ErrCeilingUnset | RefusalError
  \<comment> \<open>store\<close>
  | ErrGoalNotFound | ErrTaskNotFound | ErrNotClaimable | ErrLeaseLost | ErrNoWork | ErrGoalTerminal
  \<comment> \<open>toolcontract\<close>
  | ErrUnknownTool | ErrNoTimeout | ErrNoVerifier | ErrNoCallIdempotency | ErrNoPermissions
  | ErrVerifyFailed | ErrVerifyInconclusive
  \<comment> \<open>context\<close>
  | ContextCanceled
  \<comment> \<open>memory\<close>
  | ErrNotFound | ErrNoConversation | ErrBadTurnRole | ErrNoEvidence | ErrNotPromotable
  | ErrNoAuthor | ErrSystemAuthor | ErrSummaryGap | ErrIncompressible
  \<comment> \<open>edit\<close>
  | ErrEditNotFound | ErrAmbiguous | ErrNoChange | ErrOutsideRoot | ErrEmpty | ErrIndentation
  | ErrNotVerified
  \<comment> \<open>tenancy and auth\<close>
  | ErrNoPrincipal | ErrBadRole | ErrLastOwner | ErrNoSuchMember | ErrRefused
  | ErrNoSuchUser | ErrNoSession | ErrEmailTaken | ErrAccountElsewhere | ErrBadToken | ErrAlreadyMember
  | ErrAlreadyVerified | ErrOrgNameRequired | ErrBadHash | ErrWrongPassword | ErrWeakPassword | ErrBusy
  \<comment> \<open>provider and converse\<close>
  | ErrAuth | ErrRateLimited | ErrUpstream | ErrRequest | ErrBudget | DeadlineExceeded
  | ErrUnavailable | ErrUnusable | ErrExhausted
  \<comment> \<open>mailer and intake\<close>
  | ErrNotConfigured | ErrIntakeNotFound | ErrNotADir | ErrNotAGitRepo | ErrNoRevision | ErrBadReference | ErrCloneFailed

type_synonym go_error = "sentinel \<times> string"

definition errors_is :: "go_error \<Rightarrow> sentinel \<Rightarrow> bool" where
  "errors_is e s \<longleftrightarrow> fst e = s"

lemma errors_is_Pair [simp]: "errors_is (s, m) s' \<longleftrightarrow> s = s'"
  by (simp add: errors_is_def)

definition nil_deref :: go_error where
  "nil_deref = (Panic, ''runtime error: invalid memory address or nil pointer dereference'')"

lemma errors_is_nil_deref [simp]: "errors_is nil_deref s \<longleftrightarrow> s = Panic"
  by (auto simp: nil_deref_def)

text \<open>
  An operation whose lookup may dereference nil has an \<open>option\<close> result, \<open>None\<close> for the panic.
  \<open>or_panic\<close> turns it into a value of the error sum.
\<close>

definition or_panic :: "'a option \<Rightarrow> go_error + 'a" where
  "or_panic x = (case x of None \<Rightarrow> Inl nil_deref | Some y \<Rightarrow> Inr y)"

lemma or_panic_simps [simp]: "or_panic (Some y) = Inr y" "or_panic None = Inl nil_deref"
  by (simp_all add: or_panic_def)

section \<open>Formatting\<close>

definition digit_char :: "nat \<Rightarrow> char" where
  "digit_char d = char_of (48 + d)"

fun nat_digits :: "nat \<Rightarrow> string" where
  "nat_digits n = (if n < 10 then [digit_char n] else nat_digits (n div 10) @ [digit_char (n mod 10)])"

declare nat_digits.simps [simp del]

definition itoa :: "int \<Rightarrow> string" where
  "itoa n = (if n < 0 then ''-'' @ nat_digits (nat (- n)) else nat_digits (nat n))"

definition hex_digit :: "nat \<Rightarrow> char" where
  "hex_digit d = (if d < 10 then char_of (48 + d) else char_of (87 + d))"

text \<open>
  \<open>%q\<close> of \<open>fmt\<close> on a byte string: quotes and backslashes escaped, the named control
  characters by name, other control bytes as \<open>\x\<close> and two hexadecimal digits.  Bytes above 126 are kept, which is
  what Go does for printable UTF-8.
\<close>

definition quote_char :: "char \<Rightarrow> string" where
  "quote_char c = (let n = (of_char c :: nat); bs = char_of (92 :: nat) in
     if n = 34 \<or> n = 92 then [bs, c]
     else if n = 7 then [bs, CHR ''a''] else if n = 8 then [bs, CHR ''b'']
     else if n = 12 then [bs, CHR ''f''] else if n = 10 then [bs, CHR ''n'']
     else if n = 13 then [bs, CHR ''r''] else if n = 9 then [bs, CHR ''t'']
     else if n = 11 then [bs, CHR ''v'']
     else if n < 32 \<or> n = 127 then [bs, CHR ''x'', hex_digit (n div 16), hex_digit (n mod 16)]
     else [c])"

definition fmt_q :: "string \<Rightarrow> string" where
  "fmt_q s = [char_of (34 :: nat)] @ concat (map quote_char s) @ [char_of (34 :: nat)]"

text \<open>
  \<open>t.Format(time.RFC3339)\<close> of a time in UTC: the civil date of the proleptic Gregorian calendar, counted
  from the zero time, 0001-01-01.
\<close>

definition civil_date :: "int \<Rightarrow> int \<times> int \<times> int" where
  "civil_date days =
     (let z = days + 306;
          era = z div 146097;
          doe = z mod 146097;
          yoe = (doe - doe div 1460 + doe div 36524 - doe div 146096) div 365;
          doy = doe - (365 * yoe + yoe div 4 - yoe div 100);
          mp = (5 * doy + 2) div 153;
          d = doy - (153 * mp + 2) div 5 + 1;
          m = (if mp < 10 then mp + 3 else mp - 9);
          y = yoe + era * 400 + (if m \<le> 2 then 1 else 0)
      in (y, m, d))"

definition pad_left :: "nat \<Rightarrow> string \<Rightarrow> string" where
  "pad_left n s = replicate (n - length s) (CHR ''0'') @ s"

definition rfc3339 :: "time \<Rightarrow> string" where
  "rfc3339 t =
     (let secs = t div 1000000000; (y, m, d) = civil_date (secs div 86400); s = secs mod 86400
      in pad_left 4 (itoa y) @ ''-'' @ pad_left 2 (itoa m) @ ''-'' @ pad_left 2 (itoa d) @ ''T'' @
         pad_left 2 (itoa (s div 3600)) @ '':'' @ pad_left 2 (itoa (s mod 3600 div 60)) @ '':'' @
         pad_left 2 (itoa (s mod 60)) @ ''Z'')"

text \<open>The three non-ASCII signs the messages use, as their UTF-8 bytes.\<close>

definition arrow_sign :: string where "arrow_sign = map char_of [226, 134, 146 :: nat]"
definition both_arrow_sign :: string where "both_arrow_sign = map char_of [226, 134, 148 :: nat]"
definition em_dash :: string where "em_dash = map char_of [226, 128, 148 :: nat]"

section \<open>Maps as association lists\<close>

named_theorems alist_simps \<open>lookups after an update of an association list\<close>

lemma map_of_update [alist_simps, simp]: "map_of (AList.update k v xs) = (map_of xs)(k \<mapsto> v)"
  by (simp add: update_conv')

lemma keys_update_same [alist_simps]:
  "k \<in> set (map fst xs) \<Longrightarrow> map fst (AList.update k v xs) = map fst xs"
  by (simp add: update_keys)

lemma map_of_Some_key: "map_of xs k = Some v \<Longrightarrow> k \<in> set (map fst xs)"
  by (force dest: map_of_SomeD)

lemma key_map_of_Some: "k \<in> set (map fst xs) \<Longrightarrow> \<exists>v. map_of xs k = Some v"
  by (cases "map_of xs k") (auto simp: map_of_eq_None_iff image_image)

lemma keys_update_Some [alist_simps]:
  "map_of xs k = Some v \<Longrightarrow> map fst (AList.update k v' xs) = map fst xs"
  by (rule keys_update_same) (rule map_of_Some_key)

lemma distinct_update_keys [simp, intro]:
  "distinct (map fst xs) \<Longrightarrow> distinct (map fst (AList.update k v xs))"
  by (rule distinct_update)

lemma update_Some_length:
  "map_of xs k = Some v \<Longrightarrow> length (AList.update k v' xs) = length xs"
  by (metis keys_update_Some length_map)

text \<open>An update at a present key changes one entry: counting by a test moves by that entry.\<close>

lemma filter_update_count:
  assumes "map_of xs k = Some v" "P v" "\<not> P v'"
  shows "length (filter (\<lambda>(_, x). P x) xs) = Suc (length (filter (\<lambda>(_, x). P x) (AList.update k v' xs)))"
  using assms by (induction xs) (auto split: if_splits)

lemma distinct_map_filter [simp]: "distinct (map f xs) \<Longrightarrow> distinct (map f (filter P xs))"
  by (induction xs) auto

lemma update_absent: "k \<notin> set (map fst xs) \<Longrightarrow> AList.update k v xs = xs @ [(k, v)]"
  by (induction xs) auto

text \<open>Deleting the entries of a map whose value fails a test.\<close>

lemma map_of_filter_values:
  "distinct (map fst xs) \<Longrightarrow> map_of (filter (\<lambda>(_, v). P v) xs) k =
     (case map_of xs k of None \<Rightarrow> None | Some v \<Rightarrow> if P v then Some v else None)"
  by (induction xs) (auto split: option.splits simp: map_of_eq_None_iff image_iff)

text \<open>The keys in order: what the code's sorted \<open>ids\<close> of a map returns.\<close>

definition sorted_keys :: "(string \<times> 'v) list \<Rightarrow> string list" where
  "sorted_keys xs = sort (map fst xs)"

lemma set_sorted_keys [simp]: "set (sorted_keys xs) = fst ` set xs"
  by (simp add: sorted_keys_def)

lemma sorted_keys_update_Some [alist_simps]:
  "map_of xs k = Some v \<Longrightarrow> sorted_keys (AList.update k v' xs) = sorted_keys xs"
  by (simp add: sorted_keys_def keys_update_Some)

text \<open>The values in key order.\<close>

definition sorted_values :: "(string \<times> 'v) list \<Rightarrow> 'v list" where
  "sorted_values xs = List.map_filter (map_of xs) (sorted_keys xs)"

lemma set_map_filter_Some: "y \<in> set (List.map_filter f xs) \<longleftrightarrow> (\<exists>x \<in> set xs. f x = Some y)"
  by (induction xs) (auto split: option.splits)

lemma set_sorted_values: "v \<in> set (sorted_values xs) \<longleftrightarrow> (\<exists>k. map_of xs k = Some v)"
  by (auto simp: sorted_values_def set_map_filter_Some) (metis fst_conv map_of_SomeD)

section \<open>Filters whose test may panic\<close>

fun filter_opt :: "('a \<Rightarrow> bool option) \<Rightarrow> 'a list \<Rightarrow> 'a list option" where
  "filter_opt f [] = Some []"
| "filter_opt f (x # xs) =
     (case f x of None \<Rightarrow> None
      | Some b \<Rightarrow> map_option (\<lambda>r. if b then x # r else r) (filter_opt f xs))"

lemma filter_opt_total:
  "(\<And>x. x \<in> set xs \<Longrightarrow> f x = Some (g x)) \<Longrightarrow> filter_opt f xs = Some (filter g xs)"
  by (induction xs) auto

lemma filter_opt_Some_mem:
  "filter_opt f xs = Some r \<Longrightarrow> x \<in> set r \<Longrightarrow> x \<in> set xs \<and> f x = Some True"
  by (induction xs arbitrary: r) (auto split: option.splits if_splits)

lemma filter_opt_Some_all:
  "filter_opt f xs = Some r \<Longrightarrow> x \<in> set xs \<Longrightarrow> \<exists>b. f x = Some b \<and> (b \<longrightarrow> x \<in> set r)"
  by (induction xs arbitrary: r) (auto split: option.splits if_splits)

end
