(* ===== verification/Bounds.thy ===== *)
theory Bounds
  imports Prelude
begin

text \<open>
  Package \<open>internal/bounds\<close>: the ceilings of one goal, the spend ledger that is compared with
  them, and the closed set of refusals.  The one place where 64-bit arithmetic can go wrong is the
  conversion of the money ceiling from cents to micro-cents, so that product is wrapped.
\<close>

section \<open>Ceilings and spend\<close>

record ceilings =
  max_iterations :: int
  max_tasks :: int
  max_attempts_per_task :: int
  max_tool_calls :: int
  max_tokens :: int
  max_cost_cents :: int
  max_wall_clock :: duration
  max_spawn_depth :: int

record spend =
  sp_iterations :: int
  sp_tasks :: int
  sp_tool_calls :: int
  sp_tokens :: int
  sp_cost_micro_cents :: int
  sp_elapsed :: duration
  sp_spawn_depth :: int

definition micro_cents_per_cent :: int where
  "micro_cents_per_cent = 1000000"

text \<open>The table \<open>Validate\<close> walks, and the walk, which stops at the first field that is not positive.\<close>

definition ceiling_checks :: "ceilings \<Rightarrow> (string \<times> bool) list" where
  "ceiling_checks c =
     [(''MaxIterations'', max_iterations c > 0),
      (''MaxTasks'', max_tasks c > 0),
      (''MaxAttemptsPerTask'', max_attempts_per_task c > 0),
      (''MaxToolCalls'', max_tool_calls c > 0),
      (''MaxTokens'', max_tokens c > 0),
      (''MaxCostCents'', max_cost_cents c > 0),
      (''MaxWallClock'', max_wall_clock c > 0),
      (''MaxSpawnDepth'', max_spawn_depth c > 0)]"

fun first_unset :: "(string \<times> bool) list \<Rightarrow> go_error + unit" where
  "first_unset [] = Inr ()"
| "first_unset ((name, ok) # cs) =
     (if \<not> ok then Inl (ErrCeilingUnset,
        ''bounds: ceiling is unset, which is not a licence to run unbounded: '' @ name)
      else first_unset cs)"

definition validate_ceilings :: "ceilings \<Rightarrow> go_error + unit" where
  "validate_ceilings c = first_unset (ceiling_checks c)"

definition exceeded :: "spend \<Rightarrow> ceilings \<Rightarrow> string \<times> bool" where
  "exceeded s c =
     (if sp_iterations s \<ge> max_iterations c then (''MaxIterations'', True)
      else if sp_tasks s \<ge> max_tasks c then (''MaxTasks'', True)
      else if sp_tool_calls s \<ge> max_tool_calls c then (''MaxToolCalls'', True)
      else if sp_tokens s \<ge> max_tokens c then (''MaxTokens'', True)
      else if sp_cost_micro_cents s \<ge> wrap64 (max_cost_cents c * micro_cents_per_cent)
        then (''MaxCostCents'', True)
      else if sp_elapsed s \<ge> max_wall_clock c then (''MaxWallClock'', True)
      else if sp_spawn_depth s \<ge> max_spawn_depth c then (''MaxSpawnDepth'', True)
      else ('''', False))"

section \<open>Refusals\<close>

datatype refusal_cause =
  NoSubject | NoSourceRevision | MultipleSubjects | UnboundedRequested | UnknownAxis | NoBudget
  | CeilingExceeded | PlanExhausted | PlanStalled

fun cause_name :: "refusal_cause \<Rightarrow> string" where
  "cause_name NoSubject = ''no_subject''"
| "cause_name NoSourceRevision = ''no_source_revision''"
| "cause_name MultipleSubjects = ''multiple_subjects''"
| "cause_name UnboundedRequested = ''unbounded_requested''"
| "cause_name UnknownAxis = ''unknown_axis''"
| "cause_name NoBudget = ''no_budget''"
| "cause_name CeilingExceeded = ''ceiling_exceeded''"
| "cause_name PlanExhausted = ''plan_exhausted''"
| "cause_name PlanStalled = ''plan_stalled''"

fun next_action :: "refusal_cause \<Rightarrow> string" where
  "next_action NoSubject = ''name a repository, or pick one from your connected repositories''"
| "next_action NoSourceRevision =
     ''push a revision, or connect the repository so a revision can be resolved''"
| "next_action MultipleSubjects = ''ask about one repository at a time''"
| "next_action UnboundedRequested =
     ''give the run a limit '' @ em_dash @ '' a number of proposals, a spend, or a deadline''"
| "next_action UnknownAxis =
     ''name one of the nine axes: model, prompt, skills, context, tools, memory, harness, loop, graph''"
| "next_action NoBudget =
     ''add budget to this organization'' @ [CHR 0x27] @
     ''s plan, or run the read-only assessment instead''"
| "next_action CeilingExceeded =
     ''raise the ceiling for this goal deliberately, or narrow the question and run again''"
| "next_action PlanExhausted =
     ''read what the tasks reported '' @ em_dash @
     '' if there is no agent in this repository there is nothing to assess, so point her at one, '' @
     ''or ask a narrower question of this one''"
| "next_action PlanStalled =
     ''read which task failed first '' @ em_dash @ '' everything after it was waiting on it''"

definition causes :: "refusal_cause list" where
  "causes = [NoSubject, NoSourceRevision, MultipleSubjects, UnboundedRequested, UnknownAxis,
     NoBudget, CeilingExceeded, PlanExhausted, PlanStalled]"

record refusal =
  r_cause :: refusal_cause
  r_detail :: string

definition refusal_text :: "refusal \<Rightarrow> string" where
  "refusal_text r =
     (let msg = ''refused: '' @ cause_name (r_cause r);
          msg = (if r_detail r \<noteq> '''' then msg @ '' ('' @ r_detail r @ '')'' else msg);
          na = next_action (r_cause r)
      in if na \<noteq> '''' then msg @ '' '' @ em_dash @ '' '' @ na else msg)"

section \<open>Facts\<close>

lemma first_unset_Inr: "first_unset cs = Inr () \<longleftrightarrow> (\<forall>(_, ok) \<in> set cs. ok)"
  by (induction cs rule: first_unset.induct) auto

lemma first_unset_Inl: "first_unset cs = Inl e \<Longrightarrow> errors_is e ErrCeilingUnset"
  by (induction cs rule: first_unset.induct) (auto split: if_splits)

definition bounded :: "ceilings \<Rightarrow> bool" where
  "bounded c \<longleftrightarrow> max_iterations c > 0 \<and> max_tasks c > 0 \<and> max_attempts_per_task c > 0 \<and>
     max_tool_calls c > 0 \<and> max_tokens c > 0 \<and> max_cost_cents c > 0 \<and> max_wall_clock c > 0 \<and>
     max_spawn_depth c > 0"

lemma validate_ceilings_Inr: "validate_ceilings c = Inr () \<longleftrightarrow> bounded c"
  by (simp add: validate_ceilings_def first_unset_Inr ceiling_checks_def bounded_def)

text \<open>The largest money ceiling, in cents, whose conversion to micro-cents still fits an \<open>int64\<close>.\<close>

definition max_safe_cents :: int where
  "max_safe_cents = 9223372036854"

lemma cost_ceiling_exact:
  "0 < n \<Longrightarrow> n \<le> max_safe_cents \<Longrightarrow> wrap64 (n * micro_cents_per_cent) = n * micro_cents_per_cent"
  by (rule wrap64_id) (simp add: in_int64_def max_safe_cents_def micro_cents_per_cent_def)

definition within :: "spend \<Rightarrow> ceilings \<Rightarrow> bool" where
  "within s c \<longleftrightarrow> sp_iterations s < max_iterations c \<and> sp_tasks s < max_tasks c \<and>
     sp_tool_calls s < max_tool_calls c \<and> sp_tokens s < max_tokens c \<and>
     sp_cost_micro_cents s < wrap64 (max_cost_cents c * micro_cents_per_cent) \<and>
     sp_elapsed s < max_wall_clock c \<and> sp_spawn_depth s < max_spawn_depth c"

lemma exceeded_iff: "snd (exceeded s c) \<longleftrightarrow> \<not> within s c"
  by (auto simp: exceeded_def within_def)

lemma causes_complete: "set causes = UNIV"
  unfolding causes_def by (auto intro: refusal_cause.exhaust)

lemma next_action_not_empty: "next_action c \<noteq> ''''"
  by (cases c) auto

end
