(* ===== verification/Intent.thy ===== *)
theory Intent
  imports Prelude
begin

text \<open>
  Package \<open>internal/intent\<close>: the closed set of nineteen intents as one table, the nine axes, and
  the topics that belong to another surface.  An intent is a string, as in the code, because a value
  from a request or a database row need not be one of the nineteen; membership is a lookup.
\<close>

datatype tier = TierGoal | TierQuery | TierEffect

record spec =
  sp_intent :: string
  sp_tier :: tier
  sp_axis :: string
  sp_question :: string

definition mk_spec :: "string \<Rightarrow> tier \<Rightarrow> string \<Rightarrow> string \<Rightarrow> spec" where
  "mk_spec i t a q = \<lparr>sp_intent = i, sp_tier = t, sp_axis = a, sp_question = q\<rparr>"

definition specs :: "spec list" where
  "specs =
     [mk_spec ''assess'' TierGoal '''' ''look at my repository and tell me what is weak'',
      mk_spec ''improve'' TierGoal '''' ''fix it, and open a pull request'',
      mk_spec ''evalset'' TierGoal '''' ''build me an evaluation set for this agent'',
      mk_spec ''compare'' TierGoal '''' ''is this version better than the last one?'',
      mk_spec ''graph'' TierQuery ''graph'' ''what does my agent actually do, step by step?'',
      mk_spec ''run_history'' TierQuery '''' ''what happened in that run?'',
      mk_spec ''coverage'' TierQuery '''' ''what did you measure, and what did you not?'',
      mk_spec ''context'' TierQuery ''context'' ''what conversation history does this node get?'',
      mk_spec ''memory'' TierQuery ''memory'' ''what does this node remember between calls?'',
      mk_spec ''harness'' TierQuery ''harness''
        (''what is this node allowed to do '' @ em_dash @ '' what can it reach, and what can it spend?''),
      mk_spec ''loop'' TierQuery ''loop'' ''how many turns does it take, and in what loop?'',
      mk_spec ''graph_order'' TierQuery ''graph'' ''should these nodes run in this order?'',
      mk_spec ''preview_change'' TierQuery '''' ''what exactly would you write into my source?'',
      mk_spec ''skills'' TierQuery ''skills'' ''what skills are bound at this call site?'',
      mk_spec ''tools'' TierQuery ''tools''
        ''what tools is this node offered, and which does it actually call?'',
      mk_spec ''author'' TierEffect '''' ''change something on an axis and show me the diff'',
      mk_spec ''prompt'' TierEffect ''prompt'' ''change what this node is told'',
      mk_spec ''model'' TierEffect ''model'' ''change which model this node calls'',
      mk_spec ''deliver'' TierEffect '''' ''put an approved change into my repository'']"

definition axes :: "string list" where
  "axes = [''model'', ''prompt'', ''skills'', ''context'', ''tools'', ''memory'', ''harness'',
     ''loop'', ''graph'']"

fun lookup_in :: "spec list \<Rightarrow> string \<Rightarrow> spec option" where
  "lookup_in [] i = None"
| "lookup_in (s # ss) i = (if sp_intent s = i then Some s else lookup_in ss i)"

definition lookup :: "string \<Rightarrow> spec option" where
  "lookup i = lookup_in specs i"

definition valid_intent :: "string \<Rightarrow> bool" where
  "valid_intent i \<longleftrightarrow> lookup i \<noteq> None"

definition in_tier :: "tier \<Rightarrow> string list" where
  "in_tier t = map sp_intent (filter (\<lambda>s. sp_tier s = t) specs)"

definition durable :: "string \<Rightarrow> bool" where
  "durable i = (case lookup i of None \<Rightarrow> False | Some s \<Rightarrow> sp_tier s = TierGoal)"

definition intent_effect_bearing :: "string \<Rightarrow> bool" where
  "intent_effect_bearing i =
     (case lookup i of None \<Rightarrow> False
      | Some s \<Rightarrow> sp_tier s = TierEffect \<or> sp_intent s = ''improve'')"

definition can_do :: "string list" where
  "can_do = map sp_question specs"

record out_of_scope_topic =
  oos_topic :: string
  oos_surface :: string
  oos_does :: string

definition mk_topic :: "string \<Rightarrow> string \<Rightarrow> string \<Rightarrow> out_of_scope_topic" where
  "mk_topic t s d = \<lparr>oos_topic = t, oos_surface = s, oos_does = d\<rparr>"

definition out_of_scope :: "out_of_scope_topic list" where
  "out_of_scope =
     [mk_topic ''plan'' ''/app/billing'' ''changing your plan and seeing what it includes'',
      mk_topic ''payment'' ''/app/billing'' ''payment methods and invoices'',
      mk_topic ''invoice'' ''/app/billing'' ''payment methods and invoices'',
      mk_topic ''password'' ''/app/account'' ''your password and your sign-in details'',
      mk_topic ''account'' ''/app/account'' ''your account details'',
      mk_topic ''member'' ''/app/settings/members'' ''who is in this organization and what they may do'',
      mk_topic ''invite'' ''/app/settings/members'' ''inviting people and managing their access'',
      mk_topic ''api key'' ''/app/settings/members'' ''credentials for this organization'',
      mk_topic ''connect a repository'' ''/app/connections''
        ''connecting a repository, and revoking a connection'',
      mk_topic ''revoke'' ''/app/connections''
        ''revoking a connection and deleting the trees derived from it'']"

text \<open>The loop that collects each surface once, then sorts.\<close>

fun distinct_surfaces :: "string list \<Rightarrow> string list \<Rightarrow> out_of_scope_topic list \<Rightarrow> string list" where
  "distinct_surfaces seen out [] = out"
| "distinct_surfaces seen out (t # ts) =
     (if oos_surface t \<notin> set seen
      then distinct_surfaces (oos_surface t # seen) (out @ [oos_surface t]) ts
      else distinct_surfaces seen out ts)"

definition out_of_scope_surfaces :: "string list" where
  "out_of_scope_surfaces = sort (distinct_surfaces [] [] out_of_scope)"

section \<open>Facts\<close>

lemmas spec_table = specs_def mk_spec_def

lemma lookup_in_Some: "lookup_in ss i = Some s \<Longrightarrow> s \<in> set ss \<and> sp_intent s = i"
  by (induction ss) (auto split: if_splits)

lemma lookup_in_None: "lookup_in ss i = None \<longleftrightarrow> i \<notin> sp_intent ` set ss"
  by (induction ss) auto

lemma distinct_intents: "distinct (map sp_intent specs)"
  by (simp add: spec_table)

lemma valid_intent_iff: "valid_intent i \<longleftrightarrow> i \<in> set (map sp_intent specs)"
  by (auto simp: valid_intent_def lookup_def lookup_in_None)

lemma durable_iff: "durable i \<longleftrightarrow> i \<in> {''assess'', ''improve'', ''evalset'', ''compare''}"
  by (auto simp: durable_def lookup_def spec_table)

lemma in_tier_goal: "in_tier TierGoal = [''assess'', ''improve'', ''evalset'', ''compare'']"
  by (simp add: in_tier_def spec_table)

lemma axes_distinct: "distinct axes"
  by (simp add: axes_def)

end
