(* ===== verification/Goal.thy ===== *)
theory Goal
  imports Bounds Intent
begin

text \<open>
  Package \<open>internal/goal\<close>: the durable objective, its admission, its life cycle and the measured
  completion criteria.  A method on \<open>*Goal\<close> returns the updated record; one that can fail returns a
  sum, and on the error side the caller's record is the one it already had (no failing method of
  the package writes a field before it fails).
\<close>

section \<open>Data\<close>

datatype goal_state =
  GoalDraft | GoalRunning | GoalPaused | GoalSucceeded | GoalFailed | GoalRefused | GoalCancelled

fun goal_state_name :: "goal_state \<Rightarrow> string" where
  "goal_state_name GoalDraft = ''draft''"
| "goal_state_name GoalRunning = ''running''"
| "goal_state_name GoalPaused = ''paused''"
| "goal_state_name GoalSucceeded = ''succeeded''"
| "goal_state_name GoalFailed = ''failed''"
| "goal_state_name GoalRefused = ''refused''"
| "goal_state_name GoalCancelled = ''cancelled''"

fun goal_terminal :: "goal_state \<Rightarrow> bool" where
  "goal_terminal GoalSucceeded = True"
| "goal_terminal GoalFailed = True"
| "goal_terminal GoalRefused = True"
| "goal_terminal GoalCancelled = True"
| "goal_terminal _ = False"

datatype criterion_kind =
  AllTasksSucceeded | ProposalsAccepted | EvalCasesGenerated | ComparisonDrawn | ChangesDelivered
  | AxesAssessed

record criterion =
  c_kind :: criterion_kind
  c_threshold :: int
  c_met :: bool
  c_observed :: int
  c_measured_at :: time

record milestone =
  m_name :: string
  m_criterion :: criterion
  m_reached_at :: time
  m_task_ids :: "string list"
  m_annotation :: string

record subject =
  repo_url :: string
  revision :: string
  workflow_id :: string

record goal =
  g_id :: string
  g_tenant :: string
  g_intent :: string
  g_objective :: string
  g_subject :: subject
  g_axes :: "string list"
  g_ceilings :: ceilings
  g_spend :: spend
  g_criteria :: "criterion list"
  g_milestones :: "milestone list"
  g_state :: goal_state
  g_refusal :: "refusal option"
  g_expected :: duration
  g_created :: time
  g_updated :: time
  g_last_checkpoint :: time

section \<open>Admission\<close>

text \<open>\<open>Admit\<close> returns a \<open>bounds.Refusal\<close> for what a person can put right and a plain error otherwise.\<close>

datatype admit_error = PlainErr go_error | RefusedErr refusal

definition illegal_state :: "string \<Rightarrow> go_error" where
  "illegal_state why = (ErrIllegalState, ''goal: illegal state transition: '' @ why)"

fun unknown_axis :: "string list \<Rightarrow> string list \<Rightarrow> string option" where
  "unknown_axis valid [] = None"
| "unknown_axis valid (a # as) = (if a \<notin> set valid then Some a else unknown_axis valid as)"

definition admit :: "goal \<Rightarrow> time \<Rightarrow> admit_error + goal" where
  "admit g now =
     (if g_state g \<noteq> GoalDraft then
        Inl (PlainErr (illegal_state (goal_state_name (g_state g) @ '' '' @ arrow_sign @
               '' running (only a draft may be admitted)'')))
      else if \<not> durable (g_intent g) then
        Inl (PlainErr (ErrNotDurable, ''goal: intent is not a durable goal: '' @ fmt_q (g_intent g) @
               '' is not Tier A; a query does not get a goal record''))
      else if repo_url (g_subject g) = '''' then
        Inl (RefusedErr \<lparr>r_cause = NoSubject, r_detail = ''''\<rparr>)
      else if revision (g_subject g) = '''' then
        Inl (RefusedErr \<lparr>r_cause = NoSourceRevision, r_detail = repo_url (g_subject g)\<rparr>)
      else (case validate_ceilings (g_ceilings g) of
              Inl e \<Rightarrow> Inl (RefusedErr \<lparr>r_cause = UnboundedRequested, r_detail = snd e\<rparr>)
            | Inr _ \<Rightarrow>
                (case unknown_axis axes (g_axes g) of
                   Some a \<Rightarrow> Inl (RefusedErr \<lparr>r_cause = UnknownAxis, r_detail = a\<rparr>)
                 | None \<Rightarrow>
                     if g_criteria g = [] then
                       Inl (PlainErr (ErrNoCriteria,
                         ''goal: no completion criteria, so nothing can decide when it is done''))
                     else Inr (g\<lparr>g_state := GoalRunning, g_updated := now\<rparr>))))"

definition refuse :: "goal \<Rightarrow> refusal \<Rightarrow> time \<Rightarrow> goal" where
  "refuse g r now = g\<lparr>g_state := GoalRefused, g_refusal := Some r, g_updated := now\<rparr>"

section \<open>Completion\<close>

text \<open>
  The observations are a Go map from kinds to counts; an absent key reads as zero, so the map is a
  total function here.
\<close>

definition measure_criterion :: "(criterion_kind \<Rightarrow> int) \<Rightarrow> time \<Rightarrow> criterion \<Rightarrow> criterion" where
  "measure_criterion observed now c = c\<lparr>c_observed := observed (c_kind c),
     c_met := observed (c_kind c) \<ge> c_threshold c, c_measured_at := now\<rparr>"

fun measure_all :: "(criterion_kind \<Rightarrow> int) \<Rightarrow> time \<Rightarrow> criterion list \<Rightarrow> bool \<times> criterion list" where
  "measure_all observed now [] = (True, [])"
| "measure_all observed now (c # cs) =
     (let c' = measure_criterion observed now c; (all, cs') = measure_all observed now cs
      in (if \<not> c_met c' then False else all, c' # cs'))"

definition evaluate_completion :: "goal \<Rightarrow> (criterion_kind \<Rightarrow> int) \<Rightarrow> time \<Rightarrow> bool \<times> goal" where
  "evaluate_completion g observed now =
     (let (all, cs) = measure_all observed now (g_criteria g) in (all, g\<lparr>g_criteria := cs\<rparr>))"

section \<open>Life cycle\<close>

definition pause :: "goal \<Rightarrow> time \<Rightarrow> go_error + goal" where
  "pause g now =
     (if g_state g \<noteq> GoalRunning
      then Inl (illegal_state (''only a running goal can pause, this is '' @ goal_state_name (g_state g)))
      else Inr (g\<lparr>g_state := GoalPaused, g_updated := now\<rparr>))"

definition resume :: "goal \<Rightarrow> time \<Rightarrow> go_error + goal" where
  "resume g now =
     (if g_state g \<noteq> GoalPaused
      then Inl (illegal_state (''only a paused goal can resume, this is '' @ goal_state_name (g_state g)))
      else Inr (g\<lparr>g_state := GoalRunning, g_updated := now\<rparr>))"

definition cancel_goal :: "goal \<Rightarrow> time \<Rightarrow> go_error + goal" where
  "cancel_goal g now =
     (if goal_terminal (g_state g)
      then Inl (illegal_state (''this run is already '' @ goal_state_name (g_state g) @
             '', so there is nothing to stop''))
      else Inr (g\<lparr>g_state := GoalCancelled, g_updated := now\<rparr>))"

definition goal_claimable :: "goal \<Rightarrow> bool" where
  "goal_claimable g \<longleftrightarrow> g_state g = GoalRunning"

definition check_ceilings :: "goal \<Rightarrow> time \<Rightarrow> (string \<times> bool) \<times> goal" where
  "check_ceilings g now =
     (let (which, ex) = exceeded (g_spend g) (g_ceilings g)
      in if \<not> ex then (('''', False), g)
         else ((which, True),
               g\<lparr>g_state := GoalFailed,
                 g_refusal := Some \<lparr>r_cause = CeilingExceeded, r_detail = which\<rparr>, g_updated := now\<rparr>))"

section \<open>Facts\<close>

lemma unknown_axis_None: "unknown_axis valid as = None \<longleftrightarrow> set as \<subseteq> set valid"
  by (induction as) auto

lemma unknown_axis_Some: "unknown_axis valid as = Some a \<Longrightarrow> a \<in> set as \<and> a \<notin> set valid"
  by (induction as) (auto split: if_splits)

definition admissible :: "goal \<Rightarrow> bool" where
  "admissible g \<longleftrightarrow> g_state g = GoalDraft \<and> durable (g_intent g) \<and> repo_url (g_subject g) \<noteq> '''' \<and>
     revision (g_subject g) \<noteq> '''' \<and> bounded (g_ceilings g) \<and> set (g_axes g) \<subseteq> set axes \<and>
     g_criteria g \<noteq> []"

lemma admit_Inr:
  "admit g now = Inr g' \<longleftrightarrow> admissible g \<and> g' = g\<lparr>g_state := GoalRunning, g_updated := now\<rparr>"
  by (auto simp: admit_def admissible_def validate_ceilings_Inr [symmetric] unknown_axis_None [symmetric]
      split: sum.splits option.splits)

lemma measure_all_snd: "snd (measure_all observed now cs) = map (measure_criterion observed now) cs"
  by (induction cs) (auto simp: Let_def split: prod.splits)

lemma measure_all_fst:
  "fst (measure_all observed now cs) \<longleftrightarrow> (\<forall>c \<in> set cs. c_threshold c \<le> observed (c_kind c))"
  by (induction cs) (auto simp: Let_def measure_criterion_def split: prod.splits)

lemma check_ceilings_state:
  "g_state (snd (check_ceilings g now)) =
     (if within (g_spend g) (g_ceilings g) then g_state g else GoalFailed)"
  using exceeded_iff [of "g_spend g" "g_ceilings g"]
  by (auto simp: check_ceilings_def Let_def split: prod.splits)

end
