(* ===== verification/Task.thy ===== *)
theory Task
  imports Prelude
begin

text \<open>
  Package \<open>internal/task\<close>: the task record, the closed state machine with its transition
  table, and the graph of one goal.  \<open>DAG.Tasks\<close> is an association list from ids to tasks;
  the pointers of the Go map are never shared with a task under another id, so a task is a value
  and a write through the pointer is an update of its entry.  A lookup of an id that is not in the
  graph gives Go a nil task; reading its state is a panic, which is \<open>None\<close> here.
\<close>

section \<open>States and transitions\<close>

type_synonym task_id = string

datatype task_state =
  Pending | Ready | Running | AwaitingApproval | Succeeded | Failed | Blocked | Cancelled

fun state_name :: "task_state \<Rightarrow> string" where
  "state_name Pending = ''pending''"
| "state_name Ready = ''ready''"
| "state_name Running = ''running''"
| "state_name AwaitingApproval = ''awaiting_approval''"
| "state_name Succeeded = ''succeeded''"
| "state_name Failed = ''failed''"
| "state_name Blocked = ''blocked''"
| "state_name Cancelled = ''cancelled''"

fun terminal :: "task_state \<Rightarrow> bool" where
  "terminal Succeeded = True"
| "terminal Failed = True"
| "terminal Blocked = True"
| "terminal Cancelled = True"
| "terminal _ = False"

fun transitions :: "task_state \<Rightarrow> task_state list" where
  "transitions Pending = [Ready, Blocked, Cancelled]"
| "transitions Ready = [Running, Blocked, Cancelled]"
| "transitions Running = [Succeeded, Failed, AwaitingApproval, Ready, Cancelled]"
| "transitions AwaitingApproval = [Ready, Cancelled, Failed]"
| "transitions Succeeded = []"
| "transitions Failed = []"
| "transitions Blocked = []"
| "transitions Cancelled = []"

definition can_transition_to :: "task_state \<Rightarrow> task_state \<Rightarrow> bool" where
  "can_transition_to s next \<longleftrightarrow> next \<in> set (transitions s)"

section \<open>Tasks\<close>

record task =
  t_id :: task_id
  t_goal :: string
  t_kind :: string
  depends_on :: "task_id list"
  contributes :: "task_id list"
  t_state :: task_state
  attempt :: int
  spawn_depth :: int
  idempotency_key :: string
  approved :: bool
  t_result :: string
  t_failure :: string
  leased_by :: string
  lease_expiry :: time
  t_created :: time
  t_updated :: time

definition illegal_move :: "task_state \<Rightarrow> task_state \<Rightarrow> task_id \<Rightarrow> go_error" where
  "illegal_move s next i = (ErrIllegalMove, ''task: illegal state transition: '' @ state_name s @
     '' '' @ arrow_sign @ '' '' @ state_name next @ '' (task '' @ fmt_q i @ '')'')"

definition transition :: "task \<Rightarrow> task_state \<Rightarrow> time \<Rightarrow> go_error + task" where
  "transition t next now =
     (if \<not> can_transition_to (t_state t) next
      then Inl (illegal_move (t_state t) next (t_id t))
      else Inr (t\<lparr>t_state := next, t_updated := now\<rparr>))"

definition effect_bearing_kinds :: "string list" where
  "effect_bearing_kinds =
     [''open_pull_request'', ''write_source'', ''deliver_change'', ''publish_eval_set'']"

definition effect_bearing :: "string \<Rightarrow> bool" where
  "effect_bearing k \<longleftrightarrow> k \<in> set effect_bearing_kinds"

definition require_idempotency :: "task \<Rightarrow> go_error + unit" where
  "require_idempotency t =
     (if effect_bearing (t_kind t) \<and> idempotency_key t = ''''
      then Inl (ErrNoIdempotency, ''task: effect-bearing task has no idempotency key: kind '' @
                  fmt_q (t_kind t) @ '', task '' @ fmt_q (t_id t))
      else Inr ())"

definition edges :: "task \<Rightarrow> task_id list" where
  "edges t = (if contributes t = [] then depends_on t else depends_on t @ contributes t)"

lemma edges_alt: "edges t = depends_on t @ contributes t"
  by (simp add: edges_def)

section \<open>The graph\<close>

type_synonym tasks = "(task_id \<times> task) list"

record dag =
  dag_goal :: string
  dag_tasks :: tasks

definition ids :: "tasks \<Rightarrow> task_id list" where
  "ids ts = sorted_keys ts"

text \<open>The tasks in id order, as \<open>for _, id := range d.ids()\<close> visits them.\<close>

definition ordered_tasks :: "tasks \<Rightarrow> task list" where
  "ordered_tasks ts = sorted_values ts"

subsection \<open>Readiness\<close>

fun all_deps :: "(task_state \<Rightarrow> bool) \<Rightarrow> tasks \<Rightarrow> task_id list \<Rightarrow> bool option" where
  "all_deps P ts [] = Some True"
| "all_deps P ts (x # xs) =
     (case map_of ts x of
        None \<Rightarrow> None
      | Some d \<Rightarrow> if P (t_state d) then all_deps P ts xs else Some False)"

definition dependencies_succeeded :: "tasks \<Rightarrow> task \<Rightarrow> bool option" where
  "dependencies_succeeded ts t =
     (case all_deps (\<lambda>s. s = Succeeded) ts (depends_on t) of
        Some True \<Rightarrow> all_deps terminal ts (contributes t)
      | r \<Rightarrow> r)"

definition ready_set :: "tasks \<Rightarrow> task list option" where
  "ready_set ts = filter_opt
     (\<lambda>t. if t_state t \<noteq> Pending \<and> t_state t \<noteq> Ready then Some False
          else dependencies_succeeded ts t) (ordered_tasks ts)"

definition claim_candidate :: "time \<Rightarrow> tasks \<Rightarrow> task \<Rightarrow> bool option" where
  "claim_candidate now ts t =
     (case t_state t of
        Pending \<Rightarrow> dependencies_succeeded ts t
      | Ready \<Rightarrow> dependencies_succeeded ts t
      | Running \<Rightarrow> (if after_time (lease_expiry t) now then Some False
                    else dependencies_succeeded ts t)
      | _ \<Rightarrow> Some False)"

definition claimable_set :: "time \<Rightarrow> tasks \<Rightarrow> task list option" where
  "claimable_set now ts = filter_opt (claim_candidate now ts) (ordered_tasks ts)"

subsection \<open>Progress and stalls\<close>

text \<open>The two counters of the loop in \<open>Progress\<close>, in the map's iteration order.\<close>

fun progress :: "tasks \<Rightarrow> int \<times> int" where
  "progress [] = (0, 0)"
| "progress ((_, t) # ts) =
     (let (done, total) = progress ts
      in (if terminal (t_state t) then done + 1 else done, total + 1))"

fun stall_scan :: "bool \<Rightarrow> tasks \<Rightarrow> bool" where
  "stall_scan remaining [] = remaining"
| "stall_scan remaining ((_, t) # ts) =
     (if t_state t = Running \<or> t_state t = AwaitingApproval then False
      else stall_scan (remaining \<or> \<not> terminal (t_state t)) ts)"

definition stalled :: "tasks \<Rightarrow> bool option" where
  "stalled ts = map_option (\<lambda>r. if length r > 0 then False else stall_scan False ts) (ready_set ts)"

subsection \<open>Failure propagation\<close>

definition failed_dep :: "task_state \<Rightarrow> bool" where
  "failed_dep s \<longleftrightarrow> s = Failed \<or> s = Blocked \<or> s = Cancelled"

fun first_failed :: "tasks \<Rightarrow> task_id list \<Rightarrow> (task_id \<times> task_state) option option" where
  "first_failed ts [] = Some None"
| "first_failed ts (x # xs) =
     (case map_of ts x of
        None \<Rightarrow> None
      | Some d \<Rightarrow> if failed_dep (t_state d) then Some (Some (x, t_state d))
                  else first_failed ts xs)"

definition block_on :: "task \<Rightarrow> task_id \<Rightarrow> task_state \<Rightarrow> task" where
  "block_on t dep ds = t\<lparr>t_state := Blocked,
     t_failure := ''dependency '' @ fmt_q dep @ '' is '' @ state_name ds\<rparr>"

text \<open>One pass of the outer loop of \<open>PropagateFailure\<close> over the given ids.\<close>

fun block_pass :: "tasks \<Rightarrow> task_id list \<Rightarrow> (int \<times> tasks) option" where
  "block_pass ts [] = Some (0, ts)"
| "block_pass ts (i # is) =
     (case map_of ts i of
        None \<Rightarrow> None
      | Some t \<Rightarrow>
          if terminal (t_state t) then block_pass ts is
          else (case first_failed ts (depends_on t) of
                  None \<Rightarrow> None
                | Some None \<Rightarrow> block_pass ts is
                | Some (Some (dep, ds)) \<Rightarrow>
                    map_option (\<lambda>(n, ts'). (n + 1, ts'))
                      (block_pass (AList.update i (block_on t dep ds) ts) is)))"

definition open_count :: "tasks \<Rightarrow> nat" where
  "open_count ts = length (filter (\<lambda>(_, t). \<not> terminal (t_state t)) ts)"

lemma open_count_block_on:
  assumes "map_of ts i = Some t" "\<not> terminal (t_state t)"
  shows "open_count ts = Suc (open_count (AList.update i (block_on t dep ds) ts))"
  using filter_update_count [OF assms(1), of "\<lambda>t. \<not> terminal (t_state t)" "block_on t dep ds"] assms(2)
  by (simp add: open_count_def block_on_def)

lemma block_pass_count:
  "block_pass ts is = Some (n, ts') \<Longrightarrow> n \<ge> 0 \<and> int (open_count ts) = int (open_count ts') + n"
proof (induction ts "is" arbitrary: n ts' rule: block_pass.induct)
  case (1 ts)
  then show ?case by simp
next
  case (2 ts i "is")
  obtain t where t: "map_of ts i = Some t"
    using "2.prems" by (auto split: option.splits)
  show ?case
  proof (cases "terminal (t_state t)")
    case True
    then show ?thesis using "2.IH"(1) [OF t] "2.prems" t by simp
  next
    case False
    obtain r where r: "first_failed ts (depends_on t) = Some r"
      using "2.prems" t False by (auto split: option.splits)
    show ?thesis
    proof (cases r)
      case None
      then show ?thesis using "2.IH"(2) [OF t False] "2.prems" t False r by simp
    next
      case (Some p)
      obtain dep ds where p: "p = (dep, ds)" by (cases p)
      obtain m where m: "block_pass (AList.update i (block_on t dep ds) ts) is = Some (m, ts')"
          "n = m + 1"
        using "2.prems" t False r Some p by auto
      show ?thesis
        using "2.IH"(3) [OF t False r Some p [symmetric] m(1)] open_count_block_on [OF t False, of dep ds] m(2)
        by simp
    qed
  qed
qed

function propagate_failure :: "tasks \<Rightarrow> (int \<times> tasks) option" where
  "propagate_failure ts =
     (case block_pass ts (ids ts) of
        None \<Rightarrow> None
      | Some (n, ts') \<Rightarrow>
          if n = 0 then Some (0, ts')
          else map_option (\<lambda>(m, ts''). (n + m, ts'')) (propagate_failure ts'))"
  by pat_completeness auto
termination
  by (relation "measure open_count") (auto dest: block_pass_count)

declare propagate_failure.simps [simp del]

section \<open>Building a graph\<close>

text \<open>The three-colour depth-first search of \<open>detectCycle\<close>.  The colour map's absent key is white.\<close>

datatype colour = White | Grey | Black

datatype dfs_result = NoCycle "task_id \<Rightarrow> colour" | CycleAt task_id task_id | DfsPanic

fun scan_deps :: "(task_id \<Rightarrow> colour) \<Rightarrow> task_id list \<Rightarrow> task_id list \<Rightarrow> task_id + task_id list" where
  "scan_deps c [] stack = Inr stack"
| "scan_deps c (dep # deps) stack =
     (case c dep of
        Grey \<Rightarrow> Inl dep
      | White \<Rightarrow> scan_deps c deps (dep # stack)
      | Black \<Rightarrow> scan_deps c deps stack)"

definition white_count :: "tasks \<Rightarrow> (task_id \<Rightarrow> colour) \<Rightarrow> nat" where
  "white_count ts c = card {i \<in> fst ` set ts. c i = White}"

lemma white_count_grey:
  assumes "map_of ts cur = Some t" "c cur = White"
  shows "white_count ts (c(cur := Grey)) < white_count ts c"
  unfolding white_count_def
proof (rule psubset_card_mono)
  have "cur \<in> {i \<in> fst ` set ts. c i = White}"
    using assms by (force dest: map_of_SomeD)
  moreover have "cur \<notin> {i \<in> fst ` set ts. (c(cur := Grey)) i = White}" by simp
  moreover have "{i \<in> fst ` set ts. (c(cur := Grey)) i = White} \<subseteq> {i \<in> fst ` set ts. c i = White}"
    by auto
  ultimately show "{i \<in> fst ` set ts. (c(cur := Grey)) i = White} \<subset> {i \<in> fst ` set ts. c i = White}"
    by blast
qed simp

lemma white_count_black:
  assumes "c cur = Grey"
  shows "white_count ts (c(cur := Black)) = white_count ts c"
proof -
  have "{i \<in> fst ` set ts. (c(cur := Black)) i = White} = {i \<in> fst ` set ts. c i = White}"
    using assms by auto
  then show ?thesis by (simp add: white_count_def)
qed

text \<open>The inner loop: the stack's top is the list's head.\<close>

function dfs_loop :: "tasks \<Rightarrow> (task_id \<Rightarrow> colour) \<Rightarrow> task_id list \<Rightarrow> dfs_result" where
  "dfs_loop ts c [] = NoCycle c"
| "dfs_loop ts c (cur # rest) =
     (case c cur of
        White \<Rightarrow>
          (case map_of ts cur of
             None \<Rightarrow> DfsPanic
           | Some t \<Rightarrow>
               (case scan_deps (c(cur := Grey)) (edges t) (cur # rest) of
                  Inl dep \<Rightarrow> CycleAt cur dep
                | Inr stack \<Rightarrow> dfs_loop ts (c(cur := Grey)) stack))
      | Grey \<Rightarrow> dfs_loop ts (c(cur := Black)) rest
      | Black \<Rightarrow> dfs_loop ts c rest)"
  by pat_completeness auto
termination
  by (relation "measures [\<lambda>(ts, c, stack). white_count ts c, \<lambda>(ts, c, stack). length stack]")
     (auto simp: white_count_grey white_count_black)

fun dfs_roots :: "tasks \<Rightarrow> (task_id \<Rightarrow> colour) \<Rightarrow> task_id list \<Rightarrow> dfs_result" where
  "dfs_roots ts c [] = NoCycle c"
| "dfs_roots ts c (i # is) =
     (if c i \<noteq> White then dfs_roots ts c is
      else (case dfs_loop ts c [i] of
              NoCycle c' \<Rightarrow> dfs_roots ts c' is
            | r \<Rightarrow> r))"

definition detect_cycle :: "tasks \<Rightarrow> go_error + unit" where
  "detect_cycle ts =
     (case dfs_roots ts (\<lambda>_. White) (ids ts) of
        NoCycle _ \<Rightarrow> Inr ()
      | CycleAt cur dep \<Rightarrow> Inl (ErrCycle, ''task: dependencies form a cycle: '' @ fmt_q cur @
                             '' '' @ both_arrow_sign @ '' '' @ fmt_q dep)
      | DfsPanic \<Rightarrow> Inl nil_deref)"

fun index_tasks :: "tasks \<Rightarrow> task list \<Rightarrow> go_error + tasks" where
  "index_tasks m [] = Inr m"
| "index_tasks m (t # ts) =
     (case map_of m (t_id t) of
        Some _ \<Rightarrow> Inl (Opaque, ''task: '' @ fmt_q (t_id t) @ '' appears twice'')
      | None \<Rightarrow> index_tasks (AList.update (t_id t) t m) ts)"

fun check_refs :: "tasks \<Rightarrow> task_id \<Rightarrow> task_id list \<Rightarrow> go_error + unit" where
  "check_refs m i [] = Inr ()"
| "check_refs m i (dep # deps) =
     (case map_of m dep of
        None \<Rightarrow> Inl (ErrUnknownTask, ''task: dependency names a task that is not in the DAG: '' @
                       fmt_q i @ '' depends on '' @ fmt_q dep)
      | Some _ \<Rightarrow> check_refs m i deps)"

fun check_all_refs :: "tasks \<Rightarrow> task list \<Rightarrow> go_error + unit" where
  "check_all_refs m [] = Inr ()"
| "check_all_refs m (t # ts) =
     (case check_refs m (t_id t) (depends_on t @ contributes t) of
        Inl e \<Rightarrow> Inl e
      | Inr _ \<Rightarrow> check_all_refs m ts)"

definition new_dag :: "string \<Rightarrow> task list \<Rightarrow> go_error + dag" where
  "new_dag g ts =
     (case index_tasks [] ts of
        Inl e \<Rightarrow> Inl e
      | Inr m \<Rightarrow>
          (case check_all_refs m ts of
             Inl e \<Rightarrow> Inl e
           | Inr _ \<Rightarrow>
               (case detect_cycle m of
                  Inl e \<Rightarrow> Inl e
                | Inr _ \<Rightarrow> Inr \<lparr>dag_goal = g, dag_tasks = m\<rparr>)))"

end
