(* ===== verification/Autonomy.thy ===== *)
theory Autonomy
  imports Goal Task
begin

text \<open>
  Package \<open>internal/autonomy\<close> and the default approval policy of \<open>internal/worker\<close>: when an effect
  waits for a person.  The organization's setting comes from the identity store, a parameter here
  that returns a level or an error.
\<close>

section \<open>The interface the worker declares\<close>

locale approval_policy =
  fixes needs :: "goal \<Rightarrow> task \<Rightarrow> bool \<times> string"
  assumes effects_only: "\<not> effect_bearing (t_kind t) \<Longrightarrow> needs g t = (False, '''')"
    and says_why: "needs g t = (True, why) \<Longrightarrow> why \<noteq> ''''"
begin

lemma gated_effect: "fst (needs g t) \<Longrightarrow> effect_bearing (t_kind t)"
  using effects_only [of t g] by (cases "effect_bearing (t_kind t)") auto

lemma gated_why: "fst (needs g t) \<Longrightarrow> snd (needs g t) \<noteq> ''''"
  using says_why [of g t "snd (needs g t)"] by (cases "needs g t") auto

end

section \<open>The default policy\<close>

definition gate_effects :: "goal \<Rightarrow> task \<Rightarrow> bool \<times> string" where
  "gate_effects g t =
     (if effect_bearing (t_kind t)
      then (True, fmt_q (t_kind t) @ '' changes something outside the platform'')
      else (False, ''''))"

interpretation default_policy: approval_policy gate_effects
  by unfold_locales (auto simp: gate_effects_def fmt_q_def split: if_splits)

section \<open>Levels and classes\<close>

definition Supervised :: string where "Supervised = ''supervised''"
definition Assisted :: string where "Assisted = ''assisted''"
definition Autonomous :: string where "Autonomous = ''autonomous''"

lemmas level_defs = Supervised_def Assisted_def Autonomous_def

definition levels :: "string list" where
  "levels = [Supervised, Assisted, Autonomous]"

datatype effect_class = Workspace | Publish

fun class_name :: "effect_class \<Rightarrow> string" where
  "class_name Workspace = ''workspace''"
| "class_name Publish = ''publish''"

definition class_of_table :: "(string \<times> effect_class) list" where
  "class_of_table =
     [(''write_source'', Workspace), (''publish_eval_set'', Workspace),
      (''open_pull_request'', Publish), (''deliver_change'', Publish)]"

definition class_of :: "string \<Rightarrow> effect_class option" where
  "class_of kind = map_of class_of_table kind"

definition may_proceed_table :: "(string \<times> (effect_class \<times> bool) list) list" where
  "may_proceed_table =
     [(Supervised, [(Workspace, False), (Publish, False)]),
      (Assisted, [(Workspace, True), (Publish, False)]),
      (Autonomous, [(Workspace, True), (Publish, True)])]"

definition valid_level :: "string \<Rightarrow> bool" where
  "valid_level s \<longleftrightarrow> map_of may_proceed_table s \<noteq> None"

definition may_proceed :: "string \<Rightarrow> effect_class \<Rightarrow> bool" where
  "may_proceed l c =
     (case map_of may_proceed_table l of
        None \<Rightarrow> False
      | Some by_class \<Rightarrow> (case map_of by_class c of None \<Rightarrow> False | Some b \<Rightarrow> b))"

definition describe_level :: "string \<Rightarrow> string" where
  "describe_level l =
     (if l = Supervised then ''every change waits for a person, including edits inside the workspace''
      else if l = Assisted then ''edits inside the workspace go ahead; anything reaching your repository waits''
      else if l = Autonomous then
        ''nothing waits for a person '' @ em_dash @ '' runs are bounded only by their ceilings''
      else ''unknown, so nothing proceeds without a person'')"

section \<open>The policy\<close>

definition policy_needs :: "(string \<Rightarrow> go_error + string) option \<Rightarrow> goal \<Rightarrow> task \<Rightarrow> bool \<times> string" where
  "policy_needs src g t =
     (let k = fmt_q (t_kind t) in
      if \<not> effect_bearing (t_kind t) then (False, '''')
      else (case class_of (t_kind t) of
              None \<Rightarrow> (True, k @ '' changes something outside the platform and this build has no '' @
                         ''autonomy class for it, so it waits for a person'')
            | Some class \<Rightarrow>
                (case src of
                   None \<Rightarrow> (True, k @ '' waits for a person: no autonomy setting is wired'')
                 | Some autonomy_for \<Rightarrow>
                     (case autonomy_for (g_tenant g) of
                        Inl err \<Rightarrow> (True, k @ '' waits for a person: this organization'' @ [CHR 0x27] @
                          ''s autonomy setting could not be read ('' @ snd err @ '')'')
                      | Inr level \<Rightarrow>
                          if \<not> may_proceed level class then
                            (True, k @ '' is a '' @ class_name class @ '' change, and this organization is set to '' @
                               level @ '' '' @ em_dash @ '' '' @ describe_level level)
                          else (False, k @ '' is a '' @ class_name class @
                            '' change and this organization is set to '' @ level @
                            '', so it proceeded without asking anybody'')))))"

interpretation autonomy_policy: approval_policy "policy_needs src" for src
  by unfold_locales
     (auto simp: policy_needs_def fmt_q_def Let_def split: option.splits sum.splits if_splits)

section \<open>Facts\<close>

lemma every_effect_has_class: "effect_bearing k \<Longrightarrow> class_of k \<noteq> None"
  by (auto simp: effect_bearing_def effect_bearing_kinds_def class_of_def class_of_table_def)

lemma valid_level_iff: "valid_level s \<longleftrightarrow> s \<in> set levels"
  by (auto simp: valid_level_def may_proceed_table_def levels_def)

lemma may_proceed_iff:
  "may_proceed l c \<longleftrightarrow> l = Autonomous \<or> l = Assisted \<and> c = Workspace"
  by (cases c) (auto simp: may_proceed_def may_proceed_table_def level_defs)

lemma policy_passes:
  "\<not> fst (policy_needs src g t) \<longleftrightarrow> \<not> effect_bearing (t_kind t) \<or>
     (\<exists>f l c. src = Some f \<and> f (g_tenant g) = Inr l \<and> class_of (t_kind t) = Some c \<and> may_proceed l c)"
  by (auto simp: policy_needs_def Let_def split: option.splits sum.splits if_splits)

end
