(* ===== verification/Task_Cycle.thy ===== *)
theory Task_Cycle
  imports Task
begin

text \<open>
  Correctness of the three-colour search of \<open>detectCycle\<close>: on a graph whose references are
  all present it never panics, reports an edge that lies on a cycle when it reports one, and
  reports none exactly when the dependency relation is acyclic.  The invariant says what the
  stack and the colours mean: a grey task is on the stack, what it depends on is black or above
  it, and everything above it is reachable from it; the black tasks are closed under dependencies
  and acyclic.
\<close>

section \<open>The dependency relation\<close>

definition dep_rel :: "tasks \<Rightarrow> (task_id \<times> task_id) set" where
  "dep_rel ts = {(x, y). \<exists>t. map_of ts x = Some t \<and> y \<in> set (edges t)}"

definition refs_closed :: "tasks \<Rightarrow> bool" where
  "refs_closed ts \<longleftrightarrow> (\<forall>(i, t) \<in> set ts. \<forall>y \<in> set (edges t). y \<in> fst ` set ts)"

lemma refs_closed_key:
  "refs_closed ts \<Longrightarrow> map_of ts x = Some t \<Longrightarrow> y \<in> set (edges t) \<Longrightarrow> y \<in> fst ` set ts"
  by (force simp: refs_closed_def dest: map_of_SomeD)

lemma refs_closed_lookup:
  assumes "refs_closed ts" "map_of ts x = Some t" "y \<in> set (edges t)"
  shows "\<exists>d. map_of ts y = Some d"
  using assms by (force simp: refs_closed_def dest: map_of_SomeD intro: key_map_of_Some)

lemma dep_relI: "map_of ts x = Some t \<Longrightarrow> y \<in> set (edges t) \<Longrightarrow> (x, y) \<in> dep_rel ts"
  by (auto simp: dep_rel_def)

lemma dep_rel_Some [simp]: "map_of ts x = Some t \<Longrightarrow> (x, y) \<in> dep_rel ts \<longleftrightarrow> y \<in> set (edges t)"
  by (auto simp: dep_rel_def)

lemma finite_dep_rel: "finite (dep_rel ts)"
proof (rule finite_subset)
  show "dep_rel ts \<subseteq> (\<Union>(i, t) \<in> set ts. {i} \<times> set (edges t))"
    by (auto simp: dep_rel_def dest!: map_of_SomeD)
qed auto

section \<open>The invariant\<close>

definition dfs_inv :: "tasks \<Rightarrow> (task_id \<Rightarrow> colour) \<Rightarrow> task_id list \<Rightarrow> bool" where
  "dfs_inv ts c st \<longleftrightarrow>
     (\<forall>us g vs y. st = us @ g # vs \<longrightarrow> c g = Grey \<longrightarrow> (g, y) \<in> dep_rel ts \<longrightarrow> c y = Black \<or> y \<in> set us) \<and>
     (\<forall>g. c g = Grey \<longrightarrow> g \<in> set st) \<and>
     (\<forall>us g vs. st = us @ g # vs \<longrightarrow> g \<notin> set us \<longrightarrow> c g = Grey \<longrightarrow> (\<forall>u \<in> set us. (g, u) \<in> (dep_rel ts)\<^sup>+)) \<and>
     (\<forall>x y. c x = Black \<longrightarrow> (x, y) \<in> dep_rel ts \<longrightarrow> c y = Black) \<and>
     acyclic {(x, y) \<in> dep_rel ts. c x = Black}"

lemma dfs_inv_succ: "dfs_inv ts c (us @ g # vs) \<Longrightarrow> c g = Grey \<Longrightarrow> (g, y) \<in> dep_rel ts \<Longrightarrow>
    c y = Black \<or> y \<in> set us"
  unfolding dfs_inv_def by blast

lemma dfs_inv_grey: "dfs_inv ts c st \<Longrightarrow> c g = Grey \<Longrightarrow> g \<in> set st"
  unfolding dfs_inv_def by blast

lemma dfs_inv_above: "dfs_inv ts c (us @ g # vs) \<Longrightarrow> g \<notin> set us \<Longrightarrow> c g = Grey \<Longrightarrow> u \<in> set us \<Longrightarrow>
    (g, u) \<in> (dep_rel ts)\<^sup>+"
  unfolding dfs_inv_def by blast

lemma dfs_inv_black: "dfs_inv ts c st \<Longrightarrow> c x = Black \<Longrightarrow> (x, y) \<in> dep_rel ts \<Longrightarrow> c y = Black"
  unfolding dfs_inv_def by blast

lemma dfs_inv_acyclic: "dfs_inv ts c st \<Longrightarrow> acyclic {(x, y) \<in> dep_rel ts. c x = Black}"
  unfolding dfs_inv_def by blast

lemma dfs_invI:
  assumes "\<And>us g vs y. st = us @ g # vs \<Longrightarrow> c g = Grey \<Longrightarrow> (g, y) \<in> dep_rel ts \<Longrightarrow> c y = Black \<or> y \<in> set us"
    and "\<And>g. c g = Grey \<Longrightarrow> g \<in> set st"
    and "\<And>us g vs u. st = us @ g # vs \<Longrightarrow> g \<notin> set us \<Longrightarrow> c g = Grey \<Longrightarrow> u \<in> set us \<Longrightarrow> (g, u) \<in> (dep_rel ts)\<^sup>+"
    and "\<And>x y. c x = Black \<Longrightarrow> (x, y) \<in> dep_rel ts \<Longrightarrow> c y = Black"
    and "acyclic {(x, y) \<in> dep_rel ts. c x = Black}"
  shows "dfs_inv ts c st"
  unfolding dfs_inv_def using assms by blast

subsection \<open>Scanning the dependencies of one task\<close>

lemma scan_deps_Inl: "scan_deps c deps st = Inl dep \<Longrightarrow> dep \<in> set deps \<and> c dep = Grey"
  by (induction c deps st rule: scan_deps.induct) (auto split: colour.splits)

lemma scan_deps_Inr:
  "scan_deps c deps st = Inr st' \<Longrightarrow>
     (\<exists>p. st' = p @ st \<and> set p = {d \<in> set deps. c d = White}) \<and> (\<forall>d \<in> set deps. c d \<noteq> Grey)"
proof (induction c deps st rule: scan_deps.induct)
  case (2 c dep deps stack)
  then show ?case
  proof (cases "c dep")
    case White
    with "2.prems" have "scan_deps c deps (dep # stack) = Inr st'" by simp
    from "2.IH"(1) [OF White this] obtain p where
      "st' = p @ dep # stack" "set p = {d \<in> set deps. c d = White}" "\<forall>d \<in> set deps. c d \<noteq> Grey"
      by blast
    with White show ?thesis by (intro conjI exI [of _ "p @ [dep]"]) auto
  qed auto
qed simp

subsection \<open>One step of the loop\<close>

lemma dfs_inv_pop_black:
  assumes "dfs_inv ts c (cur # rest)" "c cur = Black"
  shows "dfs_inv ts c rest"
proof (rule dfs_invI)
  fix us g vs y
  assume "rest = us @ g # vs" "c g = Grey" "(g, y) \<in> dep_rel ts"
  with dfs_inv_succ [of ts c "cur # us" g vs y] assms show "c y = Black \<or> y \<in> set us" by auto
next
  fix g assume "c g = Grey"
  with dfs_inv_grey [OF assms(1)] assms(2) show "g \<in> set rest" by force
next
  fix us g vs u
  assume "rest = us @ g # vs" "g \<notin> set us" "c g = Grey" "u \<in> set us"
  with dfs_inv_above [of ts c "cur # us" g vs u] assms show "(g, u) \<in> (dep_rel ts)\<^sup>+"
    by (cases "g = cur") auto
qed (use assms dfs_inv_black dfs_inv_acyclic in blast)+

lemma acyclic_add_black:
  assumes inv: "dfs_inv ts c st" and "c cur \<noteq> Black"
    and succ: "\<And>y. (cur, y) \<in> dep_rel ts \<Longrightarrow> c y = Black"
  shows "acyclic {(x, y) \<in> dep_rel ts. (c(cur := Black)) x = Black}" (is "acyclic ?S")
proof (rule acyclicI, rule allI, rule notI)
  let ?R = "{(x, y) \<in> dep_rel ts. c x = Black}"
  have stay: "c v = Black \<and> (w, v) \<in> ?R\<^sup>+" if "(w, v) \<in> ?S\<^sup>+" "c w = Black" for w v
    using that
  proof (induction rule: trancl_induct)
    case (base v)
    then show ?case using dfs_inv_black [OF inv] by auto
  next
    case (step v z)
    then have "c v = Black" "(w, v) \<in> ?R\<^sup>+" by auto
    moreover have "(v, z) \<in> ?R" using step \<open>c v = Black\<close> by auto
    ultimately show ?case using dfs_inv_black [OF inv] by (auto intro: trancl_into_trancl)
  qed
  fix x assume x: "(x, x) \<in> ?S\<^sup>+"
  show False
  proof (cases "c x = Black")
    case True
    with stay x have "(x, x) \<in> ?R\<^sup>+" by blast
    with dfs_inv_acyclic [OF inv] show False by (auto simp: acyclic_def)
  next
    case False
    from x obtain y where y: "(x, y) \<in> ?S" "y = x \<or> (y, x) \<in> ?S\<^sup>+"
      by (meson converse_tranclE)
    from y(1) False have "x = cur" by (auto split: if_splits)
    with y(1) succ have "c y = Black" by auto
    with y(2) stay \<open>x = cur\<close> assms(2) show False by blast
  qed
qed

lemma dfs_inv_finish:
  assumes inv: "dfs_inv ts c (cur # rest)" and grey: "c cur = Grey"
  shows "dfs_inv ts (c(cur := Black)) rest"
proof (rule dfs_invI)
  have succ: "c y = Black" if "(cur, y) \<in> dep_rel ts" for y
    using dfs_inv_succ [of ts c "[]" cur rest y] inv grey that by simp
  then show "acyclic {(x, y) \<in> dep_rel ts. (c(cur := Black)) x = Black}"
    using acyclic_add_black [OF inv] grey by simp
  show "(c(cur := Black)) y = Black" if "(c(cur := Black)) x = Black" "(x, y) \<in> dep_rel ts" for x y
    using that succ dfs_inv_black [OF inv] by (auto split: if_splits)
  fix us g vs y
  assume "rest = us @ g # vs" "(c(cur := Black)) g = Grey" "(g, y) \<in> dep_rel ts"
  with dfs_inv_succ [of ts c "cur # us" g vs y] inv
  show "(c(cur := Black)) y = Black \<or> y \<in> set us" by (auto split: if_splits)
next
  fix g assume "(c(cur := Black)) g = Grey"
  with dfs_inv_grey [OF inv] show "g \<in> set rest" by (auto split: if_splits)
next
  fix us g vs u
  assume "rest = us @ g # vs" "g \<notin> set us" "(c(cur := Black)) g = Grey" "u \<in> set us"
  with dfs_inv_above [of ts c "cur # us" g vs u] inv
  show "(g, u) \<in> (dep_rel ts)\<^sup>+" by (auto split: if_splits)
qed

lemma dfs_inv_expand:
  assumes inv: "dfs_inv ts c (cur # rest)" and white: "c cur = White"
    and t: "map_of ts cur = Some t"
    and p: "set p = {d \<in> set (edges t). (c(cur := Grey)) d = White}"
    and no_grey: "\<forall>d \<in> set (edges t). (c(cur := Grey)) d \<noteq> Grey"
  shows "dfs_inv ts (c(cur := Grey)) (p @ cur # rest)"
proof (rule dfs_invI)
  let ?c = "c(cur := Grey)"
  have black_iff: "?c x = Black \<longleftrightarrow> c x = Black" for x using white by auto
  show "acyclic {(x, y) \<in> dep_rel ts. ?c x = Black}"
    unfolding black_iff by (rule dfs_inv_acyclic [OF inv])
  show "?c y = Black" if "?c x = Black" "(x, y) \<in> dep_rel ts" for x y
    using that unfolding black_iff by (rule dfs_inv_black [OF inv])
  have succ_cur: "?c y = Black \<or> y \<in> set p" if "(cur, y) \<in> dep_rel ts" for y
    using that t p no_grey by (cases "?c y") auto
  have p_white: "?c g \<noteq> Grey" if "g \<in> set p" for g using that p by simp
  fix us g vs
  assume split: "p @ cur # rest = us @ g # vs" and g: "?c g = Grey"
  have *: "(\<exists>ws. us = p @ ws \<and> cur # rest = ws @ g # vs)"
  proof -
    from split consider ws where "us = p @ ws" "cur # rest = ws @ g # vs"
      | ws where "p = us @ ws" "g # vs = ws @ cur # rest"
      by (auto simp: append_eq_append_conv2)
    then show ?thesis
    proof cases
      case 2
      with p_white g show ?thesis by (cases ws) auto
    qed blast
  qed
  then obtain ws where ws: "us = p @ ws" "cur # rest = ws @ g # vs" by blast
  {
    fix y assume y: "(g, y) \<in> dep_rel ts"
    show "?c y = Black \<or> y \<in> set us"
    proof (cases "g = cur")
      case True
      with succ_cur [of y] y ws show ?thesis by auto
    next
      case False
      with g have "c g = Grey" by simp
      with dfs_inv_succ [of ts c ws g vs y] inv ws y black_iff show ?thesis by auto
    qed
  next
    fix u assume "g \<notin> set us" and u: "u \<in> set us"
    show "(g, u) \<in> (dep_rel ts)\<^sup>+"
    proof (cases "g = cur")
      case True
      with \<open>g \<notin> set us\<close> ws have "ws = []" by (cases ws) auto
      with u ws True p t show ?thesis by (auto intro: dep_relI)
    next
      case False
      with g have grey: "c g = Grey" by simp
      have in_ws: "(g, w) \<in> (dep_rel ts)\<^sup>+" if "w \<in> set ws" for w
        using dfs_inv_above [of ts c ws g vs w] inv ws grey \<open>g \<notin> set us\<close> that by auto
      have "cur \<in> set ws" using ws(2) False by (cases ws) auto
      with in_ws have "(g, cur) \<in> (dep_rel ts)\<^sup>+" by blast
      with u ws p t in_ws show ?thesis by (auto intro: trancl_into_trancl dep_relI)
    qed
  }
next
  fix g assume "(c(cur := Grey)) g = Grey"
  with dfs_inv_grey [OF inv] show "g \<in> set (p @ cur # rest)" by (auto split: if_splits)
qed

section \<open>The loops\<close>

lemma cycle_found:
  assumes inv: "dfs_inv ts c (cur # rest)" and t: "map_of ts cur = Some t"
    and dep: "dep \<in> set (edges t)" "(c(cur := Grey)) dep = Grey"
  shows "(cur, dep) \<in> dep_rel ts \<and> (dep, cur) \<in> (dep_rel ts)\<^sup>*"
proof (cases "dep = cur")
  case True
  with t dep show ?thesis by (auto intro: dep_relI)
next
  case False
  with dep have grey: "c dep = Grey" by simp
  with dfs_inv_grey [OF inv] False have "dep \<in> set (cur # rest)" by blast
  then obtain us vs where us: "cur # rest = us @ dep # vs" "dep \<notin> set us"
    by (meson split_list_first)
  with False have "cur \<in> set us" by (cases us) auto
  with dfs_inv_above [of ts c us dep vs cur] inv us grey have "(dep, cur) \<in> (dep_rel ts)\<^sup>+" by auto
  with t dep show ?thesis by (auto intro: dep_relI)
qed

definition dfs_post :: "tasks \<Rightarrow> (task_id \<Rightarrow> colour) \<Rightarrow> task_id list \<Rightarrow> dfs_result \<Rightarrow> bool" where
  "dfs_post ts c st r =
     (case r of
        NoCycle c' \<Rightarrow> dfs_inv ts c' [] \<and> (\<forall>i. i \<in> set st \<or> c i = Black \<longrightarrow> c' i = Black)
      | CycleAt a b \<Rightarrow> (a, b) \<in> dep_rel ts \<and> (b, a) \<in> (dep_rel ts)\<^sup>*
      | DfsPanic \<Rightarrow> \<not> (refs_closed ts \<and> set st \<subseteq> fst ` set ts))"

lemma dfs_post_weaken:
  assumes "dfs_post ts c st r" "\<And>i. i \<in> set st' \<or> c' i = Black \<Longrightarrow> i \<in> set st \<or> c i = Black"
    and "refs_closed ts \<Longrightarrow> set st' \<subseteq> fst ` set ts \<Longrightarrow> set st \<subseteq> fst ` set ts"
  shows "dfs_post ts c' st' r"
  using assms by (auto simp: dfs_post_def split: dfs_result.splits)

lemma dfs_loop_correct: "dfs_inv ts c st \<Longrightarrow> dfs_post ts c st (dfs_loop ts c st)"
proof (induction ts c st rule: dfs_loop.induct)
  case (1 ts c)
  then show ?case by (simp add: dfs_post_def)
next
  case (2 ts c cur rest)
  show ?case
  proof (cases "c cur")
    case White
    show ?thesis
    proof (cases "map_of ts cur")
      case None
      then have "cur \<notin> fst ` set ts" by (simp add: map_of_eq_None_iff)
      with White None show ?thesis by (auto simp: dfs_post_def)
    next
      case (Some t)
      show ?thesis
      proof (cases "scan_deps (c(cur := Grey)) (edges t) (cur # rest)")
        case (Inl dep)
        with White Some cycle_found [OF "2.prems" Some] scan_deps_Inl [OF Inl] show ?thesis
          by (simp add: dfs_post_def)
      next
        case (Inr st')
        from scan_deps_Inr [OF Inr] obtain p where
          p: "st' = p @ cur # rest" "set p = {d \<in> set (edges t). (c(cur := Grey)) d = White}"
          and ng: "\<forall>d \<in> set (edges t). (c(cur := Grey)) d \<noteq> Grey" by blast
        have "dfs_post ts (c(cur := Grey)) st' (dfs_loop ts (c(cur := Grey)) st')"
        proof (rule "2.IH"(1) [OF White Some Inr])
          show "dfs_inv ts (c(cur := Grey)) st'"
            unfolding p(1) by (rule dfs_inv_expand [OF "2.prems" White Some p(2) ng])
        qed
        then have "dfs_post ts c (cur # rest) (dfs_loop ts (c(cur := Grey)) st')"
        proof (rule dfs_post_weaken)
          assume "refs_closed ts" "set (cur # rest) \<subseteq> fst ` set ts"
          then show "set st' \<subseteq> fst ` set ts"
            using p refs_closed_key [OF _ Some] by auto
        qed (use p White in auto)
        with White Some Inr show ?thesis by simp
      qed
    qed
  next
    case Grey
    have "dfs_post ts (c(cur := Black)) rest (dfs_loop ts (c(cur := Black)) rest)"
      by (rule "2.IH"(2) [OF Grey dfs_inv_finish [OF "2.prems" Grey]])
    then have "dfs_post ts c (cur # rest) (dfs_loop ts (c(cur := Black)) rest)"
      by (rule dfs_post_weaken) auto
    with Grey show ?thesis by simp
  next
    case Black
    have "dfs_post ts c rest (dfs_loop ts c rest)"
      using "2.IH"(3) [OF Black] dfs_inv_pop_black [OF "2.prems" Black] by simp
    then have "dfs_post ts c (cur # rest) (dfs_loop ts c rest)"
      by (rule dfs_post_weaken) (use Black in auto)
    with Black show ?thesis by simp
  qed
qed

lemma dfs_inv_empty_no_grey: "dfs_inv ts c [] \<Longrightarrow> c i \<noteq> Grey"
  using dfs_inv_grey by fastforce

lemma dfs_inv_root: "dfs_inv ts c [] \<Longrightarrow> c i = White \<Longrightarrow> dfs_inv ts c [i]"
  by (rule dfs_invI)
     (auto dest: dfs_inv_empty_no_grey dfs_inv_black dfs_inv_acyclic simp: Cons_eq_append_conv)

lemma dfs_roots_correct: "dfs_inv ts c [] \<Longrightarrow> dfs_post ts c roots (dfs_roots ts c roots)"
proof (induction ts c roots rule: dfs_roots.induct)
  case (1 ts c)
  then show ?case by (simp add: dfs_post_def)
next
  case (2 ts c i "is")
  show ?case
  proof (cases "c i = White")
    case False
    with dfs_inv_empty_no_grey [OF "2.prems"] have "c i = Black" by (metis colour.exhaust)
    have "dfs_post ts c is (dfs_roots ts c is)" using "2.IH"(1) False "2.prems" by simp
    then have "dfs_post ts c (i # is) (dfs_roots ts c is)"
      by (rule dfs_post_weaken) (use \<open>c i = Black\<close> in auto)
    with False show ?thesis by simp
  next
    case True
    have loop: "dfs_post ts c [i] (dfs_loop ts c [i])"
      by (rule dfs_loop_correct) (rule dfs_inv_root [OF "2.prems" True])
    show ?thesis
    proof (cases "dfs_loop ts c [i]")
      case (NoCycle c')
      with loop have c': "dfs_inv ts c' []" "c' i = Black" "\<And>j. c j = Black \<Longrightarrow> c' j = Black"
        by (auto simp: dfs_post_def)
      have "dfs_post ts c' is (dfs_roots ts c' is)"
        using "2.IH"(2) True NoCycle c'(1) by simp
      then have "dfs_post ts c (i # is) (dfs_roots ts c' is)"
        by (rule dfs_post_weaken) (use c' in auto)
      with True NoCycle show ?thesis by simp
    qed (use loop True in \<open>auto simp: dfs_post_def\<close>)
  qed
qed

lemma dfs_inv_start: "dfs_inv ts (\<lambda>_. White) []"
  by (rule dfs_invI) (auto simp: acyclic_def)

lemma search_correct: "dfs_post ts (\<lambda>_. White) (ids ts) (dfs_roots ts (\<lambda>_. White) (ids ts))"
  by (rule dfs_roots_correct [OF dfs_inv_start])

lemma no_cycle_acyclic:
  assumes "dfs_roots ts (\<lambda>_. White) (ids ts) = NoCycle c'"
  shows "acyclic (dep_rel ts)"
proof -
  from search_correct [of ts] assms have "dfs_inv ts c' []" "\<forall>i \<in> set (ids ts). c' i = Black"
    by (auto simp: dfs_post_def)
  moreover have "x \<in> set (ids ts)" if "(x, y) \<in> dep_rel ts" for x y
    using that by (force simp: ids_def dep_rel_def dest: map_of_SomeD)
  ultimately have "{(x, y) \<in> dep_rel ts. c' x = Black} = dep_rel ts" by blast
  then show ?thesis using dfs_inv_acyclic [OF \<open>dfs_inv ts c' []\<close>] by simp
qed

lemma detect_cycle_acyclic:
  assumes "refs_closed ts"
  shows "detect_cycle ts = Inr () \<longleftrightarrow> acyclic (dep_rel ts)"
proof (cases "dfs_roots ts (\<lambda>_. White) (ids ts)")
  case (NoCycle c')
  with no_cycle_acyclic show ?thesis by (simp add: detect_cycle_def)
next
  case (CycleAt a b)
  with search_correct [of ts] have "(a, a) \<in> (dep_rel ts)\<^sup>+"
    by (auto simp: dfs_post_def intro: rtrancl_into_trancl2)
  with CycleAt show ?thesis by (auto simp: detect_cycle_def acyclic_def)
next
  case DfsPanic
  with search_correct [of ts] assms show ?thesis by (auto simp: dfs_post_def ids_def)
qed

lemma detect_cycle_error:
  assumes "refs_closed ts" "detect_cycle ts = Inl e"
  shows "errors_is e ErrCycle"
  using assms search_correct [of ts]
  by (auto simp: detect_cycle_def dfs_post_def ids_def split: dfs_result.splits)

end
