(* ===== verification/Task_Graph.thy ===== *)
theory Task_Graph
  imports Task_Cycle
begin

text \<open>
  What a validated graph guarantees: \<open>new_dag\<close> accepts exactly the acyclic graphs with distinct
  ids and no dangling reference; on those the readiness questions never dereference nil,
  \<open>propagate_failure\<close> blocks exactly the open tasks downstream of a failure and leaves every other
  task alone, and a propagated graph is never stalled.
\<close>

section \<open>Well-formed graphs\<close>

definition graph_wf :: "tasks \<Rightarrow> bool" where
  "graph_wf ts \<longleftrightarrow> distinct (map fst ts) \<and> (\<forall>(i, t) \<in> set ts. t_id t = i) \<and>
     refs_closed ts \<and> acyclic (dep_rel ts)"

definition by_id :: "task list \<Rightarrow> tasks" where
  "by_id ts = map (\<lambda>t. (t_id t, t)) ts"

lemma fst_by_id [simp]: "map fst (by_id ts) = map t_id ts"
  by (simp add: by_id_def)

lemma index_tasks_spec:
  "index_tasks m ts = Inr m' \<longleftrightarrow>
     distinct (map t_id ts) \<and> set (map t_id ts) \<inter> set (map fst m) = {} \<and> m' = m @ by_id ts"
proof (induction m ts rule: index_tasks.induct)
  case (1 m)
  then show ?case by (auto simp: by_id_def)
next
  case (2 m t ts)
  show ?case
  proof (cases "map_of m (t_id t)")
    case None
    then have "t_id t \<notin> set (map fst m)" by (simp add: map_of_eq_None_iff)
    with None "2.IH"(1) [OF None] show ?thesis
      by (auto simp: by_id_def update_absent [OF \<open>t_id t \<notin> set (map fst m)\<close>])
  next
    case (Some x)
    then have "t_id t \<in> set (map fst m)" by (rule map_of_Some_key)
    with Some show ?thesis by auto
  qed
qed

lemma check_refs_Inr: "check_refs m i deps = Inr () \<longleftrightarrow> set deps \<subseteq> fst ` set m"
  by (induction m i deps rule: check_refs.induct)
     (auto simp: map_of_eq_None_iff split: option.splits dest: map_of_Some_key)

lemma check_all_refs_Inr:
  "check_all_refs m ts = Inr () \<longleftrightarrow> (\<forall>t \<in> set ts. set (edges t) \<subseteq> fst ` set m)"
proof (induction m ts rule: check_all_refs.induct)
  case (2 m t ts)
  have "check_refs m (t_id t) (depends_on t @ contributes t) = Inr () \<longleftrightarrow> set (edges t) \<subseteq> fst ` set m"
    by (simp add: check_refs_Inr edges_alt)
  with "2.IH" show ?case
    by (cases "check_refs m (t_id t) (depends_on t @ contributes t)") auto
qed simp

lemma refs_closed_by_id:
  "refs_closed (by_id ts) \<longleftrightarrow> (\<forall>t \<in> set ts. set (edges t) \<subseteq> fst ` set (by_id ts))"
  by (auto simp: refs_closed_def by_id_def)

lemma new_dag_wf_iff:
  "new_dag g ts = Inr d \<longleftrightarrow> graph_wf (by_id ts) \<and> d = \<lparr>dag_goal = g, dag_tasks = by_id ts\<rparr>"
proof (cases "distinct (map t_id ts)")
  case True
  then have idx: "index_tasks [] ts = Inr (by_id ts)" by (simp add: index_tasks_spec)
  have ids_ok: "\<forall>(i, t) \<in> set (by_id ts). t_id t = i" by (auto simp: by_id_def)
  show ?thesis
  proof (cases "refs_closed (by_id ts)")
    case closed: True
    then have "check_all_refs (by_id ts) ts = Inr ()"
      by (simp add: check_all_refs_Inr refs_closed_by_id)
    with idx True closed ids_ok detect_cycle_acyclic [OF closed] show ?thesis
      by (cases "detect_cycle (by_id ts)") (auto simp: new_dag_def graph_wf_def)
  next
    case False
    then have "check_all_refs (by_id ts) ts \<noteq> Inr ()"
      by (simp add: check_all_refs_Inr refs_closed_by_id)
    with idx False show ?thesis
      by (cases "check_all_refs (by_id ts) ts") (auto simp: new_dag_def graph_wf_def)
  qed
next
  case False
  then have "index_tasks [] ts \<noteq> Inr m" for m by (simp add: index_tasks_spec)
  with False show ?thesis
    by (cases "index_tasks [] ts") (auto simp: new_dag_def graph_wf_def)
qed

lemma graph_wfD:
  assumes "graph_wf ts"
  shows "distinct (map fst ts)" "refs_closed ts" "acyclic (dep_rel ts)"
    "map_of ts i = Some t \<Longrightarrow> t_id t = i"
  using assms by (auto simp: graph_wf_def dest: map_of_SomeD)

section \<open>Readiness on closed graphs\<close>

definition deps_ok :: "tasks \<Rightarrow> task \<Rightarrow> bool" where
  "deps_ok ts t \<longleftrightarrow>
     (\<forall>x \<in> set (depends_on t). \<exists>d. map_of ts x = Some d \<and> t_state d = Succeeded) \<and>
     (\<forall>x \<in> set (contributes t). \<exists>d. map_of ts x = Some d \<and> terminal (t_state d))"

lemma all_deps_iff:
  "(\<And>x. x \<in> set xs \<Longrightarrow> \<exists>d. map_of ts x = Some d) \<Longrightarrow>
   all_deps P ts xs = Some (\<forall>x \<in> set xs. \<exists>d. map_of ts x = Some d \<and> P (t_state d))"
proof (induction xs)
  case (Cons x xs)
  from Cons.prems obtain d where "map_of ts x = Some d" by fastforce
  with Cons show ?case by auto
qed simp

lemma all_deps_True: "all_deps P ts xs = Some True \<longleftrightarrow> (\<forall>x \<in> set xs. \<exists>d. map_of ts x = Some d \<and> P (t_state d))"
  by (induction xs) (auto split: option.splits)

lemma dependencies_succeeded_True: "dependencies_succeeded ts t = Some True \<longleftrightarrow> deps_ok ts t"
proof -
  have "dependencies_succeeded ts t = Some True \<longleftrightarrow>
      all_deps (\<lambda>s. s = Succeeded) ts (depends_on t) = Some True \<and> all_deps terminal ts (contributes t) = Some True"
    by (auto simp: dependencies_succeeded_def split: option.splits bool.splits)
  then show ?thesis by (simp add: all_deps_True deps_ok_def)
qed

lemma dependencies_succeeded_closed:
  assumes "\<And>x. x \<in> set (edges t) \<Longrightarrow> \<exists>d. map_of ts x = Some d"
  shows "dependencies_succeeded ts t = Some (deps_ok ts t)"
  using assms by (auto simp: dependencies_succeeded_def deps_ok_def all_deps_iff edges_alt split: bool.splits)

lemma ordered_tasks_lookup: "t \<in> set (ordered_tasks ts) \<longleftrightarrow> (\<exists>i. map_of ts i = Some t)"
  by (simp add: ordered_tasks_def set_sorted_values)

lemma ready_set_closed:
  assumes "refs_closed ts"
  shows "ready_set ts = Some (filter (\<lambda>t. (t_state t = Pending \<or> t_state t = Ready) \<and> deps_ok ts t) (ordered_tasks ts))"
  unfolding ready_set_def
proof (rule filter_opt_total)
  fix t assume "t \<in> set (ordered_tasks ts)"
  then obtain i where "map_of ts i = Some t" by (auto simp: ordered_tasks_lookup)
  with refs_closed_lookup [OF assms] have "dependencies_succeeded ts t = Some (deps_ok ts t)"
    by (intro dependencies_succeeded_closed) blast
  then show "(if t_state t \<noteq> Pending \<and> t_state t \<noteq> Ready then Some False else dependencies_succeeded ts t) =
      Some ((t_state t = Pending \<or> t_state t = Ready) \<and> deps_ok ts t)" by auto
qed

definition takeable :: "time \<Rightarrow> tasks \<Rightarrow> task \<Rightarrow> bool" where
  "takeable now ts t \<longleftrightarrow> deps_ok ts t \<and>
     (t_state t = Pending \<or> t_state t = Ready \<or> t_state t = Running \<and> \<not> after_time (lease_expiry t) now)"

lemma claim_candidate_True: "claim_candidate now ts t = Some True \<longleftrightarrow> takeable now ts t"
  by (cases "t_state t") (auto simp: claim_candidate_def takeable_def dependencies_succeeded_True)

lemma claim_candidate_closed:
  assumes "\<And>x. x \<in> set (edges t) \<Longrightarrow> \<exists>d. map_of ts x = Some d"
  shows "claim_candidate now ts t = Some (takeable now ts t)"
  using dependencies_succeeded_closed [OF assms]
  by (cases "t_state t") (auto simp: claim_candidate_def takeable_def)

lemma claimable_set_closed:
  assumes "refs_closed ts"
  shows "claimable_set now ts = Some (filter (takeable now ts) (ordered_tasks ts))"
  unfolding claimable_set_def
proof (rule filter_opt_total)
  fix t assume "t \<in> set (ordered_tasks ts)"
  then obtain i where "map_of ts i = Some t" by (auto simp: ordered_tasks_lookup)
  with refs_closed_lookup [OF assms] show "claim_candidate now ts t = Some (takeable now ts t)"
    by (intro claim_candidate_closed) blast
qed

lemma claimable_set_mem:
  assumes "claimable_set now ts = Some r" "t \<in> set r"
  shows "takeable now ts t \<and> (\<exists>i. map_of ts i = Some t)"
  using filter_opt_Some_mem [OF assms(1) [unfolded claimable_set_def] assms(2)]
  by (simp add: claim_candidate_True ordered_tasks_lookup)

section \<open>Progress\<close>

lemma progress_counts:
  "progress ts = (int (length (filter (\<lambda>(_, t). terminal (t_state t)) ts)), int (length ts))"
  by (induction ts rule: progress.induct) (auto simp: Let_def split: prod.splits)

lemma stall_scan_iff:
  "stall_scan r ts \<longleftrightarrow> (\<forall>(_, t) \<in> set ts. t_state t \<noteq> Running \<and> t_state t \<noteq> AwaitingApproval) \<and>
     (r \<or> (\<exists>(_, t) \<in> set ts. \<not> terminal (t_state t)))"
  by (induction r ts rule: stall_scan.induct) auto

section \<open>Failure propagation\<close>

text \<open>The tasks a failure reaches through required dependencies and open tasks.\<close>

inductive doomed :: "tasks \<Rightarrow> task_id \<Rightarrow> bool" for ts where
  failed: "map_of ts i = Some t \<Longrightarrow> failed_dep (t_state t) \<Longrightarrow> doomed ts i"
| downstream: "map_of ts i = Some t \<Longrightarrow> \<not> terminal (t_state t) \<Longrightarrow> d \<in> set (depends_on t) \<Longrightarrow>
    doomed ts d \<Longrightarrow> doomed ts i"

inductive_cases doomedE: "doomed ts i"

inductive block_steps :: "tasks \<Rightarrow> int \<Rightarrow> tasks \<Rightarrow> bool" where
  none: "block_steps ts 0 ts"
| one: "map_of ts i = Some t \<Longrightarrow> \<not> terminal (t_state t) \<Longrightarrow> dep \<in> set (depends_on t) \<Longrightarrow>
    map_of ts dep = Some d \<Longrightarrow> failed_dep (t_state d) \<Longrightarrow>
    block_steps (AList.update i (block_on t dep (t_state d)) ts) n ts' \<Longrightarrow> block_steps ts (n + 1) ts'"

lemma failed_dep_terminal: "failed_dep s \<Longrightarrow> terminal s"
  by (auto simp: failed_dep_def)

lemma block_on_simps [simp]:
  "t_state (block_on t dep ds) = Blocked" "depends_on (block_on t dep ds) = depends_on t"
  "contributes (block_on t dep ds) = contributes t" "edges (block_on t dep ds) = edges t"
  "t_id (block_on t dep ds) = t_id t" "t_kind (block_on t dep ds) = t_kind t"
  "leased_by (block_on t dep ds) = leased_by t" "lease_expiry (block_on t dep ds) = lease_expiry t"
  "approved (block_on t dep ds) = approved t" "attempt (block_on t dep ds) = attempt t"
  "idempotency_key (block_on t dep ds) = idempotency_key t"
  by (simp_all add: block_on_def edges_def)

lemma doomed_block_iff:
  assumes i: "map_of ts i = Some t" "\<not> terminal (t_state t)" "dep \<in> set (depends_on t)"
    and d: "map_of ts dep = Some d" "failed_dep (t_state d)"
  shows "doomed (AList.update i (block_on t dep ds) ts) j \<longleftrightarrow> doomed ts j" (is "doomed ?ts' j \<longleftrightarrow> _")
proof
  assume "doomed ?ts' j"
  then show "doomed ts j"
  proof (induction rule: doomed.induct)
    case (failed j u)
    show ?case
    proof (cases "j = i")
      case True
      with i d show ?thesis by (auto intro: doomed.intros)
    qed (use failed in \<open>auto intro: doomed.failed\<close>)
  next
    case (downstream j u x)
    then have "j \<noteq> i" by (auto simp: failed_dep_def)
    with downstream show ?case by (auto intro: doomed.downstream)
  qed
next
  assume "doomed ts j"
  then show "doomed ?ts' j"
  proof (induction rule: doomed.induct)
    case (failed j u)
    with i have "j \<noteq> i" by (auto dest: failed_dep_terminal)
    with failed show ?case by (auto intro: doomed.failed)
  next
    case (downstream j u x)
    show ?case
    proof (cases "j = i")
      case True
      then show ?thesis by (auto intro: doomed.failed [of _ _ "block_on t dep ds"] simp: failed_dep_def)
    next
      case False
      with downstream show ?thesis by (intro doomed.downstream [of _ j u x]) simp_all
    qed
  qed
qed

text \<open>What a run of blocking steps does to each task.\<close>

definition only_blocks :: "tasks \<Rightarrow> tasks \<Rightarrow> bool" where
  "only_blocks ts ts' \<longleftrightarrow> map fst ts' = map fst ts \<and>
     (\<forall>j t. map_of ts j = Some t \<longrightarrow>
        (\<exists>t'. map_of ts' j = Some t' \<and>
           (t' = t \<or> \<not> terminal (t_state t) \<and> doomed ts j \<and> (\<exists>dep ds. dep \<in> set (depends_on t) \<and> t' = block_on t dep ds))))"

lemma only_blocks_refl: "only_blocks ts ts"
  by (auto simp: only_blocks_def)

lemma only_blocksD:
  assumes "only_blocks ts ts'" "map_of ts j = Some t"
  obtains "map_of ts' j = Some t"
  | dep ds where "map_of ts' j = Some (block_on t dep ds)" "\<not> terminal (t_state t)" "doomed ts j"
      "dep \<in> set (depends_on t)"
  using assms unfolding only_blocks_def by blast

lemma block_steps_spec:
  "block_steps ts n ts' \<Longrightarrow>
     only_blocks ts ts' \<and> (\<forall>j. doomed ts' j \<longleftrightarrow> doomed ts j) \<and> n \<ge> 0 \<and>
     int (open_count ts) = int (open_count ts') + n"
proof (induction rule: block_steps.induct)
  case (none ts)
  then show ?case by (simp add: only_blocks_refl)
next
  case (one ts i t dep d n ts')
  let ?mid = "AList.update i (block_on t dep (t_state d)) ts"
  have dm: "doomed ?mid j \<longleftrightarrow> doomed ts j" for j
    using one.hyps by (intro doomed_block_iff)
  have keys: "map fst ?mid = map fst ts" using one.hyps by (simp add: alist_simps)
  have "only_blocks ts ts'"
    unfolding only_blocks_def
  proof (intro conjI allI impI)
    show "map fst ts' = map fst ts" using one.IH keys by (simp add: only_blocks_def)
    fix j u assume u: "map_of ts j = Some u"
    show "\<exists>t'. map_of ts' j = Some t' \<and> (t' = u \<or> \<not> terminal (t_state u) \<and> doomed ts j \<and>
        (\<exists>dep ds. dep \<in> set (depends_on u) \<and> t' = block_on u dep ds))"
    proof (cases "j = i")
      case True
      then have mid: "map_of ?mid j = Some (block_on t dep (t_state d))" by simp
      have "doomed ts i" using one.hyps by (auto intro: doomed.intros)
      then show ?thesis
        using only_blocksD [OF conjunct1 [OF one.IH] mid] True u one.hyps by auto
    next
      case False
      with u have mid: "map_of ?mid j = Some u" by simp
      show ?thesis
        by (rule only_blocksD [OF conjunct1 [OF one.IH] mid]) (use dm in auto)
    qed
  qed
  with one.IH dm open_count_block_on [OF one.hyps(1,2), of dep "t_state d"] show ?case by auto
qed

lemma first_failed_Some:
  "first_failed ts xs = Some (Some (x, s)) \<Longrightarrow> x \<in> set xs \<and> (\<exists>d. map_of ts x = Some d \<and> t_state d = s \<and> failed_dep s)"
  by (induction xs) (auto split: option.splits if_splits)

lemma first_failed_None:
  "first_failed ts xs = Some None \<longleftrightarrow> (\<forall>x \<in> set xs. \<exists>d. map_of ts x = Some d \<and> \<not> failed_dep (t_state d))"
  by (induction xs) (auto split: option.splits if_splits)

lemma first_failed_total:
  "(\<And>x. x \<in> set xs \<Longrightarrow> \<exists>d. map_of ts x = Some d) \<Longrightarrow> \<exists>r. first_failed ts xs = Some r"
proof (induction xs)
  case (Cons x xs)
  from Cons.prems obtain d where "map_of ts x = Some d" by fastforce
  with Cons show ?case by auto
qed simp

lemma block_steps_trans: "block_steps ts n mid \<Longrightarrow> block_steps mid m ts' \<Longrightarrow> block_steps ts (n + m) ts'"
proof (induction rule: block_steps.induct)
  case (one ts i t dep d n mid)
  then have "block_steps ts (n + m + 1) ts'" by (intro block_steps.one) auto
  then show ?case by (simp add: add.commute add.left_commute)
qed simp

lemma block_pass_steps: "block_pass ts is = Some (n, ts') \<Longrightarrow> block_steps ts n ts'"
proof (induction ts "is" arbitrary: n ts' rule: block_pass.induct)
  case (1 ts)
  then show ?case by (simp add: block_steps.none)
next
  case (2 ts i "is")
  obtain t where t: "map_of ts i = Some t" using "2.prems" by (auto split: option.splits)
  show ?case
  proof (cases "terminal (t_state t)")
    case True
    then show ?thesis using "2.IH"(1) [OF t] "2.prems" t by simp
  next
    case False
    obtain r where r: "first_failed ts (depends_on t) = Some r"
      using "2.prems" t False by (auto split: option.splits)
    show ?thesis
    proof (cases r)
      case None
      then show ?thesis using "2.IH"(2) [OF t False] "2.prems" t False r by simp
    next
      case (Some p)
      obtain dep ds where p: "p = (dep, ds)" by (cases p)
      obtain m where m: "block_pass (AList.update i (block_on t dep ds) ts) is = Some (m, ts')" "n = m + 1"
        using "2.prems" t False r Some p by auto
      obtain d where d: "dep \<in> set (depends_on t)" "map_of ts dep = Some d" "t_state d = ds" "failed_dep ds"
        using first_failed_Some r Some p by blast
      have "block_steps (AList.update i (block_on t dep ds) ts) m ts'"
        by (rule "2.IH"(3) [OF t False r Some p [symmetric] m(1)])
      with t False d m(2) show ?thesis by (auto intro: block_steps.one)
    qed
  qed
qed

text \<open>A graph on which a pass changes nothing.\<close>

definition settled :: "tasks \<Rightarrow> bool" where
  "settled ts \<longleftrightarrow> (\<forall>i t. map_of ts i = Some t \<longrightarrow> \<not> terminal (t_state t) \<longrightarrow>
     (\<forall>x \<in> set (depends_on t). \<exists>d. map_of ts x = Some d \<and> \<not> failed_dep (t_state d)))"

lemma block_pass_zero:
  "block_pass ts is = Some (0, ts') \<Longrightarrow> ts' = ts \<and>
     (\<forall>i \<in> set is. \<forall>t. map_of ts i = Some t \<longrightarrow> \<not> terminal (t_state t) \<longrightarrow> first_failed ts (depends_on t) = Some None)"
proof (induction "is")
  case (Cons i "is")
  obtain t where t: "map_of ts i = Some t" using Cons.prems by (auto split: option.splits)
  show ?case
  proof (cases "terminal (t_state t)")
    case True
    then show ?thesis using Cons t by auto
  next
    case False
    then have "first_failed ts (depends_on t) = Some None"
      using Cons.prems t by (auto split: option.splits dest: block_pass_count)
    then show ?thesis using Cons t False by auto
  qed
qed simp

lemma propagate_steps:
  "propagate_failure ts = Some (n, ts') \<Longrightarrow> block_steps ts n ts' \<and> settled ts'"
proof (induction ts arbitrary: n ts' rule: propagate_failure.induct)
  case (1 ts)
  obtain k mid where pass: "block_pass ts (ids ts) = Some (k, mid)"
    using "1.prems" by (subst (asm) propagate_failure.simps) (auto split: option.splits)
  show ?case
  proof (cases "k = 0")
    case True
    with "1.prems" pass have "n = 0" "ts' = mid"
      by (subst (asm) propagate_failure.simps, simp)+
    moreover have "settled mid"
      using block_pass_zero pass True map_of_Some_key
      by (force simp: settled_def first_failed_None ids_def)
    ultimately show ?thesis using block_pass_steps [OF pass] True by simp
  next
    case False
    with "1.prems" pass obtain m where m: "propagate_failure mid = Some (m, ts')" "n = k + m"
      by (subst (asm) propagate_failure.simps) auto
    with "1.IH" [OF pass refl False m(1)] block_pass_steps [OF pass] show ?thesis
      by (auto intro: block_steps_trans)
  qed
qed

lemma dep_rel_edges:
  "dep_rel ts = {(x, y). \<exists>es. map_option edges (map_of ts x) = Some es \<and> y \<in> set es}"
  by (auto simp: dep_rel_def)

lemma dep_rel_only_blocks:
  assumes "only_blocks ts ts'"
  shows "dep_rel ts' = dep_rel ts"
proof -
  have "map_option edges (map_of ts' x) = map_option edges (map_of ts x)" for x
  proof (cases "map_of ts x")
    case None
    then have "x \<notin> set (map fst ts')"
      using assms by (simp add: only_blocks_def map_of_eq_None_iff)
    then have "map_of ts' x = None" by (simp add: map_of_eq_None_iff)
    with None show ?thesis by simp
  next
    case (Some t)
    show ?thesis by (rule only_blocksD [OF assms Some]) (simp_all add: Some)
  qed
  then show ?thesis by (simp add: dep_rel_edges)
qed

lemma refs_closed_iff_rel:
  "distinct (map fst ts) \<Longrightarrow> refs_closed ts \<longleftrightarrow> Range (dep_rel ts) \<subseteq> set (map fst ts)"
  by (force simp: refs_closed_def dep_rel_def dest: map_of_SomeD)

lemma only_blocks_wf:
  assumes "only_blocks ts ts'" "graph_wf ts"
  shows "graph_wf ts'"
proof -
  have keys: "map fst ts' = map fst ts" using assms(1) by (simp add: only_blocks_def)
  have dist: "distinct (map fst ts')" using graph_wfD(1) [OF assms(2)] keys by simp
  have "t_id t' = i" if "(i, t') \<in> set ts'" for i t'
  proof -
    from that dist have t': "map_of ts' i = Some t'" by simp
    with keys obtain t where "map_of ts i = Some t"
      by (metis key_map_of_Some map_of_Some_key)
    then show ?thesis
      by (rule only_blocksD [OF assms(1)])
         (use t' graph_wfD(4) [OF assms(2) \<open>map_of ts i = Some t\<close>] in auto)
  qed
  then have "\<forall>(i, t) \<in> set ts'. t_id t = i" by blast
  moreover have "refs_closed ts'"
    using graph_wfD(1,2) [OF assms(2)] dist keys dep_rel_only_blocks [OF assms(1)]
    by (simp add: refs_closed_iff_rel)
  moreover have "acyclic (dep_rel ts')"
    using graph_wfD(3) [OF assms(2)] dep_rel_only_blocks [OF assms(1)] by simp
  ultimately show ?thesis using dist by (simp add: graph_wf_def)
qed

lemma block_pass_total:
  "distinct (map fst ts) \<Longrightarrow> refs_closed ts \<Longrightarrow> set is \<subseteq> fst ` set ts \<Longrightarrow> \<exists>r. block_pass ts is = Some r"
proof (induction ts "is" rule: block_pass.induct)
  case (2 ts i "is")
  from "2.prems" obtain t where t: "map_of ts i = Some t" using key_map_of_Some by fastforce
  show ?case
  proof (cases "terminal (t_state t)")
    case True
    with "2.IH"(1) [OF t True] "2.prems" t show ?thesis by simp
  next
    case False
    obtain r where r: "first_failed ts (depends_on t) = Some r"
      using first_failed_total refs_closed_lookup [OF "2.prems"(2) t] by (fastforce simp: edges_alt)
    show ?thesis
    proof (cases r)
      case None
      with "2.IH"(2) [OF t False r None] "2.prems" t False r show ?thesis by simp
    next
      case (Some p)
      obtain dep ds where p: "p = (dep, ds)" by (cases p)
      let ?ts' = "AList.update i (block_on t dep ds) ts"
      have keys: "map fst ?ts' = map fst ts" using t by (simp add: alist_simps)
      then have fst_eq: "fst ` set ?ts' = fst ` set ts" by (metis list.set_map)
      have "dep_rel ?ts' = dep_rel ts" using t by (auto simp: dep_rel_def split: if_splits)
      then have "refs_closed ?ts'"
        using "2.prems"(1,2) keys by (simp add: refs_closed_iff_rel)
      with "2.IH"(3) [OF t False r Some p [symmetric]] "2.prems" keys fst_eq t False r Some p
      show ?thesis by auto
    qed
  qed
qed simp

lemma propagate_total:
  "graph_wf ts \<Longrightarrow> \<exists>r. propagate_failure ts = Some r"
proof (induction ts rule: propagate_failure.induct)
  case (1 ts)
  obtain k mid where pass: "block_pass ts (ids ts) = Some (k, mid)"
    using block_pass_total [of ts "ids ts"] graph_wfD(1,2) [OF "1.prems"] by (auto simp: ids_def)
  have "graph_wf mid"
    using only_blocks_wf "1.prems" block_steps_spec [OF block_pass_steps [OF pass]] by blast
  with "1.IH" [OF pass refl] pass show ?case
    by (subst propagate_failure.simps) auto
qed

lemma propagate_spec:
  assumes "propagate_failure ts = Some (n, ts')"
  shows "only_blocks ts ts'" "settled ts'" "n = int (open_count ts) - int (open_count ts')"
    "map_of ts i = Some t \<Longrightarrow> \<not> terminal (t_state t) \<Longrightarrow> doomed ts i \<Longrightarrow>
       \<exists>t'. map_of ts' i = Some t' \<and> t_state t' = Blocked"
proof -
  from propagate_steps [OF assms] have steps: "block_steps ts n ts'" and settled: "settled ts'" by auto
  from block_steps_spec [OF steps] have ob: "only_blocks ts ts'"
    and dm: "\<And>j. doomed ts' j \<longleftrightarrow> doomed ts j" and n: "n = int (open_count ts) - int (open_count ts')" by auto
  show "only_blocks ts ts'" "settled ts'" "n = int (open_count ts) - int (open_count ts')"
    by (fact ob settled n)+
  assume t: "map_of ts i = Some t" "\<not> terminal (t_state t)" "doomed ts i"
  have fd: "doomed ts' j \<Longrightarrow> \<exists>u. map_of ts' j = Some u \<and> failed_dep (t_state u)" for j
  proof (induction rule: doomed.induct)
    case (downstream j u x)
    from downstream.IH obtain v where v: "map_of ts' x = Some v" "failed_dep (t_state v)" by blast
    from settled [unfolded settled_def, rule_format, OF downstream.hyps(1,2,3)] v show ?case by simp
  qed blast
  from t(3) dm fd obtain u where u: "map_of ts' i = Some u" "failed_dep (t_state u)" by blast
  show "\<exists>t'. map_of ts' i = Some t' \<and> t_state t' = Blocked"
    by (rule only_blocksD [OF ob t(1)]) (use u t(2) in \<open>auto dest: failed_dep_terminal\<close>)
qed

section \<open>No stall\<close>

lemma settled_not_stalled:
  assumes wf: "graph_wf ts" and settled: "settled ts"
  shows "stalled ts = Some False"
proof (rule ccontr)
  note closed = graph_wfD(2) [OF wf]
  assume "stalled ts \<noteq> Some False"
  then have none: "filter (\<lambda>t. (t_state t = Pending \<or> t_state t = Ready) \<and> deps_ok ts t) (ordered_tasks ts) = []"
    and scan: "stall_scan False ts"
    using ready_set_closed [OF closed] by (auto simp: stalled_def split: if_splits)
  let ?open = "{i. \<exists>t. map_of ts i = Some t \<and> \<not> terminal (t_state t)}"
  obtain x where x: "x \<in> ?open"
  proof -
    from scan obtain i t where "(i, t) \<in> set ts" "\<not> terminal (t_state t)"
      by (auto simp: stall_scan_iff)
    with graph_wfD(1) [OF wf] have "map_of ts i = Some t" "\<not> terminal (t_state t)" by simp_all
    then show ?thesis using that by blast
  qed
  have "wf ((dep_rel ts)\<inverse>)"
    using finite_acyclic_wf_converse [OF finite_dep_rel graph_wfD(3) [OF wf]] .
  then obtain i where i: "i \<in> ?open" and min: "\<And>y. (i, y) \<in> dep_rel ts \<Longrightarrow> y \<notin> ?open"
    by (rule wfE_min [OF _ x]) auto
  from i obtain t where t: "map_of ts i = Some t" "\<not> terminal (t_state t)" by blast
  have state: "t_state t = Pending \<or> t_state t = Ready"
  proof -
    from t(1) have "(i, t) \<in> set ts" by (rule map_of_SomeD)
    with scan have "t_state t \<noteq> Running" "t_state t \<noteq> AwaitingApproval" by (auto simp: stall_scan_iff)
    with t(2) show ?thesis by (cases "t_state t") auto
  qed
  have dep_done: "\<exists>d. map_of ts x = Some d \<and> terminal (t_state d)" if "x \<in> set (edges t)" for x
    using min [of x] that t refs_closed_lookup [OF closed t(1) that] by auto
  have "deps_ok ts t"
    unfolding deps_ok_def
  proof (intro conjI ballI)
    fix x assume x: "x \<in> set (depends_on t)"
    with settled t obtain d where d: "map_of ts x = Some d" "\<not> failed_dep (t_state d)"
      unfolding settled_def by blast
    with dep_done [of x] x have "terminal (t_state d)" by (auto simp: edges_alt)
    with d show "\<exists>d. map_of ts x = Some d \<and> t_state d = Succeeded"
      by (cases "t_state d") (auto simp: failed_dep_def)
  qed (use dep_done in \<open>auto simp: edges_alt\<close>)
  with none state t(1) show False by (auto simp: filter_empty_conv ordered_tasks_lookup)
qed

end
