(* ===== verification/Store.thy ===== *)
theory Store
  imports Goal Task_Graph
begin

text \<open>
  Package \<open>internal/store\<close>: the in-process \<open>Memory\<close> store and its tenant-scoped view.

  The three Go maps are association lists in one record, which every operation takes and returns;
  the mutex makes an operation one atomic step.  An operation returns its Go results as a sum (or
  a pair where Go returns a count beside the error) and the store after it, on the error paths
  too.  Goals and graphs are values: a pointer the store hands out (\<open>Claim\<close>, \<open>ListGoals\<close>) is a
  snapshot here.  A task is written back under its own id, the key \<open>NewDAG\<close> gave it.  Where
  \<open>PropagateFailure\<close> would panic the result is the panic and the graph as it was before the call;
  on a validated graph it never does.
\<close>

section \<open>State\<close>

record checkpoint =
  cp_goal :: string
  cp_iteration :: int
  cp_spend :: string
  cp_note :: string
  cp_at :: time

record mem =
  goals :: "(string \<times> goal) list"
  dags :: "(string \<times> dag) list"
  checkpoints :: "(string \<times> checkpoint list) list"

definition new_memory :: mem where
  "new_memory = \<lparr>goals = [], dags = [], checkpoints = []\<rparr>"

text \<open>Reads and writes of one graph or one task of the record.\<close>

definition tasks_of :: "mem \<Rightarrow> string \<Rightarrow> tasks option" where
  "tasks_of m gid = map_option dag_tasks (map_of (dags m) gid)"

definition put_tasks :: "string \<Rightarrow> tasks \<Rightarrow> mem \<Rightarrow> mem" where
  "put_tasks gid ts m =
     (case map_of (dags m) gid of
        None \<Rightarrow> m
      | Some d \<Rightarrow> m\<lparr>dags := AList.update gid (d\<lparr>dag_tasks := ts\<rparr>) (dags m)\<rparr>)"

definition put_goal :: "goal \<Rightarrow> mem \<Rightarrow> mem" where
  "put_goal g m = m\<lparr>goals := AList.update (g_id g) g (goals m)\<rparr>"

definition goal_not_found :: "string \<Rightarrow> go_error" where
  "goal_not_found gid = (ErrGoalNotFound, ''store: goal not found: '' @ fmt_q gid)"

definition no_dag :: "string \<Rightarrow> go_error" where
  "no_dag gid = (ErrGoalNotFound, ''store: goal not found: no DAG for goal '' @ fmt_q gid)"

section \<open>Goals\<close>

definition create_goal :: "goal \<Rightarrow> mem \<Rightarrow> (go_error + unit) \<times> mem" where
  "create_goal g m =
     (case map_of (goals m) (g_id g) of
        Some _ \<Rightarrow> (Inl (Opaque, ''store: goal '' @ fmt_q (g_id g) @ '' already exists''), m)
      | None \<Rightarrow> (Inr (), put_goal g m))"

definition load_goal :: "string \<Rightarrow> mem \<Rightarrow> go_error + goal" where
  "load_goal gid m =
     (case map_of (goals m) gid of None \<Rightarrow> Inl (goal_not_found gid) | Some g \<Rightarrow> Inr g)"

definition refuse_terminal_overwrite :: "goal_state \<Rightarrow> goal \<Rightarrow> go_error + unit" where
  "refuse_terminal_overwrite current incoming =
     (if \<not> goal_terminal current \<or> g_state incoming = current then Inr ()
      else Inl (ErrGoalTerminal, ''store: this run has already ended: '' @ fmt_q (g_id incoming) @
             '' is '' @ goal_state_name current @ '' and cannot become '' @
             goal_state_name (g_state incoming)))"

definition save_goal :: "goal \<Rightarrow> mem \<Rightarrow> (go_error + unit) \<times> mem" where
  "save_goal g m =
     (case map_of (goals m) (g_id g) of
        None \<Rightarrow> (Inl (goal_not_found (g_id g)), m)
      | Some cur \<Rightarrow>
          (case refuse_terminal_overwrite (g_state cur) g of
             Inl e \<Rightarrow> (Inl e, m)
           | Inr _ \<Rightarrow> (Inr (), put_goal g m)))"

text \<open>The empty state string, which lists every goal, is \<open>None\<close>.\<close>

definition list_goals :: "goal_state option \<Rightarrow> mem \<Rightarrow> goal list" where
  "list_goals st m =
     sort_key g_id (filter (\<lambda>g. st = None \<or> st = Some (g_state g)) (map snd (goals m)))"

fun latest_scan :: "string \<Rightarrow> goal option \<Rightarrow> goal list \<Rightarrow> goal option" where
  "latest_scan tenant best [] = best"
| "latest_scan tenant best (g # gs) =
     (if tenant \<noteq> '''' \<and> g_tenant g \<noteq> tenant then latest_scan tenant best gs
      else (case best of
              None \<Rightarrow> latest_scan tenant (Some g) gs
            | Some b \<Rightarrow>
                if after_time (g_created g) (g_created b) then latest_scan tenant (Some g) gs
                else latest_scan tenant best gs))"

definition latest_goal :: "string \<Rightarrow> mem \<Rightarrow> goal option" where
  "latest_goal tenant m = latest_scan tenant None (map snd (goals m))"

section \<open>Graphs\<close>

definition save_dag :: "dag \<Rightarrow> mem \<Rightarrow> mem" where
  "save_dag d m = m\<lparr>dags := AList.update (dag_goal d) d (dags m)\<rparr>"

definition load_dag :: "string \<Rightarrow> mem \<Rightarrow> go_error + dag" where
  "load_dag gid m = (case map_of (dags m) gid of None \<Rightarrow> Inl (no_dag gid) | Some d \<Rightarrow> Inr d)"

section \<open>Leases\<close>

text \<open>The moves of \<open>Claim\<close> on the task it picked, and the lease it writes on it.\<close>

definition claim_moves :: "task \<Rightarrow> time \<Rightarrow> go_error + task" where
  "claim_moves t now =
     (case (if t_state t = Running then transition t Ready now else Inr t) of
        Inl e \<Rightarrow> Inl e
      | Inr t1 \<Rightarrow>
          (case (if t_state t1 = Pending then transition t1 Ready now else Inr t1) of
             Inl e \<Rightarrow> Inl e
           | Inr t2 \<Rightarrow> transition t2 Running now))"

definition take_lease :: "string \<Rightarrow> duration \<Rightarrow> time \<Rightarrow> task \<Rightarrow> task" where
  "take_lease worker lease now t =
     t\<lparr>leased_by := worker, lease_expiry := now + lease, attempt := attempt t + 1\<rparr>"

definition claim :: "string \<Rightarrow> string \<Rightarrow> duration \<Rightarrow> time \<Rightarrow> mem \<Rightarrow> (go_error + task) \<times> mem" where
  "claim gid worker lease now m =
     (case map_of (goals m) gid of
        None \<Rightarrow> (Inl (goal_not_found gid), m)
      | Some g \<Rightarrow>
          if \<not> goal_claimable g then
            (Inl (ErrNoWork, ''store: no claimable task: goal is '' @ goal_state_name (g_state g)), m)
          else (case tasks_of m gid of
                  None \<Rightarrow> (Inl (no_dag gid), m)
                | Some ts \<Rightarrow>
                    (case claimable_set now ts of
                       None \<Rightarrow> (Inl nil_deref, m)
                     | Some [] \<Rightarrow> (Inl (ErrNoWork, ''store: no claimable task''), m)
                     | Some (t # _) \<Rightarrow>
                         (case claim_moves t now of
                            Inl e \<Rightarrow> (Inl e, m)
                          | Inr t' \<Rightarrow>
                              let t'' = take_lease worker lease now t'
                              in (Inr t'', put_tasks gid (AList.update (t_id t) t'' ts) m)))))"

definition held :: "string \<Rightarrow> task_id \<Rightarrow> string \<Rightarrow> time \<Rightarrow> mem \<Rightarrow> go_error + task" where
  "held gid i worker now m =
     (case tasks_of m gid of
        None \<Rightarrow> Inl (goal_not_found gid)
      | Some ts \<Rightarrow>
          (case map_of ts i of
             None \<Rightarrow> Inl (ErrTaskNotFound, ''store: task not found: '' @ fmt_q i)
           | Some t \<Rightarrow>
               if leased_by t \<noteq> worker then
                 Inl (ErrLeaseLost, ''store: lease is no longer held by this worker: '' @ fmt_q i @
                        '' is held by '' @ fmt_q (leased_by t))
               else if \<not> after_time (lease_expiry t) now then
                 Inl (ErrLeaseLost, ''store: lease is no longer held by this worker: '' @ fmt_q i @
                        '' expired at '' @ rfc3339 (lease_expiry t))
               else Inr t))"

text \<open>Writing one task back.\<close>

definition put_task :: "string \<Rightarrow> task_id \<Rightarrow> task \<Rightarrow> mem \<Rightarrow> mem" where
  "put_task gid i t m =
     (case tasks_of m gid of None \<Rightarrow> m | Some ts \<Rightarrow> put_tasks gid (AList.update i t ts) m)"

text \<open>\<open>PropagateFailure\<close> on the stored graph of a goal.\<close>

definition propagate_in :: "string \<Rightarrow> mem \<Rightarrow> (go_error + unit) \<times> mem" where
  "propagate_in gid m =
     (case tasks_of m gid of
        None \<Rightarrow> (Inl nil_deref, m)
      | Some ts \<Rightarrow>
          (case propagate_failure ts of
             None \<Rightarrow> (Inl nil_deref, m)
           | Some (_, ts') \<Rightarrow> (Inr (), put_tasks gid ts' m)))"

definition renew :: "string \<Rightarrow> task_id \<Rightarrow> string \<Rightarrow> duration \<Rightarrow> time \<Rightarrow> mem \<Rightarrow> (go_error + unit) \<times> mem" where
  "renew gid i worker lease now m =
     (case held gid i worker now m of
        Inl e \<Rightarrow> (Inl e, m)
      | Inr t \<Rightarrow> (Inr (), put_task gid i (t\<lparr>lease_expiry := now + lease, t_updated := now\<rparr>) m))"

definition complete :: "string \<Rightarrow> task_id \<Rightarrow> string \<Rightarrow> task_state \<Rightarrow> string \<Rightarrow> string \<Rightarrow> time \<Rightarrow> mem
    \<Rightarrow> (go_error + unit) \<times> mem" where
  "complete gid i worker next result failure now m =
     (case held gid i worker now m of
        Inl e \<Rightarrow> (Inl e, m)
      | Inr t \<Rightarrow>
          (case transition t next now of
             Inl e \<Rightarrow> (Inl e, m)
           | Inr t' \<Rightarrow>
               let m' = put_task gid i (t'\<lparr>t_result := result, t_failure := failure,
                                          leased_by := '''', lease_expiry := zero_time\<rparr>) m
               in if next = Failed then propagate_in gid m' else (Inr (), m')))"

definition release :: "string \<Rightarrow> task_id \<Rightarrow> string \<Rightarrow> time \<Rightarrow> mem \<Rightarrow> (go_error + unit) \<times> mem" where
  "release gid i worker now m =
     (case held gid i worker now m of
        Inl e \<Rightarrow> (Inl e, m)
      | Inr t \<Rightarrow>
          (case transition t Ready now of
             Inl e \<Rightarrow> (Inl e, m)
           | Inr t' \<Rightarrow>
               (Inr (), put_task gid i (t'\<lparr>leased_by := '''', lease_expiry := zero_time\<rparr>) m)))"

section \<open>Decisions and cancellation\<close>

definition decide :: "string \<Rightarrow> task_id \<Rightarrow> bool \<Rightarrow> time \<Rightarrow> mem \<Rightarrow> (go_error + unit) \<times> mem" where
  "decide gid i approve now m =
     (case tasks_of m gid of
        None \<Rightarrow> (Inl (goal_not_found gid), m)
      | Some ts \<Rightarrow>
          (case map_of ts i of
             None \<Rightarrow> (Inl (ErrTaskNotFound, ''store: task not found: '' @ fmt_q i), m)
           | Some t \<Rightarrow>
               if t_state t \<noteq> AwaitingApproval then
                 (Inl (ErrNotClaimable, ''store: task is not claimable: '' @ fmt_q i @ '' is '' @
                         state_name (t_state t) @ '', not awaiting approval''), m)
               else (case transition t (if approve then Ready else Cancelled) now of
                       Inl e \<Rightarrow> (Inl e, m)
                     | Inr t' \<Rightarrow>
                         if approve then (Inr (), put_task gid i (t'\<lparr>approved := True\<rparr>) m)
                         else propagate_in gid
                                (put_task gid i (t'\<lparr>approved := False, t_failure := ''declined''\<rparr>) m))))"

definition cancellable :: "task \<Rightarrow> time \<Rightarrow> bool" where
  "cancellable t now =
     (if terminal (t_state t) then False
      else \<not> (leased_by t \<noteq> '''' \<and> after_time (lease_expiry t) now))"

fun cancel_tasks :: "time \<Rightarrow> tasks \<Rightarrow> (int \<times> go_error option) \<times> tasks" where
  "cancel_tasks now [] = ((0, None), [])"
| "cancel_tasks now ((i, t) # ts) =
     (if \<not> cancellable t now then
        (let (r, ts') = cancel_tasks now ts in (r, (i, t) # ts'))
      else (case transition t Cancelled now of
              Inl (s, msg) \<Rightarrow>
                ((0, Some (s, ''store: cancelling '' @ fmt_q (t_id t) @ '': '' @ msg)), (i, t) # ts)
            | Inr t' \<Rightarrow>
                (let ((n, e), ts') = cancel_tasks now ts in ((n + 1, e), (i, t') # ts'))))"

definition cancel :: "string \<Rightarrow> time \<Rightarrow> mem \<Rightarrow> (int \<times> go_error option) \<times> mem" where
  "cancel gid now m =
     (case map_of (goals m) gid of
        None \<Rightarrow> ((0, Some (goal_not_found gid)), m)
      | Some g \<Rightarrow>
          (case cancel_goal g now of
             Inl e \<Rightarrow> ((0, Some e), m)
           | Inr g' \<Rightarrow>
               let m' = m\<lparr>goals := AList.update gid g' (goals m)\<rparr>
               in (case tasks_of m' gid of
                     None \<Rightarrow> ((0, None), m')
                   | Some ts \<Rightarrow> let (r, ts') = cancel_tasks now ts in (r, put_tasks gid ts' m'))))"

section \<open>Checkpoints\<close>

definition checkpoints_of :: "mem \<Rightarrow> string \<Rightarrow> checkpoint list" where
  "checkpoints_of m gid = (case map_of (checkpoints m) gid of None \<Rightarrow> [] | Some cps \<Rightarrow> cps)"

definition add_checkpoint :: "checkpoint \<Rightarrow> mem \<Rightarrow> mem" where
  "add_checkpoint cp m = m\<lparr>checkpoints :=
     AList.update (cp_goal cp) (checkpoints_of m (cp_goal cp) @ [cp]) (checkpoints m)\<rparr>"

definition latest_checkpoint :: "string \<Rightarrow> mem \<Rightarrow> checkpoint option" where
  "latest_checkpoint gid m =
     (let cps = checkpoints_of m gid in if cps = [] then None else Some (last cps))"

end
