(* ===== verification/Store_Inv.thy ===== *)
theory Store_Inv
  imports Store
begin

text \<open>
  The invariant of the stored graphs and its preservation by every store operation: graphs stay
  validated, a task that runs or waits for a person has its dependencies met, a task that no worker
  holds carries no lease, and every change of state is a path of the transition table.
\<close>

section \<open>Reads after writes\<close>

named_theorems store_simps \<open>reads of the store after a write\<close>

lemma tasks_of_put_tasks [store_simps]:
  "tasks_of (put_tasks gid ts m) gid' =
     (if gid' = gid then map_option (\<lambda>_. ts) (tasks_of m gid) else tasks_of m gid')"
  by (auto simp: tasks_of_def put_tasks_def split: option.splits)

lemma put_tasks_goals [store_simps]:
  "goals (put_tasks gid ts m) = goals m" "checkpoints (put_tasks gid ts m) = checkpoints m"
  by (auto simp: put_tasks_def split: option.splits)

lemma put_task_goals [store_simps]:
  "goals (put_task gid i t m) = goals m" "checkpoints (put_task gid i t m) = checkpoints m"
  by (auto simp: put_task_def store_simps split: option.splits)

lemma tasks_of_put_task [store_simps]:
  "tasks_of (put_task gid i t m) gid' =
     (if gid' = gid then map_option (AList.update i t) (tasks_of m gid) else tasks_of m gid')"
  by (auto simp: put_task_def store_simps split: option.splits)

lemma tasks_of_put_goal [store_simps]: "tasks_of (put_goal g m) = tasks_of m"
  by (auto simp: put_goal_def tasks_of_def)

lemma goals_put_goal [store_simps]: "goals (put_goal g m) = AList.update (g_id g) g (goals m)"
  by (simp add: put_goal_def)

lemma tasks_of_goals_update [store_simps]: "tasks_of (m\<lparr>goals := gs\<rparr>) = tasks_of m"
  by (auto simp: tasks_of_def)

lemma tasks_of_add_checkpoint [store_simps]:
  "tasks_of (add_checkpoint cp m) = tasks_of m" "goals (add_checkpoint cp m) = goals m"
  by (auto simp: add_checkpoint_def tasks_of_def)

lemma tasks_of_save_dag [store_simps]:
  "tasks_of (save_dag d m) gid = (if gid = dag_goal d then Some (dag_tasks d) else tasks_of m gid)"
  "goals (save_dag d m) = goals m"
  by (auto simp: save_dag_def tasks_of_def)

section \<open>Moves\<close>

text \<open>A path of the transition table, possibly empty.\<close>

definition moves :: "task_state \<Rightarrow> task_state \<Rightarrow> bool" where
  "moves = can_transition_to\<^sup>*\<^sup>*"

lemma moves_refl [simp, intro]: "moves s s"
  by (simp add: moves_def)

lemma moves_trans: "moves s t \<Longrightarrow> moves t u \<Longrightarrow> moves s u"
  unfolding moves_def by (rule rtranclp_trans)

lemma moves_one: "can_transition_to s t \<Longrightarrow> moves s t"
  by (simp add: moves_def r_into_rtranclp)

lemma terminal_transitions: "terminal s \<longleftrightarrow> transitions s = []"
  by (cases s) auto

lemma moves_terminal: "moves s t \<Longrightarrow> terminal s \<Longrightarrow> t = s"
  unfolding moves_def
  by (induction rule: converse_rtranclp_induct) (auto simp: can_transition_to_def terminal_transitions)

lemma transition_Inr:
  "transition t s now = Inr t' \<longleftrightarrow> can_transition_to (t_state t) s \<and> t' = t\<lparr>t_state := s, t_updated := now\<rparr>"
  by (auto simp: transition_def)

lemma transition_Inl: "transition t s now = Inl e \<longleftrightarrow> \<not> can_transition_to (t_state t) s \<and>
    e = illegal_move (t_state t) s (t_id t)"
  by (auto simp: transition_def)

text \<open>The part of a task that no store operation writes.\<close>

definition same_task :: "task \<Rightarrow> task \<Rightarrow> bool" where
  "same_task t t' \<longleftrightarrow> t_id t' = t_id t \<and> t_goal t' = t_goal t \<and> t_kind t' = t_kind t \<and>
     depends_on t' = depends_on t \<and> contributes t' = contributes t \<and>
     spawn_depth t' = spawn_depth t \<and> idempotency_key t' = idempotency_key t \<and> t_created t' = t_created t"

lemma same_task_refl [simp, intro]: "same_task t t"
  by (simp add: same_task_def)

lemma same_task_trans: "same_task t u \<Longrightarrow> same_task u v \<Longrightarrow> same_task t v"
  by (simp add: same_task_def)

lemma same_task_edges: "same_task t t' \<Longrightarrow> edges t' = edges t"
  by (simp add: same_task_def edges_alt)

lemma same_task_block_on [simp]: "same_task t (block_on t dep ds)"
  by (simp add: same_task_def block_on_def)

definition advances :: "tasks \<Rightarrow> tasks \<Rightarrow> bool" where
  "advances ts ts' \<longleftrightarrow> (\<forall>i t. map_of ts i = Some t \<longrightarrow>
     (\<exists>t'. map_of ts' i = Some t' \<and> same_task t t' \<and> moves (t_state t) (t_state t')))"

lemma advances_refl [simp, intro]: "advances ts ts"
  by (auto simp: advances_def)

lemma advances_trans: "advances ts us \<Longrightarrow> advances us vs \<Longrightarrow> advances ts vs"
  unfolding advances_def by (meson moves_trans same_task_trans)

lemma advancesE:
  assumes "advances ts ts'" "map_of ts i = Some t"
  obtains t' where "map_of ts' i = Some t'" "same_task t t'" "moves (t_state t) (t_state t')"
  using assms unfolding advances_def by blast

lemma advances_terminal:
  assumes "advances ts ts'" "map_of ts i = Some t" "terminal (t_state t)"
  shows "\<exists>t'. map_of ts' i = Some t' \<and> t_state t' = t_state t"
  using assms by (auto elim!: advancesE dest: moves_terminal)

lemma deps_ok_advances:
  assumes adv: "advances ts ts'" and ok: "deps_ok ts t" and same: "same_task t t'"
  shows "deps_ok ts' t'"
  unfolding deps_ok_def
proof (intro conjI ballI)
  fix x assume "x \<in> set (depends_on t')"
  with same ok obtain d where d: "map_of ts x = Some d" "t_state d = Succeeded"
    by (auto simp: deps_ok_def same_task_def)
  then show "\<exists>d. map_of ts' x = Some d \<and> t_state d = Succeeded"
    using advances_terminal [OF adv d(1)] by simp
next
  fix x assume "x \<in> set (contributes t')"
  with same ok obtain d where d: "map_of ts x = Some d" "terminal (t_state d)"
    by (auto simp: deps_ok_def same_task_def)
  then show "\<exists>d. map_of ts' x = Some d \<and> terminal (t_state d)"
    using advances_terminal [OF adv d(1)] by auto
qed

section \<open>The invariant of one graph\<close>

definition active :: "task_state \<Rightarrow> bool" where
  "active s \<longleftrightarrow> s = Running \<or> s = AwaitingApproval"

definition lease_clean :: "task \<Rightarrow> bool" where
  "lease_clean t \<longleftrightarrow> t_state t = Running \<or> t_state t = Cancelled \<or> leased_by t = ''''"

definition sound_task :: "tasks \<Rightarrow> task \<Rightarrow> bool" where
  "sound_task ts t \<longleftrightarrow> (active (t_state t) \<longrightarrow> deps_ok ts t) \<and> lease_clean t"

definition sound :: "tasks \<Rightarrow> bool" where
  "sound ts \<longleftrightarrow> graph_wf ts \<and> (\<forall>i t. map_of ts i = Some t \<longrightarrow> sound_task ts t)"

lemma soundD: "sound ts \<Longrightarrow> map_of ts i = Some t \<Longrightarrow> sound_task ts t"
  by (simp add: sound_def)

lemma sound_wf: "sound ts \<Longrightarrow> graph_wf ts"
  by (simp add: sound_def)

text \<open>The graph's shape is a function of the ids and the edges.\<close>

lemma graph_wf_same_shape:
  assumes wf: "graph_wf ts" and keys: "map fst ts' = map fst ts"
    and same: "\<And>i t. map_of ts i = Some t \<Longrightarrow> \<exists>t'. map_of ts' i = Some t' \<and> same_task t t'"
  shows "graph_wf ts'"
proof -
  have dist: "distinct (map fst ts')" using wf keys by (simp add: graph_wf_def)
  have orig: "\<exists>t. map_of ts i = Some t \<and> same_task t t'" if "map_of ts' i = Some t'" for i t'
  proof -
    from that have "i \<in> set (map fst ts)" using keys map_of_Some_key by metis
    then obtain t where "map_of ts i = Some t" using key_map_of_Some by fastforce
    with same that show ?thesis by fastforce
  qed
  have rel: "dep_rel ts' = dep_rel ts"
  proof -
    have "(\<exists>t. map_of ts' x = Some t \<and> y \<in> set (edges t)) \<longleftrightarrow> (\<exists>t. map_of ts x = Some t \<and> y \<in> set (edges t))" for x y
    proof
      assume "\<exists>t. map_of ts' x = Some t \<and> y \<in> set (edges t)"
      then obtain t' where t': "map_of ts' x = Some t'" "y \<in> set (edges t')" by blast
      from orig [OF t'(1)] obtain t where "map_of ts x = Some t" "same_task t t'" by blast
      with t'(2) same_task_edges [of t t'] show "\<exists>t. map_of ts x = Some t \<and> y \<in> set (edges t)" by auto
    next
      assume "\<exists>t. map_of ts x = Some t \<and> y \<in> set (edges t)"
      then obtain t where t: "map_of ts x = Some t" "y \<in> set (edges t)" by blast
      from same [OF t(1)] obtain t' where "map_of ts' x = Some t'" "same_task t t'" by blast
      with t(2) same_task_edges [of t t'] show "\<exists>t. map_of ts' x = Some t \<and> y \<in> set (edges t)" by auto
    qed
    then show ?thesis by (simp add: dep_rel_def)
  qed
  have idk: "\<forall>(i, t) \<in> set ts'. t_id t = i"
  proof (clarify)
    fix i t' assume "(i, t') \<in> set ts'"
    with dist have "map_of ts' i = Some t'" by simp
    with orig obtain t where t: "map_of ts i = Some t" "same_task t t'" by blast
    then show "t_id t' = i" using graph_wfD(4) [OF wf t(1)] by (simp add: same_task_def)
  qed
  have "refs_closed ts'"
  proof -
    have "set (edges t') \<subseteq> fst ` set ts'" if "(i, t') \<in> set ts'" for i t'
    proof -
      from that dist have "map_of ts' i = Some t'" by simp
      with orig obtain t where t: "map_of ts i = Some t" "same_task t t'" by blast
      have "fst ` set ts' = fst ` set ts" using keys by (metis list.set_map)
      moreover have "set (edges t) \<subseteq> fst ` set ts"
        using graph_wfD(2) [OF wf] map_of_SomeD [OF t(1)] by (auto simp: refs_closed_def)
      ultimately show ?thesis using same_task_edges [OF t(2)] by simp
    qed
    then show ?thesis by (auto simp: refs_closed_def)
  qed
  with dist idk rel graph_wfD(3) [OF wf] show ?thesis by (simp add: graph_wf_def)
qed

lemma advances_sound:
  assumes sound: "sound ts" and keys: "map fst ts' = map fst ts" and adv: "advances ts ts'"
    and new: "\<And>i t t'. map_of ts i = Some t \<Longrightarrow> map_of ts' i = Some t' \<Longrightarrow> t' \<noteq> t \<Longrightarrow>
      (active (t_state t') \<longrightarrow> deps_ok ts t) \<and> lease_clean t'"
  shows "sound ts'"
  unfolding sound_def
proof (intro conjI allI impI)
  show "graph_wf ts'"
    by (rule graph_wf_same_shape [OF sound_wf [OF sound] keys]) (auto elim: advancesE [OF adv])
  fix i t' assume t': "map_of ts' i = Some t'"
  then have "i \<in> set (map fst ts)" using keys map_of_Some_key by metis
  then obtain t where t: "map_of ts i = Some t" using key_map_of_Some by fastforce
  from advancesE [OF adv t] t' have same: "same_task t t'" by auto
  show "sound_task ts' t'"
  proof (cases "t' = t")
    case True
    with soundD [OF sound t] deps_ok_advances [OF adv _ same] show ?thesis by (auto simp: sound_task_def)
  next
    case False
    with new [OF t t'] deps_ok_advances [OF adv _ same] show ?thesis by (auto simp: sound_task_def)
  qed
qed

section \<open>Writes to a graph\<close>

lemma update_advances:
  assumes "map_of ts i = Some t" "same_task t t'" "moves (t_state t) (t_state t')"
  shows "advances ts (AList.update i t' ts)"
  using assms by (auto simp: advances_def)

lemma update_sound:
  assumes "sound ts" "map_of ts i = Some t" "same_task t t'" "moves (t_state t) (t_state t')"
    "active (t_state t') \<longrightarrow> deps_ok ts t" "lease_clean t'"
  shows "sound (AList.update i t' ts)"
  using assms by (intro advances_sound [OF _ _ update_advances]) (auto simp: alist_simps split: if_splits)

lemma deps_ok_not_doomed:
  assumes "deps_ok ts t" "map_of ts i = Some t" "\<not> terminal (t_state t)"
  shows "\<not> doomed ts i"
proof
  assume "doomed ts i"
  then obtain d where d: "d \<in> set (depends_on t)" "doomed ts d"
    using assms(2,3) by (cases rule: doomed.cases) (auto dest: failed_dep_terminal)
  with assms(1) obtain u where "map_of ts d = Some u" "t_state u = Succeeded"
    by (auto simp: deps_ok_def)
  with d(2) show False by (cases rule: doomed.cases) (auto simp: failed_dep_def)
qed

lemma sound_blocked:
  assumes sound: "sound ts" and t: "map_of ts i = Some t" "\<not> terminal (t_state t)" "doomed ts i"
  shows "t_state t = Pending \<or> t_state t = Ready"
proof -
  have "\<not> active (t_state t)"
    using soundD [OF sound t(1)] deps_ok_not_doomed [OF _ t(1,2)] t(3) by (auto simp: sound_task_def)
  with t(2) show ?thesis by (cases "t_state t") (auto simp: active_def)
qed

lemma only_blocks_advances:
  assumes sound: "sound ts" and ob: "only_blocks ts ts'"
  shows "advances ts ts'"
  unfolding advances_def
proof (intro allI impI)
  fix i t assume t: "map_of ts i = Some t"
  show "\<exists>t'. map_of ts' i = Some t' \<and> same_task t t' \<and> moves (t_state t) (t_state t')"
  proof (rule only_blocksD [OF ob t])
    fix dep ds assume b: "map_of ts' i = Some (block_on t dep ds)" "\<not> terminal (t_state t)" "doomed ts i"
    have "can_transition_to (t_state t) Blocked"
      using sound_blocked [OF sound t b(2,3)] by (auto simp: can_transition_to_def)
    with b(1) show ?thesis by (auto intro: moves_one)
  qed auto
qed

lemma propagate_sound:
  assumes sound: "sound ts" and p: "propagate_failure ts = Some (n, ts')"
  shows "sound ts'" "advances ts ts'" "map fst ts' = map fst ts"
proof -
  note ob = propagate_spec(1) [OF p]
  show keys: "map fst ts' = map fst ts" using ob by (simp add: only_blocks_def)
  show adv: "advances ts ts'" by (rule only_blocks_advances [OF sound ob])
  show "sound ts'"
  proof (rule advances_sound [OF sound keys adv])
    fix i t t' assume t: "map_of ts i = Some t" and t': "map_of ts' i = Some t'" "t' \<noteq> t"
    show "(active (t_state t') \<longrightarrow> deps_ok ts t) \<and> lease_clean t'"
    proof (rule only_blocksD [OF ob t])
      fix dep ds assume b: "map_of ts' i = Some (block_on t dep ds)" "\<not> terminal (t_state t)" "doomed ts i"
      with sound_blocked [OF sound t b(2,3)] soundD [OF sound t] t'
      show ?thesis by (auto simp: active_def sound_task_def lease_clean_def)
    qed (use t' in auto)
  qed
qed

lemma sound_propagates: "sound ts \<Longrightarrow> \<exists>n ts'. propagate_failure ts = Some (n, ts')"
  using propagate_total [OF sound_wf] by fastforce

text \<open>Cancelling a graph: on every task the transition is legal, so the loop never stops early.\<close>

definition cancel_task :: "time \<Rightarrow> task \<Rightarrow> task" where
  "cancel_task now t = (if cancellable t now then t\<lparr>t_state := Cancelled, t_updated := now\<rparr> else t)"

lemma cancellable_legal: "cancellable t now \<Longrightarrow> can_transition_to (t_state t) Cancelled"
  by (cases "t_state t") (auto simp: cancellable_def can_transition_to_def)

lemma cancel_tasks_eq:
  "cancel_tasks now ts =
     ((int (length (filter (\<lambda>(_, t). cancellable t now) ts)), None), map (\<lambda>(i, t). (i, cancel_task now t)) ts)"
  by (induction now ts rule: cancel_tasks.induct)
     (auto simp: cancel_task_def transition_def cancellable_legal Let_def)

lemma map_of_cancel: "map_of (map (\<lambda>(i, t). (i, cancel_task now t)) ts) i = map_option (cancel_task now) (map_of ts i)"
  by (induction ts) auto

lemma same_task_cancel [simp]: "same_task t (cancel_task now t)"
  by (simp add: cancel_task_def same_task_def)

lemma moves_cancel: "moves (t_state t) (t_state (cancel_task now t))"
  by (auto simp: cancel_task_def intro: moves_one cancellable_legal)

lemma cancel_tasks_sound:
  assumes "sound ts" "cancel_tasks now ts = (r, ts')"
  shows "sound ts'" "advances ts ts'" "map fst ts' = map fst ts"
proof -
  have ts': "ts' = map (\<lambda>(i, t). (i, cancel_task now t)) ts" using assms(2) by (simp add: cancel_tasks_eq)
  then show keys: "map fst ts' = map fst ts" by (simp add: case_prod_beta comp_def)
  show adv: "advances ts ts'"
    by (auto simp: advances_def ts' map_of_cancel moves_cancel)
  show "sound ts'"
  proof (rule advances_sound [OF assms(1) keys adv])
    fix i t t' assume t: "map_of ts i = Some t" "map_of ts' i = Some t'" "t' \<noteq> t"
    then have "t' = cancel_task now t" by (simp add: ts' map_of_cancel)
    with t(3) show "(active (t_state t') \<longrightarrow> deps_ok ts t) \<and> lease_clean t'"
      by (simp add: cancel_task_def active_def lease_clean_def split: if_splits)
  qed
qed

text \<open>A replanned graph: the tasks there were, unchanged, and new ones that nobody has started.\<close>

definition grows :: "tasks \<Rightarrow> tasks \<Rightarrow> bool" where
  "grows ts ts' \<longleftrightarrow> graph_wf ts' \<and>
     (\<forall>i t. map_of ts i = Some t \<longrightarrow> map_of ts' i = Some t) \<and>
     (\<forall>i t. map_of ts' i = Some t \<longrightarrow> map_of ts i = Some t \<or> t_state t = Pending \<and> leased_by t = '''')"

lemma grows_advances: "grows ts ts' \<Longrightarrow> advances ts ts'"
  by (auto simp: grows_def advances_def)

lemma grows_sound:
  assumes "sound ts" "grows ts ts'"
  shows "sound ts'"
  unfolding sound_def
proof (intro conjI allI impI)
  show "graph_wf ts'" using assms(2) by (simp add: grows_def)
  fix i t assume "map_of ts' i = Some t"
  with assms(2) consider "map_of ts i = Some t" | "t_state t = Pending" "leased_by t = ''''"
    unfolding grows_def by blast
  then show "sound_task ts' t"
  proof cases
    case 1
    with soundD [OF assms(1)] deps_ok_advances [OF grows_advances [OF assms(2)], of t t]
    show ?thesis by (auto simp: sound_task_def)
  qed (auto simp: sound_task_def active_def lease_clean_def)
qed

lemma sound_Nil: "sound []"
  by (simp add: sound_def graph_wf_def refs_closed_def dep_rel_def acyclic_def)

lemma fresh_sound: "grows [] ts \<Longrightarrow> sound ts"
  by (rule grows_sound [OF sound_Nil])

end
