(* ===== verification/Planner.thy ===== *)
theory Planner
  imports Autonomy Store_Inv
begin

text \<open>
  Package \<open>internal/planner\<close>: the registry that builds a goal's graph and bounds its growth, and the
  four planners.  \<open>json.Unmarshal\<close> of a task result into findings is the parameter \<open>decode\<close>; nothing
  proved here depends on what it returns.
\<close>

section \<open>Kinds\<close>

definition KindAssessAxis :: string where "KindAssessAxis = ''assess_axis''"
definition KindSynthesise :: string where "KindSynthesise = ''synthesise_assessment''"
definition KindGenerateCases :: string where "KindGenerateCases = ''generate_eval_cases''"
definition KindQualityGate :: string where "KindQualityGate = ''eval_quality_gate''"
definition KindPublishEvalSet :: string where "KindPublishEvalSet = ''publish_eval_set''"
definition KindProposeChange :: string where "KindProposeChange = ''propose_change''"
definition KindVerifyProposal :: string where "KindVerifyProposal = ''verify_proposal''"
definition KindOpenPR :: string where "KindOpenPR = ''open_pull_request''"
definition KindCompare :: string where "KindCompare = ''compare_results''"

lemmas kind_defs = KindAssessAxis_def KindSynthesise_def KindGenerateCases_def KindQualityGate_def
  KindPublishEvalSet_def KindProposeChange_def KindVerifyProposal_def KindOpenPR_def KindCompare_def

section \<open>The registry\<close>

record planner =
  pl_intent :: string
  pl_plan :: "goal \<Rightarrow> time \<Rightarrow> go_error + task list"
  pl_replan :: "goal \<Rightarrow> tasks \<Rightarrow> time \<Rightarrow> go_error + task list"

type_synonym planner_registry = "(string \<times> planner) list"

definition planner_error :: "string \<Rightarrow> go_error" where
  "planner_error msg = (Opaque, ''planner: '' @ msg)"

fun add_planners :: "planner_registry \<Rightarrow> planner list \<Rightarrow> go_error + planner_registry" where
  "add_planners r [] = Inr r"
| "add_planners r (p # ps) =
     (if \<not> durable (pl_intent p) then
        Inl (planner_error (fmt_q (pl_intent p) @ '' is not a durable goal and does not get a planner''))
      else (case map_of r (pl_intent p) of
              Some _ \<Rightarrow> Inl (planner_error (''two planners registered for '' @ fmt_q (pl_intent p)))
            | None \<Rightarrow> add_planners (AList.update (pl_intent p) p r) ps))"

fun join_spaces :: "string list \<Rightarrow> string" where
  "join_spaces [] = ''''"
| "join_spaces [s] = s"
| "join_spaces (s # ss) = s @ '' '' @ join_spaces ss"

definition missing_planners :: "planner_registry \<Rightarrow> string list" where
  "missing_planners r = filter (\<lambda>i. map_of r i = None) (in_tier TierGoal)"

definition new_planner_registry :: "planner list \<Rightarrow> go_error + planner_registry" where
  "new_planner_registry ps =
     (case add_planners [] ps of
        Inl e \<Rightarrow> Inl e
      | Inr r \<Rightarrow>
          let missing = missing_planners r in
          if missing \<noteq> [] then
            Inl (planner_error (''durable intents with no planner: ['' @ join_spaces (sort missing) @ ''] '' @
              em_dash @ '' such a goal would admit, plan nothing, and report an idle state forever''))
          else Inr r)"

definition planner_for :: "planner_registry \<Rightarrow> string \<Rightarrow> planner option" where
  "planner_for r i = map_of r i"

fun require_all :: "task list \<Rightarrow> go_error + unit" where
  "require_all [] = Inr ()"
| "require_all (t # ts) = (case require_idempotency t of Inl e \<Rightarrow> Inl e | Inr _ \<Rightarrow> require_all ts)"

definition build :: "planner_registry \<Rightarrow> goal \<Rightarrow> time \<Rightarrow> go_error + dag" where
  "build r g now =
     (case map_of r (g_intent g) of
        None \<Rightarrow> Inl (planner_error (''no planner for '' @ fmt_q (g_intent g)))
      | Some p \<Rightarrow>
          (case pl_plan p g now of
             Inl e \<Rightarrow> Inl e
           | Inr ts \<Rightarrow>
               if length ts = 0 then
                 Inl (planner_error (fmt_q (g_intent g) @
                   '' planned no tasks; a goal with an empty plan is idle forever''))
               else if int (length ts) > max_tasks (g_ceilings g) then
                 Inl (planner_error (fmt_q (g_intent g) @ '' planned '' @ itoa (int (length ts)) @
                   '' tasks, ceiling is '' @ itoa (max_tasks (g_ceilings g))))
               else (case require_all ts of
                       Inl e \<Rightarrow> Inl e
                     | Inr _ \<Rightarrow> new_dag (g_id g) ts)))"

text \<open>The loop over the proposed tasks.  On an error Go returns nil or what was added so far beside it; the caller drops both.\<close>

fun revise_loop :: "ceilings \<Rightarrow> tasks \<Rightarrow> task list \<Rightarrow> task list \<Rightarrow> go_error + task list" where
  "revise_loop c ts added [] = Inr added"
| "revise_loop c ts added (t # rest) =
     (case map_of ts (t_id t) of
        Some _ \<Rightarrow> revise_loop c ts added rest
      | None \<Rightarrow>
          if spawn_depth t > max_spawn_depth c then
            Inl (planner_error (''task '' @ fmt_q (t_id t) @ '' at spawn depth '' @ itoa (spawn_depth t) @
              '' exceeds the ceiling of '' @ itoa (max_spawn_depth c)))
          else if int (length ts) + int (length added) \<ge> max_tasks c then
            Inl (planner_error (''adding '' @ fmt_q (t_id t) @ '' would exceed the task ceiling of '' @
              itoa (max_tasks c)))
          else (case require_idempotency t of
                  Inl e \<Rightarrow> Inl e
                | Inr _ \<Rightarrow> revise_loop c ts (added @ [t]) rest))"

definition revise :: "planner_registry \<Rightarrow> goal \<Rightarrow> tasks \<Rightarrow> time \<Rightarrow> go_error + task list" where
  "revise r g ts now =
     (case map_of r (g_intent g) of
        None \<Rightarrow> Inl (planner_error (''no planner for '' @ fmt_q (g_intent g)))
      | Some p \<Rightarrow>
          (case pl_replan p g ts now of
             Inl e \<Rightarrow> Inl e
           | Inr proposed \<Rightarrow> revise_loop (g_ceilings g) ts [] proposed))"

section \<open>Helpers of the planners\<close>

definition new_task :: "goal \<Rightarrow> string \<Rightarrow> string \<Rightarrow> int \<Rightarrow> time \<Rightarrow> task_id list \<Rightarrow> task" where
  "new_task g i kind depth now deps =
     \<lparr>t_id = i, t_goal = g_id g, t_kind = kind, depends_on = deps, contributes = [], t_state = Pending,
      attempt = 0, spawn_depth = depth, idempotency_key = '''', approved = False, t_result = '''',
      t_failure = '''', leased_by = '''', lease_expiry = zero_time, t_created = now, t_updated = now\<rparr>"

definition axes_of :: "goal \<Rightarrow> string list" where
  "axes_of g = (if length (g_axes g) > 0 then g_axes g else axes)"

definition succeeded_of_kind :: "tasks \<Rightarrow> string \<Rightarrow> task list" where
  "succeeded_of_kind ts kind =
     sort_key t_id (filter (\<lambda>t. t_kind t = kind \<and> t_state t = Succeeded) (map snd ts))"

record finding =
  f_axis :: string
  f_weakness :: string
  f_actionable :: bool

definition decode_findings :: "(string \<Rightarrow> finding list) \<Rightarrow> task \<Rightarrow> finding list" where
  "decode_findings decode t = (if t_result t = '''' then [] else decode (t_result t))"

section \<open>The planners\<close>

definition assess_task_id :: "string \<Rightarrow> string" where
  "assess_task_id a = ''assess-'' @ a"

definition assess_plan :: "goal \<Rightarrow> time \<Rightarrow> go_error + task list" where
  "assess_plan g now =
     Inr (map (\<lambda>a. new_task g (assess_task_id a) KindAssessAxis 0 now []) (axes_of g) @
          [new_task g ''synthesise'' KindSynthesise 0 now (map assess_task_id (axes_of g))])"

definition no_replan :: "goal \<Rightarrow> tasks \<Rightarrow> time \<Rightarrow> go_error + task list" where
  "no_replan g ts now = Inr []"

definition chain_base :: "finding \<Rightarrow> nat \<Rightarrow> string" where
  "chain_base f i = f_axis f @ ''-'' @ itoa (int i)"

definition proposal_chain :: "goal \<Rightarrow> time \<Rightarrow> task_id \<Rightarrow> string \<Rightarrow> task list" where
  "proposal_chain g now assessed base =
     (let propose = ''propose-'' @ base; verify = ''verify-'' @ base; pr = ''pr-'' @ base in
      [new_task g propose KindProposeChange 1 now [assessed],
       new_task g verify KindVerifyProposal 2 now [propose],
       (new_task g pr KindOpenPR 3 now [verify])
         \<lparr>idempotency_key := g_id g @ '':'' @ revision (g_subject g) @ '':'' @ base\<rparr>])"

fun finding_chains :: "goal \<Rightarrow> time \<Rightarrow> task_id \<Rightarrow> nat \<Rightarrow> finding list \<Rightarrow> task list" where
  "finding_chains g now assessed i [] = []"
| "finding_chains g now assessed i (f # fs) =
     (if \<not> f_actionable f then finding_chains g now assessed (Suc i) fs
      else proposal_chain g now assessed (chain_base f i) @ finding_chains g now assessed (Suc i) fs)"

definition improve_replan :: "(string \<Rightarrow> finding list) \<Rightarrow> goal \<Rightarrow> tasks \<Rightarrow> time \<Rightarrow> go_error + task list" where
  "improve_replan decode g ts now =
     Inr (concat (map (\<lambda>a. finding_chains g now (t_id a) 0 (decode_findings decode a))
            (succeeded_of_kind ts KindAssessAxis)))"

definition generators :: "string list" where
  "generators = [''seed_from_real_traces'', ''schema_driven'', ''llm_driven'', ''adversarial_perturbation'']"

definition evalset_plan :: "goal \<Rightarrow> time \<Rightarrow> go_error + task list" where
  "evalset_plan g now =
     Inr (map (\<lambda>gen. new_task g (''generate-'' @ gen) KindGenerateCases 0 now []) generators @
          [(new_task g ''quality-gate'' KindQualityGate 0 now [])
             \<lparr>contributes := map (\<lambda>gen. ''generate-'' @ gen) generators\<rparr>,
           (new_task g ''publish'' KindPublishEvalSet 0 now [''quality-gate''])
             \<lparr>idempotency_key := g_id g @ '':'' @ revision (g_subject g) @ '':evalset''\<rparr>])"

definition compare_plan :: "goal \<Rightarrow> time \<Rightarrow> go_error + task list" where
  "compare_plan g now =
     Inr (map (\<lambda>a. new_task g (assess_task_id a) KindAssessAxis 0 now []) (axes_of g) @
          [new_task g ''compare'' KindCompare 0 now (map assess_task_id (axes_of g))])"

definition Assess :: planner where
  "Assess = \<lparr>pl_intent = ''assess'', pl_plan = assess_plan, pl_replan = no_replan\<rparr>"

definition Improve :: "(string \<Rightarrow> finding list) \<Rightarrow> planner" where
  "Improve decode = \<lparr>pl_intent = ''improve'', pl_plan = assess_plan, pl_replan = improve_replan decode\<rparr>"

definition EvalSet :: planner where
  "EvalSet = \<lparr>pl_intent = ''evalset'', pl_plan = evalset_plan, pl_replan = no_replan\<rparr>"

definition Compare :: planner where
  "Compare = \<lparr>pl_intent = ''compare'', pl_plan = compare_plan, pl_replan = no_replan\<rparr>"

definition default_planners :: "(string \<Rightarrow> finding list) \<Rightarrow> go_error + planner_registry" where
  "default_planners decode = new_planner_registry [Assess, Improve decode, EvalSet, Compare]"

end
