(* ===== verification/Planner_Contract.thy ===== *)
theory Planner_Contract
  imports Planner
begin

text \<open>
  What the registry relies on from a planner, as a locale, with the four planners as its instances;
  what \<open>build\<close> and \<open>revise\<close> guarantee to the worker; and which goals the default registry can plan.
\<close>

section \<open>The contract\<close>

definition fresh_task :: "goal \<Rightarrow> task \<Rightarrow> bool" where
  "fresh_task g t \<longleftrightarrow> t_state t = Pending \<and> t_goal t = g_id g \<and> attempt t = 0 \<and> \<not> approved t \<and>
     leased_by t = '''' \<and> t_result t = '''' \<and> t_failure t = ''''"

definition same_results :: "tasks \<Rightarrow> tasks \<Rightarrow> bool" where
  "same_results ts ts' \<longleftrightarrow> (\<forall>kind. succeeded_of_kind ts' kind = succeeded_of_kind ts kind)"

locale planner_contract =
  fixes p :: planner
  assumes plan_fresh: "pl_plan p g now = Inr ts \<Longrightarrow> t \<in> set ts \<Longrightarrow> fresh_task g t"
    and plan_ids: "pl_plan p g now = Inr ts \<Longrightarrow> \<exists>ts'. pl_plan p g later = Inr ts' \<and> map t_id ts' = map t_id ts"
    and replan_fresh: "pl_replan p g m now = Inr ps \<Longrightarrow> t \<in> set ps \<Longrightarrow> fresh_task g t"
    and replan_ids: "pl_replan p g m now = Inr ps \<Longrightarrow> same_results m m' \<Longrightarrow>
      \<exists>ps'. pl_replan p g m' later = Inr ps' \<and> map t_id ps' = map t_id ps"

lemma require_all_Inr: "require_all ts = Inr () \<longleftrightarrow> (\<forall>t \<in> set ts. require_idempotency t = Inr ())"
  by (induction ts) (auto split: sum.splits)

lemma require_idempotency_Inr:
  "require_idempotency t = Inr () \<longleftrightarrow> (effect_bearing (t_kind t) \<longrightarrow> idempotency_key t \<noteq> '''')"
  by (auto simp: require_idempotency_def)

lemma revise_loop_spec:
  "revise_loop c ts added ps = Inr out \<Longrightarrow>
     out = added @ filter (\<lambda>t. map_of ts (t_id t) = None) ps \<and>
     (\<forall>t \<in> set (filter (\<lambda>t. map_of ts (t_id t) = None) ps).
        spawn_depth t \<le> max_spawn_depth c \<and> require_idempotency t = Inr ()) \<and>
     (filter (\<lambda>t. map_of ts (t_id t) = None) ps \<noteq> [] \<longrightarrow> int (length ts) + int (length out) \<le> max_tasks c)"
proof (induction c ts added ps rule: revise_loop.induct)
  case (2 c ts added t rest)
  show ?case
  proof (cases "map_of ts (t_id t)")
    case None
    have ok: "spawn_depth t \<le> max_spawn_depth c" "int (length ts) + int (length added) < max_tasks c"
        "require_idempotency t = Inr ()"
      using "2.prems" None by (auto split: if_splits sum.splits)
    with "2.prems" None have r: "revise_loop c ts (added @ [t]) rest = Inr out" by simp
    have IH: "out = (added @ [t]) @ filter (\<lambda>t. map_of ts (t_id t) = None) rest \<and>
     (\<forall>t \<in> set (filter (\<lambda>t. map_of ts (t_id t) = None) rest).
        spawn_depth t \<le> max_spawn_depth c \<and> require_idempotency t = Inr ()) \<and>
     (filter (\<lambda>t. map_of ts (t_id t) = None) rest \<noteq> [] \<longrightarrow> int (length ts) + int (length out) \<le> max_tasks c)"
      by (rule "2.IH"(1) [OF None _ _ ok(3) r]) (use ok in auto)
    then show ?thesis using None ok
      by (cases "filter (\<lambda>t. map_of ts (t_id t) = None) rest = []") auto
  next
    case (Some u)
    then have r: "revise_loop c ts added rest = Inr out" using "2.prems" by simp
    have eq: "filter (\<lambda>t. map_of ts (t_id t) = None) (t # rest) = filter (\<lambda>t. map_of ts (t_id t) = None) rest"
      using Some by simp
    show ?thesis unfolding eq by (rule "2.IH"(2) [OF Some r])
  qed
qed simp

lemma revise_loop_known: "\<forall>t \<in> set ps. map_of ts (t_id t) \<noteq> None \<Longrightarrow> revise_loop c ts added ps = Inr added"
  by (induction ps) auto

section \<open>What the registry guarantees\<close>

text \<open>The graph after a replanning round, as the worker builds it.\<close>

definition merged :: "tasks \<Rightarrow> task list \<Rightarrow> task list" where
  "merged ts added = map snd ts @ added"

lemma by_id_self: "graph_wf ts \<Longrightarrow> by_id (map snd ts) = ts"
  unfolding by_id_def map_map comp_def by (rule map_idI) (auto simp: graph_wf_def)

lemma by_id_append: "by_id (xs @ ys) = by_id xs @ by_id ys"
  by (simp add: by_id_def)

lemma new_dag_merged:
  assumes "graph_wf ts" "new_dag g (merged ts added) = Inr d"
  shows "dag_tasks d = ts @ by_id added" "graph_wf (dag_tasks d)" "dag_goal d = g"
  using assms by (auto simp: new_dag_wf_iff merged_def by_id_append by_id_self)

lemma map_of_by_id: "map_of (by_id xs) i = Some t \<Longrightarrow> t \<in> set xs \<and> t_id t = i"
  by (auto simp: by_id_def dest: map_of_SomeD)

lemma new_dag_grows:
  assumes "graph_wf ts" "new_dag g (merged ts added) = Inr d" "\<forall>t \<in> set added. fresh_task h t"
  shows "grows ts (dag_tasks d)"
proof -
  note d = new_dag_merged [OF assms(1,2)]
  show ?thesis
    unfolding grows_def d(1)
  proof (intro conjI allI impI)
    show "graph_wf (ts @ by_id added)" using d(1,2) by simp
    fix i t assume "map_of (ts @ by_id added) i = Some t"
    then show "map_of ts i = Some t \<or> t_state t = Pending \<and> leased_by t = ''''"
      using assms(3) by (auto simp: map_add_Some_iff fresh_task_def dest: map_of_by_id)
  next
    fix i t assume t: "map_of ts i = Some t"
    have "map_of (by_id added) i = None"
    proof (rule ccontr)
      assume "map_of (by_id added) i \<noteq> None"
      then have "i \<in> set (map fst (by_id added))" by (auto dest: map_of_Some_key)
      moreover have "distinct (map fst (ts @ by_id added))" using d(1,2) by (simp add: graph_wf_def)
      ultimately show False using map_of_Some_key [OF t] by auto
    qed
    with t show "map_of (ts @ by_id added) i = Some t" by (simp add: map_add_Some_iff)
  qed
qed

lemma same_results_merged:
  assumes "\<forall>t \<in> set added. fresh_task h t"
  shows "same_results ts (ts @ by_id added)"
proof -
  have "filter (\<lambda>t. t_kind t = kind \<and> t_state t = Succeeded) (map snd (by_id added)) = []" for kind
    using assms by (auto simp: by_id_def fresh_task_def filter_empty_conv)
  then show ?thesis by (simp add: same_results_def succeeded_of_kind_def)
qed

context planner_contract
begin

lemma revised_fresh:
  assumes "map_of r (g_intent g) = Some p" "revise r g ts now = Inr added"
  shows "\<forall>t \<in> set added. fresh_task g t"
  using assms by (auto simp: revise_def dest!: revise_loop_spec intro: replan_fresh split: sum.splits)

text \<open>A round whose additions were merged is the last one until another task succeeds.\<close>

lemma revise_again:
  assumes r: "map_of r (g_intent g) = Some p" and ts: "graph_wf ts"
    and added: "revise r g ts now = Inr added" and d: "new_dag i (merged ts added) = Inr d"
  shows "revise r g (dag_tasks d) later = Inr []"
proof -
  obtain ps where ps: "pl_replan p g ts now = Inr ps" "revise_loop (g_ceilings g) ts [] ps = Inr added"
    using r added by (auto simp: revise_def split: sum.splits)
  have dt: "dag_tasks d = ts @ by_id added" by (rule new_dag_merged [OF ts d])
  obtain ps' where ps': "pl_replan p g (dag_tasks d) later = Inr ps'" "map t_id ps' = map t_id ps"
    using replan_ids [OF ps(1) same_results_merged [OF revised_fresh [OF r added]]] dt by auto
  have "map_of (dag_tasks d) (t_id t) \<noteq> None" if "t \<in> set ps'" for t
  proof -
    from that ps'(2) have "t_id t \<in> set (map t_id ps)" by (metis imageI list.set_map)
    then obtain u where u: "u \<in> set ps" "t_id u = t_id t" by auto
    have "t_id t \<in> set (map fst (dag_tasks d))"
    proof (cases "map_of ts (t_id t)")
      case None
      with u revise_loop_spec [OF ps(2)] have "u \<in> set added" by auto
      then have "t_id u \<in> set (map fst (by_id added))" by simp
      with u(2) dt show ?thesis by simp
    next
      case (Some v)
      with dt show ?thesis by (auto dest: map_of_Some_key)
    qed
    then show ?thesis using key_map_of_Some by fastforce
  qed
  then show ?thesis using r ps'(1) by (simp add: revise_def revise_loop_known)
qed

lemma build_fresh:
  assumes "map_of r (g_intent g) = Some p" "build r g now = Inr d"
  shows "\<forall>(i, t) \<in> set (dag_tasks d). fresh_task g t"
  using assms by (auto simp: build_def new_dag_wf_iff by_id_def intro: plan_fresh split: sum.splits if_splits)

end

lemma build_Inr:
  assumes "build r g now = Inr d"
  obtains p ts where "map_of r (g_intent g) = Some p" "pl_plan p g now = Inr ts" "ts \<noteq> []"
    "int (length ts) \<le> max_tasks (g_ceilings g)" "\<forall>t \<in> set ts. require_idempotency t = Inr ()"
    "graph_wf (by_id ts)" "d = \<lparr>dag_goal = g_id g, dag_tasks = by_id ts\<rparr>"
  using assms that
  by (auto simp: build_def require_all_Inr [symmetric] new_dag_wf_iff split: option.splits sum.splits if_splits)

section \<open>The four planners keep the contract\<close>

lemma new_task_fresh: "fresh_task g (new_task g i k depth now deps)"
  by (simp add: fresh_task_def new_task_def)

lemma new_task_id [simp]: "t_id (new_task g i k depth now deps) = i"
  by (simp add: new_task_def)

lemma fresh_update [simp]:
  "fresh_task g (t\<lparr>idempotency_key := k\<rparr>) = fresh_task g t" "fresh_task g (t\<lparr>contributes := cs\<rparr>) = fresh_task g t"
  by (simp_all add: fresh_task_def)

lemma chain_fresh: "t \<in> set (finding_chains g now a i fs) \<Longrightarrow> fresh_task g t"
  by (induction g now a i fs rule: finding_chains.induct)
     (auto simp: proposal_chain_def Let_def new_task_fresh split: if_splits)

lemma chain_ids: "map t_id (finding_chains g later a i fs) = map t_id (finding_chains g now a i fs)"
  by (induction g now a i fs rule: finding_chains.induct) (auto simp: proposal_chain_def Let_def)

lemma assess_plan_contract:
  "assess_plan g now = Inr ts \<Longrightarrow> t \<in> set ts \<Longrightarrow> fresh_task g t"
  "assess_plan g now = Inr ts \<Longrightarrow> \<exists>ts'. assess_plan g later = Inr ts' \<and> map t_id ts' = map t_id ts"
  by (auto simp: assess_plan_def new_task_fresh)

lemma no_replan_contract:
  "no_replan g ts now = Inr ps \<Longrightarrow> t \<in> set ps \<Longrightarrow> fresh_task g t"
  "no_replan g ts now = Inr ps \<Longrightarrow> \<exists>ps'. no_replan g ts' later = Inr ps' \<and> map t_id ps' = map t_id ps"
  by (auto simp: no_replan_def)

interpretation assess: planner_contract Assess
  by unfold_locales (auto simp: Assess_def assess_plan_contract no_replan_contract)

interpretation improve: planner_contract "Improve decode" for decode
proof unfold_locales
  fix g ts now ps ts' later
  assume "pl_replan (Improve decode) g ts now = Inr ps" "same_results ts ts'"
  then show "\<exists>ps'. pl_replan (Improve decode) g ts' later = Inr ps' \<and> map t_id ps' = map t_id ps"
    by (auto simp: Improve_def improve_replan_def same_results_def map_concat comp_def chain_ids [of g later _ _ _ now])
qed (auto simp: Improve_def assess_plan_contract improve_replan_def chain_fresh)

interpretation evalset: planner_contract EvalSet
  by unfold_locales
    (auto simp: EvalSet_def evalset_plan_def new_task_fresh no_replan_contract)

interpretation compare: planner_contract Compare
  by unfold_locales
    (auto simp: Compare_def compare_plan_def new_task_fresh no_replan_contract)

section \<open>The default registry\<close>

definition default_registry :: "(string \<Rightarrow> finding list) \<Rightarrow> planner_registry" where
  "default_registry decode =
     [(''assess'', Assess), (''improve'', Improve decode), (''evalset'', EvalSet), (''compare'', Compare)]"

lemma default_planners_Inr: "default_planners decode = Inr (default_registry decode)"
  by (simp add: default_planners_def new_planner_registry_def missing_planners_def default_registry_def
      Assess_def Improve_def EvalSet_def Compare_def durable_iff in_tier_goal Let_def)

lemma default_lookup:
  "map_of (default_registry decode) i = Some p \<longleftrightarrow>
     i = ''assess'' \<and> p = Assess \<or> i = ''improve'' \<and> p = Improve decode \<or> i = ''evalset'' \<and> p = EvalSet \<or>
     i = ''compare'' \<and> p = Compare"
  by (auto simp: default_registry_def)

lemma default_cases:
  assumes "map_of (default_registry decode) i = Some p"
  shows "planner_contract p"
  using assms by (auto simp: default_lookup intro: assess.planner_contract_axioms improve.planner_contract_axioms
      evalset.planner_contract_axioms compare.planner_contract_axioms)

text \<open>A fan-in graph: leaves without edges and one join over all of them.\<close>

lemma acyclic_rank: "(\<And>x y. (x, y) \<in> r \<Longrightarrow> rank y < (rank x :: nat)) \<Longrightarrow> acyclic r"
proof -
  assume "\<And>x y. (x, y) \<in> r \<Longrightarrow> rank y < rank x"
  then have "r \<subseteq> (measure rank)\<inverse>" by auto
  moreover have "acyclic ((measure rank)\<inverse>)" by (simp add: wf_acyclic)
  ultimately show ?thesis using acyclic_subset by blast
qed

lemma graph_wf_by_id:
  assumes "distinct (map t_id ts)" "\<And>t y. t \<in> set ts \<Longrightarrow> y \<in> set (edges t) \<Longrightarrow> y \<in> t_id ` set ts \<and> rank y < (rank (t_id t) :: nat)"
  shows "graph_wf (by_id ts)"
proof -
  have "acyclic (dep_rel (by_id ts))"
    by (rule acyclic_rank [of _ rank]) (use assms(2) in \<open>auto simp: dep_rel_def dest!: map_of_by_id\<close>)
  moreover have "refs_closed (by_id ts)"
    unfolding refs_closed_def
  proof (clarify)
    fix i t y assume "(i, t) \<in> set (by_id ts)" "y \<in> set (edges t)"
    then have "y \<in> t_id ` set ts" using assms(2) by (auto simp: by_id_def)
    then show "y \<in> fst ` set (by_id ts)" by (simp add: by_id_def image_comp comp_def)
  qed
  ultimately show ?thesis using assms(1) by (simp add: graph_wf_def) (auto simp: by_id_def)
qed

lemma edges_new_task: "edges (new_task g i k depth now deps) = deps"
  by (simp add: edges_alt new_task_def)

lemma assess_id_inject [simp]: "assess_task_id a = assess_task_id b \<longleftrightarrow> a = b"
  by (simp add: assess_task_id_def)

lemma fan_in_wf:
  assumes "\<And>a. assess_task_id a \<noteq> j"
  shows "graph_wf (by_id (map (\<lambda>a. new_task g (assess_task_id a) k 0 now []) as @
      [new_task g j k' 0 now (map assess_task_id as)])) \<longleftrightarrow> distinct as" (is "graph_wf (by_id ?ts) \<longleftrightarrow> _")
proof
  assume "graph_wf (by_id ?ts)"
  then have "distinct (map t_id ?ts)" by (simp add: graph_wf_def)
  then show "distinct as" by (simp add: distinct_map comp_def)
next
  assume "distinct as"
  then have "distinct (map t_id ?ts)"
    using assms by (auto simp: distinct_map inj_on_def comp_def)
  moreover have "\<forall>a. assess_task_id a \<noteq> j" using assms by blast
  ultimately show "graph_wf (by_id ?ts)"
    by (intro graph_wf_by_id [where rank = "\<lambda>i. if i = j then 1 else 0"])
      (auto simp: edges_new_task image_image)
qed

section \<open>Which goals the default registry plans\<close>

lemma edges_contributes: "edges (t\<lparr>contributes := cs\<rparr>) = depends_on t @ cs"
  by (simp add: edges_alt)

lemma edges_key [simp]: "edges (t\<lparr>idempotency_key := k\<rparr>) = edges t"
  by (simp add: edges_alt)

text \<open>The ranks that order the evaluation-set graph: generators, then the gate, then the publication.\<close>

definition evalset_rank :: "task_id \<Rightarrow> nat" where
  "evalset_rank i = (if i = ''publish'' then 2 else if i = ''quality-gate'' then 1 else 0)"

definition evalset_shape :: "(task_id \<times> task_id list) list" where
  "evalset_shape = map (\<lambda>gen. (''generate-'' @ gen, [])) generators @
     [(''quality-gate'', map (\<lambda>gen. ''generate-'' @ gen) generators), (''publish'', [''quality-gate''])]"

lemma evalset_shape_ok:
  "distinct (map fst evalset_shape) \<and> (\<forall>(i, es) \<in> set evalset_shape. \<forall>y \<in> set es.
     y \<in> set (map fst evalset_shape) \<and> evalset_rank y < evalset_rank i)"
  by code_simp

lemma evalset_plan_shape:
  "evalset_plan g now = Inr ts \<Longrightarrow> map (\<lambda>t. (t_id t, edges t)) ts = evalset_shape"
  by (auto simp: evalset_plan_def evalset_shape_def edges_new_task edges_contributes) (simp add: new_task_def)

lemma graph_wf_shape:
  assumes "map (\<lambda>t. (t_id t, edges t)) ts = sh" "distinct (map fst sh)"
    "\<forall>(i, es) \<in> set sh. \<forall>y \<in> set es. y \<in> set (map fst sh) \<and> rank y < (rank i :: nat)"
  shows "graph_wf (by_id ts)"
proof (rule graph_wf_by_id [where rank = rank])
  have idk: "map t_id ts = map fst sh" using assms(1) by auto
  with assms(2) show "distinct (map t_id ts)" by simp
  fix t y assume t: "t \<in> set ts" "y \<in> set (edges t)"
  then have "(t_id t, edges t) \<in> set sh" using assms(1) by auto
  with assms(3) t(2) have "y \<in> set (map fst sh) \<and> rank y < rank (t_id t)" by blast
  then show "y \<in> t_id ` set ts \<and> rank y < rank (t_id t)" using idk by (metis list.set_map)
qed

lemma evalset_wf:
  assumes "evalset_plan g now = Inr ts"
  shows "graph_wf (by_id ts)" "length ts = 6" "\<forall>t \<in> set ts. require_idempotency t = Inr ()"
proof -
  show "length ts = 6" using assms by (auto simp: evalset_plan_def generators_def)
  show "\<forall>t \<in> set ts. require_idempotency t = Inr ()"
    using assms by (auto simp: evalset_plan_def generators_def require_idempotency_def effect_bearing_def
        effect_bearing_kinds_def new_task_def kind_defs)
  show "graph_wf (by_id ts)"
    using graph_wf_shape [OF evalset_plan_shape [OF assms]] evalset_shape_ok by blast
qed

lemma join_ids: "assess_task_id a \<noteq> ''synthesise''" "assess_task_id a \<noteq> ''compare''"
  by (simp_all add: assess_task_id_def)

lemma axes_of_distinct: "distinct (axes_of g) \<longleftrightarrow> distinct (g_axes g)"
  using axes_distinct by (auto simp: axes_of_def)

lemma fan_in_keys:
  assumes "k \<in> {KindSynthesise, KindCompare}"
  shows "\<forall>t \<in> set (map (\<lambda>a. new_task g (assess_task_id a) KindAssessAxis 0 now []) as @
      [new_task g j k 0 now deps]). require_idempotency t = Inr ()"
  using assms by (auto simp: require_idempotency_def effect_bearing_def effect_bearing_kinds_def new_task_def kind_defs)

text \<open>How many tasks the plan of an intent has.\<close>

definition plan_size :: "goal \<Rightarrow> int" where
  "plan_size g = (if g_intent g = ''evalset'' then 6 else int (length (axes_of g)) + 1)"

lemma build_default_iff:
  assumes "durable (g_intent g)"
  shows "(\<exists>d. build (default_registry decode) g now = Inr d) \<longleftrightarrow>
    plan_size g \<le> max_tasks (g_ceilings g) \<and> (g_intent g = ''evalset'' \<or> distinct (g_axes g))"
proof -
  have builds: "(\<exists>d. build (default_registry decode) g now = Inr d) \<longleftrightarrow>
      int (length ts) \<le> max_tasks (g_ceilings g) \<and> graph_wf (by_id ts)"
    if "map_of (default_registry decode) (g_intent g) = Some p" "pl_plan p g now = Inr ts" "ts \<noteq> []"
      "\<forall>t \<in> set ts. require_idempotency t = Inr ()" for p ts
    using that by (auto simp: build_def require_all_Inr [THEN iffD2] new_dag_wf_iff)
  consider "g_intent g = ''assess''" | "g_intent g = ''improve''" | "g_intent g = ''evalset''" | "g_intent g = ''compare''"
    using assms by (auto simp: durable_iff)
  then show ?thesis
  proof cases
    case 3
    obtain ts where ts: "evalset_plan g now = Inr ts" by (simp add: evalset_plan_def)
    note w = evalset_wf [OF ts]
    have "ts \<noteq> []" using w(2) by auto
    with builds [of EvalSet ts] 3 ts w show ?thesis
      by (simp add: default_registry_def EvalSet_def plan_size_def)
  next
    case 1
    show ?thesis
      by (subst builds [of Assess, OF _ _ _ fan_in_keys [of KindSynthesise g now "axes_of g" "''synthesise''" "map assess_task_id (axes_of g)"]])
        (simp_all add: 1 default_registry_def Assess_def assess_plan_def plan_size_def fan_in_wf [OF join_ids(1)] axes_of_distinct add.commute)
  next
    case 2
    show ?thesis
      by (subst builds [of "Improve decode", OF _ _ _ fan_in_keys [of KindSynthesise g now "axes_of g" "''synthesise''" "map assess_task_id (axes_of g)"]])
        (simp_all add: 2 default_registry_def Improve_def assess_plan_def plan_size_def fan_in_wf [OF join_ids(1)] axes_of_distinct add.commute)
  next
    case 4
    show ?thesis
      by (subst builds [of Compare, OF _ _ _ fan_in_keys [of KindCompare g now "axes_of g" "''compare''" "map assess_task_id (axes_of g)"]])
        (simp_all add: 4 default_registry_def Compare_def compare_plan_def plan_size_def fan_in_wf [OF join_ids(2)] axes_of_distinct add.commute)
  qed
qed

end
