(* ===== verification/Toolcontract.thy ===== *)
theory Toolcontract
  imports Prelude
begin

text \<open>
  Package \<open>internal/toolcontract\<close>: the registry of tools and the one way to call them.

  What a tool or a verifier does is code outside the package, so it is a function the registry holds:
  it takes the world it acts on, of any type, and returns what it reports and the world afterwards.
  \<open>Spec()\<close> is a value of the tool.  The context Go passes is represented by the timeout that bounds
  it; running into it is an error the tool reports.
\<close>

section \<open>Data\<close>

record call =
  call_task :: string
  call_goal :: string
  call_kind :: string
  call_key :: string
  call_input :: string
  call_inputs :: "(string \<times> string) list"
  call_attempt :: int

record tool_result =
  res_output :: string
  res_tokens :: int
  res_cost :: int
  res_calls :: int

definition no_result :: tool_result where
  "no_result = \<lparr>res_output = '''', res_tokens = 0, res_cost = 0, res_calls = 0\<rparr>"

datatype permission = ReadSource | WriteSource | CallModel | NetworkEgress | WriteRemoteRepo

record tool_spec =
  spec_kind :: string
  spec_permissions :: "permission list"
  spec_timeout :: duration
  spec_retry_safe :: bool
  spec_effect_bearing :: bool

record 'w tool =
  tool_spec_of :: tool_spec
  tool_execute :: "duration \<Rightarrow> call \<Rightarrow> 'w \<Rightarrow> (tool_result \<times> go_error option) \<times> 'w"

type_synonym 'w verifier = "duration \<Rightarrow> call \<Rightarrow> tool_result \<Rightarrow> 'w \<Rightarrow> (bool \<times> string \<times> go_error option) \<times> 'w"

record 'w registry =
  reg_tools :: "(string \<times> 'w tool) list"
  reg_verifiers :: "(string \<times> 'w verifier) list"

definition new_registry :: "'w registry" where
  "new_registry = \<lparr>reg_tools = [], reg_verifiers = []\<rparr>"

section \<open>Registration\<close>

definition tool_error :: "sentinel \<Rightarrow> string \<Rightarrow> string \<Rightarrow> go_error" where
  "tool_error s text kind = (s, ''toolcontract: '' @ text @ '': '' @ fmt_q kind)"

definition register :: "'w tool \<Rightarrow> 'w verifier option \<Rightarrow> 'w registry \<Rightarrow> (go_error + unit) \<times> 'w registry" where
  "register t v r =
     (let s = tool_spec_of t in
      if spec_kind s = '''' then (Inl (Opaque, ''toolcontract: tool has no kind''), r)
      else if spec_timeout s \<le> 0 then
        (Inl (tool_error ErrNoTimeout ''tool declares no timeout'' (spec_kind s)), r)
      else if spec_effect_bearing s \<and> v = None then
        (Inl (tool_error ErrNoVerifier ''effect-bearing tool has no verifier'' (spec_kind s)), r)
      else if spec_effect_bearing s \<and> spec_permissions s = [] then
        (Inl (tool_error ErrNoPermissions ''effect-bearing tool declares no permissions'' (spec_kind s)), r)
      else (case map_of (reg_tools r) (spec_kind s) of
              Some _ \<Rightarrow> (Inl (Opaque, ''toolcontract: '' @ fmt_q (spec_kind s) @ '' registered twice''), r)
            | None \<Rightarrow>
                (Inr (), r\<lparr>reg_tools := AList.update (spec_kind s) t (reg_tools r),
                   reg_verifiers := (case v of None \<Rightarrow> reg_verifiers r
                     | Some v' \<Rightarrow> AList.update (spec_kind s) v' (reg_verifiers r))\<rparr>)))"

definition unregister :: "string \<Rightarrow> 'w registry \<Rightarrow> 'w registry" where
  "unregister k r = r\<lparr>reg_tools := AList.delete k (reg_tools r),
     reg_verifiers := AList.delete k (reg_verifiers r)\<rparr>"

definition replace_tool :: "'w tool \<Rightarrow> 'w verifier option \<Rightarrow> 'w registry \<Rightarrow> (go_error + unit) \<times> 'w registry" where
  "replace_tool t v r = register t v (unregister (spec_kind (tool_spec_of t)) r)"

definition kinds :: "'w registry \<Rightarrow> string list" where
  "kinds r = map fst (reg_tools r)"

section \<open>Invocation\<close>

definition invoke :: "'w registry \<Rightarrow> call \<Rightarrow> 'w \<Rightarrow> (tool_result \<times> go_error option) \<times> 'w" where
  "invoke r c w =
     (case map_of (reg_tools r) (call_kind c) of
        None \<Rightarrow> ((no_result, Some (tool_error ErrUnknownTool ''no tool registered for this kind'' (call_kind c))), w)
      | Some t \<Rightarrow>
          let s = tool_spec_of t in
          if spec_effect_bearing s \<and> call_key c = '''' then
            ((no_result, Some (tool_error ErrNoCallIdempotency
                ''effect-bearing call has no idempotency key'' (call_kind c))), w)
          else (case tool_execute t (spec_timeout s) c w of
                  ((res, Some e), w1) \<Rightarrow> ((res, Some e), w1)
                | ((res, None), w1) \<Rightarrow>
                    (case map_of (reg_verifiers r) (call_kind c) of
                       None \<Rightarrow> ((res, None), w1)
                     | Some v \<Rightarrow>
                         (case v (spec_timeout s) c res w1 of
                            ((_, _, Some verr), w2) \<Rightarrow>
                              ((res, Some (ErrVerifyInconclusive,
                                 ''toolcontract: the effect could not be checked: '' @ fmt_q (call_kind c) @
                                 '': '' @ snd verr)), w2)
                          | ((ok, detail, None), w2) \<Rightarrow>
                              if \<not> ok then
                                ((res, Some (ErrVerifyFailed,
                                   ''toolcontract: the tool reported success but its effect could not be confirmed: '' @
                                   fmt_q (call_kind c) @ '': '' @ detail)), w2)
                              else ((res, None), w2)))))"

section \<open>What registration guarantees\<close>

definition registry_ok :: "'w registry \<Rightarrow> bool" where
  "registry_ok r \<longleftrightarrow> (\<forall>k t. map_of (reg_tools r) k = Some t \<longrightarrow>
     spec_kind (tool_spec_of t) = k \<and> k \<noteq> '''' \<and> spec_timeout (tool_spec_of t) > 0 \<and>
     (spec_effect_bearing (tool_spec_of t) \<longrightarrow>
        spec_permissions (tool_spec_of t) \<noteq> [] \<and> map_of (reg_verifiers r) k \<noteq> None))"

inductive built :: "'w registry \<Rightarrow> bool" where
  empty: "built new_registry"
| registered: "built r \<Longrightarrow> register t v r = (q, r') \<Longrightarrow> built r'"
| replaced: "built r \<Longrightarrow> replace_tool t v r = (q, r') \<Longrightarrow> built r'"

lemma register_ok: "registry_ok r \<Longrightarrow> registry_ok (snd (register t v r))"
  by (auto simp: registry_ok_def register_def Let_def split: option.splits)

lemma unregister_ok: "registry_ok r \<Longrightarrow> registry_ok (unregister k r)"
  by (auto simp: registry_ok_def unregister_def delete_conv' split: if_splits)

lemma built_ok: "built r \<Longrightarrow> registry_ok r"
proof (induction rule: built.induct)
  case empty
  show ?case by (simp add: registry_ok_def new_registry_def)
next
  case (registered r t v q r')
  with register_ok [of r t v] show ?case by simp
next
  case (replaced r t v q r')
  with register_ok [OF unregister_ok, of r t v "spec_kind (tool_spec_of t)"] show ?case
    by (simp add: replace_tool_def)
qed

lemma register_Inr:
  "register t v r = (Inr (), r') \<Longrightarrow> map_of (reg_tools r') (spec_kind (tool_spec_of t)) = Some t"
  by (auto simp: register_def Let_def split: option.splits if_splits)

lemma register_Inl: "register t v r = (Inl e, r') \<Longrightarrow> r' = r"
  by (auto simp: register_def Let_def split: option.splits if_splits)

lemma invoke_success:
  assumes "invoke r c w = ((res, None), w')"
  obtains t w1 where "map_of (reg_tools r) (call_kind c) = Some t"
    "spec_effect_bearing (tool_spec_of t) \<longrightarrow> call_key c \<noteq> ''''"
    "tool_execute t (spec_timeout (tool_spec_of t)) c w = ((res, None), w1)"
    "case map_of (reg_verifiers r) (call_kind c) of None \<Rightarrow> w' = w1
     | Some v \<Rightarrow> \<exists>detail. v (spec_timeout (tool_spec_of t)) c res w1 = ((True, detail, None), w')"
  using assms
  by (auto simp: invoke_def Let_def split: option.splits if_splits prod.splits)

end
