(* ===== verification/Store_Run.thy ===== *)
theory Store_Run
  imports Store_Inv
begin

text \<open>
  The store as a machine: its operations as a datatype with one executable step, the invariant of
  the whole store, and what every step keeps.  Workers have names: an operation that takes a
  worker is called with one that is not empty.
\<close>

section \<open>Operations\<close>

datatype store_op =
    OpCreateGoal goal
  | OpSaveGoal goal
  | OpSaveDag dag
  | OpClaim string string duration time
  | OpRenew string task_id string duration time
  | OpComplete string task_id string task_state string string time
  | OpRelease string task_id string time
  | OpDecide string task_id bool time
  | OpCancel string time
  | OpCheckpoint checkpoint

datatype op_result = RUnit "go_error + unit" | RTask "go_error + task" | RCount "int \<times> go_error option"

fun apply_op :: "store_op \<Rightarrow> mem \<Rightarrow> op_result \<times> mem" where
  "apply_op (OpCreateGoal g) m = (case create_goal g m of (r, m') \<Rightarrow> (RUnit r, m'))"
| "apply_op (OpSaveGoal g) m = (case save_goal g m of (r, m') \<Rightarrow> (RUnit r, m'))"
| "apply_op (OpSaveDag d) m = (RUnit (Inr ()), save_dag d m)"
| "apply_op (OpClaim gid w l now) m = (case claim gid w l now m of (r, m') \<Rightarrow> (RTask r, m'))"
| "apply_op (OpRenew gid i w l now) m = (case renew gid i w l now m of (r, m') \<Rightarrow> (RUnit r, m'))"
| "apply_op (OpComplete gid i w next res f now) m =
     (case complete gid i w next res f now m of (r, m') \<Rightarrow> (RUnit r, m'))"
| "apply_op (OpRelease gid i w now) m = (case release gid i w now m of (r, m') \<Rightarrow> (RUnit r, m'))"
| "apply_op (OpDecide gid i ok now) m = (case decide gid i ok now m of (r, m') \<Rightarrow> (RUnit r, m'))"
| "apply_op (OpCancel gid now) m = (case cancel gid now m of (r, m') \<Rightarrow> (RCount r, m'))"
| "apply_op (OpCheckpoint cp) m = (RUnit (Inr ()), add_checkpoint cp m)"

fun run_ops :: "store_op list \<Rightarrow> mem \<Rightarrow> op_result list \<times> mem" where
  "run_ops [] m = ([], m)"
| "run_ops (op # ops) m =
     (case apply_op op m of (r, m') \<Rightarrow> (case run_ops ops m' of (rs, m'') \<Rightarrow> (r # rs, m'')))"

text \<open>
  What the callers promise: workers have names, and a graph is saved either for the first time or
  as the stored one with new pending tasks, which is what \<open>planner.Build\<close> and the replanning arm of
  the worker produce.
\<close>

fun op_ok :: "mem \<Rightarrow> store_op \<Rightarrow> bool" where
  "op_ok m (OpSaveDag d) \<longleftrightarrow>
     grows (case tasks_of m (dag_goal d) of None \<Rightarrow> [] | Some ts \<Rightarrow> ts) (dag_tasks d)"
| "op_ok m (OpClaim gid w l now) \<longleftrightarrow> w \<noteq> ''''"
| "op_ok m (OpRenew gid i w l now) \<longleftrightarrow> w \<noteq> ''''"
| "op_ok m (OpComplete gid i w next res f now) \<longleftrightarrow> w \<noteq> ''''"
| "op_ok m (OpRelease gid i w now) \<longleftrightarrow> w \<noteq> ''''"
| "op_ok m _ \<longleftrightarrow> True"

inductive store_step :: "mem \<Rightarrow> mem \<Rightarrow> bool" where
  step: "op_ok m op \<Longrightarrow> apply_op op m = (r, m') \<Longrightarrow> store_step m m'"

inductive reachable :: "mem \<Rightarrow> bool" where
  initial: "reachable new_memory"
| step_on: "reachable m \<Longrightarrow> store_step m m' \<Longrightarrow> reachable m'"

inductive_cases store_stepE: "store_step m m'"

section \<open>The invariant of the store\<close>

definition mem_sound :: "mem \<Rightarrow> bool" where
  "mem_sound m \<longleftrightarrow> (\<forall>gid ts. tasks_of m gid = Some ts \<longrightarrow> sound ts) \<and>
     (\<forall>gid g. map_of (goals m) gid = Some g \<longrightarrow> g_id g = gid)"

definition mem_advances :: "mem \<Rightarrow> mem \<Rightarrow> bool" where
  "mem_advances m m' \<longleftrightarrow>
     (\<forall>gid ts. tasks_of m gid = Some ts \<longrightarrow> (\<exists>ts'. tasks_of m' gid = Some ts' \<and> advances ts ts')) \<and>
     (\<forall>gid g. map_of (goals m) gid = Some g \<longrightarrow> (\<exists>g'. map_of (goals m') gid = Some g' \<and>
        (goal_terminal (g_state g) \<longrightarrow> g_state g' = g_state g)))"

definition keeps :: "mem \<Rightarrow> mem \<Rightarrow> bool" where
  "keeps m m' \<longleftrightarrow> mem_sound m' \<and> mem_advances m m'"

lemma mem_advances_refl [simp, intro]: "mem_advances m m"
  by (auto simp: mem_advances_def)

lemma mem_advances_trans: "mem_advances m n \<Longrightarrow> mem_advances n k \<Longrightarrow> mem_advances m k"
  unfolding mem_advances_def
proof (intro conjI allI impI; elim conjE)
  fix gid g
  assume "map_of (goals m) gid = Some g"
    and "\<forall>gid g. map_of (goals m) gid = Some g \<longrightarrow> (\<exists>g'. map_of (goals n) gid = Some g' \<and>
        (goal_terminal (g_state g) \<longrightarrow> g_state g' = g_state g))"
    and "\<forall>gid g. map_of (goals n) gid = Some g \<longrightarrow> (\<exists>g'. map_of (goals k) gid = Some g' \<and>
        (goal_terminal (g_state g) \<longrightarrow> g_state g' = g_state g))"
  then show "\<exists>g'. map_of (goals k) gid = Some g' \<and> (goal_terminal (g_state g) \<longrightarrow> g_state g' = g_state g)"
    by metis
qed (meson advances_trans)

lemma keeps_refl: "mem_sound m \<Longrightarrow> keeps m m"
  by (simp add: keeps_def)

lemma keeps_trans: "keeps m n \<Longrightarrow> keeps n k \<Longrightarrow> keeps m k"
  by (auto simp: keeps_def intro: mem_advances_trans)

lemma mem_soundD: "mem_sound m \<Longrightarrow> tasks_of m gid = Some ts \<Longrightarrow> sound ts"
  by (simp add: mem_sound_def)

lemma mem_sound_goal: "mem_sound m \<Longrightarrow> map_of (goals m) gid = Some g \<Longrightarrow> g_id g = gid"
  by (simp add: mem_sound_def)

lemma put_tasks_keeps:
  assumes "mem_sound m" "tasks_of m gid = Some ts" "sound ts'" "advances ts ts'"
  shows "keeps m (put_tasks gid ts' m)"
  using assms by (auto simp: keeps_def mem_sound_def mem_advances_def store_simps)

lemma put_task_keeps:
  assumes m: "mem_sound m" and ts: "tasks_of m gid = Some ts" "map_of ts i = Some t"
    and t': "same_task t t'" "moves (t_state t) (t_state t')" "active (t_state t') \<longrightarrow> deps_ok ts t" "lease_clean t'"
  shows "keeps m (put_task gid i t' m)"
proof -
  have "put_task gid i t' m = put_tasks gid (AList.update i t' ts) m" using ts(1) by (simp add: put_task_def)
  with put_tasks_keeps [OF m ts(1) update_sound [OF mem_soundD [OF m ts(1)] ts(2) t'] update_advances [OF ts(2) t'(1,2)]]
  show ?thesis by simp
qed

lemma goals_keeps:
  assumes m: "mem_sound m" and "g_id g' = gid"
    and "\<And>g. map_of (goals m) gid = Some g \<Longrightarrow> goal_terminal (g_state g) \<Longrightarrow> g_state g' = g_state g"
  shows "keeps m (m\<lparr>goals := AList.update gid g' (goals m)\<rparr>)"
  using assms by (auto simp: keeps_def mem_sound_def mem_advances_def store_simps)

section \<open>What each operation does\<close>

subsection \<open>Claim\<close>

lemma claim_moves_takeable:
  "takeable now ts t \<Longrightarrow> claim_moves t now = Inr (t\<lparr>t_state := Running, t_updated := now\<rparr>)"
  by (auto simp: takeable_def claim_moves_def transition_def can_transition_to_def)

lemma claim_cases:
  assumes "claim gid w l now m = (r, m')" "mem_sound m"
  obtains (refused) e where "r = Inl e" "m' = m"
  | (taken) g ts t where "map_of (goals m) gid = Some g" "g_state g = GoalRunning"
      "tasks_of m gid = Some ts" "map_of ts (t_id t) = Some t" "takeable now ts t"
      "r = Inr (take_lease w l now (t\<lparr>t_state := Running, t_updated := now\<rparr>))"
      "m' = put_task gid (t_id t) (take_lease w l now (t\<lparr>t_state := Running, t_updated := now\<rparr>)) m"
proof (cases "\<exists>g ts t rest. map_of (goals m) gid = Some g \<and> goal_claimable g \<and> tasks_of m gid = Some ts \<and>
    claimable_set now ts = Some (t # rest)")
  case True
  then obtain g ts t rest where g: "map_of (goals m) gid = Some g" "goal_claimable g"
    and ts: "tasks_of m gid = Some ts" and cs: "claimable_set now ts = Some (t # rest)" by blast
  from claimable_set_mem [OF cs, of t] have take: "takeable now ts t" and "\<exists>i. map_of ts i = Some t" by auto
  then have t: "map_of ts (t_id t) = Some t"
    using graph_wfD(4) [OF sound_wf [OF mem_soundD [OF assms(2) ts]]] by fastforce
  show ?thesis
    using assms(1) g ts cs claim_moves_takeable [OF take] t take
    by (intro taken [of g ts t]) (auto simp: claim_def goal_claimable_def Let_def put_task_def)
next
  case False
  show ?thesis
  proof (rule refused)
    show "m' = m" "r = Inl (projl r)"
      using assms(1) False by (auto simp: claim_def split: option.splits if_splits list.splits)
  qed
qed

lemma claim_keeps:
  assumes "claim gid w l now m = (r, m')" "mem_sound m"
  shows "keeps m m'"
  using assms
proof (cases rule: claim_cases)
  case (taken g ts t)
  have "moves Ready Running" "moves Pending Ready"
    by (auto simp: can_transition_to_def intro: moves_one)
  then have "moves (t_state t) Running"
    using taken(5) by (auto simp: takeable_def intro: moves_trans)
  with taken assms(2) show ?thesis
    by (auto intro!: put_task_keeps simp: take_lease_def same_task_def lease_clean_def takeable_def)
qed (use assms in \<open>simp add: keeps_refl\<close>)

subsection \<open>Operations of a lease holder\<close>

lemma held_Inr:
  "held gid i w now m = Inr t \<longleftrightarrow> (\<exists>ts. tasks_of m gid = Some ts \<and> map_of ts i = Some t) \<and>
     leased_by t = w \<and> after_time (lease_expiry t) now"
  by (auto simp: held_def split: option.splits)

lemma renew_keeps:
  assumes "renew gid i w l now m = (r, m')" "mem_sound m"
  shows "keeps m m'"
proof (cases "held gid i w now m")
  case (Inl e)
  with assms show ?thesis by (simp add: renew_def keeps_refl)
next
  case (Inr t)
  then obtain ts where "tasks_of m gid = Some ts" "map_of ts i = Some t" by (auto simp: held_Inr)
  with assms Inr soundD [OF mem_soundD [OF assms(2)]] show ?thesis
    by (auto simp: renew_def sound_task_def lease_clean_def same_task_def intro!: put_task_keeps)
qed

lemma propagate_in_keeps:
  assumes m: "mem_sound m" and ts: "tasks_of m gid = Some ts"
  obtains n ts' where "propagate_failure ts = Some (n, ts')"
    "propagate_in gid m = (Inr (), put_tasks gid ts' m)" "keeps m (put_tasks gid ts' m)"
proof -
  from sound_propagates [OF mem_soundD [OF m ts]] obtain n ts' where p: "propagate_failure ts = Some (n, ts')" by blast
  show ?thesis
    using that [OF p] p ts put_tasks_keeps [OF m ts propagate_sound(1,2) [OF mem_soundD [OF m ts] p]]
    by (simp add: propagate_in_def)
qed

text \<open>Completion and release write the held task with its lease cleared.\<close>

lemma held_write_keeps:
  assumes m: "mem_sound m" and h: "held gid i w now m = Inr t" "w \<noteq> ''''"
    and tr: "transition t next now = Inr u"
    and t': "same_task u t'" "t_state t' = t_state u" "leased_by t' = ''''"
  shows "keeps m (put_task gid i t' m)"
proof -
  from h obtain ts where ts: "tasks_of m gid = Some ts" "map_of ts i = Some t" by (auto simp: held_Inr)
  from tr have u: "can_transition_to (t_state t) next" "u = t\<lparr>t_state := next, t_updated := now\<rparr>"
    by (auto simp: transition_Inr)
  note s = soundD [OF mem_soundD [OF m ts(1)] ts(2)]
  from s h have st: "t_state t = Running \<or> t_state t = Cancelled"
    by (auto simp: held_Inr sound_task_def lease_clean_def)
  with u(1) have "t_state t = Running" by (auto simp: can_transition_to_def)
  with s have ok: "deps_ok ts t" by (simp add: sound_task_def active_def)
  show ?thesis
    using put_task_keeps [OF m ts, of t'] u t' ok by (auto simp: same_task_def lease_clean_def intro: moves_one)
qed

lemma complete_keeps:
  assumes "complete gid i w next res f now m = (r, m')" "mem_sound m" "w \<noteq> ''''"
  shows "keeps m m'"
proof (cases "held gid i w now m")
  case (Inl e)
  with assms show ?thesis by (simp add: complete_def keeps_refl)
next
  case (Inr t)
  show ?thesis
  proof (cases "transition t next now")
    case (Inl e)
    with assms \<open>held gid i w now m = Inr t\<close> show ?thesis by (simp add: complete_def keeps_refl)
  next
    case tr: (Inr u)
    let ?t = "u\<lparr>t_result := res, t_failure := f, leased_by := '''', lease_expiry := zero_time\<rparr>"
    let ?m = "put_task gid i ?t m"
    have k: "keeps m ?m"
      using held_write_keeps [OF assms(2) Inr assms(3) tr, of ?t] by (simp add: same_task_def)
    from Inr obtain ts where "tasks_of m gid = Some ts" by (auto simp: held_Inr)
    then have ts: "tasks_of ?m gid = Some (AList.update i ?t ts)" by (simp add: store_simps)
    have "mem_sound ?m" using k by (simp add: keeps_def)
    then obtain n ts' where "propagate_in gid ?m = (Inr (), put_tasks gid ts' ?m)" "keeps ?m (put_tasks gid ts' ?m)"
      by (rule propagate_in_keeps [OF _ ts])
    with assms(1) Inr tr k keeps_trans [OF k] show ?thesis
      by (auto simp: complete_def Let_def split: if_splits)
  qed
qed

lemma release_keeps:
  assumes "release gid i w now m = (r, m')" "mem_sound m" "w \<noteq> ''''"
  shows "keeps m m'"
proof (cases "held gid i w now m")
  case (Inr t)
  show ?thesis
  proof (cases "transition t Ready now")
    case tr: (Inr u)
    have "keeps m (put_task gid i (u\<lparr>leased_by := '''', lease_expiry := zero_time\<rparr>) m)"
      using held_write_keeps [OF assms(2) Inr assms(3) tr] by (simp add: same_task_def)
    with assms(1) Inr tr show ?thesis by (simp add: release_def)
  qed (use assms Inr in \<open>simp add: release_def keeps_refl\<close>)
qed (use assms in \<open>simp add: release_def keeps_refl\<close>)

subsection \<open>Decisions, cancellation, goals and graphs\<close>

lemma decide_keeps:
  assumes "decide gid i ok now m = (r, m')" "mem_sound m"
  shows "keeps m m'"
proof (cases "\<exists>ts t. tasks_of m gid = Some ts \<and> map_of ts i = Some t \<and> t_state t = AwaitingApproval")
  case True
  then obtain ts t where ts: "tasks_of m gid = Some ts" "map_of ts i = Some t" "t_state t = AwaitingApproval"
    by blast
  let ?t = "t\<lparr>t_state := if ok then Ready else Cancelled, t_updated := now\<rparr>"
  have tr: "transition t (if ok then Ready else Cancelled) now = Inr ?t"
    using ts(3) by (simp add: transition_def can_transition_to_def)
  have put: "keeps m (put_task gid i t' m)"
    if "same_task ?t t'" "t_state t' = t_state ?t" "leased_by t' = leased_by t" for t'
  proof (rule put_task_keeps [OF assms(2) ts(1,2)])
    show "moves (t_state t) (t_state t')"
      using that(2) ts(3) by (auto simp: can_transition_to_def intro: moves_one)
  qed (use that ts soundD [OF mem_soundD [OF assms(2) ts(1)] ts(2)] in
      \<open>auto simp: same_task_def active_def sound_task_def lease_clean_def\<close>)
  show ?thesis
  proof (cases ok)
    case True
    with assms(1) ts tr put [of "?t\<lparr>approved := True\<rparr>"] show ?thesis
      by (simp add: decide_def same_task_def)
  next
    case False
    let ?m = "put_task gid i (?t\<lparr>approved := False, t_failure := ''declined''\<rparr>) m"
    have k: "keeps m ?m" by (rule put) (simp_all add: same_task_def)
    then have "mem_sound ?m" by (simp add: keeps_def)
    moreover have "tasks_of ?m gid = Some (AList.update i (?t\<lparr>approved := False, t_failure := ''declined''\<rparr>) ts)"
      using ts(1) by (simp add: store_simps)
    ultimately obtain n ts' where "propagate_in gid ?m = (Inr (), put_tasks gid ts' ?m)"
        "keeps ?m (put_tasks gid ts' ?m)"
      by (rule propagate_in_keeps)
    with False assms(1) ts tr keeps_trans [OF k] show ?thesis by (simp add: decide_def)
  qed
next
  case False
  then have "m' = m" using assms(1) by (auto simp: decide_def split: option.splits if_splits)
  with assms(2) show ?thesis by (simp add: keeps_refl)
qed

lemma cancel_goal_Inr:
  "cancel_goal g now = Inr g' \<longleftrightarrow>
     \<not> goal_terminal (g_state g) \<and> g' = g\<lparr>g_state := GoalCancelled, g_updated := now\<rparr>"
  by (auto simp: cancel_goal_def)

lemma cancel_keeps:
  assumes "cancel gid now m = (r, m')" "mem_sound m"
  shows "keeps m m'"
proof (cases "\<exists>g g'. map_of (goals m) gid = Some g \<and> cancel_goal g now = Inr g'")
  case True
  then obtain g g' where g: "map_of (goals m) gid = Some g" "cancel_goal g now = Inr g'" by blast
  let ?m = "m\<lparr>goals := AList.update gid g' (goals m)\<rparr>"
  have k: "keeps m ?m"
    using g mem_sound_goal [OF assms(2) g(1)] by (intro goals_keeps [OF assms(2)]) (auto simp: cancel_goal_Inr)
  show ?thesis
  proof (cases "tasks_of m gid")
    case None
    with assms(1) g k show ?thesis by (simp add: cancel_def Let_def store_simps)
  next
    case (Some ts)
    obtain q ts' where c: "cancel_tasks now ts = (q, ts')" by (cases "cancel_tasks now ts")
    have "keeps ?m (put_tasks gid ts' ?m)"
      using k Some cancel_tasks_sound [OF mem_soundD [OF assms(2) Some] c]
      by (intro put_tasks_keeps [of _ _ ts]) (auto simp: keeps_def store_simps)
    with assms(1) g Some c keeps_trans [OF k] show ?thesis by (simp add: cancel_def Let_def store_simps)
  qed
next
  case False
  then have "m' = m" using assms(1) by (auto simp: cancel_def split: option.splits sum.splits)
  with assms(2) show ?thesis by (simp add: keeps_refl)
qed

lemma create_goal_keeps:
  assumes "create_goal g m = (r, m')" "mem_sound m"
  shows "keeps m m'"
  using assms by (auto simp: create_goal_def put_goal_def keeps_refl intro!: goals_keeps split: option.splits)

lemma refuse_terminal_Inr:
  "refuse_terminal_overwrite cur g = Inr () \<longleftrightarrow> (goal_terminal cur \<longrightarrow> g_state g = cur)"
  by (auto simp: refuse_terminal_overwrite_def)

lemma save_goal_Inr:
  "save_goal g m = (Inr (), m') \<longleftrightarrow> (\<exists>cur. map_of (goals m) (g_id g) = Some cur \<and>
     (goal_terminal (g_state cur) \<longrightarrow> g_state g = g_state cur)) \<and> m' = put_goal g m"
  by (auto simp: save_goal_def refuse_terminal_Inr [symmetric] split: option.splits sum.splits)

lemma save_goal_Inl: "save_goal g m = (Inl e, m') \<Longrightarrow> m' = m"
  by (auto simp: save_goal_def split: option.splits sum.splits)

lemma save_goal_keeps:
  assumes "save_goal g m = (r, m')" "mem_sound m"
  shows "keeps m m'"
proof (cases r)
  case (Inl e)
  with assms show ?thesis by (auto dest: save_goal_Inl simp: keeps_refl)
next
  case (Inr u)
  with assms(1) obtain cur where "map_of (goals m) (g_id g) = Some cur"
      "goal_terminal (g_state cur) \<longrightarrow> g_state g = g_state cur" "m' = put_goal g m"
    by (auto simp: save_goal_Inr)
  with assms(2) show ?thesis by (auto simp: put_goal_def intro!: goals_keeps)
qed

lemma save_dag_keeps:
  assumes "grows (case tasks_of m (dag_goal d) of None \<Rightarrow> [] | Some ts \<Rightarrow> ts) (dag_tasks d)" "mem_sound m"
  shows "keeps m (save_dag d m)"
proof -
  have "sound (dag_tasks d)"
    using assms grows_sound [OF mem_soundD] fresh_sound by (auto split: option.splits)
  with assms show ?thesis
    by (auto simp: keeps_def mem_sound_def mem_advances_def store_simps dest: grows_advances)
qed

lemma apply_op_keeps:
  assumes "op_ok m op" "apply_op op m = (r, m')" "mem_sound m"
  shows "keeps m m'"
proof (cases op)
  case (OpCreateGoal g)
  with assms show ?thesis by (auto split: prod.splits dest: create_goal_keeps)
next
  case (OpSaveGoal g)
  with assms show ?thesis by (auto split: prod.splits dest: save_goal_keeps)
next
  case (OpSaveDag d)
  with assms show ?thesis by (auto intro!: save_dag_keeps)
next
  case (OpClaim gid w l now)
  with assms show ?thesis by (auto split: prod.splits dest: claim_keeps)
next
  case (OpRenew gid i w l now)
  with assms show ?thesis by (auto split: prod.splits dest: renew_keeps)
next
  case (OpComplete gid i w nxt res f now)
  with assms show ?thesis by (auto split: prod.splits dest: complete_keeps)
next
  case (OpRelease gid i w now)
  with assms show ?thesis by (auto split: prod.splits dest: release_keeps)
next
  case (OpDecide gid i ok now)
  with assms show ?thesis by (auto split: prod.splits dest: decide_keeps)
next
  case (OpCancel gid now)
  with assms show ?thesis by (auto split: prod.splits dest: cancel_keeps)
next
  case (OpCheckpoint cp)
  with assms show ?thesis
    by (auto simp: keeps_def mem_sound_def mem_advances_def store_simps)
qed

lemma store_step_keeps: "store_step m m' \<Longrightarrow> mem_sound m \<Longrightarrow> keeps m m'"
  by (auto elim!: store_stepE dest: apply_op_keeps)

lemma new_memory_sound: "mem_sound new_memory"
  by (simp add: mem_sound_def new_memory_def tasks_of_def)

lemma reachable_sound: "reachable m \<Longrightarrow> mem_sound m"
  by (induction rule: reachable.induct) (auto simp: new_memory_sound keeps_def dest: store_step_keeps)

section \<open>Runs\<close>

text \<open>The callers' promise along a list of operations.\<close>

fun ops_ok :: "mem \<Rightarrow> store_op list \<Rightarrow> bool" where
  "ops_ok m [] \<longleftrightarrow> True"
| "ops_ok m (op # ops) \<longleftrightarrow> op_ok m op \<and> ops_ok (snd (apply_op op m)) ops"

lemma run_ops_keeps: "ops_ok m ops \<Longrightarrow> mem_sound m \<Longrightarrow> keeps m (snd (run_ops ops m))"
proof (induction ops arbitrary: m)
  case (Cons op ops)
  obtain r m1 where r: "apply_op op m = (r, m1)" by fastforce
  have k: "keeps m m1" using apply_op_keeps [OF _ r] Cons.prems by simp
  moreover have "keeps m1 (snd (run_ops ops m1))" using Cons k r by (simp add: keeps_def)
  ultimately show ?case using r keeps_trans by (auto split: prod.split)
qed (simp add: keeps_refl)

lemma run_ops_reachable: "ops_ok m ops \<Longrightarrow> reachable m \<Longrightarrow> reachable (snd (run_ops ops m))"
proof (induction ops arbitrary: m)
  case (Cons op ops)
  obtain r m1 where r: "apply_op op m = (r, m1)" by fastforce
  have "reachable m1" using Cons.prems r by (auto intro: reachable.step_on store_step.step)
  with Cons.IH [of m1] Cons.prems r show ?case by (simp add: case_prod_beta)
qed simp

end
