(* ===== verification/Lease.thy ===== *)
theory Lease
  imports Task
begin

text \<open>
  The contract a worker relies on when it takes work from a store: what \<open>Claim\<close>, \<open>Complete\<close> and
  \<open>Release\<close> promise about the lease in between.  The in-process store and its tenant-scoped view
  both provide it.
\<close>

locale lease_store =
  fixes ok :: "'s \<Rightarrow> bool"
    and claim_op :: "string \<Rightarrow> string \<Rightarrow> duration \<Rightarrow> time \<Rightarrow> 's \<Rightarrow> (go_error + task) \<times> 's"
    and held_op :: "string \<Rightarrow> task_id \<Rightarrow> string \<Rightarrow> time \<Rightarrow> 's \<Rightarrow> go_error + task"
    and complete_op :: "string \<Rightarrow> task_id \<Rightarrow> string \<Rightarrow> task_state \<Rightarrow> string \<Rightarrow> string \<Rightarrow> time \<Rightarrow> 's
      \<Rightarrow> (go_error + unit) \<times> 's"
    and release_op :: "string \<Rightarrow> task_id \<Rightarrow> string \<Rightarrow> time \<Rightarrow> 's \<Rightarrow> (go_error + unit) \<times> 's"
  assumes claim_ok: "ok s \<Longrightarrow> claim_op g w l now s = (r, s') \<Longrightarrow> ok s'"
    and claim_refused: "ok s \<Longrightarrow> claim_op g w l now s = (Inl e, s') \<Longrightarrow> s' = s"
    and claim_held: "ok s \<Longrightarrow> claim_op g w l now s = (Inr t, s') \<Longrightarrow> at < now + l \<Longrightarrow>
      held_op g (t_id t) w at s' = Inr t"
    and claim_running: "ok s \<Longrightarrow> claim_op g w l now s = (Inr t, s') \<Longrightarrow> t_state t = Running"
    and complete_ok: "ok s \<Longrightarrow> w \<noteq> '''' \<Longrightarrow> complete_op g i w nx res f now s = (q, s') \<Longrightarrow> ok s'"
    and complete_refused: "held_op g i w now s = Inl e \<Longrightarrow> complete_op g i w nx res f now s = (Inl e, s)"
    and complete_held: "ok s \<Longrightarrow> w \<noteq> '''' \<Longrightarrow> held_op g i w now s = Inr t \<Longrightarrow>
      can_transition_to (t_state t) nx \<Longrightarrow> \<exists>s'. complete_op g i w nx res f now s = (Inr (), s')"
    and complete_unheld: "ok s \<Longrightarrow> w \<noteq> '''' \<Longrightarrow> complete_op g i w nx res f now s = (Inr (), s') \<Longrightarrow> v \<noteq> '''' \<Longrightarrow>
      \<exists>e. held_op g i v at s' = Inl e \<and> errors_is e ErrLeaseLost"
    and release_refused: "held_op g i w now s = Inl e \<Longrightarrow> release_op g i w now s = (Inl e, s)"
    and release_unheld: "ok s \<Longrightarrow> w \<noteq> '''' \<Longrightarrow> release_op g i w now s = (Inr (), s') \<Longrightarrow> v \<noteq> '''' \<Longrightarrow>
      \<exists>e. held_op g i v at s' = Inl e \<and> errors_is e ErrLeaseLost"
begin

text \<open>A worker that finishes inside its lease can record any outcome the table allows from Running.\<close>

lemma claim_then_complete:
  assumes "ok s" "w \<noteq> ''''" "claim_op g w l now s = (Inr t, s')" "at < now + l"
    "nx \<in> {Succeeded, Failed, AwaitingApproval, Ready, Cancelled}"
  shows "\<exists>s''. complete_op g (t_id t) w nx res f at s' = (Inr (), s'') \<and> ok s''"
proof -
  have ok: "ok s'" using claim_ok assms(1,3) .
  have "can_transition_to (t_state t) nx"
    using claim_running [OF assms(1,3)] assms(5) by (auto simp: can_transition_to_def)
  from complete_held [OF ok assms(2) claim_held [OF assms(1,3,4)] this, of res f] obtain s''
    where "complete_op g (t_id t) w nx res f at s' = (Inr (), s'')" by blast
  with complete_ok [OF ok assms(2)] show ?thesis by blast
qed

text \<open>An outcome is recorded once: afterwards no worker can complete or release the task without claiming it again.\<close>

lemma complete_once:
  assumes "ok s" "w \<noteq> ''''" "complete_op g i w nx res f now s = (Inr (), s')" "v \<noteq> ''''"
  shows "\<exists>e. errors_is e ErrLeaseLost \<and> complete_op g i v nx' res' f' at s' = (Inl e, s') \<and>
    release_op g i v at s' = (Inl e, s')"
  using complete_unheld [OF assms, of at] complete_refused release_refused by blast

lemma release_once:
  assumes "ok s" "w \<noteq> ''''" "release_op g i w now s = (Inr (), s')" "v \<noteq> ''''"
  shows "\<exists>e. errors_is e ErrLeaseLost \<and> complete_op g i v nx' res' f' at s' = (Inl e, s') \<and>
    release_op g i v at s' = (Inl e, s')"
  using release_unheld [OF assms, of at] complete_refused release_refused by blast

end

end
