(* ===== verification/Store_Lease.thy ===== *)
theory Store_Lease
  imports Store_Run Lease
begin

text \<open>
  Leases on the in-process store: it provides the worker's contract, a lease that is live keeps
  everybody else off its task whatever else happens to the store, and a writer without a live lease
  changes nothing.
\<close>

section \<open>A writer without the lease\<close>

lemma held_Inl_lost:
  assumes "tasks_of m gid = Some ts" "map_of ts i = Some t"
    "leased_by t \<noteq> w \<or> \<not> after_time (lease_expiry t) now"
  shows "\<exists>msg. held gid i w now m = Inl (ErrLeaseLost, msg)"
  using assms by (auto simp: held_def)

lemma complete_Inl: "held gid i w now m = Inl e \<Longrightarrow> complete gid i w nx res f now m = (Inl e, m)"
  by (simp add: complete_def)

lemma release_Inl: "held gid i w now m = Inl e \<Longrightarrow> release gid i w now m = (Inl e, m)"
  by (simp add: release_def)

lemma renew_Inl: "held gid i w now m = Inl e \<Longrightarrow> renew gid i w l now m = (Inl e, m)"
  by (simp add: renew_def)

section \<open>What a completion leaves behind\<close>

text \<open>The completed task in the store afterwards, by the state it was moved to.\<close>

definition completed :: "task \<Rightarrow> task_state \<Rightarrow> string \<Rightarrow> string \<Rightarrow> time \<Rightarrow> task" where
  "completed t nx res f now = t\<lparr>t_state := nx, t_updated := now, t_result := res, t_failure := f,
     leased_by := '''', lease_expiry := zero_time\<rparr>"

lemma complete_Inr:
  assumes "complete gid i w nx res f now m = (Inr (), m')" "mem_sound m" "w \<noteq> ''''"
  obtains ts ts' t where "tasks_of m gid = Some ts" "map_of ts i = Some t" "held gid i w now m = Inr t"
    "t_state t = Running" "can_transition_to Running nx" "tasks_of m' gid = Some ts'"
    "map_of ts' i = Some (completed t nx res f now)" "goals m' = goals m"
    "only_blocks (AList.update i (completed t nx res f now) ts) ts'" "nx = Failed \<longrightarrow> settled ts'"
proof -
  from assms(1) obtain t u where h: "held gid i w now m = Inr t" and tr: "transition t nx now = Inr u"
    by (cases "held gid i w now m"; cases "transition (projr (held gid i w now m)) nx now")
       (auto simp: complete_def)
  from h obtain ts where ts: "tasks_of m gid = Some ts" "map_of ts i = Some t" by (auto simp: held_Inr)
  have u: "can_transition_to (t_state t) nx" "u = t\<lparr>t_state := nx, t_updated := now\<rparr>"
    using tr by (auto simp: transition_Inr)
  have "t_state t = Running \<or> t_state t = Cancelled"
    using soundD [OF mem_soundD [OF assms(2) ts(1)] ts(2)] h assms(3)
    by (auto simp: held_Inr sound_task_def lease_clean_def)
  with u(1) have st: "t_state t = Running" by (auto simp: can_transition_to_def)
  let ?t = "completed t nx res f now"
  let ?m = "put_task gid i ?t m"
  have t: "u\<lparr>t_result := res, t_failure := f, leased_by := '''', lease_expiry := zero_time\<rparr> = ?t"
    using u(2) by (simp add: completed_def)
  have mts: "tasks_of ?m gid = Some (AList.update i ?t ts)" using ts(1) by (simp add: store_simps)
  show ?thesis
  proof (cases "nx = Failed")
    case False
    with assms(1) h tr t have "m' = ?m" by (simp add: complete_def)
    show ?thesis
      by (rule that [OF ts h st, of "AList.update i ?t ts"])
        (use u(1) st mts False \<open>m' = ?m\<close> in \<open>simp_all add: store_simps only_blocks_refl\<close>)
  next
    case True
    with assms(1) h tr t have p: "propagate_in gid ?m = (Inr (), m')" by (simp add: complete_def)
    then obtain n ts' where p': "propagate_failure (AList.update i ?t ts) = Some (n, ts')"
        "m' = put_tasks gid ts' ?m"
      using mts by (auto simp: propagate_in_def split: option.splits)
    note ob = propagate_spec(1,2) [OF p'(1)]
    have "map_of ts' i = Some ?t"
      by (rule only_blocksD [OF ob(1), of i ?t]) (use True in \<open>auto simp: completed_def\<close>)
    show ?thesis
      by (rule that [OF ts h st, of ts'])
        (use u(1) st ts(1) p'(2) ob \<open>map_of ts' i = Some ?t\<close> in \<open>simp_all add: store_simps\<close>)
  qed
qed

lemma release_Inr:
  assumes "release gid i w now m = (Inr (), m')"
  obtains ts t where "tasks_of m gid = Some ts" "map_of ts i = Some t" "held gid i w now m = Inr t"
    "can_transition_to (t_state t) Ready"
    "m' = put_task gid i (t\<lparr>t_state := Ready, t_updated := now, leased_by := '''', lease_expiry := zero_time\<rparr>) m"
proof -
  from assms obtain t u where h: "held gid i w now m = Inr t" and tr: "transition t Ready now = Inr u"
    by (cases "held gid i w now m"; cases "transition (projr (held gid i w now m)) Ready now")
       (auto simp: release_def)
  from h obtain ts where "tasks_of m gid = Some ts" "map_of ts i = Some t" by (auto simp: held_Inr)
  then show ?thesis
    by (rule that [OF _ _ h]) (use h tr assms in \<open>simp_all add: release_def transition_def split: if_splits\<close>)
qed

lemma complete_total:
  assumes "mem_sound m" "w \<noteq> ''''" "held gid i w now m = Inr t" "can_transition_to (t_state t) nx"
  shows "\<exists>m'. complete gid i w nx res f now m = (Inr (), m')"
proof -
  obtain u where u: "transition t nx now = Inr u" using assms(4) by (simp add: transition_def)
  let ?t = "u\<lparr>t_result := res, t_failure := f, leased_by := '''', lease_expiry := zero_time\<rparr>"
  let ?m = "put_task gid i ?t m"
  have k: "mem_sound ?m"
    using held_write_keeps [OF assms(1,3,2) u, of ?t] by (simp add: same_task_def keeps_def)
  from assms(3) obtain ts where "tasks_of m gid = Some ts" by (auto simp: held_Inr)
  then have "tasks_of ?m gid = Some (AList.update i ?t ts)" by (simp add: store_simps)
  with k obtain ts' where "propagate_in gid ?m = (Inr (), put_tasks gid ts' ?m)"
    by (rule propagate_in_keeps)
  with assms(3) u show ?thesis by (simp add: complete_def Let_def)
qed

section \<open>The in-process store provides the contract\<close>

lemma claim_Inl: "mem_sound m \<Longrightarrow> claim gid w l now m = (Inl e, m') \<Longrightarrow> m' = m"
  by (erule claim_cases) auto

lemma claim_Inr_running: "mem_sound m \<Longrightarrow> claim gid w l now m = (Inr t, m') \<Longrightarrow> t_state t = Running"
  by (erule claim_cases) (auto simp: take_lease_def)

lemma claim_Inr_held:
  assumes "mem_sound m" "claim gid w l now m = (Inr t, m')" "at < now + l"
  shows "held gid (t_id t) w at m' = Inr t"
  using assms(2,1)
proof (cases rule: claim_cases)
  case (taken g ts u)
  with assms(3) show ?thesis by (auto simp: held_Inr store_simps take_lease_def after_time_def)
qed simp

lemma unleased_lost:
  assumes "tasks_of m gid = Some ts" "map_of ts i = Some t" "leased_by t = ''''" "v \<noteq> ''''"
  shows "\<exists>e. held gid i v at m = Inl e \<and> errors_is e ErrLeaseLost"
  using held_Inl_lost [OF assms(1,2), of v at] assms(3,4) by auto

lemma complete_Inr_unheld:
  assumes "mem_sound m" "w \<noteq> ''''" "complete gid i w nx res f now m = (Inr (), m')" "v \<noteq> ''''"
  shows "\<exists>e. held gid i v at m' = Inl e \<and> errors_is e ErrLeaseLost"
  using assms(3,1,2)
  by (rule complete_Inr) (rule unleased_lost, assumption, assumption, simp_all add: completed_def assms(4))

lemma release_Inr_unheld:
  assumes "release gid i w now m = (Inr (), m')" "v \<noteq> ''''"
  shows "\<exists>e. held gid i v at m' = Inl e \<and> errors_is e ErrLeaseLost"
  using assms(1)
proof (rule release_Inr)
  fix ts t
  assume "tasks_of m gid = Some ts" "map_of ts i = Some t"
    and m': "m' = put_task gid i (t\<lparr>t_state := Ready, t_updated := now, leased_by := '''', lease_expiry := zero_time\<rparr>) m"
  then have "tasks_of m' gid = Some (AList.update i
      (t\<lparr>t_state := Ready, t_updated := now, leased_by := [], lease_expiry := zero_time\<rparr>) ts)"
    by (simp add: store_simps)
  then show ?thesis by (rule unleased_lost [OF _ _ _ assms(2)], simp, simp)
qed

interpretation mem_lease: lease_store mem_sound claim held complete release
proof unfold_locales
  fix m g w l now r m' assume "mem_sound m" "claim g w l now m = (r, m')"
  then show "mem_sound m'" using claim_keeps by (auto simp: keeps_def)
next
  fix m g w i nx res f now r m'
  assume "mem_sound m" "w \<noteq> ''''" "complete g i w nx res f now m = (r, m')"
  then show "mem_sound m'" using complete_keeps by (auto simp: keeps_def)
next
  fix m g i w nx res f now m' and v :: string and at
  assume "mem_sound m" "w \<noteq> []" "complete g i w nx res f now m = (Inr (), m')" "v \<noteq> []"
  then show "\<exists>e. held g i v at m' = Inl e \<and> errors_is e ErrLeaseLost" by (rule complete_Inr_unheld)
next
  fix m g i w now m' and v :: string and at
  assume "release g i w now m = (Inr (), m')" "v \<noteq> []"
  then show "\<exists>e. held g i v at m' = Inl e \<and> errors_is e ErrLeaseLost" by (rule release_Inr_unheld)
qed (auto intro: claim_Inl claim_Inr_held claim_Inr_running complete_Inl release_Inl complete_total)

section \<open>A live lease keeps everybody else off\<close>

definition leased_to :: "mem \<Rightarrow> string \<Rightarrow> task_id \<Rightarrow> string \<Rightarrow> time \<Rightarrow> bool" where
  "leased_to m gid i w e \<longleftrightarrow> (\<exists>ts t. tasks_of m gid = Some ts \<and> map_of ts i = Some t \<and>
     t_state t = Running \<and> leased_by t = w \<and> lease_expiry t = e)"

text \<open>The clock an operation reads, and the operations of the lease's own holder.\<close>

fun op_time :: "store_op \<Rightarrow> time option" where
  "op_time (OpClaim gid w l now) = Some now"
| "op_time (OpRenew gid i w l now) = Some now"
| "op_time (OpComplete gid i w nx res f now) = Some now"
| "op_time (OpRelease gid i w now) = Some now"
| "op_time (OpDecide gid i ok now) = Some now"
| "op_time (OpCancel gid now) = Some now"
| "op_time _ = None"

fun owner_op :: "string \<Rightarrow> task_id \<Rightarrow> string \<Rightarrow> store_op \<Rightarrow> bool" where
  "owner_op gid i w (OpRenew gid' i' w' l now) \<longleftrightarrow> gid' = gid \<and> i' = i \<and> w' = w"
| "owner_op gid i w (OpComplete gid' i' w' nx res f now) \<longleftrightarrow> gid' = gid \<and> i' = i \<and> w' = w"
| "owner_op gid i w (OpRelease gid' i' w' now) \<longleftrightarrow> gid' = gid \<and> i' = i \<and> w' = w"
| "owner_op gid i w _ \<longleftrightarrow> False"

definition before_expiry :: "time \<Rightarrow> store_op \<Rightarrow> bool" where
  "before_expiry e op \<longleftrightarrow> (case op_time op of None \<Rightarrow> True | Some now \<Rightarrow> now < e)"

definition claims_task :: "string \<Rightarrow> task_id \<Rightarrow> store_op \<Rightarrow> op_result \<Rightarrow> bool" where
  "claims_task gid i op r \<longleftrightarrow>
     (case (op, r) of (OpClaim gid' w l now, RTask (Inr t)) \<Rightarrow> gid' = gid \<and> t_id t = i | _ \<Rightarrow> False)"

lemma leased_toI_same: "leased_to m gid i w e \<Longrightarrow> tasks_of m' gid = tasks_of m gid \<Longrightarrow> leased_to m' gid i w e"
  by (simp add: leased_to_def)

lemma leased_to_put_other:
  "leased_to m gid i w e \<Longrightarrow> gid' \<noteq> gid \<or> i' \<noteq> i \<Longrightarrow> leased_to (put_task gid' i' t m) gid i w e"
  by (auto simp: leased_to_def store_simps)

lemma only_blocks_active:
  assumes "sound ts" "only_blocks ts ts'" "map_of ts i = Some t" "active (t_state t)"
  shows "map_of ts' i = Some t"
proof (rule only_blocksD [OF assms(2,3)])
  fix dep ds assume b: "\<not> terminal (t_state t)" "doomed ts i"
  from sound_blocked [OF assms(1,3) b] assms(4) show "map_of ts' i = Some t" by (auto simp: active_def)
qed

lemma leased_to_propagate:
  assumes "leased_to m gid i w e" "mem_sound m" "propagate_in gid' m = (r, m')"
  shows "leased_to m' gid i w e"
proof (cases "tasks_of m gid'")
  case None
  with assms show ?thesis by (simp add: propagate_in_def)
next
  case (Some ts)
  obtain n ts' where p: "propagate_failure ts = Some (n, ts')" "m' = put_tasks gid' ts' m"
    using propagate_in_keeps [OF assms(2) Some] assms(3) by (metis prod.inject)
  show ?thesis
  proof (cases "gid' = gid")
    case True
    with assms(1) Some obtain t where t: "map_of ts i = Some t" "t_state t = Running" "leased_by t = w"
        "lease_expiry t = e" by (auto simp: leased_to_def)
    have "map_of ts' i = Some t"
      using only_blocks_active [OF mem_soundD [OF assms(2) Some] propagate_spec(1) [OF p(1)] t(1)] t(2)
      by (simp add: active_def)
    with True Some p t show ?thesis by (simp add: leased_to_def store_simps)
  next
    case False
    with assms(1) p show ?thesis by (auto simp: leased_to_def store_simps)
  qed
qed

lemma leased_to_held:
  assumes "leased_to m gid i w e" "held gid i v now m = Inr t"
  shows "v = w" "t_state t = Running" "lease_expiry t = e" "now < e"
  using assms by (auto simp: leased_to_def held_Inr after_time_def)

text \<open>The three writes under a lease, by a worker that does not hold this one.\<close>

lemma leased_to_renew:
  assumes "leased_to m gid i w e" "renew gid' i' v l now m = (r, m')" "\<not> (gid' = gid \<and> i' = i \<and> v = w)"
  shows "leased_to m' gid i w e"
proof (cases "held gid' i' v now m")
  case (Inr t)
  then have "gid' \<noteq> gid \<or> i' \<noteq> i" using assms(1,3) leased_to_held(1) by blast
  with assms Inr show ?thesis by (auto simp: renew_def intro: leased_to_put_other)
qed (use assms in \<open>simp add: renew_def\<close>)

lemma leased_to_release:
  assumes "leased_to m gid i w e" "release gid' i' v now m = (r, m')" "\<not> (gid' = gid \<and> i' = i \<and> v = w)"
  shows "leased_to m' gid i w e"
proof (cases "held gid' i' v now m")
  case (Inr t)
  then have "gid' \<noteq> gid \<or> i' \<noteq> i" using assms(1,3) leased_to_held(1) by blast
  with assms Inr show ?thesis by (auto simp: release_def intro: leased_to_put_other split: sum.splits)
qed (use assms in \<open>simp add: release_def\<close>)

lemma leased_to_complete:
  assumes "leased_to m gid i w e" "complete gid' i' v nx res f now m = (r, m')"
    "\<not> (gid' = gid \<and> i' = i \<and> v = w)" "mem_sound m" "v \<noteq> ''''"
  shows "leased_to m' gid i w e"
proof (cases "held gid' i' v now m")
  case (Inr t)
  then have ne: "gid' \<noteq> gid \<or> i' \<noteq> i" using assms(1,3) leased_to_held(1) by blast
  show ?thesis
  proof (cases "transition t nx now")
    case (Inl e)
    with Inr assms show ?thesis by (simp add: complete_def)
  next
    case tr: (Inr u)
    let ?t = "u\<lparr>t_result := res, t_failure := f, leased_by := '''', lease_expiry := zero_time\<rparr>"
    have k: "mem_sound (put_task gid' i' ?t m)"
      using held_write_keeps [OF assms(4) Inr assms(5) tr, of ?t] by (simp add: same_task_def keeps_def)
    have "leased_to (put_task gid' i' ?t m) gid i w e" using leased_to_put_other [OF assms(1) ne] .
    with assms(2) Inr tr leased_to_propagate [OF _ k] show ?thesis
      by (auto simp: complete_def Let_def split: if_splits)
  qed
qed (use assms in \<open>simp add: complete_def\<close>)

lemma leased_to_decide:
  assumes "leased_to m gid i w e" "decide gid' i' ok now m = (r, m')" "mem_sound m"
  shows "leased_to m' gid i w e"
proof (cases "\<exists>ts t. tasks_of m gid' = Some ts \<and> map_of ts i' = Some t \<and> t_state t = AwaitingApproval")
  case True
  then obtain ts t where ts: "tasks_of m gid' = Some ts" "map_of ts i' = Some t" "t_state t = AwaitingApproval"
    by blast
  with assms(1) have ne: "gid' \<noteq> gid \<or> i' \<noteq> i" by (auto simp: leased_to_def)
  let ?t = "t\<lparr>t_state := if ok then Ready else Cancelled, t_updated := now\<rparr>"
  have tr: "transition t (if ok then Ready else Cancelled) now = Inr ?t"
    using ts(3) by (simp add: transition_def can_transition_to_def)
  show ?thesis
  proof (cases ok)
    case True
    with assms(2) ts tr leased_to_put_other [OF assms(1) ne] show ?thesis by (auto simp: decide_def)
  next
    case False
    let ?u = "?t\<lparr>approved := False, t_failure := ''declined''\<rparr>"
    have "mem_sound (put_task gid' i' ?u m)"
    proof -
      have "keeps m (put_task gid' i' ?u m)"
        by (rule put_task_keeps [OF assms(3) ts(1,2)])
          (use False ts(3) in \<open>auto simp: same_task_def active_def lease_clean_def can_transition_to_def intro: moves_one\<close>)
      then show ?thesis by (simp add: keeps_def)
    qed
    with False assms(2) ts tr leased_to_put_other [OF assms(1) ne] show ?thesis
      by (auto simp: decide_def intro: leased_to_propagate)
  qed
next
  case False
  then have "m' = m" using assms(2) by (auto simp: decide_def split: option.splits if_splits)
  with assms(1) show ?thesis by simp
qed

lemma leased_to_cancel:
  assumes "leased_to m gid i w e" "cancel gid' now m = (r, m')" "w \<noteq> ''''" "now < e"
  shows "leased_to m' gid i w e"
proof (cases "gid' = gid")
  case True
  from assms(1) obtain ts t where ts: "tasks_of m gid = Some ts" "map_of ts i = Some t" "t_state t = Running"
      "leased_by t = w" "lease_expiry t = e" by (auto simp: leased_to_def)
  then have "cancel_task now t = t" using assms(3,4) by (simp add: cancel_task_def cancellable_def after_time_def)
  with True ts assms(2) show ?thesis
    by (auto simp: cancel_def Let_def store_simps cancel_tasks_eq leased_to_def map_of_cancel
        split: option.splits sum.splits)
next
  case False
  with assms(1,2) show ?thesis
    by (auto simp: cancel_def Let_def store_simps leased_to_def split: option.splits sum.splits prod.splits)
qed

lemma leased_to_claim:
  assumes "leased_to m gid i w e" "claim gid' v l now m = (r, m')" "mem_sound m" "now < e"
  shows "leased_to m' gid i w e \<and> (\<forall>t. r = Inr t \<longrightarrow> gid' = gid \<longrightarrow> t_id t \<noteq> i)"
  using assms(2,3)
proof (cases rule: claim_cases)
  case (taken g ts t)
  have ne: "gid' \<noteq> gid \<or> t_id t \<noteq> i"
    using assms(1,4) taken by (auto simp: leased_to_def takeable_def after_time_def)
  with taken leased_to_put_other [OF assms(1) ne] show ?thesis by (auto simp: take_lease_def)
qed (use assms in simp)

lemma create_goal_tasks: "tasks_of (snd (create_goal g m)) = tasks_of m"
  by (simp add: create_goal_def store_simps split: option.splits)

lemma save_goal_tasks: "tasks_of (snd (save_goal g m)) = tasks_of m"
  by (simp add: save_goal_def store_simps split: option.splits sum.splits)

lemma leased_to_step:
  assumes lease: "leased_to m gid i w e" and m: "mem_sound m" and w: "w \<noteq> ''''"
    and op: "op_ok m op" "before_expiry e op" "\<not> owner_op gid i w op" "apply_op op m = (r, m')"
  shows "leased_to m' gid i w e \<and> \<not> claims_task gid i op r"
proof (cases op)
  case (OpCreateGoal g)
  have "tasks_of m' gid = tasks_of m gid"
    using create_goal_tasks [of g m] op(4) OpCreateGoal by (cases "create_goal g m") simp
  with OpCreateGoal leased_toI_same [OF lease] show ?thesis by (simp add: claims_task_def)
next
  case (OpSaveGoal g)
  have "tasks_of m' gid = tasks_of m gid"
    using save_goal_tasks [of g m] op(4) OpSaveGoal by (cases "save_goal g m") simp
  with OpSaveGoal leased_toI_same [OF lease] show ?thesis by (simp add: claims_task_def)
next
  case (OpSaveDag d)
  with lease op show ?thesis
    by (auto simp: claims_task_def leased_to_def grows_def store_simps)
next
  case (OpClaim gid' v l now)
  obtain q m1 where c: "claim gid' v l now m = (q, m1)" by (cases "claim gid' v l now m")
  with op OpClaim have eqs: "r = RTask q" "m' = m1" "now < e" by (simp_all add: before_expiry_def)
  from leased_to_claim [OF lease c m eqs(3)] OpClaim eqs(1,2) show ?thesis
    by (cases q) (simp_all add: claims_task_def)
next
  case (OpRenew gid' i' v l now)
  with lease op show ?thesis by (auto simp: claims_task_def split: prod.splits intro: leased_to_renew)
next
  case (OpComplete gid' i' v nx res f now)
  with lease m op show ?thesis by (auto simp: claims_task_def split: prod.splits intro: leased_to_complete)
next
  case (OpRelease gid' i' v now)
  with lease op show ?thesis by (auto simp: claims_task_def split: prod.splits intro: leased_to_release)
next
  case (OpDecide gid' i' ok now)
  with lease m op show ?thesis by (auto simp: claims_task_def split: prod.splits intro: leased_to_decide)
next
  case (OpCancel gid' now)
  with lease w op show ?thesis
    by (auto simp: claims_task_def before_expiry_def split: prod.splits intro: leased_to_cancel)
next
  case (OpCheckpoint cp)
  with lease op show ?thesis by (auto simp: claims_task_def store_simps intro: leased_toI_same)
qed

lemma leased_to_run:
  assumes "leased_to m gid i w e" "mem_sound m" "w \<noteq> ''''" "ops_ok m ops"
    "\<forall>op \<in> set ops. before_expiry e op \<and> \<not> owner_op gid i w op" "run_ops ops m = (rs, m')"
  shows "leased_to m' gid i w e \<and> (\<forall>(op, r) \<in> set (zip ops rs). \<not> claims_task gid i op r)"
  using assms
proof (induction ops arbitrary: m rs)
  case (Cons op ops)
  obtain r m1 where r: "apply_op op m = (r, m1)" by (cases "apply_op op m")
  obtain rs1 where rs: "run_ops ops m1 = (rs1, m')" "rs = r # rs1"
    using Cons.prems(6) r by (auto split: prod.splits)
  have "leased_to m1 gid i w e \<and> \<not> claims_task gid i op r"
    using Cons.prems by (intro leased_to_step [OF _ _ _ _ _ _ r]) auto
  moreover have "mem_sound m1" using apply_op_keeps [OF _ r] Cons.prems by (simp add: keeps_def)
  ultimately show ?case using Cons.IH [of m1 rs1] Cons.prems r rs by auto
qed simp

lemma claim_leases:
  assumes "claim gid w l now m = (Inr t, m')" "mem_sound m"
  shows "leased_to m' gid (t_id t) w (now + l)"
  using assms
proof (cases rule: claim_cases)
  case (taken g ts u)
  then show ?thesis by (auto simp: leased_to_def store_simps take_lease_def)
qed simp

end
