(* ===== verification/Samples.thy ===== *)
theory Samples
  imports Store_Lease
begin

text \<open>
  Concrete goals, graphs and stores on which the witnesses evaluate the properties.
\<close>

definition sample_ceilings :: ceilings where
  "sample_ceilings = \<lparr>max_iterations = 10, max_tasks = 20, max_attempts_per_task = 3, max_tool_calls = 50,
     max_tokens = 10000, max_cost_cents = 100, max_wall_clock = 1000, max_spawn_depth = 3\<rparr>"

definition zero_spend :: spend where
  "zero_spend = \<lparr>sp_iterations = 0, sp_tasks = 0, sp_tool_calls = 0, sp_tokens = 0,
     sp_cost_micro_cents = 0, sp_elapsed = 0, sp_spawn_depth = 0\<rparr>"

definition sample_criterion :: criterion where
  "sample_criterion = \<lparr>c_kind = AllTasksSucceeded, c_threshold = 1, c_met = False, c_observed = 0, c_measured_at = 0\<rparr>"

definition sample_goal :: goal where
  "sample_goal = \<lparr>g_id = ''g'', g_tenant = ''acme'', g_intent = ''assess'', g_objective = ''find out'',
     g_subject = \<lparr>repo_url = ''repo'', revision = ''rev'', workflow_id = ''''\<rparr>, g_axes = [''model'', ''tools''],
     g_ceilings = sample_ceilings, g_spend = zero_spend, g_criteria = [sample_criterion], g_milestones = [],
     g_state = GoalRunning, g_refusal = None, g_expected = 0, g_created = 1, g_updated = 1, g_last_checkpoint = 0\<rparr>"

definition sample_task :: "task_id \<Rightarrow> string \<Rightarrow> task_id list \<Rightarrow> task_state \<Rightarrow> task" where
  "sample_task i k deps s = \<lparr>t_id = i, t_goal = ''g'', t_kind = k, depends_on = deps, contributes = [], t_state = s,
     attempt = 0, spawn_depth = 0, idempotency_key = '''', approved = False, t_result = '''', t_failure = '''',
     leased_by = '''', lease_expiry = 0, t_created = 1, t_updated = 1\<rparr>"

text \<open>Two leaves and a join over the first.\<close>

definition sample_tasks :: "task_state \<Rightarrow> task_state \<Rightarrow> task_state \<Rightarrow> task list" where
  "sample_tasks a b j = [sample_task ''a'' ''assess_axis'' [] a, sample_task ''b'' ''assess_axis'' [] b,
     sample_task ''j'' ''synthesise_assessment'' [''a''] j]"

lemmas sample_defs = sample_ceilings_def zero_spend_def sample_criterion_def sample_goal_def sample_task_def
  sample_tasks_def

lemma sample_wf: "graph_wf (by_id (sample_tasks a b j))"
proof -
  have "dep_rel (by_id (sample_tasks a b j)) = {(''j'', ''a'')}"
    by (auto simp: dep_rel_def by_id_def sample_defs edges_alt split: if_splits)
  moreover have "acyclic {(''j'', ''a'')}" by (auto simp: acyclic_def elim: tranclE)
  ultimately show ?thesis
    by (auto simp: graph_wf_def refs_closed_def by_id_def sample_defs edges_alt)
qed

definition sample_dag :: dag where
  "sample_dag = \<lparr>dag_goal = ''g'', dag_tasks = by_id (sample_tasks Pending Pending Pending)\<rparr>"

text \<open>A store with one running goal and its graph, and the same after a worker took the first task.\<close>

definition sample_ops :: "store_op list" where
  "sample_ops = [OpCreateGoal sample_goal, OpSaveDag sample_dag]"

definition sample_mem :: mem where
  "sample_mem = \<lparr>goals = [(''g'', sample_goal)], dags = [(''g'', sample_dag)], checkpoints = []\<rparr>"

lemma sample_mem_run: "snd (run_ops sample_ops new_memory) = sample_mem"
  by (simp add: sample_ops_def sample_mem_def new_memory_def create_goal_def put_goal_def save_dag_def
      sample_dag_def sample_goal_def)

lemma sample_reachable: "reachable sample_mem"
proof -
  have "grows [] (dag_tasks sample_dag)"
    using sample_wf [of Pending Pending Pending]
    by (auto simp: grows_def sample_dag_def by_id_def sample_defs split: if_splits)
  then have "ops_ok new_memory sample_ops"
    by (simp add: sample_ops_def new_memory_def create_goal_def tasks_of_def put_goal_def)
  then have "reachable (snd (run_ops sample_ops new_memory))"
    by (rule run_ops_reachable) (rule reachable.initial)
  then show ?thesis by (simp add: sample_mem_run)
qed

definition leased_task :: task where
  "leased_task = (sample_task ''a'' ''assess_axis'' [] Running)
     \<lparr>attempt := 1, leased_by := ''w'', lease_expiry := 30, t_updated := 10\<rparr>"

definition leased_tasks :: tasks where
  "leased_tasks = [(''a'', leased_task), (''b'', sample_task ''b'' ''assess_axis'' [] Pending),
     (''j'', sample_task ''j'' ''synthesise_assessment'' [''a''] Pending)]"

definition leased_mem :: mem where
  "leased_mem = \<lparr>goals = [(''g'', sample_goal)], dags = [(''g'', sample_dag\<lparr>dag_tasks := leased_tasks\<rparr>)],
     checkpoints = []\<rparr>"

lemma leased_reads:
  "tasks_of leased_mem ''g'' = Some leased_tasks" "map_of leased_tasks ''a'' = Some leased_task"
  "t_id leased_task = ''a''" "t_state leased_task = Running" "leased_by leased_task = ''w''"
  "lease_expiry leased_task = 30" "map_of (goals leased_mem) ''g'' = Some sample_goal"
  by (simp_all add: leased_mem_def leased_tasks_def tasks_of_def leased_task_def sample_task_def)

lemma sample_reads:
  "tasks_of sample_mem ''g'' = Some (dag_tasks sample_dag)" "map_of (goals sample_mem) ''g'' = Some sample_goal"
  "map_of (dag_tasks sample_dag) ''a'' = Some (sample_task ''a'' ''assess_axis'' [] Pending)"
  "g_state sample_goal = GoalRunning" "g_id sample_goal = ''g''" "g_tenant sample_goal = ''acme''"
  by (simp_all add: sample_mem_def tasks_of_def sample_dag_def by_id_def sample_defs)

lemma sample_task_simps [simp]:
  "t_id (sample_task i k deps s) = i" "t_state (sample_task i k deps s) = s" "t_kind (sample_task i k deps s) = k"
  "depends_on (sample_task i k deps s) = deps" "leased_by (sample_task i k deps s) = ''''"
  by (simp_all add: sample_task_def)

lemma sample_claim: "claim ''g'' ''w'' 20 10 sample_mem = (Inr leased_task, leased_mem)"
  by code_simp

lemma leased_reachable: "reachable leased_mem"
proof -
  have "store_step sample_mem leased_mem"
    by (rule store_step.step [of _ "OpClaim ''g'' ''w'' 20 10"]) (simp_all add: sample_claim)
  then show ?thesis by (rule reachable.step_on [OF sample_reachable])
qed

end
