(* ===== verification/Core_Props.thy ===== *)
theory Core_Props
  imports Planner_Contract Toolcontract Samples
begin

text \<open>
  The properties of the task graph, the goal, the planner, the tool registry and the autonomy policy,
  each stated over the model's definitions and proved from the component theories.
\<close>

section \<open>The task graph\<close>

text \<open>\<open>NewDAG\<close> accepts a list of tasks exactly when the ids are distinct, every edge (required or
contributory) names a task of the list and the edges are acyclic; the graph then holds exactly those tasks.
The depth-first search of the code with its explicit stack is equivalent to acyclicity.\<close>

theorem new_dag_accepts:
  "new_dag g ts = Inr d \<longleftrightarrow>
     distinct (map t_id ts) \<and> (\<Union>t\<in>set ts. set (edges t)) \<subseteq> t_id ` set ts \<and>
     acyclic {(t_id t, y) | t y. t \<in> set ts \<and> y \<in> set (edges t)} \<and>
     d = \<lparr>dag_goal = g, dag_tasks = map (\<lambda>t. (t_id t, t)) ts\<rparr>"
proof (cases "distinct (map t_id ts)")
  case True
  have rel: "dep_rel (by_id ts) = {(t_id t, y) | t y. t \<in> set ts \<and> y \<in> set (edges t)}"
  proof -
    have "map_of (by_id ts) x = Some t \<longleftrightarrow> t \<in> set ts \<and> t_id t = x" for x t
      using True by (auto simp: by_id_def comp_def intro: map_of_is_SomeI dest: map_of_SomeD)
    then show ?thesis by (auto simp: dep_rel_def)
  qed
  have "refs_closed (by_id ts) \<longleftrightarrow> (\<Union>t\<in>set ts. set (edges t)) \<subseteq> t_id ` set ts"
    by (auto simp: refs_closed_def by_id_def image_image)
  moreover have "\<forall>(i, t) \<in> set (by_id ts). t_id t = i" by (auto simp: by_id_def)
  ultimately show ?thesis using True rel by (simp add: new_dag_wf_iff graph_wf_def by_id_def comp_def)
next
  case False
  then show ?thesis by (simp add: new_dag_wf_iff graph_wf_def)
qed

text \<open>A rejected list is rejected for what is wrong with it, in the order of the checks: a
duplicate id, then a dangling edge (\<open>ErrUnknownTask\<close>), then a cycle (\<open>ErrCycle\<close>).  The search never reads a missing task.\<close>

theorem new_dag_rejects:
  assumes "new_dag g ts = Inl e"
  shows "if \<not> distinct (map t_id ts) then errors_is e Opaque
    else if \<not> (\<Union>t\<in>set ts. set (edges t)) \<subseteq> t_id ` set ts then errors_is e ErrUnknownTask
    else errors_is e ErrCycle"
proof -
  have idx: "errors_is e Opaque" if "index_tasks m us = Inl e" for m us e
    using that by (induction m us rule: index_tasks.induct) (auto split: option.splits)
  have refs1: "errors_is e ErrUnknownTask" if "check_refs m i us = Inl e" for m i us e
    using that by (induction m i us rule: check_refs.induct) (auto split: option.splits)
  have refs: "errors_is e ErrUnknownTask" if "check_all_refs m us = Inl e" for m us e
    using that by (induction m us rule: check_all_refs.induct) (auto split: sum.splits dest: refs1)
  show ?thesis
  proof (cases "distinct (map t_id ts)")
    case False
    then obtain e' where "index_tasks [] ts = Inl e'"
      by (cases "index_tasks [] ts") (auto simp: index_tasks_spec)
    with assms False idx show ?thesis by (auto simp: new_dag_def)
  next
    case True
    then have i: "index_tasks [] ts = Inr (by_id ts)" by (simp add: index_tasks_spec)
    have closed: "check_all_refs (by_id ts) ts = Inr () \<longleftrightarrow> (\<Union>t\<in>set ts. set (edges t)) \<subseteq> t_id ` set ts"
      by (auto simp: check_all_refs_Inr by_id_def image_image)
    show ?thesis
    proof (cases "check_all_refs (by_id ts) ts")
      case (Inl e')
      with assms i True closed refs show ?thesis by (auto simp: new_dag_def)
    next
      case (Inr u)
      then have rc: "refs_closed (by_id ts)" by (simp add: check_all_refs_Inr refs_closed_by_id)
      with assms i Inr have "detect_cycle (by_id ts) = Inl e"
        by (auto simp: new_dag_def split: sum.splits)
      with True Inr closed detect_cycle_error [OF rc] show ?thesis by (auto simp: errors_is_def)
    qed
  qed
qed

theorem new_dag_rejects_witness:
  "\<exists>e. new_dag ''g'' [sample_task ''a'' ''k'' [''b''] Pending, sample_task ''b'' ''k'' [''a''] Pending] = Inl e \<and>
     errors_is e ErrCycle"
proof -
  let ?ts = "[sample_task ''a'' ''k'' [''b''] Pending, sample_task ''b'' ''k'' [''a''] Pending]"
  have "isl (new_dag ''g'' ?ts)" by code_simp
  then obtain e where e: "new_dag ''g'' ?ts = Inl e" by (cases "new_dag ''g'' ?ts") auto
  from new_dag_rejects [OF e] have "errors_is e ErrCycle" by (simp add: edges_alt sample_task_def)
  with e show ?thesis by blast
qed

text \<open>C24. On a validated graph failure propagation terminates without a panic, blocks exactly the open tasks that a
failed, blocked or cancelled task reaches through required dependencies and open tasks, naming a dependency in each
block, changes nothing else, returns the number of tasks blocked, and leaves a graph that is not stalled.\<close>

theorem propagate_blocks_doomed:
  assumes "graph_wf ts"
  shows "\<exists>n ts'. propagate_failure ts = Some (n, ts') \<and> map fst ts' = map fst ts \<and>
    (\<forall>i t. map_of ts i = Some t \<longrightarrow> (\<exists>t'. map_of ts' i = Some t' \<and>
       (if \<not> terminal (t_state t) \<and> doomed ts i
        then \<exists>dep ds. dep \<in> set (depends_on t) \<and> t' = block_on t dep ds else t' = t))) \<and>
    n = int (open_count ts) - int (open_count ts') \<and> stalled ts' = Some False"
proof -
  obtain n ts' where p: "propagate_failure ts = Some (n, ts')" using propagate_total [OF assms] by fastforce
  note spec = propagate_spec [OF p]
  have each: "\<exists>t'. map_of ts' i = Some t' \<and> (if \<not> terminal (t_state t) \<and> doomed ts i
        then \<exists>dep ds. dep \<in> set (depends_on t) \<and> t' = block_on t dep ds else t' = t)"
    if t: "map_of ts i = Some t" for i t
  proof (rule only_blocksD [OF spec(1) t])
    assume same: "map_of ts' i = Some t"
    have "\<not> (\<not> terminal (t_state t) \<and> doomed ts i)"
      using spec(4) [OF t] same by fastforce
    with same show ?thesis by auto
  qed auto
  have "graph_wf ts'" by (rule only_blocks_wf [OF spec(1) assms])
  then have "stalled ts' = Some False" using settled_not_stalled spec(2) by blast
  moreover have "map fst ts' = map fst ts" using spec(1) by (simp add: only_blocks_def)
  ultimately show ?thesis using p each spec(3) by blast
qed

theorem propagate_blocks_doomed_witness:
  "\<exists>n ts'. propagate_failure (by_id (sample_tasks Failed Pending Pending)) = Some (n, ts') \<and> stalled ts' = Some False \<and>
     map_of ts' ''b'' = Some (sample_task ''b'' ''assess_axis'' [] Pending)"
proof -
  let ?ts = "by_id (sample_tasks Failed Pending Pending)"
  have b: "map_of ?ts ''b'' = Some (sample_task ''b'' ''assess_axis'' [] Pending)"
    by (simp add: by_id_def sample_tasks_def)
  have "\<not> doomed ?ts ''b''"
  proof
    assume "doomed ?ts ''b''"
    then show False by (cases rule: doomedE) (use b in \<open>auto simp: failed_dep_def\<close>)
  qed
  then have "\<not> (\<not> terminal (t_state (sample_task ''b'' ''assess_axis'' [] Pending)) \<and> doomed ?ts ''b'')" by blast
  moreover obtain n ts' where p: "propagate_failure ?ts = Some (n, ts')" "stalled ts' = Some False"
    and each: "\<forall>i t. map_of ?ts i = Some t \<longrightarrow> (\<exists>t'. map_of ts' i = Some t' \<and>
       (if \<not> terminal (t_state t) \<and> doomed ?ts i
        then \<exists>dep ds. dep \<in> set (depends_on t) \<and> t' = block_on t dep ds else t' = t))"
    using propagate_blocks_doomed [OF sample_wf, of Failed Pending Pending] by blast
  ultimately have "map_of ts' ''b'' = Some (sample_task ''b'' ''assess_axis'' [] Pending)"
    using each [rule_format, OF b] by (simp only: if_False) blast
  with p show ?thesis by blast
qed

section \<open>Admission and bounds\<close>

text \<open>A goal becomes running exactly when it is a draft of a durable intent about one repository at one pinned
revision, every ceiling is positive, every axis it names is one of the nine and it has a completion criterion;
nothing else of the goal changes.\<close>

theorem admit_iff:
  "admit g now = Inr g' \<longleftrightarrow>
     g_state g = GoalDraft \<and> g_intent g \<in> {''assess'', ''improve'', ''evalset'', ''compare''} \<and>
     repo_url (g_subject g) \<noteq> '''' \<and> revision (g_subject g) \<noteq> '''' \<and>
     (max_iterations (g_ceilings g) > 0 \<and> max_tasks (g_ceilings g) > 0 \<and> max_attempts_per_task (g_ceilings g) > 0 \<and>
      max_tool_calls (g_ceilings g) > 0 \<and> max_tokens (g_ceilings g) > 0 \<and> max_cost_cents (g_ceilings g) > 0 \<and>
      max_wall_clock (g_ceilings g) > 0 \<and> max_spawn_depth (g_ceilings g) > 0) \<and>
     set (g_axes g) \<subseteq> set axes \<and> g_criteria g \<noteq> [] \<and> g' = g\<lparr>g_state := GoalRunning, g_updated := now\<rparr>"
  unfolding admit_Inr admissible_def durable_iff bounded_def by blast

text \<open>The check of the ceilings is exact in 64-bit arithmetic for a money ceiling of at most 9,223,372,036,854
cents: it reports a limit exactly when some spend has reached its ceiling, the goal is then failed with that limit as
its refusal, and untouched otherwise.\<close>

theorem check_ceilings_exact:
  assumes "0 < max_cost_cents (g_ceilings g)" "max_cost_cents (g_ceilings g) \<le> 9223372036854"
  shows "if sp_iterations (g_spend g) < max_iterations (g_ceilings g) \<and> sp_tasks (g_spend g) < max_tasks (g_ceilings g) \<and>
       sp_tool_calls (g_spend g) < max_tool_calls (g_ceilings g) \<and> sp_tokens (g_spend g) < max_tokens (g_ceilings g) \<and>
       sp_cost_micro_cents (g_spend g) < max_cost_cents (g_ceilings g) * 1000000 \<and>
       sp_elapsed (g_spend g) < max_wall_clock (g_ceilings g) \<and> sp_spawn_depth (g_spend g) < max_spawn_depth (g_ceilings g)
     then check_ceilings g now = (('''', False), g)
     else \<exists>which. check_ceilings g now = ((which, True), g\<lparr>g_state := GoalFailed,
            g_refusal := Some \<lparr>r_cause = CeilingExceeded, r_detail = which\<rparr>, g_updated := now\<rparr>)"
proof -
  have c: "wrap64 (max_cost_cents (g_ceilings g) * micro_cents_per_cent) = max_cost_cents (g_ceilings g) * 1000000"
    using cost_ceiling_exact [OF assms(1)] assms(2) by (simp add: max_safe_cents_def micro_cents_per_cent_def)
  obtain which hit where ex: "exceeded (g_spend g) (g_ceilings g) = (which, hit)" by fastforce
  have "hit \<longleftrightarrow> \<not> within (g_spend g) (g_ceilings g)" using ex exceeded_iff [of "g_spend g" "g_ceilings g"] by simp
  then show ?thesis
    by (cases hit) (simp_all add: check_ceilings_def ex within_def c)
qed

theorem check_ceilings_exact_witness:
  "\<exists>which. check_ceilings (sample_goal\<lparr>g_spend := zero_spend\<lparr>sp_cost_micro_cents := 100000000\<rparr>\<rparr>) 5 =
     ((which, True), sample_goal\<lparr>g_spend := zero_spend\<lparr>sp_cost_micro_cents := 100000000\<rparr>, g_state := GoalFailed,
        g_refusal := Some \<lparr>r_cause = CeilingExceeded, r_detail = which\<rparr>, g_updated := 5\<rparr>)"
  using check_ceilings_exact [of "sample_goal\<lparr>g_spend := zero_spend\<lparr>sp_cost_micro_cents := 100000000\<rparr>\<rparr>" 5]
  by (simp add: sample_goal_def sample_ceilings_def zero_spend_def)

text \<open>A money ceiling above that bound wraps, and the goal is over its ceiling before it spends anything.\<close>

lemma cost_ceiling_wraps: "wrap64 ((max_safe_cents + 1) * micro_cents_per_cent) < 0"
  by (simp add: wrap64_def max_safe_cents_def micro_cents_per_cent_def)

section \<open>The planner\<close>

text \<open>The default registry builds the graph of a durable goal exactly when the plan fits the task ceiling and, for
the intents that fan out over axes, the goal names no axis twice.\<close>

theorem build_succeeds_iff:
  assumes "default_planners decode = Inr r" "durable (g_intent g)"
  shows "(\<exists>d. build r g now = Inr d) \<longleftrightarrow>
    (if g_intent g = ''evalset'' then 6 \<le> max_tasks (g_ceilings g)
     else int (length (axes_of g)) + 1 \<le> max_tasks (g_ceilings g) \<and> distinct (g_axes g))"
  using build_default_iff [OF assms(2), of decode now] assms(1) by (auto simp: default_planners_Inr plan_size_def)

theorem build_succeeds_iff_witness:
  "\<exists>d. build (default_registry (\<lambda>_. [])) sample_goal 3 = Inr d"
  using build_succeeds_iff [OF default_planners_Inr, of sample_goal "\<lambda>_. []" 3]
  by (simp add: durable_iff sample_goal_def axes_of_def sample_ceilings_def)

text \<open>C27. A graph that is built is a validated graph of at least one and at most \<open>MaxTasks\<close> tasks, all pending, without
lease, attempt or approval, and every effect-bearing task in it carries an idempotency key.\<close>

theorem build_produces_fresh_graph:
  assumes "default_planners decode = Inr r" "build r g now = Inr d"
  shows "graph_wf (dag_tasks d) \<and> dag_goal d = g_id g \<and> dag_tasks d \<noteq> [] \<and>
    int (length (dag_tasks d)) \<le> max_tasks (g_ceilings g) \<and>
    (\<forall>(i, t) \<in> set (dag_tasks d). fresh_task g t \<and> (effect_bearing (t_kind t) \<longrightarrow> idempotency_key t \<noteq> ''''))"
  using assms(2)
proof (rule build_Inr)
  fix p ts
  assume p: "map_of r (g_intent g) = Some p" and ts: "ts \<noteq> []" "int (length ts) \<le> max_tasks (g_ceilings g)"
    "\<forall>t \<in> set ts. require_idempotency t = Inr ()" "graph_wf (by_id ts)" "d = \<lparr>dag_goal = g_id g, dag_tasks = by_id ts\<rparr>"
  have r: "r = default_registry decode" using assms(1) by (simp add: default_planners_Inr)
  have "planner_contract p" using default_cases p r by blast
  then have "\<forall>(i, t) \<in> set (dag_tasks d). fresh_task g t" using planner_contract.build_fresh p assms(2) by blast
  with ts show ?thesis by (auto simp: by_id_def require_idempotency_Inr)
qed

theorem build_produces_fresh_graph_witness:
  "\<exists>d. build (default_registry (\<lambda>_. [])) sample_goal 3 = Inr d \<and> graph_wf (dag_tasks d)"
proof -
  have "\<exists>d. build (default_registry (\<lambda>_. [])) sample_goal 3 = Inr d"
    using build_default_iff [of sample_goal "\<lambda>_. []" 3]
    by (simp add: durable_iff sample_goal_def axes_of_def sample_ceilings_def plan_size_def)
  with build_produces_fresh_graph [OF default_planners_Inr] show ?thesis by blast
qed


definition one_finding :: "string \<Rightarrow> finding list" where
  "one_finding s = [\<lparr>f_axis = ''model'', f_weakness = ''w'', f_actionable = True\<rparr>]"

definition assessed_tasks :: tasks where
  "assessed_tasks = [(''assess-model'', (sample_task ''assess-model'' ''assess_axis'' [] Succeeded)\<lparr>t_result := ''r''\<rparr>)]"

definition improving_goal :: goal where
  "improving_goal = sample_goal\<lparr>g_intent := ''improve''\<rparr>"

lemma assessed_wf: "graph_wf assessed_tasks"
proof -
  have "dep_rel assessed_tasks = {}"
    by (auto simp: assessed_tasks_def dep_rel_def edges_alt sample_task_def split: if_splits)
  then show ?thesis
    by (simp add: graph_wf_def assessed_tasks_def refs_closed_def edges_alt sample_task_def acyclic_def)
qed

lemma improving_added:
  "\<exists>a b c. revise (default_registry one_finding) improving_goal assessed_tasks 9 = Inr [a, b, c]"
proof -
  let ?r = "revise (default_registry one_finding) improving_goal assessed_tasks 9"
  have "\<not> isl ?r \<and> length (projr ?r) = 3" by code_simp
  then show ?thesis by (cases ?r) (auto simp: numeral_3_eq_3 length_Suc_conv)
qed


text \<open>Replanning converges: once the additions of a round are merged into the graph, the next round adds nothing until
another task succeeds.\<close>

theorem revise_converges:
  assumes "default_planners decode = Inr r" "graph_wf ts" "revise r g ts now = Inr added"
    "new_dag (g_id g) (map snd ts @ added) = Inr d"
  shows "revise r g (dag_tasks d) later = Inr []"
proof -
  obtain p where p: "map_of r (g_intent g) = Some p"
    using assms(3) by (auto simp: revise_def split: option.splits)
  have "planner_contract p" using default_cases p assms(1) by (fastforce simp: default_planners_Inr)
  then show ?thesis using planner_contract.revise_again p assms(2-4) by (simp add: merged_def)
qed

theorem revise_converges_witness:
  "\<exists>added d. added \<noteq> [] \<and> revise (default_registry one_finding) improving_goal assessed_tasks 9 = Inr added \<and>
     new_dag ''g'' (map snd assessed_tasks @ added) = Inr d \<and>
     revise (default_registry one_finding) improving_goal (dag_tasks d) 11 = Inr []"
proof -
  let ?n = "new_dag ''g'' (map snd assessed_tasks @ projr (revise (default_registry one_finding) improving_goal assessed_tasks 9))"
  have "\<not> isl ?n" by code_simp
  then obtain d where d: "?n = Inr d" by (cases ?n) auto
  obtain a b c where r: "revise (default_registry one_finding) improving_goal assessed_tasks 9 = Inr [a, b, c]"
    using improving_added by blast
  have g: "g_id improving_goal = ''g''" by (simp add: improving_goal_def sample_goal_def)
  from d r have d': "new_dag (g_id improving_goal) (map snd assessed_tasks @ [a, b, c]) = Inr d" by (simp add: g)
  from revise_converges [OF default_planners_Inr assessed_wf r d', of 11] r d' g show ?thesis by auto
qed

section \<open>Tools and approval\<close>

text \<open>C28. In a registry built by registration and replacement, an invocation that succeeds ran the registered tool
without error, and for an effect-bearing tool the call carried an idempotency key and the tool's own verifier confirmed the effect.\<close>

theorem invoke_success_is_verified:
  assumes "built reg" "invoke reg c w = ((res, None), w')"
  shows "\<exists>t w1. map_of (reg_tools reg) (call_kind c) = Some t \<and>
    tool_execute t (spec_timeout (tool_spec_of t)) c w = ((res, None), w1) \<and>
    (spec_effect_bearing (tool_spec_of t) \<longrightarrow> call_key c \<noteq> '''' \<and>
       (\<exists>v detail. map_of (reg_verifiers reg) (call_kind c) = Some v \<and>
          v (spec_timeout (tool_spec_of t)) c res w1 = ((True, detail, None), w')))"
  using assms(2)
proof (rule invoke_success)
  fix t w1
  assume t: "map_of (reg_tools reg) (call_kind c) = Some t"
    and run: "tool_execute t (spec_timeout (tool_spec_of t)) c w = ((res, None), w1)"
    and key: "spec_effect_bearing (tool_spec_of t) \<longrightarrow> call_key c \<noteq> ''''"
    and ver: "case map_of (reg_verifiers reg) (call_kind c) of None \<Rightarrow> w' = w1
     | Some v \<Rightarrow> \<exists>detail. v (spec_timeout (tool_spec_of t)) c res w1 = ((True, detail, None), w')"
  have "spec_effect_bearing (tool_spec_of t) \<Longrightarrow> map_of (reg_verifiers reg) (call_kind c) \<noteq> None"
    using built_ok [OF assms(1)] t unfolding registry_ok_def by blast
  with t run key ver show ?thesis by (auto split: option.splits)
qed

definition writer_tool :: "nat tool" where
  "writer_tool = \<lparr>tool_spec_of = \<lparr>spec_kind = ''write_source'', spec_permissions = [WriteSource], spec_timeout = 5,
     spec_retry_safe = False, spec_effect_bearing = True\<rparr>, tool_execute = (\<lambda>d c n. ((no_result, None), n + 1))\<rparr>"

definition writer_verifier :: "nat verifier" where
  "writer_verifier d c r n = ((n > 0, ''counted'', None), n)"

definition writer_registry :: "nat registry" where
  "writer_registry = snd (register writer_tool (Some writer_verifier) new_registry)"

definition writer_call :: call where
  "writer_call = \<lparr>call_task = ''t'', call_goal = ''g'', call_kind = ''write_source'', call_key = ''k'', call_input = '''',
     call_inputs = [], call_attempt = 1\<rparr>"

theorem invoke_success_is_verified_witness:
  "\<exists>v detail. map_of (reg_verifiers writer_registry) ''write_source'' = Some v \<and>
     v 5 writer_call no_result 1 = ((True, detail, None), 1)"
proof -
  have "built writer_registry"
    unfolding writer_registry_def by (rule built.registered [OF built.empty prod.collapse [symmetric]])
  moreover have "invoke writer_registry writer_call 0 = ((no_result, None), 1)"
    by (simp add: writer_registry_def register_def new_registry_def writer_tool_def writer_verifier_def [abs_def]
        writer_call_def invoke_def Let_def)
  ultimately show ?thesis
    using invoke_success_is_verified [of writer_registry writer_call 0 no_result 1]
    by (auto simp: writer_registry_def register_def new_registry_def writer_tool_def writer_call_def Let_def)
qed

text \<open>The organization's approval policy fails closed: a task proceeds without a person exactly when it bears no
effect, or the setting was read without error and is autonomous, or is assisted and the effect stays in the workspace:
a person is asked in every other case.\<close>

theorem autonomy_fails_closed:
  "fst (policy_needs src g t) \<longleftrightarrow> effect_bearing (t_kind t) \<and>
     \<not> (\<exists>f l. src = Some f \<and> f (g_tenant g) = Inr l \<and>
        (l = ''autonomous'' \<or> l = ''assisted'' \<and> t_kind t \<in> {''write_source'', ''publish_eval_set''}))"
proof -
  have "class_of (t_kind t) = Some c \<longleftrightarrow> (c = Workspace \<and> t_kind t \<in> {''write_source'', ''publish_eval_set''} \<or>
      c = Publish \<and> t_kind t \<in> {''open_pull_request'', ''deliver_change''})" for c
    by (auto simp: class_of_def class_of_table_def)
  then have "\<not> fst (policy_needs src g t) \<longleftrightarrow> \<not> (effect_bearing (t_kind t) \<and>
     \<not> (\<exists>f l. src = Some f \<and> f (g_tenant g) = Inr l \<and>
        (l = ''autonomous'' \<or> l = ''assisted'' \<and> t_kind t \<in> {''write_source'', ''publish_eval_set''})))"
    by (auto simp: policy_passes may_proceed_iff level_defs effect_bearing_def effect_bearing_kinds_def)
  then show ?thesis by argo
qed

end
