(* ===== verification/Scoped.thy ===== *)
theory Scoped
  imports Store_Lease "HOL-Library.Multiset"
begin

text \<open>
  \<open>internal/store/scoped.go\<close>: the view of the store bound to one tenant.  Every operation of the view
  acts on one goal; the underlying operation reads and writes the entries of that goal's id only,
  so a view neither changes nor depends on what other tenants have stored.  The one
  exception is creating a goal under an id that somebody else already uses.
\<close>

section \<open>The view\<close>

definition owns :: "string \<Rightarrow> string \<Rightarrow> mem \<Rightarrow> bool" where
  "owns tenant gid m \<longleftrightarrow> (case map_of (goals m) gid of None \<Rightarrow> False | Some g \<Rightarrow> g_tenant g = tenant)"

definition guard :: "string \<Rightarrow> string \<Rightarrow> mem \<Rightarrow> go_error + unit" where
  "guard tenant gid m = (if \<not> owns tenant gid m then Inl (goal_not_found gid) else Inr ())"

definition scoped_create_goal :: "string \<Rightarrow> goal \<Rightarrow> mem \<Rightarrow> (go_error + unit) \<times> mem" where
  "scoped_create_goal tenant g m =
     (if tenant = '''' then (Inl (Opaque, ''store: refusing to create a goal with no tenant''), m)
      else create_goal (g\<lparr>g_tenant := tenant\<rparr>) m)"

definition scoped_load_goal :: "string \<Rightarrow> string \<Rightarrow> mem \<Rightarrow> go_error + goal" where
  "scoped_load_goal tenant gid m =
     (if \<not> owns tenant gid m then Inl (goal_not_found gid) else load_goal gid m)"

definition scoped_save_goal :: "string \<Rightarrow> goal \<Rightarrow> mem \<Rightarrow> (go_error + unit) \<times> mem" where
  "scoped_save_goal tenant g m =
     (if \<not> owns tenant (g_id g) m then (Inl (goal_not_found (g_id g)), m)
      else save_goal (g\<lparr>g_tenant := tenant\<rparr>) m)"

definition scoped_list_goals :: "string \<Rightarrow> goal_state option \<Rightarrow> mem \<Rightarrow> goal list" where
  "scoped_list_goals tenant st m = filter (\<lambda>g. g_tenant g = tenant) (list_goals st m)"

definition scoped_latest_goal :: "string \<Rightarrow> string \<Rightarrow> mem \<Rightarrow> goal option" where
  "scoped_latest_goal tenant asked m = latest_goal tenant m"

definition scoped_save_dag :: "string \<Rightarrow> dag \<Rightarrow> mem \<Rightarrow> (go_error + unit) \<times> mem" where
  "scoped_save_dag tenant d m =
     (if \<not> owns tenant (dag_goal d) m then (Inl (goal_not_found (dag_goal d)), m)
      else (Inr (), save_dag d m))"

definition scoped_load_dag :: "string \<Rightarrow> string \<Rightarrow> mem \<Rightarrow> go_error + dag" where
  "scoped_load_dag tenant gid m = (if \<not> owns tenant gid m then Inl (no_dag gid) else load_dag gid m)"

definition scoped_claim :: "string \<Rightarrow> string \<Rightarrow> string \<Rightarrow> duration \<Rightarrow> time \<Rightarrow> mem \<Rightarrow> (go_error + task) \<times> mem" where
  "scoped_claim tenant gid worker lease now m =
     (if \<not> owns tenant gid m then (Inl (goal_not_found gid), m) else claim gid worker lease now m)"

text \<open>The guard in front of a write: the error of \<open>guard\<close>, or the write.\<close>

definition guarded :: "string \<Rightarrow> string \<Rightarrow> (mem \<Rightarrow> (go_error + 'a) \<times> mem) \<Rightarrow> mem \<Rightarrow> (go_error + 'a) \<times> mem" where
  "guarded tenant gid f m = (case guard tenant gid m of Inl e \<Rightarrow> (Inl e, m) | Inr _ \<Rightarrow> f m)"

definition scoped_renew where
  "scoped_renew tenant gid i worker lease now = guarded tenant gid (renew gid i worker lease now)"

definition scoped_complete where
  "scoped_complete tenant gid i worker next result failure now =
     guarded tenant gid (complete gid i worker next result failure now)"

definition scoped_release where
  "scoped_release tenant gid i worker now = guarded tenant gid (release gid i worker now)"

definition scoped_decide where
  "scoped_decide tenant gid i approve now = guarded tenant gid (decide gid i approve now)"

definition scoped_cancel :: "string \<Rightarrow> string \<Rightarrow> time \<Rightarrow> mem \<Rightarrow> (int \<times> go_error option) \<times> mem" where
  "scoped_cancel tenant gid now m =
     (case guard tenant gid m of Inl e \<Rightarrow> ((0, Some e), m) | Inr _ \<Rightarrow> cancel gid now m)"

definition scoped_checkpoint :: "string \<Rightarrow> checkpoint \<Rightarrow> mem \<Rightarrow> (go_error + unit) \<times> mem" where
  "scoped_checkpoint tenant cp = guarded tenant (cp_goal cp) (\<lambda>m. (Inr (), add_checkpoint cp m))"

definition scoped_latest_checkpoint :: "string \<Rightarrow> string \<Rightarrow> mem \<Rightarrow> checkpoint option" where
  "scoped_latest_checkpoint tenant gid m =
     (case guard tenant gid m of Inl _ \<Rightarrow> None | Inr _ \<Rightarrow> latest_checkpoint gid m)"

text \<open>The view as a machine.\<close>

fun scoped_op :: "string \<Rightarrow> store_op \<Rightarrow> mem \<Rightarrow> op_result \<times> mem" where
  "scoped_op T (OpCreateGoal g) m = (case scoped_create_goal T g m of (r, m') \<Rightarrow> (RUnit r, m'))"
| "scoped_op T (OpSaveGoal g) m = (case scoped_save_goal T g m of (r, m') \<Rightarrow> (RUnit r, m'))"
| "scoped_op T (OpSaveDag d) m = (case scoped_save_dag T d m of (r, m') \<Rightarrow> (RUnit r, m'))"
| "scoped_op T (OpClaim gid w l now) m = (case scoped_claim T gid w l now m of (r, m') \<Rightarrow> (RTask r, m'))"
| "scoped_op T (OpRenew gid i w l now) m = (case scoped_renew T gid i w l now m of (r, m') \<Rightarrow> (RUnit r, m'))"
| "scoped_op T (OpComplete gid i w nx res f now) m =
     (case scoped_complete T gid i w nx res f now m of (r, m') \<Rightarrow> (RUnit r, m'))"
| "scoped_op T (OpRelease gid i w now) m = (case scoped_release T gid i w now m of (r, m') \<Rightarrow> (RUnit r, m'))"
| "scoped_op T (OpDecide gid i ok now) m = (case scoped_decide T gid i ok now m of (r, m') \<Rightarrow> (RUnit r, m'))"
| "scoped_op T (OpCancel gid now) m = (case scoped_cancel T gid now m of (r, m') \<Rightarrow> (RCount r, m'))"
| "scoped_op T (OpCheckpoint cp) m = (case scoped_checkpoint T cp m of (r, m') \<Rightarrow> (RUnit r, m'))"

section \<open>Every operation acts on one id\<close>

fun op_goal :: "store_op \<Rightarrow> string" where
  "op_goal (OpCreateGoal g) = g_id g"
| "op_goal (OpSaveGoal g) = g_id g"
| "op_goal (OpSaveDag d) = dag_goal d"
| "op_goal (OpClaim gid w l now) = gid"
| "op_goal (OpRenew gid i w l now) = gid"
| "op_goal (OpComplete gid i w nx res f now) = gid"
| "op_goal (OpRelease gid i w now) = gid"
| "op_goal (OpDecide gid i ok now) = gid"
| "op_goal (OpCancel gid now) = gid"
| "op_goal (OpCheckpoint cp) = cp_goal cp"

text \<open>Two stores agree on an id when its goal, its graph and its checkpoints are the same.\<close>

definition agree :: "string \<Rightarrow> mem \<Rightarrow> mem \<Rightarrow> bool" where
  "agree gid m n \<longleftrightarrow> map_of (goals m) gid = map_of (goals n) gid \<and>
     map_of (dags m) gid = map_of (dags n) gid \<and>
     map_of (checkpoints m) gid = map_of (checkpoints n) gid"

lemma agree_refl [simp]: "agree gid m m"
  by (simp add: agree_def)

lemma agree_trans: "agree gid m n \<Longrightarrow> agree gid n k \<Longrightarrow> agree gid m k"
  by (simp add: agree_def)

lemma agree_sym: "agree gid m n \<Longrightarrow> agree gid n m"
  by (simp add: agree_def)

lemma agree_reads:
  assumes "agree gid m n"
  shows "tasks_of m gid = tasks_of n gid" "map_of (goals m) gid = map_of (goals n) gid"
    "checkpoints_of m gid = checkpoints_of n gid" "owns T gid m \<longleftrightarrow> owns T gid n"
    "held gid i w now m = held gid i w now n"
  using assms by (simp_all add: agree_def tasks_of_def checkpoints_of_def owns_def held_def)

text \<open>A step on an id reads that id only and leaves the others alone.\<close>

definition local_step :: "string \<Rightarrow> (mem \<Rightarrow> 'r \<times> mem) \<Rightarrow> bool" where
  "local_step gid f \<longleftrightarrow>
     (\<forall>m n. agree gid m n \<longrightarrow> fst (f m) = fst (f n) \<and> agree gid (snd (f m)) (snd (f n))) \<and>
     (\<forall>m gid'. gid' \<noteq> gid \<longrightarrow> agree gid' (snd (f m)) m)"

lemma local_stepI:
  assumes "\<And>m n. agree gid m n \<Longrightarrow> fst (f m) = fst (f n) \<and> agree gid (snd (f m)) (snd (f n))"
    "\<And>m gid'. gid' \<noteq> gid \<Longrightarrow> agree gid' (snd (f m)) m"
  shows "local_step gid f"
  using assms by (simp add: local_step_def)

lemma agree_put_tasks [intro]: "agree gid m n \<Longrightarrow> agree gid (put_tasks gid ts m) (put_tasks gid ts n)"
  by (auto simp: agree_def put_tasks_def split: option.splits)

lemma agree_put_tasks_other [intro]: "gid' \<noteq> gid \<Longrightarrow> agree gid' (put_tasks gid ts m) m"
  by (auto simp: agree_def put_tasks_def split: option.splits)

lemma agree_put_task [intro]: "agree gid m n \<Longrightarrow> agree gid (put_task gid i t m) (put_task gid i t n)"
  by (auto simp: put_task_def agree_reads split: option.splits)

lemma agree_put_task_other [intro]: "gid' \<noteq> gid \<Longrightarrow> agree gid' (put_task gid i t m) m"
  by (auto simp: put_task_def split: option.splits)

lemma agree_put_goal [intro]: "agree (g_id g) m n \<Longrightarrow> agree (g_id g) (put_goal g m) (put_goal g n)"
  by (auto simp: agree_def put_goal_def)

lemma agree_put_goal_other [intro]: "gid' \<noteq> g_id g \<Longrightarrow> agree gid' (put_goal g m) m"
  by (auto simp: agree_def put_goal_def)

lemma agree_goals:
  "agree gid m n \<Longrightarrow> agree gid (m\<lparr>goals := AList.update gid g (goals m)\<rparr>) (n\<lparr>goals := AList.update gid g (goals n)\<rparr>)"
  "gid' \<noteq> gid \<Longrightarrow> agree gid' (m\<lparr>goals := AList.update gid g (goals m)\<rparr>) m"
  by (auto simp: agree_def)

lemma local_propagate: "local_step gid (propagate_in gid)"
  by (rule local_stepI)
     (auto simp: propagate_in_def agree_reads(1) split: option.splits prod.splits)

lemma local_stepD:
  assumes "local_step gid f"
  shows "agree gid m n \<Longrightarrow> fst (f m) = fst (f n)"
    "agree gid m n \<Longrightarrow> agree gid (snd (f m)) (snd (f n))"
    "gid' \<noteq> gid \<Longrightarrow> agree gid' (snd (f m)) m"
  using assms by (simp_all add: local_step_def)

lemma local_held:
  assumes "\<And>t. local_step gid (f t)" "\<And>e. local_step gid (\<lambda>m. (h e, m))"
  shows "local_step gid (\<lambda>m. case held gid i w now m of Inl e \<Rightarrow> (h e, m) | Inr t \<Rightarrow> f t m)"
proof (rule local_stepI)
  fix m n assume ag: "agree gid m n"
  then show "fst (case held gid i w now m of Inl e \<Rightarrow> (h e, m) | Inr t \<Rightarrow> f t m) =
      fst (case held gid i w now n of Inl e \<Rightarrow> (h e, n) | Inr t \<Rightarrow> f t n) \<and>
    agree gid (snd (case held gid i w now m of Inl e \<Rightarrow> (h e, m) | Inr t \<Rightarrow> f t m))
      (snd (case held gid i w now n of Inl e \<Rightarrow> (h e, n) | Inr t \<Rightarrow> f t n))"
    using local_stepD(1,2) [OF assms(1) ag]
    by (simp add: agree_reads(5) [OF ag] split: sum.split)
next
  fix m gid' assume "gid' \<noteq> gid"
  then show "agree gid' (snd (case held gid i w now m of Inl e \<Rightarrow> (h e, m) | Inr t \<Rightarrow> f t m)) m"
    using local_stepD(3) [OF assms(1)] by (simp split: sum.split)
qed

lemma local_const: "local_step gid (\<lambda>m. (h, m))"
  by (simp add: local_step_def)

lemma local_write: "local_step gid (\<lambda>m. (h, put_task gid i t m))"
  by (rule local_stepI) auto

lemma local_compose:
  assumes "local_step gid f" "local_step gid (\<lambda>m. (h, g m))"
  shows "local_step gid (\<lambda>m. f (g m))"
proof (rule local_stepI)
  fix m n assume "agree gid m n"
  then have "agree gid (g m) (g n)" using local_stepD(2) [OF assms(2)] by fastforce
  then show "fst (f (g m)) = fst (f (g n)) \<and> agree gid (snd (f (g m))) (snd (f (g n)))"
    using local_stepD(1,2) [OF assms(1)] by blast
next
  fix m gid' assume "gid' \<noteq> gid"
  then show "agree gid' (snd (f (g m))) m"
    using local_stepD(3) [OF assms(1)] local_stepD(3) [OF assms(2)] agree_trans by fastforce
qed

lemma local_renew: "local_step gid (renew gid i w l now)"
  unfolding renew_def by (intro local_held local_write local_const)

lemma local_release: "local_step gid (release gid i w now)"
  unfolding release_def
proof (intro local_held local_const)
  fix t show "local_step gid (\<lambda>m. case transition t Ready now of Inl e \<Rightarrow> (Inl e, m)
      | Inr t' \<Rightarrow> (Inr (), put_task gid i (t'\<lparr>leased_by := '''', lease_expiry := zero_time\<rparr>) m))"
    by (cases "transition t Ready now") (simp_all add: local_write local_const)
qed

lemma local_complete: "local_step gid (complete gid i w nx res f now)"
  unfolding complete_def
proof (intro local_held local_const)
  fix t
  show "local_step gid (\<lambda>m. case transition t nx now of Inl e \<Rightarrow> (Inl e, m)
      | Inr t' \<Rightarrow> let m' = put_task gid i (t'\<lparr>t_result := res, t_failure := f,
          leased_by := '''', lease_expiry := zero_time\<rparr>) m
        in if nx = Failed then propagate_in gid m' else (Inr (), m'))"
    by (cases "transition t nx now"; cases "nx = Failed")
      (auto simp: Let_def local_write local_const intro: local_compose [OF local_propagate local_write])
qed

lemma local_claim: "local_step gid (claim gid w l now)"
proof (rule local_stepI)
  fix m n assume ag: "agree gid m n"
  show "fst (claim gid w l now m) = fst (claim gid w l now n) \<and>
      agree gid (snd (claim gid w l now m)) (snd (claim gid w l now n))"
    using ag unfolding claim_def agree_reads(1,2) [OF ag]
    by (auto simp: Let_def split: option.splits list.splits sum.splits)
next
  fix m gid' assume "gid' \<noteq> gid"
  then show "agree gid' (snd (claim gid w l now m)) m"
    by (auto simp: claim_def Let_def split: option.splits list.splits sum.splits)
qed

lemma local_decide: "local_step gid (decide gid i ok now)"
proof -
  have inner: "local_step gid (\<lambda>m. case transition t nx now of Inl e \<Rightarrow> (Inl e, m)
      | Inr t' \<Rightarrow> if ok then (Inr (), put_task gid i (p t') m) else propagate_in gid (put_task gid i (q t') m))"
    for t nx p q
    by (cases "transition t nx now"; cases ok)
      (auto intro: local_write local_const local_compose [OF local_propagate local_write])
  show ?thesis
  proof (rule local_stepI)
    fix m n assume ag: "agree gid m n"
    show "fst (decide gid i ok now m) = fst (decide gid i ok now n) \<and>
        agree gid (snd (decide gid i ok now m)) (snd (decide gid i ok now n))"
      unfolding decide_def agree_reads(1) [OF ag]
      using local_stepD(1,2) [OF inner ag] ag by (simp split: option.split)
  next
    fix m gid' assume "gid' \<noteq> gid"
    then show "agree gid' (snd (decide gid i ok now m)) m"
      using local_stepD(3) [OF inner] by (simp add: decide_def split: option.split)
  qed
qed

lemma local_cancel: "local_step gid (cancel gid now)"
proof (rule local_stepI)
  fix m n assume ag: "agree gid m n"
  show "fst (cancel gid now m) = fst (cancel gid now n) \<and>
      agree gid (snd (cancel gid now m)) (snd (cancel gid now n))"
    using ag unfolding cancel_def agree_reads(2) [OF ag]
    by (auto simp: Let_def store_simps agree_reads(1) [OF ag] agree_goals split: option.splits sum.splits prod.splits)
next
  fix m gid' assume ne: "gid' \<noteq> gid"
  show "agree gid' (snd (cancel gid now m)) m"
  proof (cases "\<exists>g g'. map_of (goals m) gid = Some g \<and> cancel_goal g now = Inr g'")
    case True
    then obtain g g' where g: "map_of (goals m) gid = Some g" "cancel_goal g now = Inr g'" by blast
    let ?m = "m\<lparr>goals := AList.update gid g' (goals m)\<rparr>"
    have "agree gid' (put_tasks gid ts ?m) m" for ts
      by (rule agree_trans [OF agree_put_tasks_other [OF ne] agree_goals(2) [OF ne]])
    with g show ?thesis
      by (simp add: cancel_def Let_def agree_goals(2) [OF ne] split: option.split prod.split)
  next
    case False
    then show ?thesis by (auto simp: cancel_def split: option.splits sum.splits)
  qed
qed

lemma local_create_goal: "local_step (g_id g) (create_goal g)"
  by (rule local_stepI) (auto simp: create_goal_def agree_reads(2) split: option.splits)

lemma local_save_goal: "local_step (g_id g) (save_goal g)"
proof (rule local_stepI)
  fix m n assume ag: "agree (g_id g) m n"
  then show "fst (save_goal g m) = fst (save_goal g n) \<and> agree (g_id g) (snd (save_goal g m)) (snd (save_goal g n))"
    by (auto simp: save_goal_def agree_reads(2) [OF ag] split: option.split sum.split)
qed (auto simp: save_goal_def split: option.split sum.split)

lemma local_save_dag: "local_step (dag_goal d) (\<lambda>m. (r, save_dag d m))"
  by (rule local_stepI) (auto simp: save_dag_def agree_def)

lemma local_checkpoint: "local_step (cp_goal cp) (\<lambda>m. (r, add_checkpoint cp m))"
  by (rule local_stepI) (auto simp: add_checkpoint_def agree_def checkpoints_of_def)

lemma local_map_result:
  "local_step gid f \<Longrightarrow> local_step gid (\<lambda>m. case f m of (r, m') \<Rightarrow> (h r, m'))"
  by (simp add: local_step_def case_prod_beta)

lemma local_owned:
  assumes "local_step gid f"
  shows "local_step gid (\<lambda>m. if \<not> owns T gid m then (r, m) else f m)"
  using assms unfolding local_step_def by (auto simp: agree_reads(4))

lemma guarded_alt: "guarded T gid f = (\<lambda>m. if \<not> owns T gid m then (Inl (goal_not_found gid), m) else f m)"
  by (auto simp: guarded_def guard_def fun_eq_iff)

lemma scoped_cancel_alt:
  "scoped_cancel T gid now =
     (\<lambda>m. if \<not> owns T gid m then ((0, Some (goal_not_found gid)), m) else cancel gid now m)"
  by (auto simp: scoped_cancel_def guard_def fun_eq_iff)

lemmas scoped_defs = scoped_create_goal_def scoped_save_goal_def scoped_save_dag_def scoped_claim_def
  scoped_renew_def scoped_complete_def scoped_release_def scoped_decide_def scoped_checkpoint_def
  guarded_alt scoped_cancel_alt

lemmas local_ops = local_claim local_renew local_release local_complete local_decide local_cancel
  local_create_goal local_save_goal local_save_dag local_checkpoint local_const

lemma scoped_op_eta:
  "scoped_op T (OpCreateGoal g) = (\<lambda>m. case scoped_create_goal T g m of (r, m') \<Rightarrow> (RUnit r, m'))"
  "scoped_op T (OpSaveGoal g) = (\<lambda>m. case scoped_save_goal T g m of (r, m') \<Rightarrow> (RUnit r, m'))"
  "scoped_op T (OpSaveDag d) = (\<lambda>m. case scoped_save_dag T d m of (r, m') \<Rightarrow> (RUnit r, m'))"
  "scoped_op T (OpClaim gid w l now) = (\<lambda>m. case scoped_claim T gid w l now m of (r, m') \<Rightarrow> (RTask r, m'))"
  "scoped_op T (OpRenew gid i w l now) = (\<lambda>m. case scoped_renew T gid i w l now m of (r, m') \<Rightarrow> (RUnit r, m'))"
  "scoped_op T (OpComplete gid i w nx res f now) =
     (\<lambda>m. case scoped_complete T gid i w nx res f now m of (r, m') \<Rightarrow> (RUnit r, m'))"
  "scoped_op T (OpRelease gid i w now) = (\<lambda>m. case scoped_release T gid i w now m of (r, m') \<Rightarrow> (RUnit r, m'))"
  "scoped_op T (OpDecide gid i ok now) = (\<lambda>m. case scoped_decide T gid i ok now m of (r, m') \<Rightarrow> (RUnit r, m'))"
  "scoped_op T (OpCancel gid now) = (\<lambda>m. case scoped_cancel T gid now m of (r, m') \<Rightarrow> (RCount r, m'))"
  "scoped_op T (OpCheckpoint cp) = (\<lambda>m. case scoped_checkpoint T cp m of (r, m') \<Rightarrow> (RUnit r, m'))"
  by (rule ext, simp)+

lemma local_scoped_op: "local_step (op_goal op) (scoped_op T op)"
proof (cases op)
  case (OpCreateGoal g)
  have "local_step (g_id g) (scoped_create_goal T g)"
    using local_create_goal [of "g\<lparr>g_tenant := T\<rparr>"]
    by (cases "T = []") (simp_all add: scoped_create_goal_def [abs_def] local_const)
  with OpCreateGoal show ?thesis by (simp add: scoped_op_eta local_map_result)
next
  case (OpSaveGoal g)
  have "local_step (g_id g) (scoped_save_goal T g)"
    using local_owned [OF local_save_goal [of "g\<lparr>g_tenant := T\<rparr>"]]
    by (simp add: scoped_save_goal_def [abs_def])
  with OpSaveGoal show ?thesis by (simp add: scoped_op_eta local_map_result)
next
  case (OpSaveDag d)
  have "local_step (dag_goal d) (scoped_save_dag T d)"
    using local_owned [OF local_save_dag] by (simp add: scoped_save_dag_def [abs_def])
  with OpSaveDag show ?thesis by (simp add: scoped_op_eta local_map_result)
next
  case (OpClaim gid w l now)
  have "local_step gid (scoped_claim T gid w l now)"
    using local_owned [OF local_claim] by (simp add: scoped_claim_def [abs_def])
  with OpClaim show ?thesis by (simp add: scoped_op_eta local_map_result)
next
  case (OpRenew gid i w l now)
  have "local_step gid (scoped_renew T gid i w l now)"
    unfolding scoped_renew_def guarded_alt by (rule local_owned [OF local_renew])
  with OpRenew show ?thesis by (simp add: scoped_op_eta local_map_result)
next
  case (OpComplete gid i w nx res f now)
  have "local_step gid (scoped_complete T gid i w nx res f now)"
    unfolding scoped_complete_def guarded_alt by (rule local_owned [OF local_complete])
  with OpComplete show ?thesis by (simp add: scoped_op_eta local_map_result)
next
  case (OpRelease gid i w now)
  have "local_step gid (scoped_release T gid i w now)"
    unfolding scoped_release_def guarded_alt by (rule local_owned [OF local_release])
  with OpRelease show ?thesis by (simp add: scoped_op_eta local_map_result)
next
  case (OpDecide gid i ok now)
  have "local_step gid (scoped_decide T gid i ok now)"
    unfolding scoped_decide_def guarded_alt by (rule local_owned [OF local_decide])
  with OpDecide show ?thesis by (simp add: scoped_op_eta local_map_result)
next
  case (OpCancel gid now)
  have "local_step gid (scoped_cancel T gid now)"
    unfolding scoped_cancel_alt by (rule local_owned [OF local_cancel])
  with OpCancel show ?thesis by (simp add: scoped_op_eta local_map_result)
next
  case (OpCheckpoint cp)
  have "local_step (cp_goal cp) (scoped_checkpoint T cp)"
    unfolding scoped_checkpoint_def guarded_alt by (rule local_owned [OF local_checkpoint])
  with OpCheckpoint show ?thesis by (simp add: scoped_op_eta local_map_result)
qed

section \<open>Isolation\<close>

fun is_create :: "store_op \<Rightarrow> bool" where
  "is_create (OpCreateGoal g) = True"
| "is_create _ = False"

fun refusal_result :: "store_op \<Rightarrow> op_result" where
  "refusal_result (OpClaim gid w l now) = RTask (Inl (goal_not_found gid))"
| "refusal_result (OpCancel gid now) = RCount (0, Some (goal_not_found gid))"
| "refusal_result op = RUnit (Inl (goal_not_found (op_goal op)))"

lemma scoped_refused:
  "\<not> owns T (op_goal op) m \<Longrightarrow> \<not> is_create op \<Longrightarrow> scoped_op T op m = (refusal_result op, m)"
  by (cases op) (simp_all add: scoped_defs)

text \<open>What one tenant can see of two stores is the same.\<close>

definition tenant_eq :: "string \<Rightarrow> mem \<Rightarrow> mem \<Rightarrow> bool" where
  "tenant_eq T m n \<longleftrightarrow> (\<forall>gid. (owns T gid m \<longleftrightarrow> owns T gid n) \<and> (owns T gid m \<longrightarrow> agree gid m n))"

lemma scoped_op_other:
  assumes "map_of (goals m) gid = Some g" "g_tenant g \<noteq> T"
  shows "agree gid (snd (scoped_op T op m)) m"
proof (cases "op_goal op = gid")
  case True
  have notown: "\<not> owns T gid m" using assms by (simp add: owns_def)
  show ?thesis
  proof (cases "is_create op")
    case True
    then obtain h where "op = OpCreateGoal h" by (cases op) auto
    with \<open>op_goal op = gid\<close> assms(1) show ?thesis
      by (simp add: scoped_create_goal_def create_goal_def)
  next
    case False
    with scoped_refused [of T op m] True notown show ?thesis by simp
  qed
next
  case False
  then show ?thesis using local_stepD(3) [OF local_scoped_op] by metis
qed

lemma scoped_op_view:
  assumes eq: "tenant_eq T m n" and op: "\<not> is_create op"
  shows "fst (scoped_op T op m) = fst (scoped_op T op n)"
    "tenant_eq T (snd (scoped_op T op m)) (snd (scoped_op T op n))"
proof -
  let ?m = "snd (scoped_op T op m)" and ?n = "snd (scoped_op T op n)"
  have "fst (scoped_op T op m) = fst (scoped_op T op n) \<and> tenant_eq T ?m ?n"
  proof (cases "owns T (op_goal op) m")
    case False
    then have "\<not> owns T (op_goal op) n" using eq by (simp add: tenant_eq_def)
    with False scoped_refused [OF _ op] eq show ?thesis by simp
  next
    case True
    then have ag: "agree (op_goal op) m n" using eq by (simp add: tenant_eq_def)
    note local = local_stepD [OF local_scoped_op]
    have "tenant_eq T ?m ?n"
      unfolding tenant_eq_def
    proof
      fix gid
      show "(owns T gid ?m \<longleftrightarrow> owns T gid ?n) \<and> (owns T gid ?m \<longrightarrow> agree gid ?m ?n)"
      proof (cases "gid = op_goal op")
        case True
        with local(2) [OF ag] show ?thesis by (simp add: agree_reads(4))
      next
        case False
        have "agree gid ?m m" "agree gid ?n n" using local(3) [OF False] by blast+
        with eq show ?thesis
          unfolding tenant_eq_def by (meson agree_reads(4) agree_sym agree_trans)
      qed
    qed
    with local(1) [OF ag] show ?thesis by blast
  qed
  then show "fst (scoped_op T op m) = fst (scoped_op T op n)" "tenant_eq T ?m ?n" by blast+
qed

lemma scoped_reads_view:
  assumes "tenant_eq T m n"
  shows "scoped_load_goal T gid m = scoped_load_goal T gid n"
    "scoped_load_dag T gid m = scoped_load_dag T gid n"
    "scoped_latest_checkpoint T gid m = scoped_latest_checkpoint T gid n"
proof -
  consider "\<not> owns T gid m" "\<not> owns T gid n" | "owns T gid m" "owns T gid n" "agree gid m n"
    using assms by (auto simp: tenant_eq_def)
  then have "scoped_load_goal T gid m = scoped_load_goal T gid n \<and>
      scoped_load_dag T gid m = scoped_load_dag T gid n \<and>
      scoped_latest_checkpoint T gid m = scoped_latest_checkpoint T gid n"
    by cases (auto simp: scoped_load_goal_def scoped_load_dag_def scoped_latest_checkpoint_def guard_def
        load_goal_def load_dag_def latest_checkpoint_def checkpoints_of_def agree_def)
  then show "scoped_load_goal T gid m = scoped_load_goal T gid n"
    "scoped_load_dag T gid m = scoped_load_dag T gid n"
    "scoped_latest_checkpoint T gid m = scoped_latest_checkpoint T gid n" by blast+
qed

text \<open>Listing is ordered by id, so it depends on the set of the tenant's goals only.\<close>

definition keyed :: "mem \<Rightarrow> bool" where
  "keyed m \<longleftrightarrow> distinct (map fst (goals m)) \<and> (\<forall>(k, g) \<in> set (goals m). g_id g = k)"

lemma keyed_goals: "keyed m \<Longrightarrow> g \<in> snd ` set (goals m) \<longleftrightarrow> map_of (goals m) (g_id g) = Some g"
  by (force simp: keyed_def dest: map_of_SomeD)

lemma keyed_distinct: "keyed m \<Longrightarrow> distinct (map (g_id \<circ> snd) (goals m))"
proof -
  assume k: "keyed m"
  then have eq: "map (g_id \<circ> snd) (goals m) = map fst (goals m)" by (auto simp: keyed_def)
  from k have "distinct (map fst (goals m))" by (simp add: keyed_def)
  then show ?thesis by (simp only: eq)
qed

lemma scoped_list_sorted:
  "scoped_list_goals T st m = sort_key g_id (filter (\<lambda>g. g_tenant g = T \<and> (st = None \<or> st = Some (g_state g)))
     (map snd (goals m)))"
  by (simp add: scoped_list_goals_def list_goals_def filter_sort conj_commute)

lemma scoped_list_view:
  assumes "tenant_eq T m n" "keyed m" "keyed n"
  shows "scoped_list_goals T st m = scoped_list_goals T st n"
proof -
  let ?own = "\<lambda>m. filter (\<lambda>g. g_tenant g = T \<and> (st = None \<or> st = Some (g_state g))) (map snd (goals m))"
  have dist: "distinct (map g_id (?own k))" if "keyed k" for k
    using distinct_map_filter [of g_id "map snd (goals k)"] keyed_distinct [OF that] by simp
  have mem: "g \<in> set (?own k) \<longleftrightarrow> map_of (goals k) (g_id g) = Some g \<and> owns T (g_id g) k \<and>
      (st = None \<or> st = Some (g_state g))" if "keyed k" for k g
  proof -
    have "g \<in> set (map snd (goals k)) \<longleftrightarrow> map_of (goals k) (g_id g) = Some g"
      using keyed_goals [OF that, of g] by simp
    then show ?thesis
      unfolding set_filter mem_Collect_eq by (cases "map_of (goals k) (g_id g) = Some g") (simp_all add: owns_def)
  qed
  have "g \<in> set (?own m) \<longleftrightarrow> g \<in> set (?own n)" for g
    unfolding mem [OF assms(2)] mem [OF assms(3)]
    using assms(1) by (auto simp: tenant_eq_def agree_def)
  then have sets: "set (?own m) = set (?own n)" by blast
  have "distinct (?own m)" "distinct (?own n)"
    using dist [OF assms(2)] dist [OF assms(3)] unfolding distinct_map by blast+
  with sets have "mset (?own m) = mset (?own n)" using set_eq_iff_mset_eq_distinct by blast
  then have "mset (?own m) = mset (sort_key g_id (?own n))" by simp
  then have "sort_key g_id (?own m) = sort_key g_id (?own n)"
    by (rule sort_key_inj_key_eq) (use dist [OF assms(2)] in \<open>unfold distinct_map, simp_all\<close>)
  then show ?thesis by (simp add: scoped_list_sorted)
qed

lemma latest_scan_tenant:
  "latest_scan T best gs = Some g \<Longrightarrow> T \<noteq> '''' \<Longrightarrow> (\<And>b. best = Some b \<Longrightarrow> g_tenant b = T) \<Longrightarrow> g_tenant g = T"
  by (induction T best gs rule: latest_scan.induct) (auto split: if_splits option.splits)

section \<open>The view provides the worker's contract\<close>

definition scoped_held :: "string \<Rightarrow> string \<Rightarrow> task_id \<Rightarrow> string \<Rightarrow> time \<Rightarrow> mem \<Rightarrow> go_error + task" where
  "scoped_held tenant gid i w now m =
     (if \<not> owns tenant gid m then Inl (goal_not_found gid) else held gid i w now m)"

lemma owns_goals: "goals m' = goals m \<Longrightarrow> owns T gid m' \<longleftrightarrow> owns T gid m"
  by (simp add: owns_def)

lemma claim_goals: "mem_sound m \<Longrightarrow> claim gid w l now m = (r, m') \<Longrightarrow> goals m' = goals m"
  by (erule claim_cases) (auto simp: store_simps)

lemma release_goals: "release gid i w now m = (Inr (), m') \<Longrightarrow> goals m' = goals m"
  by (erule release_Inr) (simp add: store_simps)

lemma scoped_complete_cases:
  "scoped_complete T gid i w nx res f now m =
     (if \<not> owns T gid m then (Inl (goal_not_found gid), m) else complete gid i w nx res f now m)"
  "scoped_release T gid i w now m =
     (if \<not> owns T gid m then (Inl (goal_not_found gid), m) else release gid i w now m)"
  by (simp_all add: scoped_complete_def scoped_release_def guarded_alt)

lemma scoped_complete_unheld:
  assumes "mem_sound m" "w \<noteq> ''''" "scoped_complete T gid i w nx res f now m = (Inr (), m')" "v \<noteq> ''''"
  shows "\<exists>e. scoped_held T gid i v at m' = Inl e \<and> errors_is e ErrLeaseLost"
proof -
  have own: "owns T gid m" and c: "complete gid i w nx res f now m = (Inr (), m')"
    using assms(3) by (auto simp: scoped_complete_cases split: if_splits)
  have "goals m' = goals m" using c assms(1,2) by (rule complete_Inr)
  from owns_goals [OF this] own complete_Inr_unheld [OF assms(1,2) c assms(4), of at] show ?thesis
    by (simp add: scoped_held_def)
qed

lemma scoped_release_unheld:
  assumes "scoped_release T gid i w now m = (Inr (), m')" "v \<noteq> ''''"
  shows "\<exists>e. scoped_held T gid i v at m' = Inl e \<and> errors_is e ErrLeaseLost"
proof -
  have own: "owns T gid m" and c: "release gid i w now m = (Inr (), m')"
    using assms(1) by (auto simp: scoped_complete_cases split: if_splits)
  with release_Inr_unheld [OF c assms(2), of at] owns_goals [OF release_goals [OF c]] show ?thesis
    by (simp add: scoped_held_def)
qed

interpretation scoped_lease: lease_store mem_sound "scoped_claim T" "scoped_held T" "scoped_complete T" "scoped_release T"
  for T
proof unfold_locales
  fix m g w l now r m' assume "mem_sound m" "scoped_claim T g w l now m = (r, m')"
  then show "mem_sound m'"
    using mem_lease.claim_ok [of m g w l now r m'] by (cases "owns T g m") (simp_all add: scoped_claim_def)
next
  fix m g w l now e m' assume "mem_sound m" "scoped_claim T g w l now m = (Inl e, m')"
  then show "m' = m"
    using claim_Inl [of m g w l now e m'] by (cases "owns T g m") (simp_all add: scoped_claim_def)
next
  fix m g w l now t m' at assume m: "mem_sound m" "scoped_claim T g w l now m = (Inr t, m')" "at < now + l"
  then have own: "owns T g m" and c: "claim g w l now m = (Inr t, m')"
    by (cases "owns T g m", simp_all add: scoped_claim_def)+
  from own claim_Inr_held [OF m(1) c m(3)] owns_goals [OF claim_goals [OF m(1) c]]
  show "scoped_held T g (t_id t) w at m' = Inr t" by (simp add: scoped_held_def)
next
  fix m g w l now t m' assume "mem_sound m" "scoped_claim T g w l now m = (Inr t, m')"
  then show "t_state t = Running"
    using claim_Inr_running [of m g w l now t m'] by (cases "owns T g m") (simp_all add: scoped_claim_def)
next
  fix m g w i nx res f now q m'
  assume "mem_sound m" "w \<noteq> []" "scoped_complete T g i w nx res f now m = (q, m')"
  then show "mem_sound m'"
    using mem_lease.complete_ok [of m w g i nx res f now q m']
    by (cases "owns T g m") (simp_all add: scoped_complete_cases)
next
  fix m g i w now t nx res f
  assume "mem_sound m" "w \<noteq> []" "scoped_held T g i w now m = Inr t" "can_transition_to (t_state t) nx"
  then show "\<exists>m'. scoped_complete T g i w nx res f now m = (Inr (), m')"
    using complete_total [of m w g i now t nx res f]
    by (cases "owns T g m") (simp_all add: scoped_complete_cases scoped_held_def)
next
  fix m g i w now e nx res f
  assume "scoped_held T g i w now m = Inl e"
  then show "scoped_complete T g i w nx res f now m = (Inl e, m)"
    by (cases "owns T g m") (simp_all add: scoped_complete_cases scoped_held_def complete_Inl)
next
  fix m g i w now e
  assume "scoped_held T g i w now m = Inl e"
  then show "scoped_release T g i w now m = (Inl e, m)"
    by (cases "owns T g m") (simp_all add: scoped_complete_cases scoped_held_def release_Inl)
next
  fix m g i w nx res f now m' and v :: string and at
  assume "mem_sound m" "w \<noteq> []" "scoped_complete T g i w nx res f now m = (Inr (), m')" "v \<noteq> []"
  then show "\<exists>e. scoped_held T g i v at m' = Inl e \<and> errors_is e ErrLeaseLost"
    by (rule scoped_complete_unheld)
next
  fix m g i w now m' and v :: string and at
  assume "scoped_release T g i w now m = (Inr (), m')" "v \<noteq> []"
  then show "\<exists>e. scoped_held T g i v at m' = Inl e \<and> errors_is e ErrLeaseLost"
    by (rule scoped_release_unheld)
qed

end
