(* ===== verification/Store_Props.thy ===== *)
theory Store_Props
  imports Scoped Samples
begin

text \<open>
  The properties of the store: what holds of every reachable store, leases, completion, cancellation
  and the isolation of tenants, each with a witness on the sample store.
\<close>

section \<open>Reachable stores\<close>





section \<open>Claims and leases\<close>

text \<open>A claim that succeeds was made on a running goal, for a task whose dependencies are met and which is open or
running under an expired lease; it is then running, leased to the caller until now plus the lease, with one more
attempt, and nothing else in the store changed.  A claim that fails changes nothing.\<close>

theorem claim_takes_one_task:
  assumes "reachable m" "claim gid w l now m = (r, m')"
  shows "case r of
      Inl e \<Rightarrow> m' = m
    | Inr t' \<Rightarrow> \<exists>g ts t. map_of (goals m) gid = Some g \<and> g_state g = GoalRunning \<and>
        tasks_of m gid = Some ts \<and> map_of ts (t_id t) = Some t \<and> dependencies_succeeded ts t = Some True \<and>
        (t_state t \<in> {Pending, Ready} \<or> t_state t = Running \<and> lease_expiry t \<le> now) \<and>
        t' = t\<lparr>t_state := Running, t_updated := now, leased_by := w, lease_expiry := now + l,
               attempt := attempt t + 1\<rparr> \<and>
        m' = put_task gid (t_id t) t' m"
  using assms(2) reachable_sound [OF assms(1)]
proof (cases rule: claim_cases)
  case (taken g ts t)
  then have "dependencies_succeeded ts t = Some True"
      "t_state t \<in> {Pending, Ready} \<or> t_state t = Running \<and> lease_expiry t \<le> now"
    by (auto simp: takeable_def dependencies_succeeded_True after_time_def)
  with taken show ?thesis by (auto simp: take_lease_def)
qed simp

theorem claim_takes_one_task_witness:
  "\<exists>t. map_of (dag_tasks sample_dag) (t_id t) = Some t \<and>
     leased_task = t\<lparr>t_state := Running, t_updated := 10, leased_by := ''w'', lease_expiry := 30,
       attempt := attempt t + 1\<rparr>"
  using claim_takes_one_task [OF sample_reachable sample_claim]
  by (auto simp: sample_reads)

text \<open>A claim on a running goal reports \<open>ErrNoWork\<close> exactly when no task of the graph can be taken: no false idleness.\<close>

theorem claim_no_work_iff:
  assumes "reachable m" "map_of (goals m) gid = Some g" "g_state g = GoalRunning" "tasks_of m gid = Some ts"
  shows "(\<exists>e m'. claim gid w l now m = (Inl e, m') \<and> errors_is e ErrNoWork) \<longleftrightarrow>
    \<not> (\<exists>i t. map_of ts i = Some t \<and> dependencies_succeeded ts t = Some True \<and>
        (t_state t \<in> {Pending, Ready} \<or> t_state t = Running \<and> lease_expiry t \<le> now))"
proof -
  have wf: "graph_wf ts" using mem_soundD [OF reachable_sound [OF assms(1)] assms(4)] by (rule sound_wf)
  let ?cs = "filter (takeable now ts) (ordered_tasks ts)"
  have cs: "claimable_set now ts = Some ?cs" by (rule claimable_set_closed [OF graph_wfD(2) [OF wf]])
  have take: "takeable now ts t \<longleftrightarrow> dependencies_succeeded ts t = Some True \<and>
      (t_state t \<in> {Pending, Ready} \<or> t_state t = Running \<and> lease_expiry t \<le> now)" for t
    by (auto simp: takeable_def dependencies_succeeded_True after_time_def)
  have none: "?cs = [] \<longleftrightarrow> \<not> (\<exists>i t. map_of ts i = Some t \<and> takeable now ts t)"
    by (auto simp: filter_empty_conv ordered_tasks_lookup)
  have "(\<exists>e m'. claim gid w l now m = (Inl e, m') \<and> errors_is e ErrNoWork) \<longleftrightarrow> ?cs = []"
  proof (cases ?cs)
    case Nil
    with assms cs show ?thesis by (simp add: claim_def goal_claimable_def)
  next
    case (Cons t rest)
    then have "t \<in> set ?cs" by simp
    then have "takeable now ts t" by simp
    with Cons assms cs show ?thesis
      by (simp add: claim_def goal_claimable_def claim_moves_takeable Let_def)
  qed
  with none take show ?thesis by simp
qed

theorem claim_no_work_iff_witness:
  "\<not> (\<exists>e m'. claim ''g'' ''v'' 20 10 sample_mem = (Inl e, m') \<and> errors_is e ErrNoWork)"
proof -
  have "dependencies_succeeded (dag_tasks sample_dag) (sample_task ''a'' ''assess_axis'' [] Pending) = Some True"
    by code_simp
  then have "\<exists>i t. map_of (dag_tasks sample_dag) i = Some t \<and> dependencies_succeeded (dag_tasks sample_dag) t = Some True \<and>
      (t_state t \<in> {Pending, Ready} \<or> t_state t = Running \<and> lease_expiry t \<le> 10)"
    by (intro exI [of _ "''a''"] exI [of _ "sample_task ''a'' ''assess_axis'' [] Pending"]) (simp add: sample_reads)
  with claim_no_work_iff [OF sample_reachable, of "''g''" sample_goal "dag_tasks sample_dag" "''v''" 20 10]
  show ?thesis using sample_reads(1,2,4) by blast
qed



text \<open>A writer whose lease is gone, because somebody else holds the task or the time has passed, is refused with
\<open>ErrLeaseLost\<close> by completion, release and renewal, and the store is unchanged.\<close>

theorem zombie_writer_refused:
  assumes "tasks_of m gid = Some ts" "map_of ts i = Some t" "leased_by t \<noteq> w \<or> lease_expiry t \<le> now"
  shows "\<exists>msg. complete gid i w nx res f now m = (Inl (ErrLeaseLost, msg), m) \<and>
    release gid i w now m = (Inl (ErrLeaseLost, msg), m) \<and> renew gid i w l now m = (Inl (ErrLeaseLost, msg), m)"
proof -
  have "leased_by t \<noteq> w \<or> \<not> after_time (lease_expiry t) now" using assms(3) by (auto simp: after_time_def)
  from held_Inl_lost [OF assms(1,2) this] obtain msg where "held gid i w now m = Inl (ErrLeaseLost, msg)" by blast
  then show ?thesis by (auto simp: complete_Inl release_Inl renew_Inl)
qed

theorem zombie_writer_refused_witness:
  "\<exists>msg. complete ''g'' ''a'' ''w'' Succeeded ''out'' '''' 30 leased_mem = (Inl (ErrLeaseLost, msg), leased_mem)"
  using zombie_writer_refused [OF leased_reads(1,2), of "''w''" 30 Succeeded "''out''" "''''"] leased_reads(6) by auto

text \<open>An outcome is recorded once: after a completion, no worker, the same one included, can complete or release
the task again without a new claim; it is refused with \<open>ErrLeaseLost\<close> and nothing changes.\<close>

theorem outcome_recorded_once:
  assumes "reachable m" "w \<noteq> ''''" "complete gid i w nx res f now m = (Inr (), m')" "v \<noteq> ''''"
  shows "\<exists>e. errors_is e ErrLeaseLost \<and> complete gid i v nx' res' f' at m' = (Inl e, m') \<and>
    release gid i v at m' = (Inl e, m')"
  by (rule mem_lease.complete_once [OF reachable_sound [OF assms(1)] assms(2-4)])

definition completed_mem :: mem where
  "completed_mem = snd (complete ''g'' ''a'' ''w'' Succeeded ''out'' '''' 20 leased_mem)"

theorem outcome_recorded_once_witness:
  "\<exists>e. errors_is e ErrLeaseLost \<and> complete ''g'' ''a'' ''w'' Failed '''' ''again'' 21 completed_mem = (Inl e, completed_mem)"
proof -
  have "fst (complete ''g'' ''a'' ''w'' Succeeded ''out'' '''' 20 leased_mem) = Inr ()" by code_simp
  then have "complete ''g'' ''a'' ''w'' Succeeded ''out'' '''' 20 leased_mem = (Inr (), completed_mem)"
    by (simp add: completed_mem_def prod_eq_iff)
  from outcome_recorded_once [OF leased_reachable _ this, of "''w''" Failed "''''" "''again''" 21] show ?thesis by auto
qed


definition failed_mem :: mem where
  "failed_mem = snd (complete ''g'' ''a'' ''w'' Failed '''' ''no source'' 20 leased_mem)"


section \<open>Decisions and cancellation\<close>

text \<open>Cancelling a run that has not ended marks its goal cancelled; every task that is not terminal and not held
under a live lease becomes cancelled, a task a worker is still running and every finished task is left exactly as it
is, the returned number is the number of tasks cancelled, and from then on no worker can claim from it.\<close>

theorem cancel_stops_run:
  assumes "reachable m" "map_of (goals m) gid = Some g" "\<not> goal_terminal (g_state g)" "tasks_of m gid = Some ts"
  shows "\<exists>n m' ts'. cancel gid now m = ((n, None), m') \<and>
    map_of (goals m') gid = Some (g\<lparr>g_state := GoalCancelled, g_updated := now\<rparr>) \<and> tasks_of m' gid = Some ts' \<and>
    (\<forall>i t. map_of ts i = Some t \<longrightarrow> map_of ts' i =
       Some (if terminal (t_state t) \<or> t_state t = Running \<and> leased_by t \<noteq> '''' \<and> lease_expiry t > now then t
             else t\<lparr>t_state := Cancelled, t_updated := now\<rparr>)) \<and>
    n = int (length (filter (\<lambda>(_, t). cancellable t now) ts)) \<and>
    (\<forall>w l at. \<exists>e. claim gid w l at m' = (Inl e, m') \<and> errors_is e ErrNoWork)"
proof -
  let ?g = "g\<lparr>g_state := GoalCancelled, g_updated := now\<rparr>"
  let ?ts = "map (\<lambda>(i, t). (i, cancel_task now t)) ts"
  let ?m = "put_tasks gid ?ts (m\<lparr>goals := AList.update gid ?g (goals m)\<rparr>)"
  have c: "cancel gid now m = ((int (length (filter (\<lambda>(_, t). cancellable t now) ts)), None), ?m)"
    using assms(2-4) by (simp add: cancel_def cancel_goal_def Let_def store_simps cancel_tasks_eq)
  have goal: "map_of (goals ?m) gid = Some ?g" by (simp add: store_simps)
  have tasks: "tasks_of ?m gid = Some ?ts" using assms(4) by (simp add: store_simps)
  have each: "map_of ?ts i = Some (if terminal (t_state t) \<or> t_state t = Running \<and> leased_by t \<noteq> '''' \<and> lease_expiry t > now
      then t else t\<lparr>t_state := Cancelled, t_updated := now\<rparr>)" if t: "map_of ts i = Some t" for i t
  proof -
    have "lease_clean t" using soundD [OF mem_soundD [OF reachable_sound [OF assms(1)] assms(4)] t] by (simp add: sound_task_def)
    then have "cancel_task now t = (if terminal (t_state t) \<or> t_state t = Running \<and> leased_by t \<noteq> '''' \<and> lease_expiry t > now
        then t else t\<lparr>t_state := Cancelled, t_updated := now\<rparr>)"
      if "cancellable t now \<longleftrightarrow> \<not> (terminal (t_state t) \<or> t_state t = Running \<and> leased_by t \<noteq> '''' \<and> lease_expiry t > now)"
      using that by (simp add: cancel_task_def)
    moreover have "cancellable t now \<longleftrightarrow> \<not> (terminal (t_state t) \<or> t_state t = Running \<and> leased_by t \<noteq> '''' \<and> lease_expiry t > now)"
      using \<open>lease_clean t\<close> by (auto simp: cancellable_def after_time_def lease_clean_def)
    ultimately show ?thesis using t by (simp only: map_of_cancel option.map)
  qed
  have "claim gid w l at ?m = (Inl (ErrNoWork, ''store: no claimable task: goal is cancelled''), ?m)" for w l at
    using goal by (simp add: claim_def goal_claimable_def)
  then show ?thesis using c goal tasks each
    by (intro exI [of _ "int (length (filter (\<lambda>(_, t). cancellable t now) ts))"] exI [of _ ?m] exI [of _ ?ts]) simp
qed

theorem cancel_stops_run_witness:
  "\<exists>m' ts'. snd (cancel ''g'' 15 leased_mem) = m' \<and> tasks_of m' ''g'' = Some ts' \<and>
     map_of ts' ''a'' = Some leased_task \<and> map_option t_state (map_of ts' ''b'') = Some Cancelled"
proof -
  have b: "map_of leased_tasks ''b'' = Some (sample_task ''b'' ''assess_axis'' [] Pending)"
    by (simp add: leased_tasks_def)
  from cancel_stops_run [OF leased_reachable leased_reads(7) _ leased_reads(1), of 15] obtain m' ts' n where
    "cancel ''g'' 15 leased_mem = ((n, None), m')" "tasks_of m' ''g'' = Some ts'"
    "\<forall>i t. map_of leased_tasks i = Some t \<longrightarrow> map_of ts' i =
       Some (if terminal (t_state t) \<or> t_state t = Running \<and> leased_by t \<noteq> '''' \<and> lease_expiry t > 15 then t
             else t\<lparr>t_state := Cancelled, t_updated := 15\<rparr>)"
    by (auto simp: sample_goal_def)
  with leased_reads b show ?thesis by auto
qed

text \<open>A task waiting for a person is decided at most once: a decision succeeds only on a task awaiting approval, after
it the task is ready and approved or cancelled and not approved, and a second decision is refused with
\<open>ErrNotClaimable\<close> and changes nothing.\<close>

theorem decision_once:
  assumes "reachable m" "decide gid i ok now m = (Inr (), m')"
  shows "\<exists>ts t ts' t'. tasks_of m gid = Some ts \<and> map_of ts i = Some t \<and> t_state t = AwaitingApproval \<and>
    tasks_of m' gid = Some ts' \<and> map_of ts' i = Some t' \<and> approved t' = ok \<and>
    t_state t' = (if ok then Ready else Cancelled) \<and>
    (\<forall>ok' at. \<exists>e. decide gid i ok' at m' = (Inl e, m') \<and> errors_is e ErrNotClaimable)"
proof -
  from assms(2) obtain ts t where ts: "tasks_of m gid = Some ts" "map_of ts i = Some t" "t_state t = AwaitingApproval"
    by (auto simp: decide_def split: option.splits if_splits)
  let ?u = "t\<lparr>t_state := if ok then Ready else Cancelled, t_updated := now, approved := ok,
    t_failure := if ok then t_failure t else ''declined''\<rparr>"
  have tr: "transition t (if ok then Ready else Cancelled) now =
      Inr (t\<lparr>t_state := if ok then Ready else Cancelled, t_updated := now\<rparr>)"
    using ts(3) by (simp add: transition_def can_transition_to_def)
  have "\<exists>ts' t'. tasks_of m' gid = Some ts' \<and> map_of ts' i = Some t' \<and> approved t' = ok \<and>
      t_state t' = (if ok then Ready else Cancelled)"
  proof (cases ok)
    case True
    with assms(2) ts tr have "m' = put_task gid i (t\<lparr>t_state := Ready, t_updated := now, approved := True\<rparr>) m"
      by (simp add: decide_def)
    with True ts(1) show ?thesis by (simp add: store_simps)
  next
    case False
    let ?v = "t\<lparr>t_state := Cancelled, t_updated := now, approved := False, t_failure := ''declined''\<rparr>"
    from False assms(2) ts tr have p: "propagate_in gid (put_task gid i ?v m) = (Inr (), m')" by (simp add: decide_def)
    have mts: "tasks_of (put_task gid i ?v m) gid = Some (AList.update i ?v ts)" using ts(1) by (simp add: store_simps)
    with p obtain n ts' where pr: "propagate_failure (AList.update i ?v ts) = Some (n, ts')"
        "m' = put_tasks gid ts' (put_task gid i ?v m)"
      by (auto simp: propagate_in_def split: option.splits)
    have "map_of ts' i = Some ?v"
      by (rule only_blocksD [OF propagate_spec(1) [OF pr(1)], of i ?v]) auto
    with False ts(1) pr(2) show ?thesis by (simp add: store_simps)
  qed
  then obtain ts' t' where t': "tasks_of m' gid = Some ts'" "map_of ts' i = Some t'" "approved t' = ok"
      "t_state t' = (if ok then Ready else Cancelled)" by blast
  moreover have "\<exists>e. decide gid i ok' at m' = (Inl e, m') \<and> errors_is e ErrNotClaimable" for ok' at
    using t' by (simp add: decide_def)
  ultimately show ?thesis using ts by blast
qed

definition parked_mem :: mem where
  "parked_mem = snd (complete ''g'' ''a'' ''w'' AwaitingApproval '''' ''asks'' 20 leased_mem)"

theorem decision_once_witness:
  "\<exists>e. decide ''g'' ''a'' False 40 (snd (decide ''g'' ''a'' True 35 parked_mem)) =
     (Inl e, snd (decide ''g'' ''a'' True 35 parked_mem)) \<and> errors_is e ErrNotClaimable"
proof -
  have "store_step leased_mem parked_mem"
    by (rule store_step.step [of _ "OpComplete ''g'' ''a'' ''w'' AwaitingApproval '''' ''asks'' 20"])
      (simp_all add: parked_mem_def case_prod_beta)
  then have reach: "reachable parked_mem" by (rule reachable.step_on [OF leased_reachable])
  have "fst (decide ''g'' ''a'' True 35 parked_mem) = Inr ()" by code_simp
  then have "decide ''g'' ''a'' True 35 parked_mem = (Inr (), snd (decide ''g'' ''a'' True 35 parked_mem))"
    by (simp add: prod_eq_iff)
  from decision_once [OF reach this] show ?thesis by blast
qed

section \<open>Tenants\<close>

text \<open>C17. No operation through one tenant's view changes the goal, the graph or the checkpoints of a goal that
belongs to another tenant, whatever ids, workers and objects the caller passes.\<close>

theorem tenant_integrity:
  assumes "map_of (goals m) gid = Some g" "g_tenant g \<noteq> T" "scoped_op T op m = (r, m')"
  shows "map_of (goals m') gid = Some g \<and> map_of (dags m') gid = map_of (dags m) gid \<and>
    checkpoints_of m' gid = checkpoints_of m gid"
  using scoped_op_other [OF assms(1,2), of op] assms(1,3) by (simp add: agree_def checkpoints_of_def)

theorem tenant_integrity_witness:
  "map_of (goals (snd (scoped_op ''rival'' (OpCancel ''g'' 15) leased_mem))) ''g'' = Some sample_goal"
proof -
  have "scoped_op ''rival'' (OpCancel ''g'' 15) leased_mem =
      (fst (scoped_op ''rival'' (OpCancel ''g'' 15) leased_mem), snd (scoped_op ''rival'' (OpCancel ''g'' 15) leased_mem))"
    by simp
  from tenant_integrity [OF leased_reads(7) _ this] sample_reads(6) show ?thesis by simp
qed


lemma empty_view: "tenant_eq ''rival'' leased_mem new_memory" "keyed leased_mem" "keyed new_memory"
  by (auto simp: tenant_eq_def owns_def leased_mem_def new_memory_def sample_goal_def keyed_def)


text \<open>Creating a goal is the exception: two stores that look the same to a tenant answer the creation of the same goal
differently when another tenant already uses the id, so the error confirms that the id exists.\<close>

theorem create_reveals_foreign_id:
  "\<exists>m n g T. tenant_eq T m n \<and> keyed m \<and> keyed n \<and> fst (scoped_create_goal T g n) = Inr () \<and>
     (\<exists>msg. fst (scoped_create_goal T g m) = Inl (Opaque, msg))"
proof (intro exI conjI)
  show "tenant_eq ''rival'' leased_mem new_memory" "keyed leased_mem" "keyed new_memory" by (rule empty_view)+
  show "fst (scoped_create_goal ''rival'' sample_goal new_memory) = Inr ()"
    by (simp add: scoped_create_goal_def create_goal_def new_memory_def)
  show "fst (scoped_create_goal ''rival'' sample_goal leased_mem) =
      Inl (Opaque, ''store: goal '' @ fmt_q ''g'' @ '' already exists'')"
    by (simp add: scoped_create_goal_def create_goal_def leased_mem_def sample_goal_def)
qed

text \<open>A pause, unlike an ending, is not protected from a writer that still holds the running goal.\<close>

lemma stale_save_undoes_pause:
  assumes "map_of (goals m) (g_id g) = Some cur" "g_state cur = GoalPaused" "g_state g = GoalRunning"
  shows "fst (save_goal g m) = Inr () \<and> map_of (goals (snd (save_goal g m))) (g_id g) = Some g"
  using assms by (simp add: save_goal_def refuse_terminal_overwrite_def store_simps)

end
