(* ===== verification/Gostrings.thy ===== *)
theory Gostrings
  imports Prelude
begin

text \<open>
  The parts of Go's \<open>strings\<close> and \<open>unicode/utf8\<close> packages the modelled code uses on byte strings: decoding
  into runes (an invalid byte is a rune of width one), \<open>TrimSpace\<close> with the Unicode white space, prefixes,
  substrings, counting, splitting and joining.
\<close>

section \<open>Runes\<close>

definition cont_byte :: "nat \<Rightarrow> nat \<Rightarrow> char \<Rightarrow> bool" where
  "cont_byte lo hi c \<longleftrightarrow> lo \<le> (of_char c :: nat) \<and> of_char c \<le> hi"

text \<open>The width of the first rune, as \<open>utf8.DecodeRuneInString\<close> reports it: one for an invalid encoding.\<close>

fun rune_width :: "string \<Rightarrow> nat" where
  "rune_width [] = 0"
| "rune_width (a # s) =
     (let n = (of_char a :: nat) in
      if n < 0xC2 \<or> n > 0xF4 then 1
      else if n < 0xE0 then
        (case s of b # _ \<Rightarrow> if cont_byte 0x80 0xBF b then 2 else 1 | _ \<Rightarrow> 1)
      else if n < 0xF0 then
        (case s of b # c # _ \<Rightarrow>
            if cont_byte (if n = 0xE0 then 0xA0 else 0x80) (if n = 0xED then 0x9F else 0xBF) b \<and> cont_byte 0x80 0xBF c
            then 3 else 1
         | _ \<Rightarrow> 1)
      else
        (case s of b # c # d # _ \<Rightarrow>
            if cont_byte (if n = 0xF0 then 0x90 else 0x80) (if n = 0xF4 then 0x8F else 0xBF) b \<and>
               cont_byte 0x80 0xBF c \<and> cont_byte 0x80 0xBF d
            then 4 else 1
         | _ \<Rightarrow> 1))"

lemma rune_width_pos: "s \<noteq> [] \<Longrightarrow> 0 < rune_width s"
  by (cases s) (auto simp: Let_def split: list.splits)

lemma rune_width_le: "rune_width s \<le> length s"
  by (cases s) (auto simp: Let_def split: list.splits)

function rune_split :: "string \<Rightarrow> string list" where
  "rune_split s = (if s = [] then [] else take (rune_width s) s # rune_split (drop (rune_width s) s))"
  by pat_completeness auto
termination
  by (relation "measure length") (auto simp: rune_width_pos)

declare rune_split.simps [simp del]

lemma rune_split_Nil [simp]: "rune_split [] = []"
  by (simp add: rune_split.simps)

lemma concat_rune_split [simp]: "concat (rune_split s) = s"
  by (induction s rule: rune_split.induct) (subst rune_split.simps, simp)

definition rune_count :: "string \<Rightarrow> nat" where
  "rune_count s = length (rune_split s)"

text \<open>The white space of \<open>unicode.IsSpace\<close>, by the encoding of the rune.\<close>

definition space_runes :: "nat list list" where
  "space_runes = [[9], [10], [11], [12], [13], [32], [0xC2, 0x85], [0xC2, 0xA0], [0xE1, 0x9A, 0x80]] @
     map (\<lambda>i. [0xE2, 0x80, i]) [0x80 ..< 0x8B] @
     [[0xE2, 0x80, 0xA8], [0xE2, 0x80, 0xA9], [0xE2, 0x80, 0xAF], [0xE2, 0x81, 0x9F], [0xE3, 0x80, 0x80]]"

definition space_rune :: "string \<Rightarrow> bool" where
  "space_rune r \<longleftrightarrow> map of_char r \<in> set space_runes"

definition trim_space :: "string \<Rightarrow> string" where
  "trim_space s = concat (rev (dropWhile space_rune (rev (dropWhile space_rune (rune_split s)))))"

lemma trim_space_Nil [simp]: "trim_space '''' = ''''"
  by (simp add: trim_space_def)

definition blank :: "string \<Rightarrow> bool" where
  "blank s \<longleftrightarrow> trim_space s = ''''"

section \<open>Substrings\<close>

definition has_prefix :: "string \<Rightarrow> string \<Rightarrow> bool" where
  "has_prefix s p \<longleftrightarrow> take (length p) s = p"

definition has_suffix :: "string \<Rightarrow> string \<Rightarrow> bool" where
  "has_suffix s p \<longleftrightarrow> has_prefix (rev s) (rev p)"

fun contains_str :: "string \<Rightarrow> string \<Rightarrow> bool" where
  "contains_str [] p \<longleftrightarrow> p = []"
| "contains_str (c # s) p \<longleftrightarrow> has_prefix (c # s) p \<or> contains_str s p"

lemma contains_str_iff: "contains_str s p \<longleftrightarrow> (\<exists>us vs. s = us @ p @ vs)"
proof (induction s)
  case (Cons c s)
  show ?case
  proof
    assume "contains_str (c # s) p"
    then show "\<exists>us vs. c # s = us @ p @ vs"
    proof (elim contains_str.elims)
      fix d t q assume "has_prefix (d # t) q \<or> contains_str t q" "c # s = d # t" "p = q"
      then consider "take (length p) (c # s) = p" | us vs where "s = us @ p @ vs"
        using Cons by (auto simp: has_prefix_def)
      then show ?thesis
      proof cases
        case 1
        then have "c # s = [] @ p @ drop (length p) (c # s)" by (metis append_Nil append_take_drop_id)
        then show ?thesis by blast
      next
        case (2 us vs)
        then have "c # s = (c # us) @ p @ vs" by simp
        then show ?thesis by blast
      qed
    qed simp
  next
    assume "\<exists>us vs. c # s = us @ p @ vs"
    then obtain us vs where e: "c # s = us @ p @ vs" by blast
    show "contains_str (c # s) p"
    proof (cases us)
      case Nil
      with e have "take (length p) (c # s) = p" by simp
      then show ?thesis by (simp add: has_prefix_def)
    next
      case (Cons u us')
      with e have "\<exists>us vs. s = us @ p @ vs" by auto
      with Cons.IH show ?thesis by simp
    qed
  qed
qed auto

section \<open>Lower case, search, splitting and joining\<close>

text \<open>
  \<open>strings.ToLower\<close> as far as a comparison with an ASCII text can see it: the runes whose lower case is ASCII (the
  capitals, the capital I with a dot above and the Kelvin sign) are folded, every other rune is left alone.
\<close>

definition lower_rune :: "string \<Rightarrow> string" where
  "lower_rune r = (case map of_char r of
     [n] \<Rightarrow> if 65 \<le> n \<and> n \<le> 90 then [char_of (n + 32 :: nat)] else r
   | ns \<Rightarrow> if ns = [0xC4, 0xB0] then ''i'' else if ns = [0xE2, 0x84, 0xAA] then ''k'' else r)"

definition lower_ascii :: "string \<Rightarrow> string" where
  "lower_ascii s = concat (map lower_rune (rune_split s))"

text \<open>\<open>strings.Index\<close>, \<open>strings.Count\<close> (occurrences that do not overlap, from the left) and \<open>strings.Replace(s, old, new, 1)\<close>.\<close>

fun index_of :: "string \<Rightarrow> string \<Rightarrow> nat option" where
  "index_of [] p = (if p = [] then Some 0 else None)"
| "index_of (c # s) p = (if has_prefix (c # s) p then Some 0 else map_option Suc (index_of s p))"

function count_str :: "string \<Rightarrow> string \<Rightarrow> nat" where
  "count_str s p =
     (if p = [] then Suc (rune_count s)
      else (case index_of s p of None \<Rightarrow> 0 | Some i \<Rightarrow> Suc (count_str (drop (i + length p) s) p)))"
  by pat_completeness auto
termination
proof (relation "measure (\<lambda>(s, p). length s)")
  fix s p :: string and i assume p: "p \<noteq> []" and i: "index_of s p = Some i"
  then have "s \<noteq> []" by (cases s) auto
  with p show "((drop (i + length p) s, p), (s, p)) \<in> measure (\<lambda>(s, p). length s)" by simp
qed simp

declare count_str.simps [simp del]

definition replace_first :: "string \<Rightarrow> string \<Rightarrow> string \<Rightarrow> string" where
  "replace_first s old new =
     (case index_of s old of None \<Rightarrow> s | Some i \<Rightarrow> take i s @ new @ drop (i + length old) s)"

text \<open>\<open>strings.Split\<close> by one character, and \<open>strings.Join\<close>.\<close>

fun split_char :: "char \<Rightarrow> string \<Rightarrow> string list" where
  "split_char sep [] = [[]]"
| "split_char sep (c # s) =
     (if c = sep then [] # split_char sep s
      else (case split_char sep s of [] \<Rightarrow> [[c]] | p # ps \<Rightarrow> (c # p) # ps))"

fun join_sep :: "string \<Rightarrow> string list \<Rightarrow> string" where
  "join_sep sep [] = ''''"
| "join_sep sep [p] = p"
| "join_sep sep (p # ps) = p @ sep @ join_sep sep ps"

text \<open>\<open>strings.Fields\<close>: the runs of runes that are not white space.\<close>

fun runs :: "string \<Rightarrow> string list \<Rightarrow> string list" where
  "runs word [] = (if word = '''' then [] else [word])"
| "runs word (r # rs) =
     (if space_rune r then (if word = '''' then runs '''' rs else word # runs '''' rs) else runs (word @ r) rs)"

definition words_of :: "string \<Rightarrow> string list" where
  "words_of s = runs '''' (rune_split s)"

section \<open>Facts of the search\<close>

lemma has_prefix_append: "has_prefix (p @ s) p"
  by (simp add: has_prefix_def)

lemma has_prefix_iff: "has_prefix s p \<longleftrightarrow> (\<exists>vs. s = p @ vs)"
  unfolding has_prefix_def by (metis append_take_drop_id append_eq_conv_conj)

lemma index_of_None: "index_of s p = None \<longleftrightarrow> \<not> contains_str s p"
  by (induction s) auto

lemma index_of_Some: "index_of s p = Some i \<Longrightarrow> \<exists>us vs. s = us @ p @ vs \<and> length us = i"
proof (induction s arbitrary: i)
  case Nil then show ?case by (auto split: if_splits)
next
  case (Cons c s)
  show ?case
  proof (cases "has_prefix (c # s) p")
    case True
    with Cons.prems show ?thesis by (auto simp: has_prefix_iff)
  next
    case False
    with Cons.prems obtain j where "index_of s p = Some j" and i: "i = Suc j" by auto
    with Cons.IH obtain us vs where "s = us @ p @ vs" "length us = j" by blast
    with i have "c # s = (c # us) @ p @ vs \<and> length (c # us) = i" by simp
    then show ?thesis by blast
  qed
qed

lemma index_of_append: "index_of s p = Some i \<Longrightarrow> index_of (s @ x) p = Some i"
proof (induction s arbitrary: i)
  case Nil
  then have "p = []" "i = 0" by (auto split: if_splits)
  then show ?case by (cases x) (simp_all add: has_prefix_def)
next
  case (Cons c s)
  show ?case
  proof (cases "has_prefix (c # s) p")
    case True
    then have "has_prefix ((c # s) @ x) p" by (metis append_assoc has_prefix_iff)
    with True Cons.prems show ?thesis by simp
  next
    case False
    with Cons.prems obtain j where j: "index_of s p = Some j" "i = Suc j" by auto
    have "length p \<le> length s" using index_of_Some [OF j(1)] by auto
    then have "take (length p) ((c # s) @ x) = take (length p) (c # s)" by (simp add: take_Cons')
    with False have "\<not> has_prefix ((c # s) @ x) p" unfolding has_prefix_def by metis
    with j Cons.IH show ?thesis by simp
  qed
qed

lemma index_of_drop: "index_of s p = Some i \<Longrightarrow> index_of (drop i s) p = Some 0"
proof -
  assume "index_of s p = Some i"
  then obtain us vs where "s = us @ p @ vs" "length us = i" using index_of_Some by blast
  then have "has_prefix (drop i s) p" by (simp add: has_prefix_append)
  then show ?thesis by (cases "drop i s") (auto simp: has_prefix_def)
qed

text \<open>An incremental search may forget everything but the last bytes of what it has read.\<close>

lemma index_of_skip:
  "\<forall>i < length a. \<not> has_prefix (drop i (a @ y)) p \<Longrightarrow> index_of (a @ y) p = map_option ((+) (length a)) (index_of y p)"
proof (induction a)
  case Nil then show ?case by (simp add: option.map_ident)
next
  case (Cons c a)
  have "\<forall>i < length a. \<not> has_prefix (drop i (a @ y)) p"
  proof (intro allI impI)
    fix i assume "i < length a"
    with Cons.prems [rule_format, of "Suc i"] show "\<not> has_prefix (drop i (a @ y)) p" by simp
  qed
  moreover have "\<not> has_prefix (c # a @ y) p" using Cons.prems by force
  ultimately show ?case using Cons.IH by (simp add: option.map_comp o_def)
qed

lemma index_of_forget:
  assumes "index_of (a @ b) p = None" and "length p \<le> length b" and "p \<noteq> []"
  shows "index_of (a @ b @ x) p = map_option ((+) (length a)) (index_of (b @ x) p)"
proof (rule index_of_skip, intro allI impI notI)
  fix i assume i: "i < length a" and p: "has_prefix (drop i (a @ b @ x)) p"
  have "take (length p) (drop i (a @ b @ x)) = take (length p) (drop i (a @ b))" using i assms(2) by simp
  with p have "has_prefix (drop i (a @ b)) p" by (simp add: has_prefix_def)
  then obtain vs where "drop i (a @ b) = p @ vs" by (auto simp: has_prefix_iff)
  then have "a @ b = take i (a @ b) @ p @ vs" by (metis append_take_drop_id)
  then have "contains_str (a @ b) p" unfolding contains_str_iff by blast
  with assms(1) show False unfolding index_of_None by blast
qed

end
