(* ===== verification/Memory.thy ===== *)
theory Memory
  imports Gostrings "HOL-Library.Product_Lexorder"
begin

text \<open>
  Package \<open>internal/memory\<close>, part one (\<open>memory.go\<close> and the pure functions of \<open>store.go\<close>): the classes of long-term
  memory and the rules that guard them.  Knowledge is promoted from cited evidence, a preference has a human author,
  a summary covers a contiguous range without failures or effects, and a turn names its conversation and its speaker.
\<close>

section \<open>Records\<close>

datatype memory_class = ClassTaskState | ClassEpisodic | ClassKnowledge | ClassPreference

definition memory_classes :: "memory_class list" where
  "memory_classes = [ClassTaskState, ClassEpisodic, ClassKnowledge, ClassPreference]"

datatype episode_kind = EpisodeObservation | EpisodeDecision | EpisodeFailure | EpisodeEffect

fun episode_kind_name :: "episode_kind \<Rightarrow> string" where
  "episode_kind_name EpisodeObservation = ''observation''"
| "episode_kind_name EpisodeDecision = ''decision''"
| "episode_kind_name EpisodeFailure = ''failure''"
| "episode_kind_name EpisodeEffect = ''effect''"

record episode =
  ep_goal :: string
  ep_seq :: int
  ep_task :: string
  ep_kind :: episode_kind
  ep_summary :: string
  ep_detail :: string
  ep_at :: time
  ep_by :: int

definition compressible :: "episode \<Rightarrow> bool" where
  "compressible e \<longleftrightarrow> ep_kind e = EpisodeObservation \<or> ep_kind e = EpisodeDecision"

record summary =
  sm_goal :: string
  sm_id :: int
  sm_from :: int
  sm_to :: int
  sm_content :: string
  sm_dropped :: int
  sm_at :: time

record knowledge =
  kn_tenant :: string
  kn_subject :: string
  kn_key :: string
  kn_value :: string
  kn_goal :: string
  kn_seqs :: "int list"
  kn_at :: time
  kn_superseded :: string

record preference =
  pf_tenant :: string
  pf_key :: string
  pf_value :: string
  pf_author :: string
  pf_at :: time

definition TurnUser :: string where "TurnUser = ''user''"
definition TurnAgent :: string where "TurnAgent = ''agent''"

definition turn_role_valid :: "string \<Rightarrow> bool" where
  "turn_role_valid r \<longleftrightarrow> r = TurnUser \<or> r = TurnAgent"

record turn =
  tu_tenant :: string
  tu_conversation :: string
  tu_seq :: int
  tu_role :: string
  tu_body :: string
  tu_kind :: string
  tu_capability :: string
  tu_decided :: string
  tu_cost :: int
  tu_at :: time

record conversation =
  cs_id :: string
  cs_title :: string
  cs_turns :: int
  cs_last :: time

definition title_limit :: nat where "title_limit = 80"

section \<open>Preferences\<close>

definition system_identities :: "string list" where
  "system_identities = ['''', ''system'', ''agent'', ''heros'', ''worker'', ''planner'']"

definition validate_preference :: "preference \<Rightarrow> go_error + unit" where
  "validate_preference p =
     (let author = lower_ascii (trim_space (pf_author p)) in
      if author = '''' then Inl (ErrNoAuthor, ''memory: preference has no human author: key '' @ fmt_q (pf_key p))
      else if author \<in> set system_identities \<or> has_prefix author ''worker-'' then
        Inl (ErrSystemAuthor, ''memory: preferences may not be authored by the system: '' @ fmt_q (pf_author p) @
          '' '' @ em_dash @ '' an agent that infers a preference has invented a mandate'')
      else if pf_key p = '''' then Inl (Opaque, ''memory: preference has no key'')
      else Inr ())"

section \<open>Turns\<close>

definition validate_turn :: "turn \<Rightarrow> go_error + unit" where
  "validate_turn t =
     (if trim_space (tu_conversation t) = '''' then Inl (ErrNoConversation, ''memory: turn has no conversation'')
      else if \<not> turn_role_valid (tu_role t) then
        Inl (ErrBadTurnRole, ''memory: turn has an unknown role: '' @ fmt_q (tu_role t) @ '' '' @ em_dash @
          '' a turn is spoken by '' @ fmt_q TurnUser @ '' or '' @ fmt_q TurnAgent)
      else Inr ())"

text \<open>Line breaks become spaces; more than the limit is cut at a rune and marked with an ellipsis.\<close>

definition ellipsis :: string where
  "ellipsis = map char_of [0xE2, 0x80, 0xA6 :: nat]"

definition title_of :: "string \<Rightarrow> string" where
  "title_of body =
     (let t = trim_space (map (\<lambda>c. if of_char c = (10 :: nat) \<or> of_char c = (13 :: nat) then CHR '' '' else c) body) in
      if rune_count t \<le> title_limit then t
      else trim_space (concat (take title_limit (rune_split t))) @ ellipsis)"

fun summarise_from :: "turn list \<Rightarrow> conversation \<Rightarrow> conversation" where
  "summarise_from [] s = s"
| "summarise_from (t # ts) s =
     (let s1 = (if after_time (tu_at t) (cs_last s) then s\<lparr>cs_last := tu_at t\<rparr> else s);
          s2 = (if cs_title s1 = '''' \<and> tu_role t = TurnUser then s1\<lparr>cs_title := title_of (tu_body t)\<rparr> else s1)
      in summarise_from ts s2)"

definition summarise :: "string \<Rightarrow> turn list \<Rightarrow> conversation" where
  "summarise i ts = summarise_from ts \<lparr>cs_id = i, cs_title = '''', cs_turns = int (length ts), cs_last = zero_time\<rparr>"

text \<open>Newest first, ties by the greater id; the ids of a listing differ, so the order is determined.\<close>

definition sort_conversations :: "conversation list \<Rightarrow> conversation list" where
  "sort_conversations cs = rev (sort_key (\<lambda>c. (cs_last c, cs_id c)) cs)"

definition nz :: "time \<Rightarrow> time \<Rightarrow> time" where
  "nz now t = (if t = zero_time then now else t)"

section \<open>Promotion\<close>

text \<open>The loop over the cited episodes; the sequence numbers in the order given.\<close>

fun cite :: "string \<Rightarrow> episode list \<Rightarrow> go_error + int list" where
  "cite gid [] = Inr []"
| "cite gid (e # es) =
     (if ep_goal e \<noteq> gid then
        Inl (ErrNoEvidence, ''memory: knowledge promoted without citing evidence: evidence spans goals '' @ fmt_q gid @
          '' and '' @ fmt_q (ep_goal e))
      else if ep_kind e \<noteq> EpisodeObservation \<and> ep_kind e \<noteq> EpisodeEffect then
        Inl (ErrNotPromotable, ''memory: episode is not a valid basis for a claim: episode '' @ itoa (ep_seq e) @ '' is a '' @
          episode_kind_name (ep_kind e) @
          ''; only observations and effects are evidence, because a decision is the agent's own reasoning'')
      else (case cite gid es of Inl err \<Rightarrow> Inl err | Inr seqs \<Rightarrow> Inr (ep_seq e # seqs)))"

definition no_evidence :: "string \<Rightarrow> go_error" where
  "no_evidence key = (ErrNoEvidence, ''memory: knowledge promoted without citing evidence: '' @ fmt_q key)"

definition promote :: "string \<Rightarrow> string \<Rightarrow> string \<Rightarrow> string \<Rightarrow> episode list \<Rightarrow> go_error + knowledge" where
  "promote tenant subject key val es =
     (case es of
        [] \<Rightarrow> Inl (no_evidence key)
      | e # _ \<Rightarrow>
          (case cite (ep_goal e) es of
             Inl err \<Rightarrow> Inl err
           | Inr seqs \<Rightarrow> Inr \<lparr>kn_tenant = tenant, kn_subject = subject, kn_key = key, kn_value = val,
               kn_goal = ep_goal e, kn_seqs = sort seqs, kn_at = zero_time, kn_superseded = ''''\<rparr>))"

section \<open>Compression\<close>

text \<open>The checks on the sorted episodes; \<open>prev\<close> is the number before, if there is one.\<close>

fun check_run :: "string \<Rightarrow> int option \<Rightarrow> episode list \<Rightarrow> go_error + unit" where
  "check_run gid prev [] = Inr ()"
| "check_run gid prev (e # es) =
     (if ep_goal e \<noteq> gid then
        Inl (ErrSummaryGap, ''memory: summary range has a gap or overlap: episode '' @ itoa (ep_seq e) @
          '' belongs to goal '' @ fmt_q (ep_goal e))
      else if \<not> compressible e then
        Inl (ErrIncompressible, ''memory: refusing to compress a failure or an effect: episode '' @ itoa (ep_seq e) @
          '' is a '' @ episode_kind_name (ep_kind e))
      else (case prev of
              None \<Rightarrow> check_run gid (Some (ep_seq e)) es
            | Some p \<Rightarrow>
                if ep_seq e \<noteq> p + 1 then
                  Inl (ErrSummaryGap, ''memory: summary range has a gap or overlap: '' @ itoa (ep_seq e) @ '' follows '' @ itoa p)
                else check_run gid (Some (ep_seq e)) es))"

definition compress :: "string \<Rightarrow> episode list \<Rightarrow> string \<Rightarrow> time \<Rightarrow> go_error + summary" where
  "compress gid es content now =
     (if es = [] then Inl (Opaque, ''memory: nothing to compress'')
      else let sorted_es = sort_key ep_seq es in
        (case check_run gid None sorted_es of
           Inl err \<Rightarrow> Inl err
         | Inr _ \<Rightarrow> Inr \<lparr>sm_goal = gid, sm_id = 0, sm_from = ep_seq (hd sorted_es), sm_to = ep_seq (last sorted_es),
             sm_content = content, sm_dropped = int (length sorted_es), sm_at = now\<rparr>))"

end
