(* ===== verification/Worker.thy ===== *)
theory Worker
  imports Planner Store Toolcontract Memory
begin

text \<open>
  \<open>internal/worker\<close>: one bounded cycle of the agent loop.

  The cycle runs against the store as the sum of its atomic operations.  While a tool runs
  the rest of the platform keeps going: the tools of the registry act on the store as their world,
  so what other workers, the console and the planner do to the store in that time is the world
  change of \<open>tool_execute\<close>, and every theorem about \<open>run_once\<close> holds for any such change.  The clock is
  read once, at the top; the context's error is read once, after the tool.

  Beside its outcome a cycle returns the list of what it did to the outside: the invocations of the tool registry and the
  episodes it appended, in order.  Appending is best effort in the code and its result is ignored there,
  so the memory store is not part of the state here.
\<close>

section \<open>Outcomes\<close>

datatype did =
  DidWork | DidRetry | DidNothing | DidComplete | DidStall | DidStop | DidReplan
  | DidBlockedOnApproval | DidAwaitApproval

record outcome =
  o_did :: did
  o_task :: task_id
  o_detail :: string
  o_more :: bool

definition outcome_of :: "did \<Rightarrow> task_id \<Rightarrow> string \<Rightarrow> bool \<Rightarrow> outcome" where
  "outcome_of d i detail again = \<lparr>o_did = d, o_task = i, o_detail = detail, o_more = again\<rparr>"

datatype event =
    Called call
  | Recorded string string task_id episode_kind string string  \<comment> \<open>tenant, goal, task, kind, summary, detail\<close>

type_synonym cycle = "(outcome \<times> go_error option) \<times> event list \<times> mem"

section \<open>The worker\<close>

record worker =
  w_id :: string
  w_tools :: "mem registry"
  w_policy :: "goal \<Rightarrow> task \<Rightarrow> bool \<times> string"
  w_episodes :: bool
  w_reviser :: "(goal \<Rightarrow> tasks \<Rightarrow> time \<Rightarrow> go_error + task list) option"
  w_lease :: duration

definition new_worker :: "string \<Rightarrow> mem registry \<Rightarrow> worker" where
  "new_worker i tools = \<lparr>w_id = i, w_tools = tools, w_policy = gate_effects, w_episodes = False,
     w_reviser = None, w_lease = 30 * 1000000000\<rparr>"

definition ended_elsewhere :: "go_error \<Rightarrow> bool" where
  "ended_elsewhere e \<longleftrightarrow> errors_is e ErrGoalTerminal"

definition stopped_elsewhere :: string where
  "stopped_elsewhere = ''the task that was already under way has finished; nothing further will start''"

definition record_event :: "worker \<Rightarrow> string \<Rightarrow> string \<Rightarrow> task_id \<Rightarrow> episode_kind \<Rightarrow> string \<Rightarrow> string \<Rightarrow> event list" where
  "record_event w tenant gid i kind summary detail =
     (if \<not> w_episodes w \<or> tenant = '''' then [] else [Recorded tenant gid i kind summary detail])"

text \<open>The three ways a cycle ends: with an outcome, with an error, and with the state saved first.\<close>

definition finish :: "outcome \<Rightarrow> event list \<Rightarrow> mem \<Rightarrow> cycle" where
  "finish out evs m = ((out, None), evs, m)"

definition finish_err :: "outcome \<Rightarrow> go_error \<Rightarrow> event list \<Rightarrow> mem \<Rightarrow> cycle" where
  "finish_err out e evs m = ((out, Some e), evs, m)"

definition save_then :: "goal \<Rightarrow> outcome \<Rightarrow> event list \<Rightarrow> mem \<Rightarrow> cycle" where
  "save_then g out evs m =
     (case save_goal g m of
        (Inl e, m') \<Rightarrow>
          if ended_elsewhere e then finish (outcome_of DidStop '''' stopped_elsewhere False) evs m'
          else finish_err (outcome_of DidStop '''' '''' False) e evs m'
      | (Inr _, m') \<Rightarrow> finish out evs m')"

section \<open>Failures\<close>

definition fail_task :: "worker \<Rightarrow> string \<Rightarrow> task \<Rightarrow> goal \<Rightarrow> time \<Rightarrow> string \<Rightarrow> event list \<Rightarrow> mem \<Rightarrow> cycle" where
  "fail_task w gid t g now why evs m =
     (let evs' = evs @ record_event w (g_tenant g) gid (t_id t) EpisodeFailure (t_id t @ '' failed'') why in
      case complete gid (t_id t) (w_id w) Failed '''' why now m of
        (Inl e, m') \<Rightarrow> finish_err (outcome_of DidStop (t_id t) '''' False) e evs' m'
      | (Inr _, m') \<Rightarrow> finish (outcome_of DidWork (t_id t) why True) evs' m')"

definition handle_failure :: "worker \<Rightarrow> string \<Rightarrow> task \<Rightarrow> goal \<Rightarrow> time \<Rightarrow> go_error \<Rightarrow> event list \<Rightarrow> mem \<Rightarrow> cycle" where
  "handle_failure w gid t g now err evs m =
     (if errors_is err ErrVerifyInconclusive then
        fail_task w gid t g now (''effect could not be confirmed and must not be retried blindly: '' @ snd err) evs m
      else if attempt t \<ge> max_attempts_per_task (g_ceilings g) then
        fail_task w gid t g now (itoa (attempt t) @ '' attempts exhausted: '' @ snd err) evs m
      else (case release gid (t_id t) (w_id w) now m of
              (Inl e, m') \<Rightarrow> finish_err (outcome_of DidStop (t_id t) '''' False) e evs m'
            | (Inr _, m') \<Rightarrow>
                finish (outcome_of DidRetry (t_id t) (''attempt '' @ itoa (attempt t) @ ''/'' @
                  itoa (max_attempts_per_task (g_ceilings g)) @ '' failed: '' @ snd err) True) evs m'))"

section \<open>Inputs of a join\<close>

fun collect_results :: "tasks \<Rightarrow> task_id list \<Rightarrow> (string \<times> string) list \<Rightarrow> (string \<times> string) list" where
  "collect_results ts [] out = out"
| "collect_results ts (dep # deps) out =
     (case map_of ts dep of
        None \<Rightarrow> collect_results ts deps out
      | Some dt \<Rightarrow> if t_state dt \<noteq> Succeeded then collect_results ts deps out
                   else collect_results ts deps (AList.update dep (t_result dt) out))"

definition dependency_results :: "string \<Rightarrow> task \<Rightarrow> mem \<Rightarrow> go_error + (string \<times> string) list" where
  "dependency_results gid t m =
     (let es = depends_on t @ contributes t in
      if es = [] then Inr []
      else (case load_dag gid m of Inl e \<Rightarrow> Inl e | Inr d \<Rightarrow> Inr (collect_results (dag_tasks d) es [])))"

section \<open>Nothing to claim\<close>

text \<open>The loop of \<open>commonestFailure\<close> in the map's iteration order; the counts are a map with default zero.\<close>

fun failure_scan :: "(string \<Rightarrow> int) \<Rightarrow> string \<Rightarrow> int \<Rightarrow> tasks \<Rightarrow> string \<times> int" where
  "failure_scan counts best n [] = (best, n)"
| "failure_scan counts best n ((_, t) # ts) =
     (if t_state t \<noteq> Failed \<or> t_failure t = '''' then failure_scan counts best n ts
      else (let k = counts (t_failure t) + 1; counts' = counts(t_failure t := k) in
            if k > n then failure_scan counts' (t_failure t) k ts
            else failure_scan counts' best n ts))"

definition commonest_failure :: "tasks \<Rightarrow> string" where
  "commonest_failure ts =
     (let (best, n) = failure_scan (\<lambda>_. 0) '''' 0 ts in
      if n = 0 then '''' else if n = 1 then best else itoa n @ '' tasks reported: '' @ best)"

fun count_state :: "task_state \<Rightarrow> tasks \<Rightarrow> int" where
  "count_state s [] = 0"
| "count_state s ((_, t) # ts) = (if t_state t = s then count_state s ts + 1 else count_state s ts)"

definition kind_criterion :: "string \<Rightarrow> criterion_kind option" where
  "kind_criterion k =
     (if k = ''assess_axis'' then Some AxesAssessed
      else if k = ''publish_eval_set'' then Some EvalCasesGenerated
      else if k = ''compare_results'' then Some ComparisonDrawn
      else if k \<in> {''open_pull_request'', ''write_source'', ''deliver_change''} then Some ChangesDelivered
      else None)"

fun observe_tasks :: "tasks \<Rightarrow> (criterion_kind \<Rightarrow> int) \<Rightarrow> criterion_kind \<Rightarrow> int" where
  "observe_tasks [] obs = obs"
| "observe_tasks ((_, t) # ts) obs =
     (if t_state t \<noteq> Succeeded then observe_tasks ts obs
      else (case kind_criterion (t_kind t) of
              None \<Rightarrow> observe_tasks ts obs
            | Some c \<Rightarrow> observe_tasks ts (obs(c := obs c + 1))))"

definition observed_of :: "tasks \<Rightarrow> criterion_kind \<Rightarrow> int" where
  "observed_of ts =
     (let total = int (length ts); obs = (\<lambda>_. 0) in
      observe_tasks ts
        (if total > 0 \<and> count_state Succeeded ts = total then obs(AllTasksSucceeded := 1) else obs))"

definition fraction :: "int \<Rightarrow> int \<Rightarrow> string" where
  "fraction a b = itoa a @ ''/'' @ itoa b"

definition settle :: "worker \<Rightarrow> goal \<Rightarrow> tasks \<Rightarrow> time \<Rightarrow> event list \<Rightarrow> mem \<Rightarrow> cycle" where
  "settle w g ts now evs m =
     (let (done, total) = progress ts;
          succeeded = count_state Succeeded ts;
          awaiting = count_state AwaitingApproval ts in
      if awaiting > 0 then
        finish (outcome_of DidBlockedOnApproval '''' (itoa awaiting @ '' task(s) waiting for a person; '' @
          fraction done total @ '' done'') False) evs m
      else
        (let (met, g') = evaluate_completion g (observed_of ts) now in
         if met then
           save_then (g'\<lparr>g_state := GoalSucceeded, g_updated := now\<rparr>)
             (outcome_of DidComplete '''' (fraction succeeded total @ '' tasks succeeded'') False) evs m
         else (case stalled ts of
                 None \<Rightarrow> finish_err (outcome_of DidStop '''' '''' False) nil_deref evs m
               | Some stuck \<Rightarrow>
                   let exhausted = total > 0 \<and> done = total in
                   if stuck \<or> exhausted then
                     (let cause = (if \<not> exhausted then PlanStalled else PlanExhausted);
                          detail = (if \<not> exhausted
                            then fraction done total @ '' tasks terminal, none of the remainder can run''
                            else fraction done total @ '' tasks terminal, '' @ itoa succeeded @
                              '' succeeded; completion criteria not met'');
                          why = commonest_failure ts;
                          detail = (if why \<noteq> '''' then detail @ ''; '' @ why else detail) in
                      save_then (g'\<lparr>g_state := GoalFailed,
                          g_refusal := Some \<lparr>r_cause = cause, r_detail = detail\<rparr>, g_updated := now\<rparr>)
                        (outcome_of DidStall '''' detail False) evs m)
                   else finish (outcome_of DidNothing '''' ''no claimable task right now'' True) evs m)))"

definition idle :: "worker \<Rightarrow> string \<Rightarrow> goal \<Rightarrow> time \<Rightarrow> event list \<Rightarrow> mem \<Rightarrow> cycle" where
  "idle w gid g now evs m =
     (case load_dag gid m of
        Inl _ \<Rightarrow> finish (outcome_of DidNothing '''' '''' True) evs m
      | Inr d \<Rightarrow>
          (case w_reviser w of
             None \<Rightarrow> settle w g (dag_tasks d) now evs m
           | Some rv \<Rightarrow>
               (case rv g (dag_tasks d) now of
                  Inl e \<Rightarrow>
                    save_then (g\<lparr>g_state := GoalFailed,
                        g_refusal := Some \<lparr>r_cause = CeilingExceeded, r_detail = snd e\<rparr>, g_updated := now\<rparr>)
                      (outcome_of DidStop '''' (''replanning refused: '' @ snd e) False) evs m
                | Inr added \<Rightarrow>
                    if length added > 0 then
                      (let n = itoa (int (length added));
                           evs' = evs @ record_event w (g_tenant g) gid '''' EpisodeDecision ''the plan grew''
                             (n @ '' task(s) added from what the run found'') in
                       case new_dag gid (map snd (dag_tasks d) @ added) of
                         Inl e \<Rightarrow> finish_err (outcome_of DidStop '''' '''' False) e evs' m
                       | Inr grown \<Rightarrow>
                           finish (outcome_of DidReplan '''' (n @
                             '' task(s) added from what the run has found so far'') True) evs' (save_dag grown m))
                    else settle w g (dag_tasks d) now evs m)))"

section \<open>One cycle\<close>

definition charge :: "spend \<Rightarrow> tool_result \<Rightarrow> spend" where
  "charge s res = s\<lparr>sp_iterations := sp_iterations s + 1,
     sp_tool_calls := wrap64 (sp_tool_calls s + res_calls res),
     sp_tokens := wrap64 (sp_tokens s + res_tokens res),
     sp_cost_micro_cents := wrap64 (sp_cost_micro_cents s + res_cost res)\<rparr>"

text \<open>What follows the tool's return: the spend, the cancellation check, the failure ladder, the result.\<close>

definition after_call :: "worker \<Rightarrow> string \<Rightarrow> task \<Rightarrow> goal \<Rightarrow> time \<Rightarrow> go_error option \<Rightarrow>
    tool_result \<times> go_error option \<Rightarrow> event list \<Rightarrow> mem \<Rightarrow> cycle" where
  "after_call w gid t g now ctx_err r evs m =
     (let (res, exec_err) = r; g' = g\<lparr>g_spend := charge (g_spend g) res\<rparr> in
      case save_goal g' m of
        (Inl e, m') \<Rightarrow>
          if ended_elsewhere e then finish (outcome_of DidStop '''' stopped_elsewhere False) evs m'
          else finish_err (outcome_of DidStop '''' '''' False) e evs m'
      | (Inr _, m1) \<Rightarrow>
          (case ctx_err of
             Some ce \<Rightarrow>
               (case release gid (t_id t) (w_id w) now m1 of
                  (Inl e, m2) \<Rightarrow>
                    if \<not> errors_is e ErrLeaseLost
                    then finish_err (outcome_of DidStop (t_id t) '''' False) e evs m2
                    else finish_err (outcome_of DidRetry (t_id t) ''cancelled; lease released'' True) ce evs m2
                | (Inr _, m2) \<Rightarrow>
                    finish_err (outcome_of DidRetry (t_id t) ''cancelled; lease released'' True) ce evs m2)
           | None \<Rightarrow>
               (case exec_err of
                  Some ee \<Rightarrow> handle_failure w gid t g' now ee evs m1
                | None \<Rightarrow>
                    let evs' = evs @ record_event w (g_tenant g) gid (t_id t) EpisodeObservation
                          (t_id t @ '' succeeded'')
                          (itoa (res_tokens res) @ '' tokens, '' @ itoa (res_cost res) @ '' micro-cents'') in
                    (case complete gid (t_id t) (w_id w) Succeeded (res_output res) '''' now m1 of
                       (Inl e, m2) \<Rightarrow> finish_err (outcome_of DidStop (t_id t) '''' False) e evs' m2
                     | (Inr _, m2) \<Rightarrow>
                         finish (outcome_of DidWork (t_id t) '''' True) evs'
                           (add_checkpoint \<lparr>cp_goal = gid, cp_iteration = sp_iterations (g_spend g'),
                              cp_spend = '''', cp_note = t_id t @ '' succeeded'', cp_at = now\<rparr> m2)))))"

definition the_call :: "string \<Rightarrow> task \<Rightarrow> (string \<times> string) list \<Rightarrow> call" where
  "the_call gid t inputs = \<lparr>call_task = t_id t, call_goal = gid, call_kind = t_kind t,
     call_key = idempotency_key t, call_input = t_result t, call_inputs = inputs, call_attempt = attempt t\<rparr>"

definition run_claimed :: "worker \<Rightarrow> string \<Rightarrow> goal \<Rightarrow> task \<Rightarrow> time \<Rightarrow> go_error option \<Rightarrow> mem \<Rightarrow> cycle" where
  "run_claimed w gid g t now ctx_err m =
     (case require_idempotency t of
        Inl e \<Rightarrow> fail_task w gid t g now (snd e) [] m
      | Inr _ \<Rightarrow>
          let (need, why) = w_policy w g t in
          if need \<and> \<not> approved t then
            (let evs = record_event w (g_tenant g) gid (t_id t) EpisodeDecision
                   (t_id t @ '' parked for approval'') why in
             case complete gid (t_id t) (w_id w) AwaitingApproval '''' why now m of
               (Inl e, m') \<Rightarrow> finish_err (outcome_of DidStop '''' '''' False) e evs m'
             | (Inr _, m') \<Rightarrow> finish (outcome_of DidAwaitApproval (t_id t) why True) evs m')
          else
            (let evs = (if \<not> need \<and> effect_bearing (t_kind t)
                        then record_event w (g_tenant g) gid (t_id t) EpisodeEffect
                               (t_id t @ '' proceeded without approval'') why
                        else []) in
             case dependency_results gid t m of
               Inl e \<Rightarrow> finish_err (outcome_of DidStop (t_id t) '''' False) e evs m
             | Inr inputs \<Rightarrow>
                 (let c = the_call gid t inputs; (r, m1) = invoke (w_tools w) c m in
                  after_call w gid t g now ctx_err r (evs @ [Called c]) m1)))"

definition run_once :: "worker \<Rightarrow> string \<Rightarrow> time \<Rightarrow> go_error option \<Rightarrow> mem \<Rightarrow> cycle" where
  "run_once w gid now ctx_err m =
     (case load_goal gid m of
        Inl e \<Rightarrow> finish_err (outcome_of DidStop '''' '''' False) e [] m
      | Inr g \<Rightarrow>
          if \<not> goal_claimable g then
            finish (outcome_of DidStop '''' (''goal is '' @ goal_state_name (g_state g)) False) [] m
          else
            (let ((which, hit), g') = check_ceilings g now in
             if hit then save_then g' (outcome_of DidStop '''' (''ceiling reached: '' @ which) False) [] m
             else (case claim gid (w_id w) (w_lease w) now m of
                     (Inl e, m') \<Rightarrow>
                       if errors_is e ErrNoWork then idle w gid g now [] m'
                       else finish_err (outcome_of DidStop '''' '''' False) e [] m'
                   | (Inr t, m') \<Rightarrow> run_claimed w gid g t now ctx_err m')))"

end
