(* ===== verification/Worker_Facts.thy ===== *)
theory Worker_Facts
  imports Worker Planner_Contract Scoped
begin

text \<open>
  What a cycle of the worker guarantees: which work reaches a tool, what is written down before an
  effect, how failures and cancellations end, what completion is measured on, and which fields of the
  spend a cycle can move.
\<close>

section \<open>Reaching a tool\<close>

lemma save_then_events: "fst (snd (save_then g out evs m)) = evs"
  by (auto simp: save_then_def finish_def finish_err_def split: prod.split sum.split)

definition calls :: "event list \<Rightarrow> call list" where
  "calls evs = List.map_filter (\<lambda>e. case e of Called c \<Rightarrow> Some c | _ \<Rightarrow> None) evs"

lemma calls_simps [simp]:
  "calls [] = []" "calls (Called c # evs) = c # calls evs" "calls (Recorded a b i k s d # evs) = calls evs"
  "calls (evs @ evs') = calls evs @ calls evs'"
  by (simp_all add: calls_def map_filter_def)

lemma calls_record [simp]: "calls (record_event w tenant gid i k s d) = []"
  by (simp add: record_event_def)

lemma finish_events [simp]:
  "fst (snd (finish out evs m)) = evs" "fst (snd (finish_err out e evs m)) = evs"
  by (simp_all add: finish_def finish_err_def)

lemma fail_task_calls: "calls (fst (snd (fail_task w gid t g now why evs m))) = calls evs"
  by (auto simp: fail_task_def Let_def split: prod.split sum.split)

lemma handle_failure_calls: "calls (fst (snd (handle_failure w gid t g now e evs m))) = calls evs"
  by (auto simp: handle_failure_def fail_task_calls split: prod.split sum.split)

lemma after_call_calls: "calls (fst (snd (after_call w gid t g now ce r evs m))) = calls evs"
  by (auto simp: after_call_def Let_def handle_failure_calls split: prod.split sum.split option.split)

lemma settle_calls: "calls (fst (snd (settle w g ts now evs m))) = calls evs"
  by (auto simp: settle_def Let_def save_then_events split: prod.split option.split)

lemma idle_calls: "calls (fst (snd (idle w gid g now evs m))) = calls evs"
  by (auto simp: idle_def Let_def save_then_events settle_calls split: prod.split sum.split option.split)

text \<open>The task a cycle hands to a tool, and the goal it read.\<close>

definition cleared :: "worker \<Rightarrow> goal \<Rightarrow> task \<Rightarrow> bool" where
  "cleared w g t \<longleftrightarrow> (fst (w_policy w g t) \<longrightarrow> approved t) \<and> (effect_bearing (t_kind t) \<longrightarrow> idempotency_key t \<noteq> '''')"

lemma run_claimed_calls:
  assumes "run_claimed w gid g t now ce m = (r, evs, m')"
  shows "calls evs = [] \<or> (\<exists>inputs. dependency_results gid t m = Inr inputs \<and> calls evs = [the_call gid t inputs] \<and> cleared w g t)"
proof (cases "require_idempotency t")
  case (Inl e)
  with assms fail_task_calls [of w gid t g now "snd e" "[]" m] show ?thesis by (simp add: run_claimed_def)
next
  case (Inr u)
  then have key: "effect_bearing (t_kind t) \<longrightarrow> idempotency_key t \<noteq> ''''"
    using require_idempotency_Inr [of t] by simp
  obtain need why where pol: "w_policy w g t = (need, why)" by fastforce
  show ?thesis
  proof (cases "need \<and> \<not> approved t")
    case True
    then have "calls (fst (snd (run_claimed w gid g t now ce m))) = []"
      using Inr pol by (simp add: run_claimed_def Let_def split: prod.split sum.split)
    with assms show ?thesis by simp
  next
    case False
    define evs0 where "evs0 = (if \<not> need \<and> effect_bearing (t_kind t)
      then record_event w (g_tenant g) gid (t_id t) EpisodeEffect (t_id t @ '' proceeded without approval'') why else [])"
    show ?thesis
    proof (cases "dependency_results gid t m")
      case (Inl e)
      then have "calls (fst (snd (run_claimed w gid g t now ce m))) = []"
        using Inr pol False by (cases need) (simp_all add: run_claimed_def Let_def)
      with assms show ?thesis by simp
    next
      case deps: (Inr inputs)
      obtain q m1 where q: "invoke (w_tools w) (the_call gid t inputs) m = (q, m1)"
        by (cases "invoke (w_tools w) (the_call gid t inputs) m")
      have eq: "run_claimed w gid g t now ce m =
          after_call w gid t g now ce q (evs0 @ [Called (the_call gid t inputs)]) m1"
        using Inr pol False deps q by (cases need) (simp_all add: run_claimed_def Let_def evs0_def)
      have "calls evs = [the_call gid t inputs]"
        using after_call_calls [of w gid t g now ce q "evs0 @ [Called (the_call gid t inputs)]" m1] assms eq
        by (simp add: evs0_def split: if_splits)
      with key pol False deps show ?thesis by (auto simp: cleared_def)
    qed
  qed
qed

lemma run_once_cases:
  obtains (no_goal) e where "load_goal gid m = Inl e" "run_once w gid now ce m = finish_err (outcome_of DidStop '''' '''' False) e [] m"
  | (not_running) g where "map_of (goals m) gid = Some g" "g_state g \<noteq> GoalRunning"
      "run_once w gid now ce m = finish (outcome_of DidStop '''' (''goal is '' @ goal_state_name (g_state g)) False) [] m"
  | (ceiling) g which where "map_of (goals m) gid = Some g" "g_state g = GoalRunning" "\<not> within (g_spend g) (g_ceilings g)"
      "exceeded (g_spend g) (g_ceilings g) = (which, True)"
      "run_once w gid now ce m = save_then (snd (check_ceilings g now))
         (outcome_of DidStop '''' (''ceiling reached: '' @ which) False) [] m"
  | (no_work) g e m1 where "map_of (goals m) gid = Some g" "g_state g = GoalRunning" "within (g_spend g) (g_ceilings g)"
      "claim gid (w_id w) (w_lease w) now m = (Inl e, m1)" "errors_is e ErrNoWork"
      "run_once w gid now ce m = idle w gid g now [] m1"
  | (no_claim) g e m1 where "map_of (goals m) gid = Some g" "claim gid (w_id w) (w_lease w) now m = (Inl e, m1)"
      "\<not> errors_is e ErrNoWork" "run_once w gid now ce m = finish_err (outcome_of DidStop '''' '''' False) e [] m1"
  | (claimed) g t m1 where "map_of (goals m) gid = Some g" "g_state g = GoalRunning" "within (g_spend g) (g_ceilings g)"
      "claim gid (w_id w) (w_lease w) now m = (Inr t, m1)" "run_once w gid now ce m = run_claimed w gid g t now ce m1"
proof (cases "map_of (goals m) gid")
  case None
  then show ?thesis by (intro no_goal) (simp_all add: run_once_def load_goal_def)
next
  case (Some g)
  then have load: "load_goal gid m = Inr g" by (simp add: load_goal_def)
  show ?thesis
  proof (cases "g_state g = GoalRunning")
    case False
    with Some load show ?thesis by (intro not_running) (simp_all add: run_once_def goal_claimable_def)
  next
    case running: True
    obtain which hit where ex: "exceeded (g_spend g) (g_ceilings g) = (which, hit)" by fastforce
    show ?thesis
    proof (cases hit)
      case True
      with ex exceeded_iff [of "g_spend g" "g_ceilings g"] Some load running show ?thesis
        by (intro ceiling [of g which]) (simp_all add: run_once_def goal_claimable_def check_ceilings_def Let_def)
    next
      case False
      have win: "within (g_spend g) (g_ceilings g)" using ex False exceeded_iff [of "g_spend g" "g_ceilings g"] by simp
      obtain q m1 where q: "claim gid (w_id w) (w_lease w) now m = (q, m1)" by fastforce
      have step: "run_once w gid now ce m = (case q of
          Inl e \<Rightarrow> if errors_is e ErrNoWork then idle w gid g now [] m1
            else finish_err (outcome_of DidStop '''' '''' False) e [] m1
        | Inr t \<Rightarrow> run_claimed w gid g t now ce m1)"
        using load running ex False q by (simp add: run_once_def goal_claimable_def check_ceilings_def Let_def)
      show ?thesis
      proof (cases q)
        case (Inl e)
        show ?thesis
        proof (cases "errors_is e ErrNoWork")
          case True
          with no_work Some running win q Inl step show ?thesis by simp
        next
          case False
          with no_claim Some q Inl step show ?thesis by simp
        qed
      next
        case (Inr t)
        with claimed Some running win q step show ?thesis by simp
      qed
    qed
  qed
qed

lemma run_once_calls:
  assumes "run_once w gid now ce m = (r, evs, m')"
  shows "calls evs = [] \<or> (\<exists>g t m1 inputs. map_of (goals m) gid = Some g \<and> g_state g = GoalRunning \<and>
    within (g_spend g) (g_ceilings g) \<and> claim gid (w_id w) (w_lease w) now m = (Inr t, m1) \<and>
    calls evs = [the_call gid t inputs] \<and> cleared w g t)"
  using assms
proof (cases rule: run_once_cases [of gid m w now ce])
  case (ceiling g which)
  with assms show ?thesis using save_then_events by (metis calls_simps(1) fst_conv snd_conv)
next
  case (no_work g e m1)
  with assms idle_calls [of w gid g now "[]" m1] show ?thesis by simp
next
  case (claimed g t m1)
  with assms run_claimed_calls [of w gid g t now ce m1 r evs m'] show ?thesis by metis
qed (auto simp: finish_def finish_err_def)

section \<open>Goals and graphs change separately\<close>

lemma goals_kept [store_simps]:
  "goals (snd (claim gid w l now m)) = goals m"
  "goals (snd (complete gid i w nx res f now m)) = goals m"
  "goals (snd (release gid i w now m)) = goals m"
  by (auto simp: claim_def complete_def release_def propagate_in_def store_simps Let_def
      split: option.split list.split sum.split prod.split)

section \<open>The spend a cycle can move\<close>

text \<open>The three fields of the ledger that no step of a cycle writes.\<close>

definition clock_fields :: "spend \<Rightarrow> duration \<times> int \<times> int" where
  "clock_fields s = (sp_elapsed s, sp_tasks s, sp_spawn_depth s)"

definition ledger :: "string \<Rightarrow> mem \<Rightarrow> (duration \<times> int \<times> int) option" where
  "ledger gid m = map_option (\<lambda>g. clock_fields (g_spend g)) (map_of (goals m) gid)"

lemma clock_charge [simp]: "clock_fields (charge s res) = clock_fields s"
  by (simp add: clock_fields_def charge_def)

lemma ledger_goals: "goals m' = goals m \<Longrightarrow> ledger gid m' = ledger gid m"
  by (simp add: ledger_def)

lemma ledger_kept [simp]:
  "ledger gid (snd (claim gid' w l now m)) = ledger gid m"
  "ledger gid (snd (complete gid' i w nx res f now m)) = ledger gid m"
  "ledger gid (snd (release gid' i w now m)) = ledger gid m"
  "ledger gid (save_dag d m) = ledger gid m" "ledger gid (add_checkpoint cp m) = ledger gid m"
  by (simp_all add: ledger_def store_simps)

lemma save_goal_ledger:
  "ledger gid m = Some cf \<Longrightarrow> g_id g = gid \<Longrightarrow> clock_fields (g_spend g) = cf \<Longrightarrow>
     ledger gid (snd (save_goal g m)) = Some cf"
  by (auto simp: save_goal_def ledger_def store_simps split: option.split sum.split)

lemma finish_state [simp]:
  "snd (snd (finish out evs m)) = m" "snd (snd (finish_err out e evs m)) = m"
  by (simp_all add: finish_def finish_err_def)

lemma save_then_state: "snd (snd (save_then g out evs m)) = snd (save_goal g m)"
  by (auto simp: save_then_def split: prod.split sum.split)

lemma fail_task_state:
  "snd (snd (fail_task w gid t g now why evs m)) = snd (complete gid (t_id t) (w_id w) Failed '''' why now m)"
  by (auto simp: fail_task_def Let_def split: prod.split sum.split)

lemma handle_failure_ledger: "ledger k (snd (snd (handle_failure w gid t g now e evs m))) = ledger k m"
proof -
  have "snd (snd (handle_failure w gid t g now e evs m)) \<in>
      range (\<lambda>why. snd (complete gid (t_id t) (w_id w) Failed '''' why now m)) \<union> {snd (release gid (t_id t) (w_id w) now m)}"
    by (auto simp: handle_failure_def fail_task_state split: prod.split sum.split)
  then show ?thesis by auto
qed

lemma after_call_ledger:
  assumes "ledger gid m = Some cf" "g_id g = gid" "clock_fields (g_spend g) = cf"
  shows "ledger gid (snd (snd (after_call w k t g now ce r evs m))) = Some cf"
proof -
  obtain res ee where r: "r = (res, ee)" by fastforce
  let ?g = "g\<lparr>g_spend := charge (g_spend g) res\<rparr>"
  obtain q m1 where s: "save_goal ?g m = (q, m1)" by fastforce
  have m1: "ledger gid m1 = Some cf" using save_goal_ledger [of gid m cf ?g] assms s by simp
  obtain p m2 where rel: "release k (t_id t) (w_id w) now m1 = (p, m2)" by fastforce
  obtain p' m3 where com: "complete k (t_id t) (w_id w) Succeeded (res_output res) '''' now m1 = (p', m3)" by fastforce
  have "ledger gid m2 = Some cf" "ledger gid m3 = Some cf"
    using ledger_kept(2,3) [of gid] m1 rel com by (metis snd_conv)+
  with m1 show ?thesis
    by (simp add: after_call_def Let_def r s rel com handle_failure_ledger split: sum.split option.split)
qed

lemma evaluate_completion_spend: "g_spend (snd (evaluate_completion g obs now)) = g_spend g"
    "g_id (snd (evaluate_completion g obs now)) = g_id g"
  by (simp_all add: evaluate_completion_def split: prod.split)

lemma settle_ledger:
  assumes "ledger gid m = Some cf" "g_id g = gid" "clock_fields (g_spend g) = cf"
  shows "ledger gid (snd (snd (settle w g ts now evs m))) = Some cf"
proof -
  obtain met g' where e: "evaluate_completion g (observed_of ts) now = (met, g')" by fastforce
  have g': "g_id g' = gid" "clock_fields (g_spend g') = cf"
    using evaluate_completion_spend [of g "observed_of ts" now] e assms by simp_all
  show ?thesis
    using assms(1) g'
    by (auto simp: settle_def e Let_def save_then_state split: prod.split option.split intro!: save_goal_ledger)
qed

lemma idle_ledger:
  assumes "ledger gid m = Some cf" "g_id g = gid" "clock_fields (g_spend g) = cf"
  shows "ledger gid (snd (snd (idle w k g now evs m))) = Some cf"
  using assms settle_ledger [OF assms] save_goal_ledger [OF assms(1)]
  by (simp add: idle_def Let_def save_then_state split: sum.split option.split)

lemma run_claimed_ledger:
  assumes "ledger gid m = Some cf" "g_id g = gid" "clock_fields (g_spend g) = cf"
    and tools: "\<And>c n. ledger gid (snd (invoke (w_tools w) c n)) = ledger gid n"
  shows "ledger gid (snd (snd (run_claimed w k g t now ce m))) = Some cf"
proof (cases "require_idempotency t")
  case (Inl e)
  with assms(1) show ?thesis by (simp add: run_claimed_def fail_task_state)
next
  case (Inr u)
  obtain need why where pol: "w_policy w g t = (need, why)" by fastforce
  obtain p m2 where com: "complete k (t_id t) (w_id w) AwaitingApproval '''' why now m = (p, m2)" by fastforce
  have m2: "ledger gid m2 = Some cf" using ledger_kept(2) [of gid] assms(1) com by (metis snd_conv)
  have call: "ledger gid (snd (snd (case invoke (w_tools w) c m of (r, m1) \<Rightarrow> after_call w k t g now ce r evs m1))) = Some cf" for c evs
  proof -
    obtain r m1 where r: "invoke (w_tools w) c m = (r, m1)" by (cases "invoke (w_tools w) c m")
    with tools [of c m] assms(1) have "ledger gid m1 = Some cf" by simp
    with r after_call_ledger [OF _ assms(2,3), of m1] show ?thesis by simp
  qed
  show ?thesis
  proof (cases "need \<and> \<not> approved t")
    case True
    with Inr pol com m2 show ?thesis by (simp add: run_claimed_def Let_def split: sum.split)
  next
    case False
    with Inr pol call assms(1) show ?thesis
      by (cases need) (simp_all add: run_claimed_def Let_def split: sum.split)
  qed
qed

lemma run_once_ledger:
  assumes m: "map_of (goals m) gid = Some g" "g_id g = gid"
    and tools: "\<And>c n. ledger gid (snd (invoke (w_tools w) c n)) = ledger gid n"
  shows "ledger gid (snd (snd (run_once w gid now ce m))) = Some (clock_fields (g_spend g))"
proof -
  have l: "ledger gid m = Some (clock_fields (g_spend g))" using m by (simp add: ledger_def)
  show ?thesis
  proof (cases rule: run_once_cases [of gid m w now ce])
    case (no_goal e)
    with l show ?thesis by simp
  next
    case (not_running g')
    with l show ?thesis by simp
  next
    case (ceiling g' which)
    then have "g' = g" using m by simp
    have "g_id (snd (check_ceilings g now)) = gid" "g_spend (snd (check_ceilings g now)) = g_spend g"
      using m(2) by (simp_all add: check_ceilings_def split: prod.split)
    with ceiling \<open>g' = g\<close> l show ?thesis by (simp add: save_then_state save_goal_ledger)
  next
    case (no_work g' e m1)
    then have "ledger gid m1 = ledger gid m" by (metis ledger_kept(1) snd_conv)
    with no_work l m idle_ledger [of gid m1 "clock_fields (g_spend g)" g] show ?thesis by simp
  next
    case (no_claim g' e m1)
    then have "ledger gid m1 = ledger gid m" by (metis ledger_kept(1) snd_conv)
    with no_claim l show ?thesis by simp
  next
    case (claimed g' t m1)
    then have "ledger gid m1 = ledger gid m" by (metis ledger_kept(1) snd_conv)
    with claimed l m run_claimed_ledger [OF _ _ _ tools, of m1 "clock_fields (g_spend g)" g] show ?thesis by simp
  qed
qed

section \<open>A run that ended while the tool was running\<close>

lemma after_call_ended:
  assumes "map_of (goals m) (g_id g) = Some cur" "goal_terminal (g_state cur)" "g_state g \<noteq> g_state cur"
  shows "after_call w gid t g now ce r evs m = finish (outcome_of DidStop '''' stopped_elsewhere False) evs m"
  using assms
  by (simp add: after_call_def Let_def save_goal_def refuse_terminal_overwrite_def ended_elsewhere_def split: prod.split)

section \<open>The retry ladder\<close>

definition try_again :: "go_error \<Rightarrow> task \<Rightarrow> goal \<Rightarrow> bool" where
  "try_again err t g \<longleftrightarrow> \<not> errors_is err ErrVerifyInconclusive \<and> attempt t < max_attempts_per_task (g_ceilings g)"

lemma fail_task_held:
  assumes m: "mem_sound m" "w_id w \<noteq> ''''" and h: "held gid (t_id t) (w_id w) now m = Inr t" "t_state t = Running"
  obtains ts' m' where "fail_task w gid t g now why evs m = finish (outcome_of DidWork (t_id t) why True)
      (evs @ record_event w (g_tenant g) gid (t_id t) EpisodeFailure (t_id t @ '' failed'') why) m'"
    "tasks_of m' gid = Some ts'" "map_of ts' (t_id t) = Some (completed t Failed '''' why now)"
    "settled ts'" "mem_sound m'" "goals m' = goals m"
proof -
  have "can_transition_to (t_state t) Failed" using h(2) by (simp add: can_transition_to_def)
  from complete_total [OF m h(1) this, of "''''" why] obtain m'
    where c: "complete gid (t_id t) (w_id w) Failed '''' why now m = (Inr (), m')" by blast
  have k: "mem_sound m'" using complete_keeps [OF c m] by (simp add: keeps_def)
  show ?thesis
  proof (rule complete_Inr [OF c m])
    fix ts ts' u
    assume "held gid (t_id t) (w_id w) now m = Inr u" "tasks_of m' gid = Some ts'"
      "map_of ts' (t_id t) = Some (completed u Failed '''' why now)" "goals m' = goals m"
      "Failed = Failed \<longrightarrow> settled ts'"
    with h(1) c k show ?thesis by (intro that [of m' ts']) (simp_all add: fail_task_def Let_def)
  qed
qed

lemma retry_held:
  assumes h: "held gid (t_id t) (w_id w) now m = Inr t" "t_state t = Running"
  obtains ts' m' where "release gid (t_id t) (w_id w) now m = (Inr (), m')" "tasks_of m' gid = Some ts'"
    "map_of ts' (t_id t) = Some (t\<lparr>t_state := Ready, t_updated := now, leased_by := '''', lease_expiry := zero_time\<rparr>)"
proof -
  obtain ts where ts: "tasks_of m gid = Some ts" using h(1) by (auto simp: held_Inr)
  have "transition t Ready now = Inr (t\<lparr>t_state := Ready, t_updated := now\<rparr>)"
    using h(2) by (simp add: transition_def can_transition_to_def)
  with h(1) ts show ?thesis
    by (intro that [of "put_task gid (t_id t)
          (t\<lparr>t_state := Ready, t_updated := now, leased_by := '''', lease_expiry := zero_time\<rparr>) m"
        "AList.update (t_id t)
          (t\<lparr>t_state := Ready, t_updated := now, leased_by := '''', lease_expiry := zero_time\<rparr>) ts"])
      (simp_all add: release_def store_simps)
qed

lemma handle_failure_spec:
  assumes m: "mem_sound m" "w_id w \<noteq> ''''" and h: "held gid (t_id t) (w_id w) now m = Inr t" "t_state t = Running"
    and r: "handle_failure w gid t g now err evs m = ((out, e), evs', m')"
  shows "e = None \<and> o_did out = (if try_again err t g then DidRetry else DidWork) \<and>
    (\<exists>ts' t'. tasks_of m' gid = Some ts' \<and> map_of ts' (t_id t) = Some t' \<and>
       t_state t' = (if try_again err t g then Ready else Failed) \<and> leased_by t' = '''' \<and>
       attempt t' = attempt t \<and> (\<not> try_again err t g \<longrightarrow> settled ts'))"
proof (cases "try_again err t g")
  case True
  obtain ts' m2 where rel: "release gid (t_id t) (w_id w) now m = (Inr (), m2)" "tasks_of m2 gid = Some ts'"
    "map_of ts' (t_id t) = Some (t\<lparr>t_state := Ready, t_updated := now, leased_by := '''', lease_expiry := zero_time\<rparr>)"
    by (rule retry_held [OF h])
  have "out = outcome_of DidRetry (t_id t) (''attempt '' @ itoa (attempt t) @ ''/'' @
      itoa (max_attempts_per_task (g_ceilings g)) @ '' failed: '' @ snd err) True" "e = None" "m' = m2"
    using r rel(1) True by (auto simp: handle_failure_def try_again_def finish_def)
  with True rel(2,3) show ?thesis by (auto simp: outcome_of_def)
next
  case False
  have "\<exists>why. handle_failure w gid t g now err evs m = fail_task w gid t g now why evs m"
    using False by (auto simp: handle_failure_def try_again_def)
  then obtain why where why: "handle_failure w gid t g now err evs m = fail_task w gid t g now why evs m" by blast
  obtain ts' m2 where f: "fail_task w gid t g now why evs m = finish (outcome_of DidWork (t_id t) why True)
      (evs @ record_event w (g_tenant g) gid (t_id t) EpisodeFailure (t_id t @ '' failed'') why) m2"
    "tasks_of m2 gid = Some ts'" "map_of ts' (t_id t) = Some (completed t Failed '''' why now)" "settled ts'"
    by (rule fail_task_held [OF m h])
  with r why have "out = outcome_of DidWork (t_id t) why True" "e = None" "m' = m2" by (auto simp: finish_def)
  with False f show ?thesis by (auto simp: outcome_of_def completed_def)
qed

section \<open>Completion\<close>

definition credited :: "criterion_kind \<Rightarrow> task \<Rightarrow> bool" where
  "credited c t \<longleftrightarrow> t_state t = Succeeded \<and> kind_criterion (t_kind t) = Some c"

lemma observe_tasks_count:
  "observe_tasks ts obs c = obs c + int (length (filter (\<lambda>(_, t). credited c t) ts))"
  by (induction ts arbitrary: obs) (auto simp: credited_def split: option.split)

lemma count_state_length: "count_state s ts = int (length (filter (\<lambda>(_, t). t_state t = s) ts))"
  by (induction s ts rule: count_state.induct) auto

lemma kind_criterion_not_all: "kind_criterion k \<noteq> Some AllTasksSucceeded"
  by (simp add: kind_criterion_def)

lemma count_state_all: "count_state s ts = int (length ts) \<longleftrightarrow> (\<forall>(_, t) \<in> set ts. t_state t = s)"
proof (induction ts)
  case (Cons p ts)
  have "count_state s ts \<le> int (length ts)" by (simp add: count_state_length)
  with Cons show ?case by (cases p) auto
qed simp

lemma observed_of_spec:
  "observed_of ts c = (if c = AllTasksSucceeded then (if ts \<noteq> [] \<and> (\<forall>(_, t) \<in> set ts. t_state t = Succeeded) then 1 else 0)
     else int (length (filter (\<lambda>(_, t). credited c t) ts)))"
proof (cases "c = AllTasksSucceeded")
  case True
  have "filter (\<lambda>(_, t). credited AllTasksSucceeded t) ts = []"
    by (auto simp: credited_def kind_criterion_not_all filter_empty_conv)
  with True show ?thesis by (simp add: observed_of_def Let_def observe_tasks_count count_state_all)
next
  case False
  then show ?thesis by (simp add: observed_of_def Let_def observe_tasks_count)
qed

lemma outcome_did [simp]: "o_did (outcome_of d i s b) = d"
  by (simp add: outcome_of_def)

lemma save_then_did:
  "o_did (fst (fst (save_then g out evs m))) = DidComplete \<Longrightarrow>
     o_did out = DidComplete \<and> fst (save_goal g m) = Inr () \<and> snd (snd (save_then g out evs m)) = snd (save_goal g m)"
  by (auto simp: save_then_def finish_def finish_err_def split: prod.splits sum.splits if_splits)

lemma finish_did [simp]:
  "fst (fst (finish out evs m)) = out" "fst (fst (finish_err out e evs m)) = out"
  by (simp_all add: finish_def finish_err_def)

lemma handle_failure_did: "o_did (fst (fst (handle_failure w gid t g now e evs m))) \<noteq> DidComplete"
  by (auto simp: handle_failure_def fail_task_def Let_def split: prod.split sum.split)

lemma after_call_did: "o_did (fst (fst (after_call w gid t g now ce r evs m))) \<noteq> DidComplete"
  by (auto simp: after_call_def Let_def handle_failure_did split: prod.split sum.split option.split)

lemma run_claimed_did: "o_did (fst (fst (run_claimed w gid g t now ce m))) \<noteq> DidComplete"
proof (cases "require_idempotency t")
  case (Inl e)
  then show ?thesis by (auto simp: run_claimed_def fail_task_def Let_def split: prod.split sum.split)
next
  case (Inr u)
  have call: "o_did (fst (fst (case x of (r, m1) \<Rightarrow> after_call w gid t g now ce r evs m1))) \<noteq> DidComplete" for x evs
    by (simp add: after_call_did split: prod.split)
  obtain need why where pol: "w_policy w g t = (need, why)" by fastforce
  show ?thesis
  proof (cases "need \<and> \<not> approved t")
    case True
    with Inr pol show ?thesis by (auto simp: run_claimed_def Let_def split: prod.split sum.split)
  next
    case False
    with Inr pol call show ?thesis by (cases need) (simp_all add: run_claimed_def Let_def split: sum.split)
  qed
qed

lemma settle_complete:
  assumes "o_did (fst (fst (settle w g ts now evs m))) = DidComplete"
  shows "(\<forall>c \<in> set (g_criteria g). c_threshold c \<le> observed_of ts (c_kind c)) \<and>
    (\<forall>(_, t) \<in> set ts. t_state t \<noteq> AwaitingApproval) \<and>
    (\<exists>g'. fst (save_goal g' m) = Inr () \<and> snd (snd (settle w g ts now evs m)) = snd (save_goal g' m) \<and>
       g_state g' = GoalSucceeded \<and> g_id g' = g_id g)"
proof -
  obtain met g' where e: "evaluate_completion g (observed_of ts) now = (met, g')" by fastforce
  obtain dn tot where p: "progress ts = (dn, tot)" by fastforce
  have aw: "count_state AwaitingApproval ts = 0"
    using assms by (auto simp: settle_def p e Let_def count_state_length split: if_splits)
  have met: met
  proof (rule ccontr)
    assume "\<not> met"
    with assms aw show False
      by (auto simp: settle_def p e Let_def dest!: save_then_did split: if_splits option.splits)
  qed
  have crit: "\<forall>c \<in> set (g_criteria g). c_threshold c \<le> observed_of ts (c_kind c)"
    using e met measure_all_fst [of "observed_of ts" now "g_criteria g"]
    by (auto simp: evaluate_completion_def split: prod.splits)
  let ?g = "g'\<lparr>g_state := GoalSucceeded, g_updated := now\<rparr>"
  have s: "settle w g ts now evs m = save_then ?g
      (outcome_of DidComplete '''' (fraction (count_state Succeeded ts) tot @ '' tasks succeeded'') False) evs m"
    using aw met by (simp add: settle_def p e Let_def)
  have "g_id ?g = g_id g" using evaluate_completion_spend(2) [of g "observed_of ts" now] e by simp
  moreover have "\<forall>(_, t) \<in> set ts. t_state t \<noteq> AwaitingApproval"
    using aw by (auto simp: count_state_length filter_empty_conv)
  ultimately show ?thesis
    using crit save_then_did [OF assms [unfolded s]] s by (intro conjI exI [of _ ?g]) simp_all
qed

lemma claim_Inl_same: "claim gid w l now m = (Inl e, m') \<Longrightarrow> m' = m"
  by (auto simp: claim_def Let_def split: option.splits if_splits list.splits sum.splits)

lemma idle_complete:
  assumes "o_did (fst (fst (idle w gid g now evs m))) = DidComplete"
  obtains d where "map_of (dags m) gid = Some d"
    "idle w gid g now evs m = settle w g (dag_tasks d) now evs m"
  using assms that
  by (auto simp: idle_def load_dag_def Let_def dest!: save_then_did split: option.splits sum.splits if_splits)

lemma save_goal_state:
  "fst (save_goal g m) = Inr () \<Longrightarrow> map_of (goals (snd (save_goal g m))) (g_id g) = Some g"
  by (auto simp: save_goal_def store_simps split: option.splits sum.splits)

lemma run_once_complete:
  assumes "o_did (fst (fst (run_once w gid now ce m))) = DidComplete"
  shows "\<exists>g d g'. map_of (goals m) gid = Some g \<and> map_of (dags m) gid = Some d \<and>
    (\<forall>c \<in> set (g_criteria g). c_threshold c \<le> observed_of (dag_tasks d) (c_kind c)) \<and>
    (\<forall>(_, t) \<in> set (dag_tasks d). t_state t \<noteq> AwaitingApproval) \<and>
    map_of (goals (snd (snd (run_once w gid now ce m)))) (g_id g) = Some g' \<and> g_state g' = GoalSucceeded"
  using assms
proof (cases rule: run_once_cases [of gid m w now ce])
  case (ceiling g which)
  with assms show ?thesis by (auto dest: save_then_did)
next
  case (no_work g e m1)
  have m1: "m1 = m" using claim_Inl_same no_work(4) by simp
  from assms no_work(6) have "o_did (fst (fst (idle w gid g now [] m1))) = DidComplete" by simp
  then obtain d where d: "map_of (dags m1) gid = Some d" "idle w gid g now [] m1 = settle w g (dag_tasks d) now [] m1"
    by (rule idle_complete)
  with assms no_work(6) have "o_did (fst (fst (settle w g (dag_tasks d) now [] m1))) = DidComplete" by simp
  from settle_complete [OF this] obtain g' where s:
      "\<forall>c \<in> set (g_criteria g). c_threshold c \<le> observed_of (dag_tasks d) (c_kind c)"
      "\<forall>(_, t) \<in> set (dag_tasks d). t_state t \<noteq> AwaitingApproval"
      "fst (save_goal g' m1) = Inr ()" "snd (snd (settle w g (dag_tasks d) now [] m1)) = snd (save_goal g' m1)"
      "g_state g' = GoalSucceeded" "g_id g' = g_id g" by blast
  with no_work d m1 save_goal_state [OF s(3)] show ?thesis by auto
next
  case (claimed g t m1)
  with assms run_claimed_did [of w gid g t now ce m1] show ?thesis by simp
qed simp_all

section \<open>Cancelling under a running tool\<close>

text \<open>What is on record before the call.\<close>

definition gate_events :: "worker \<Rightarrow> string \<Rightarrow> goal \<Rightarrow> task \<Rightarrow> event list" where
  "gate_events w gid g t =
     (if \<not> fst (w_policy w g t) \<and> effect_bearing (t_kind t)
      then record_event w (g_tenant g) gid (t_id t) EpisodeEffect (t_id t @ '' proceeded without approval'')
             (snd (w_policy w g t))
      else [])"

lemma run_once_calling:
  assumes "map_of (goals m) gid = Some g" "g_state g = GoalRunning" "within (g_spend g) (g_ceilings g)"
    "claim gid (w_id w) (w_lease w) now m = (Inr t, m1)" "cleared w g t"
    "dependency_results gid t m1 = Inr inputs" "invoke (w_tools w) (the_call gid t inputs) m1 = (r, m2)"
  shows "run_once w gid now ce m =
    after_call w gid t g now ce r (gate_events w gid g t @ [Called (the_call gid t inputs)]) m2"
proof (cases rule: run_once_cases [of gid m w now ce])
  case (claimed g' t' m1')
  then have eq: "g' = g" "t' = t" "m1' = m1" using assms by auto
  obtain need why where pol: "w_policy w g t = (need, why)" by fastforce
  have "require_idempotency t = Inr ()" using assms(5) by (simp add: cleared_def require_idempotency_Inr)
  with claimed(5) eq pol assms(5-7) show ?thesis
    by (cases need) (auto simp: run_claimed_def cleared_def gate_events_def Let_def)
qed (use assms exceeded_iff [of "g_spend g" "g_ceilings g"] in \<open>auto simp: load_goal_def\<close>)

end
