(* ===== verification/Worker_Props.thy ===== *)
theory Worker_Props
  imports Worker_Facts Samples
begin

text \<open>
  The properties of one cycle of the worker, with witnesses on a worker whose only tool acts on the
  sample store.
\<close>

section \<open>A sample worker\<close>

definition sample_result :: tool_result where
  "sample_result = \<lparr>res_output = ''found'', res_tokens = 120, res_cost = 5000, res_calls = 1\<rparr>"

text \<open>A tool that succeeds while the rest of the platform applies \<open>f\<close> to the store.\<close>

definition sample_tool :: "(mem \<Rightarrow> mem) \<Rightarrow> mem tool" where
  "sample_tool f = \<lparr>tool_spec_of = \<lparr>spec_kind = ''assess_axis'', spec_permissions = [ReadSource, CallModel],
     spec_timeout = 60, spec_retry_safe = True, spec_effect_bearing = False\<rparr>,
     tool_execute = (\<lambda>d c m. ((sample_result, None), f m))\<rparr>"

definition sample_worker :: "(mem \<Rightarrow> mem) \<Rightarrow> worker" where
  "sample_worker f = (new_worker ''w'' \<lparr>reg_tools = [(''assess_axis'', sample_tool f)], reg_verifiers = []\<rparr>)
     \<lparr>w_episodes := True, w_lease := 20\<rparr>"

lemma sample_worker_simps [simp]:
  "w_id (sample_worker f) = ''w''" "w_lease (sample_worker f) = 20" "w_policy (sample_worker f) = gate_effects"
  "w_tools (sample_worker f) = \<lparr>reg_tools = [(''assess_axis'', sample_tool f)], reg_verifiers = []\<rparr>"
  by (simp_all add: sample_worker_def new_worker_def)

lemma sample_invoke:
  "invoke \<lparr>reg_tools = [(''assess_axis'', sample_tool f)], reg_verifiers = []\<rparr> c m =
     (if call_kind c = ''assess_axis'' then ((sample_result, None), f m)
      else ((no_result, Some (tool_error ErrUnknownTool ''no tool registered for this kind'' (call_kind c))), m))"
  by (auto simp: invoke_def sample_tool_def Let_def)

lemma sample_cleared: "cleared (sample_worker f) sample_goal leased_task"
  by (simp add: cleared_def gate_effects_def effect_bearing_def effect_bearing_kinds_def leased_task_def)

lemma sample_within: "within (g_spend sample_goal) (g_ceilings sample_goal)"
  by (simp add: within_def sample_defs micro_cents_per_cent_def in_int64_def)

lemma sample_inputs: "dependency_results ''g'' leased_task leased_mem = Inr []"
  by (simp add: dependency_results_def leased_task_def sample_task_def)

definition sample_call :: call where
  "sample_call = the_call ''g'' leased_task []"

lemma sample_call_kind [simp]: "call_kind sample_call = ''assess_axis''"
  by (simp add: sample_call_def the_call_def leased_task_def)

lemma sample_cycle:
  "run_once (sample_worker f) ''g'' 10 ce sample_mem =
     after_call (sample_worker f) ''g'' leased_task sample_goal 10 ce (sample_result, None)
       (gate_events (sample_worker f) ''g'' sample_goal leased_task @ [Called sample_call]) (f leased_mem)"
  unfolding sample_call_def
  by (rule run_once_calling [OF sample_reads(2,4) sample_within _ sample_cleared sample_inputs])
    (simp_all add: sample_claim sample_invoke the_call_def leased_task_def)

lemma sample_cycle_calls: "calls (fst (snd (run_once (sample_worker f) ''g'' 10 ce sample_mem))) = [sample_call]"
  by (simp add: sample_cycle after_call_calls gate_events_def)

section \<open>What reaches a tool\<close>

text \<open>C4. A cycle invokes at most one tool.  If it does, the goal was running and under every ceiling, the task was
claimed from the store, an effect-bearing task has an idempotency key, and if the policy wants a person for it a
person has approved it; the call carries that task's key, kind and attempt.\<close>

theorem run_once_gate:
  assumes "run_once w gid now ce m = (r, evs, m')" "calls evs \<noteq> []"
  shows "\<exists>g t m1 inputs. map_of (goals m) gid = Some g \<and> g_state g = GoalRunning \<and>
    within (g_spend g) (g_ceilings g) \<and> claim gid (w_id w) (w_lease w) now m = (Inr t, m1) \<and>
    calls evs = [the_call gid t inputs] \<and> (effect_bearing (t_kind t) \<longrightarrow> idempotency_key t \<noteq> '''') \<and>
    (fst (w_policy w g t) \<longrightarrow> approved t)"
  using run_once_calls [OF assms(1)] assms(2) unfolding cleared_def by blast

theorem run_once_gate_witness:
  "\<exists>t m1. claim ''g'' ''w'' 20 10 sample_mem = (Inr t, m1) \<and> \<not> fst (gate_effects sample_goal t)"
proof -
  let ?r = "run_once (sample_worker (\<lambda>m. m)) ''g'' 10 None sample_mem"
  have "?r = (fst ?r, fst (snd ?r), snd (snd ?r))" by simp
  from run_once_gate [OF this] sample_cycle_calls [of "\<lambda>m. m" None] obtain t m1
    where "claim ''g'' ''w'' 20 10 sample_mem = (Inr t, m1)" by auto
  then show ?thesis
    by (auto simp: sample_claim gate_effects_def effect_bearing_def effect_bearing_kinds_def leased_task_def)
qed

text \<open>When an effect goes ahead because the policy did not ask for a person, and episodes are wired, the record that
nobody was asked, with the policy's reason, is appended before the tool is called.\<close>

theorem unasked_effect_on_record:
  assumes "map_of (goals m) gid = Some g" "g_state g = GoalRunning" "within (g_spend g) (g_ceilings g)"
    "claim gid (w_id w) (w_lease w) now m = (Inr t, m1)" "effect_bearing (t_kind t)" "idempotency_key t \<noteq> ''''"
    "w_policy w g t = (False, why)" "w_episodes w" "g_tenant g \<noteq> ''''"
    "dependency_results gid t m1 = Inr inputs" "run_once w gid now ce m = (r, evs, m')"
  shows "\<exists>rest. evs = Recorded (g_tenant g) gid (t_id t) EpisodeEffect (t_id t @ '' proceeded without approval'') why #
    Called (the_call gid t inputs) # rest"
proof -
  obtain q m2 where q: "invoke (w_tools w) (the_call gid t inputs) m1 = (q, m2)" by fastforce
  have cl: "cleared w g t" using assms(6,7) by (simp add: cleared_def)
  note eq = run_once_calling [OF assms(1-4) cl assms(10) q, of ce]
  have prefix: "\<exists>rest. fst (snd (after_call w gid t g now ce q evs0 m2)) = evs0 @ rest" for evs0
    by (auto simp: after_call_def handle_failure_def fail_task_def Let_def split: prod.split sum.split option.split)
  have "fst (snd (run_once w gid now ce m)) = evs" using assms(11) by simp
  with prefix [of "gate_events w gid g t @ [Called (the_call gid t inputs)]"] eq
  have "\<exists>rest. evs = (gate_events w gid g t @ [Called (the_call gid t inputs)]) @ rest" by simp
  with assms(5,7,8,9) show ?thesis by (simp add: gate_events_def record_event_def)
qed

definition effect_task :: task where
  "effect_task = (sample_task ''a'' ''write_source'' [] Pending)\<lparr>idempotency_key := ''key''\<rparr>"

definition effect_mem :: mem where
  "effect_mem = \<lparr>goals = [(''g'', sample_goal)], dags = [(''g'', \<lparr>dag_goal = ''g'', dag_tasks = [(''a'', effect_task)]\<rparr>)],
     checkpoints = []\<rparr>"

definition open_worker :: worker where
  "open_worker = (sample_worker (\<lambda>m. m))\<lparr>w_policy := policy_needs (Some (\<lambda>_. Inr ''assisted''))\<rparr>"

theorem unasked_effect_on_record_witness:
  "\<exists>why c rest. fst (snd (run_once open_worker ''g'' 10 None effect_mem)) =
     Recorded ''acme'' ''g'' ''a'' EpisodeEffect ''a proceeded without approval'' why # Called c # rest"
proof -
  let ?t = "effect_task\<lparr>t_state := Running, t_updated := 10, leased_by := ''w'', lease_expiry := 30, attempt := 1\<rparr>"
  let ?m1 = "snd (claim ''g'' ''w'' 20 10 effect_mem)"
  let ?r = "run_once open_worker ''g'' 10 None effect_mem"
  have c: "claim ''g'' ''w'' 20 10 effect_mem = (Inr ?t, ?m1)"
    by (simp add: prod_eq_iff) code_simp
  have r: "?r = (fst ?r, fst (snd ?r), snd (snd ?r))" by simp
  have pol: "w_policy open_worker sample_goal ?t = (False, snd (w_policy open_worker sample_goal ?t))"
    by (simp add: prod_eq_iff open_worker_def policy_passes effect_task_def class_of_def class_of_table_def may_proceed_iff level_defs)
  have "\<exists>rest. fst (snd ?r) = Recorded (g_tenant sample_goal) ''g'' (t_id ?t) EpisodeEffect
      (t_id ?t @ '' proceeded without approval'') (snd (w_policy open_worker sample_goal ?t)) # Called (the_call ''g'' ?t []) # rest"
    by (rule unasked_effect_on_record [OF _ sample_reads(4) sample_within _ _ _ pol _ _ _ r])
      (use c in \<open>simp_all add: effect_mem_def open_worker_def sample_worker_def new_worker_def effect_task_def
        effect_bearing_def effect_bearing_kinds_def sample_reads dependency_results_def sample_task_def\<close>)
  then show ?thesis by (auto simp: sample_reads effect_task_def)
qed

section \<open>How a cycle ends\<close>

text \<open>C25. The retry ladder: when a held task's call failed, the task goes back to ready with its lease cleared if the
effect could be checked and attempts remain below the ceiling; otherwise it is failed for good and what depends on it is
blocked.  An effect that could not be checked is never retried.\<close>

theorem retry_ladder:
  assumes "reachable m" "w_id w \<noteq> ''''" "held gid (t_id t) (w_id w) now m = Inr t" "t_state t = Running"
    "handle_failure w gid t g now err evs m = ((out, e), evs', m')"
  shows "e = None \<and> (\<exists>ts' t'. tasks_of m' gid = Some ts' \<and> map_of ts' (t_id t) = Some t' \<and> attempt t' = attempt t \<and>
    leased_by t' = '''' \<and>
    (if errors_is err ErrVerifyInconclusive \<or> attempt t \<ge> max_attempts_per_task (g_ceilings g)
     then t_state t' = Failed \<and> o_did out = DidWork \<and> settled ts'
     else t_state t' = Ready \<and> o_did out = DidRetry))"
proof (cases "errors_is err ErrVerifyInconclusive \<or> attempt t \<ge> max_attempts_per_task (g_ceilings g)")
  case True
  then have "\<not> try_again err t g" by (auto simp: try_again_def)
  with handle_failure_spec [OF reachable_sound [OF assms(1)] assms(2-5)] True show ?thesis by (simp only: if_True if_False) blast
next
  case False
  then have "try_again err t g" by (auto simp: try_again_def)
  with handle_failure_spec [OF reachable_sound [OF assms(1)] assms(2-5)] False show ?thesis by (simp only: if_True if_False) blast
qed

theorem retry_ladder_witness:
  "\<exists>ts' t'. tasks_of (snd (snd (handle_failure (sample_worker id) ''g'' leased_task sample_goal 20
       (ErrVerifyInconclusive, ''timeout'') [] leased_mem))) ''g'' = Some ts' \<and>
     map_of ts' ''a'' = Some t' \<and> t_state t' = Failed"
proof -
  let ?r = "handle_failure (sample_worker id) ''g'' leased_task sample_goal 20 (ErrVerifyInconclusive, ''timeout'') [] leased_mem"
  have r: "?r = ((fst (fst ?r), snd (fst ?r)), fst (snd ?r), snd (snd ?r))" by simp
  have h: "held ''g'' (t_id leased_task) (w_id (sample_worker id)) 20 leased_mem = Inr leased_task"
    using leased_reads by (simp add: held_Inr after_time_def)
  from retry_ladder [OF leased_reachable _ h leased_reads(4) r] leased_reads(3) show ?thesis by auto
qed

text \<open>A cycle declares a run complete only if every criterion is met by what the stored graph holds: the count
of succeeded tasks of the kind the criterion names, or, for "all tasks succeeded", every task of a graph that is not
empty; no task is waiting for a person, and the stored goal is then succeeded.\<close>

theorem completion_is_measured:
  assumes "run_once w gid now ce m = ((out, e), evs, m')" "o_did out = DidComplete"
  shows "\<exists>g d g'. map_of (goals m) gid = Some g \<and> map_of (dags m) gid = Some d \<and>
    (\<forall>c \<in> set (g_criteria g). c_threshold c \<le>
       (if c_kind c = AllTasksSucceeded
        then (if dag_tasks d \<noteq> [] \<and> (\<forall>(_, t) \<in> set (dag_tasks d). t_state t = Succeeded) then 1 else 0)
        else int (length (filter (\<lambda>(_, t). t_state t = Succeeded \<and> kind_criterion (t_kind t) = Some (c_kind c)) (dag_tasks d))))) \<and>
    (\<forall>(_, t) \<in> set (dag_tasks d). t_state t \<noteq> AwaitingApproval) \<and>
    map_of (goals m') (g_id g) = Some g' \<and> g_state g' = GoalSucceeded"
proof -
  have "o_did (fst (fst (run_once w gid now ce m))) = DidComplete" using assms by simp
  from run_once_complete [OF this, unfolded observed_of_spec credited_def] show ?thesis
    unfolding assms(1) by (simp only: snd_conv)
qed

definition finished_mem :: mem where
  "finished_mem = \<lparr>goals = [(''g'', sample_goal)], dags = [(''g'', \<lparr>dag_goal = ''g'',
     dag_tasks = by_id (sample_tasks Succeeded Succeeded Succeeded)\<rparr>)], checkpoints = []\<rparr>"

theorem completion_is_measured_witness:
  "\<exists>g'. map_of (goals (snd (snd (run_once (sample_worker id) ''g'' 50 None finished_mem)))) ''g'' = Some g' \<and>
     g_state g' = GoalSucceeded"
proof -
  let ?r = "run_once (sample_worker id) ''g'' 50 None finished_mem"
  have r: "?r = ((fst (fst ?r), snd (fst ?r)), fst (snd ?r), snd (snd ?r))" by simp
  have "claim ''g'' ''w'' 20 50 finished_mem = (Inl (ErrNoWork, ''store: no claimable task''), finished_mem)"
    by code_simp
  then have "?r = idle (sample_worker id) ''g'' sample_goal 50 [] finished_mem"
    using sample_within exceeded_iff [of "g_spend sample_goal" "g_ceilings sample_goal"]
    by (cases "exceeded (g_spend sample_goal) (g_ceilings sample_goal)")
      (simp add: run_once_def load_goal_def finished_mem_def goal_claimable_def sample_reads check_ceilings_def Let_def)
  moreover have "o_did (fst (fst (idle (sample_worker id) ''g'' sample_goal 50 [] finished_mem))) = DidComplete"
    by (simp add: idle_def load_dag_def finished_mem_def sample_worker_def new_worker_def settle_def by_id_def sample_tasks_def
        evaluate_completion_def sample_goal_def sample_criterion_def measure_criterion_def observed_of_spec Let_def
        save_then_def save_goal_def refuse_terminal_overwrite_def finish_def)
  ultimately have "o_did (fst (fst ?r)) = DidComplete" by simp
  from completion_is_measured [OF r this] show ?thesis by (auto simp: finished_mem_def sample_goal_def)
qed

text \<open>When the run is ended while the tool is running (a person cancels it), the cycle reports that the task "has
finished" and stops, but it writes nothing: neither the result nor the spend of the call reaches the store, and the
task is left as it was, running under its lease.\<close>

theorem ended_mid_task_writes_nothing:
  assumes "map_of (goals m) gid = Some g" "g_state g = GoalRunning" "within (g_spend g) (g_ceilings g)"
    "claim gid (w_id w) (w_lease w) now m = (Inr t, m1)" "cleared w g t" "dependency_results gid t m1 = Inr inputs"
    "invoke (w_tools w) (the_call gid t inputs) m1 = (r, m2)"
    "map_of (goals m2) (g_id g) = Some cur" "goal_terminal (g_state cur)"
  shows "\<exists>evs. run_once w gid now ce m = ((outcome_of DidStop '''' stopped_elsewhere False, None), evs, m2)"
proof -
  have "g_state g \<noteq> g_state cur" using assms(2,9) by auto
  with run_once_calling [OF assms(1-7), of ce] after_call_ended [OF assms(8,9)] show ?thesis
    by (auto simp: finish_def)
qed

definition cancelled_cycle :: cycle where
  "cancelled_cycle = run_once (sample_worker (\<lambda>m. snd (cancel ''g'' 15 m))) ''g'' 10 None sample_mem"

theorem ended_mid_task_writes_nothing_witness:
  "\<exists>g. o_detail (fst (fst cancelled_cycle)) = stopped_elsewhere \<and>
     map_of (goals (snd (snd cancelled_cycle))) ''g'' = Some g \<and> g_spend g = zero_spend \<and>
     tasks_of (snd (snd cancelled_cycle)) ''g'' = Some
       (map (\<lambda>(i, t). (i, if i = ''a'' then leased_task else t\<lparr>t_state := Cancelled, t_updated := 15\<rparr>)) leased_tasks)"
proof -
  let ?w = "sample_worker (\<lambda>m. snd (cancel ''g'' 15 m))"
  let ?m2 = "snd (cancel ''g'' 15 leased_mem)"
  have goal: "map_of (goals ?m2) ''g'' = Some (sample_goal\<lparr>g_state := GoalCancelled, g_updated := 15\<rparr>)" by code_simp
  have tasks: "tasks_of ?m2 ''g'' = Some
      (map (\<lambda>(i, t). (i, if i = ''a'' then leased_task else t\<lparr>t_state := Cancelled, t_updated := 15\<rparr>)) leased_tasks)"
    by code_simp
  have "\<exists>evs. run_once ?w ''g'' 10 None sample_mem = ((outcome_of DidStop '''' stopped_elsewhere False, None), evs, ?m2)"
    by (rule ended_mid_task_writes_nothing [OF sample_reads(2,4) sample_within _ sample_cleared sample_inputs,
          where cur = "sample_goal\<lparr>g_state := GoalCancelled, g_updated := 15\<rparr>"])
      (use goal in \<open>simp_all add: sample_claim sample_invoke the_call_def leased_task_def sample_reads\<close>)
  then show ?thesis using goal tasks
    by (auto simp: cancelled_cycle_def outcome_of_def) (simp_all add: sample_goal_def)
qed

text \<open>No cycle moves the elapsed time, the task count or the spawn depth of the stored ledger, whatever happens in
it; only iterations, tool calls, tokens and cost are charged.  A wall-clock ceiling is therefore never reached
by running.\<close>

theorem wall_clock_never_charged:
  assumes "map_of (goals m) gid = Some g" "g_id g = gid"
    "\<And>c n. ledger gid (snd (invoke (w_tools w) c n)) = ledger gid n"
    "run_once w gid now ce m = (r, evs, m')"
  shows "\<exists>g'. map_of (goals m') gid = Some g' \<and> sp_elapsed (g_spend g') = sp_elapsed (g_spend g) \<and>
    sp_tasks (g_spend g') = sp_tasks (g_spend g) \<and> sp_spawn_depth (g_spend g') = sp_spawn_depth (g_spend g)"
  using run_once_ledger [OF assms(1-3), of now ce] assms(4) by (auto simp: ledger_def clock_fields_def)

theorem wall_clock_never_charged_witness:
  "\<exists>g'. map_of (goals (snd (snd (run_once (sample_worker (\<lambda>m. m)) ''g'' 10 None sample_mem)))) ''g'' = Some g' \<and>
     sp_elapsed (g_spend g') = 0"
proof -
  let ?r = "run_once (sample_worker (\<lambda>m. m)) ''g'' 10 None sample_mem"
  have r: "?r = (fst ?r, fst (snd ?r), snd (snd ?r))" by simp
  have "\<And>c n. ledger ''g'' (snd (invoke (w_tools (sample_worker (\<lambda>m. m))) c n)) = ledger ''g'' n"
    by (simp add: sample_invoke)
  from wall_clock_never_charged [OF sample_reads(2,5) this r] show ?thesis
    by (auto simp: sample_goal_def zero_spend_def)
qed

end
