(* ===== verification/Tenancy.thy ===== *)
theory Tenancy
  imports Gostrings
begin

text \<open>
  Package \<open>internal/tenancy\<close>: roles and capabilities as the exhaustive table the code writes out, and the
  principal a request carries.  A role is a string, as in Go, because a row of the database can hold any;
  a context is the principal it carries, if any.
\<close>

section \<open>Roles and capabilities\<close>

definition Owner :: string where "Owner = ''owner''"
definition Admin :: string where "Admin = ''admin''"
definition Member :: string where "Member = ''member''"
definition Viewer :: string where "Viewer = ''viewer''"

lemmas role_defs = Owner_def Admin_def Member_def Viewer_def

definition roles :: "string list" where
  "roles = [Owner, Admin, Member, Viewer]"

datatype capability =
    ReadGoals | LoadSubject | RunGoals | ApproveChange | InviteMember | ManageMembers | TransferOwnership | SetAutonomy

fun capability_name :: "capability \<Rightarrow> string" where
  "capability_name ReadGoals = ''goal.read''"
| "capability_name LoadSubject = ''subject.load''"
| "capability_name RunGoals = ''goal.run''"
| "capability_name ApproveChange = ''change.approve''"
| "capability_name InviteMember = ''member.invite''"
| "capability_name ManageMembers = ''member.manage''"
| "capability_name TransferOwnership = ''org.transfer''"
| "capability_name SetAutonomy = ''org.autonomy''"

definition capabilities :: "capability list" where
  "capabilities = [ReadGoals, LoadSubject, RunGoals, ApproveChange, InviteMember, ManageMembers,
     TransferOwnership, SetAutonomy]"

definition grants :: "(string \<times> (capability \<times> bool) list) list" where
  "grants =
     [(Owner, [(ReadGoals, True), (LoadSubject, True), (RunGoals, True), (ApproveChange, True),
               (InviteMember, True), (ManageMembers, True), (TransferOwnership, True), (SetAutonomy, True)]),
      (Admin, [(ReadGoals, True), (LoadSubject, True), (RunGoals, True), (ApproveChange, True),
               (InviteMember, True), (ManageMembers, True), (TransferOwnership, False), (SetAutonomy, False)]),
      (Member, [(ReadGoals, True), (LoadSubject, True), (RunGoals, True), (ApproveChange, True),
               (InviteMember, False), (ManageMembers, False), (TransferOwnership, False), (SetAutonomy, False)]),
      (Viewer, [(ReadGoals, True), (LoadSubject, False), (RunGoals, False), (ApproveChange, False),
               (InviteMember, False), (ManageMembers, False), (TransferOwnership, False), (SetAutonomy, False)])]"

definition valid_role :: "string \<Rightarrow> bool" where
  "valid_role s \<longleftrightarrow> map_of grants s \<noteq> None"

definition can :: "string \<Rightarrow> capability \<Rightarrow> bool" where
  "can r c = (case map_of grants r of
     None \<Rightarrow> False
   | Some by_capability \<Rightarrow> (case map_of by_capability c of None \<Rightarrow> False | Some b \<Rightarrow> b))"

definition can_manage :: "string \<Rightarrow> string \<Rightarrow> bool" where
  "can_manage actor target =
     (if \<not> can actor ManageMembers then False
      else if target = Owner then can actor TransferOwnership
      else True)"

definition can_grant :: "string \<Rightarrow> string \<Rightarrow> bool" where
  "can_grant actor target = can_manage actor target"

lemma roles_distinct [simp]:
  "Owner \<noteq> Admin" "Owner \<noteq> Member" "Owner \<noteq> Viewer" "Admin \<noteq> Owner" "Member \<noteq> Owner" "Viewer \<noteq> Owner"
  "Admin \<noteq> Member" "Admin \<noteq> Viewer" "Member \<noteq> Admin" "Viewer \<noteq> Admin" "Member \<noteq> Viewer" "Viewer \<noteq> Member"
  "Owner \<noteq> ''''" "Admin \<noteq> ''''" "Member \<noteq> ''''" "Viewer \<noteq> ''''"
  by (simp_all add: role_defs)

lemma valid_role_iff: "valid_role s \<longleftrightarrow> s \<in> {Owner, Admin, Member, Viewer}"
  by (auto simp: valid_role_def grants_def)

lemma can_invalid: "\<not> valid_role r \<Longrightarrow> \<not> can r c"
  by (auto simp: can_def valid_role_def)

text \<open>Every pair of a role and a capability is written down.\<close>

lemma grants_exhaustive:
  "\<forall>r \<in> set roles. \<forall>c \<in> set capabilities. \<exists>row b. map_of grants r = Some row \<and> map_of row c = Some b"
  by (simp add: roles_def capabilities_def grants_def, blast)

lemma can_iff:
  "can r c \<longleftrightarrow> r = Owner \<or> r = Admin \<and> c \<notin> {TransferOwnership, SetAutonomy} \<or>
     r = Member \<and> c \<in> {ReadGoals, LoadSubject, RunGoals, ApproveChange} \<or> r = Viewer \<and> c = ReadGoals"
proof -
  consider "r = Owner" | "r = Admin" | "r = Member" | "r = Viewer" | "\<not> valid_role r" by (auto simp: valid_role_iff)
  then show ?thesis
  proof cases
    case 5
    with can_invalid show ?thesis by (auto simp: valid_role_iff)
  qed (cases c, simp_all add: can_def grants_def)+
qed

lemma can_manage_iff: "can_manage actor target \<longleftrightarrow> actor = Owner \<or> actor = Admin \<and> target \<noteq> Owner"
  by (auto simp: can_manage_def can_iff)

section \<open>Principals\<close>

record principal =
  p_tenant :: string
  p_subject :: string
  p_user :: string
  p_session :: string
  p_role :: string

definition no_principal :: principal where
  "no_principal = \<lparr>p_tenant = '''', p_subject = '''', p_user = '''', p_session = '''', p_role = ''''\<rparr>"

definition principal_valid :: "principal \<Rightarrow> bool" where
  "principal_valid p \<longleftrightarrow> trim_space (p_tenant p) \<noteq> ''''"

definition may :: "principal \<Rightarrow> capability \<Rightarrow> bool" where
  "may p c = can (p_role p) c"

definition principal_text :: "principal \<Rightarrow> string" where
  "principal_text p =
     (if p_subject p = '''' then
        ''tenant='' @ p_tenant p @ '' role='' @ p_role p @ '' session='' @ p_session p
      else ''tenant='' @ p_tenant p @ '' subject='' @ p_subject p @ '' role='' @ p_role p @ '' session='' @ p_session p)"

type_synonym req_context = "principal option"

definition with_principal :: "req_context \<Rightarrow> principal \<Rightarrow> req_context" where
  "with_principal ctx p = Some p"

definition no_identity :: go_error where
  "no_identity = (ErrNoPrincipal, ''tenancy: the request carries no identity'')"

definition from_context :: "req_context \<Rightarrow> go_error + principal" where
  "from_context ctx =
     (case ctx of None \<Rightarrow> Inl no_identity
      | Some p \<Rightarrow> if \<not> principal_valid p then Inl no_identity else Inr p)"

definition must_tenant :: "req_context \<Rightarrow> go_error + string" where
  "must_tenant ctx = (case from_context ctx of Inl e \<Rightarrow> Inl e | Inr p \<Rightarrow> Inr (p_tenant p))"

definition system_principal :: "string \<Rightarrow> principal" where
  "system_principal tenant = \<lparr>p_tenant = tenant, p_subject = ''system'', p_user = '''', p_session = ''system'', p_role = ''''\<rparr>"

lemma from_with: "principal_valid p \<Longrightarrow> from_context (with_principal ctx p) = Inr p"
  by (simp add: from_context_def with_principal_def)

lemma must_tenant_not_blank: "must_tenant ctx = Inr t \<Longrightarrow> trim_space t \<noteq> ''''"
  by (auto simp: must_tenant_def from_context_def principal_valid_def split: sum.splits option.splits if_splits)

lemma system_may_nothing: "\<not> may (system_principal t) c"
  by (simp add: may_def system_principal_def can_iff) (simp add: role_defs)

end
