(* ===== verification/Sql.thy ===== *)
theory Sql
  imports Gostrings
begin

text \<open>
  What the stores on PostgreSQL share (package \<open>database/sql\<close> as the code uses it).  A statement is the function its
  SQL text denotes on the tables; any statement can fail, and \<open>faults\<close> says which statement of an operation, in the order
  the code runs them, fails and with what message.  A transaction that does not commit leaves the tables as they were.
\<close>

type_synonym faults = "nat \<Rightarrow> string option"

abbreviation (input) no_faults :: faults where "no_faults \<equiv> \<lambda>_. None"

text \<open>One statement: its fault, or its own result.  \<open>sql\<close> wraps the error with the operation's words and goes on.\<close>

definition stmt :: "faults \<Rightarrow> nat \<Rightarrow> string + 'a \<Rightarrow> string + 'a" where
  "stmt f n r = (case f n of Some msg \<Rightarrow> Inl msg | None \<Rightarrow> r)"

definition wrapped :: "string \<Rightarrow> string \<Rightarrow> go_error" where
  "wrapped words msg = (Opaque, words @ '': '' @ msg)"

definition sql :: "string \<Rightarrow> string + 'a \<Rightarrow> ('a \<Rightarrow> go_error + 'b) \<Rightarrow> go_error + 'b" where
  "sql words r k = (case r of Inl msg \<Rightarrow> Inl (wrapped words msg) | Inr a \<Rightarrow> k a)"

text \<open>Begin, the body, commit: statement \<open>b\<close> begins and statement \<open>c\<close> commits, and the effect of the body is kept only
  if the commit succeeds (the rollback is deferred in the code).\<close>

definition transaction :: "faults \<Rightarrow> nat \<Rightarrow> nat \<Rightarrow> (string \<Rightarrow> go_error) \<Rightarrow> (string \<Rightarrow> go_error)
    \<Rightarrow> ('d \<Rightarrow> go_error + 'a \<times> 'd) \<Rightarrow> 'd \<Rightarrow> (go_error + 'a) \<times> 'd" where
  "transaction f b c begin_error commit_error body d =
     (case f b of
        Some msg \<Rightarrow> (Inl (begin_error msg), d)
      | None \<Rightarrow>
          (case body d of
             Inl e \<Rightarrow> (Inl e, d)
           | Inr (a, d') \<Rightarrow> (case f c of Some msg \<Rightarrow> (Inl (commit_error msg), d) | None \<Rightarrow> (Inr a, d'))))"

lemma transaction_Inl: "transaction f b c e1 e2 body d = (Inl e, d') \<Longrightarrow> d' = d"
  by (auto simp: transaction_def split: option.splits sum.splits)

lemma transaction_Inr:
  "transaction f b c e1 e2 body d = (Inr a, d') \<longleftrightarrow> f b = None \<and> body d = Inr (a, d') \<and> f c = None"
  by (auto simp: transaction_def split: option.splits sum.splits)

lemma stmt_Inr [simp]: "stmt f n r = Inr a \<longleftrightarrow> f n = None \<and> r = Inr a"
  by (auto simp: stmt_def split: option.splits)

lemma stmt_no_faults [simp]: "stmt no_faults n r = r"
  by (simp add: stmt_def)

lemma sql_Inr [simp]: "sql words r k = Inr b \<longleftrightarrow> (\<exists>a. r = Inr a \<and> k a = Inr b)"
  by (auto simp: sql_def split: sum.splits)

text \<open>\<open>return out, rows.Err()\<close>: the rows, unless reading them broke off.\<close>

definition rows_err :: "faults \<Rightarrow> nat \<Rightarrow> 'a \<Rightarrow> go_error + 'a" where
  "rows_err f n r = (case f n of Some msg \<Rightarrow> Inl (Opaque, msg) | None \<Rightarrow> Inr r)"

lemma rows_err_no_faults [simp]: "rows_err no_faults n r = Inr r"
  by (simp add: rows_err_def)

text \<open>What the database itself decides: what a \<open>TIMESTAMPTZ\<close> column keeps of a time, and the collation \<open>ORDER BY\<close>
  compares texts with.\<close>

record pg_env =
  pe_keep :: "time \<Rightarrow> time"
  pe_collate :: "string \<Rightarrow> string"

text \<open>The driver's messages for a violated constraint name it.\<close>

definition duplicate_key :: "string \<Rightarrow> string" where
  "duplicate_key index = ''ERROR: duplicate key value violates unique constraint '' @ fmt_q index"

definition check_failed :: "string \<Rightarrow> string" where
  "check_failed name = ''ERROR: new row violates check constraint '' @ fmt_q name"

definition foreign_key_failed :: "string \<Rightarrow> string" where
  "foreign_key_failed name = ''ERROR: insert violates foreign key constraint '' @ fmt_q name"

end
