(* ===== verification/Identity.thy ===== *)
theory Identity
  imports Tenancy Autonomy Sql
begin

text \<open>
  Package \<open>internal/auth\<close>, part one (\<open>store.go\<close>, \<open>signup.go\<close> and the transaction helpers of \<open>members.go\<close>):
  the identity tables, the SQL statements the package runs on them with the constraints of the migrations
  \<open>0005\<close> to \<open>0009\<close>, accounts, sessions and sign-up.

  The database is a record of tables, each a list of rows in insertion order.  A statement is the
  function its SQL text denotes; an insert checks the constraints and reports the violated one by name, as the
  driver's message does.  Any statement can fail: \<open>faults\<close> says which statement of an operation, in
  the order the code runs them, fails and with what message.  A transaction that does not commit leaves the
  database as it was.  Random tokens and ids, the two clocks (the program's and the database's) and the
  functions outside the repository (SHA-256, password hashing, the database's \<open>lower\<close>, \<open>EqualFold\<close>) are arguments.
\<close>

section \<open>Tables\<close>

record tenant_row =
  tn_id :: string
  tn_name :: string
  tn_created :: time
  tn_created_by :: "string option"
  tn_autonomy :: string
  tn_subject :: "string option"
  tn_revision :: "string option"

record user_row =
  u_id :: string
  u_tenant :: string
  u_email :: string
  u_hash :: string
  u_role :: string
  u_created :: time
  u_verified :: "time option"

record session_row =
  se_id :: string
  se_tenant :: string
  se_user :: string
  se_created :: time
  se_expires :: time

record invitation_row =
  iv_id :: string
  iv_token :: string
  iv_tenant :: string
  iv_email :: string
  iv_role :: string
  iv_by :: "string option"
  iv_created :: time
  iv_expires :: time
  iv_accepted :: "time option"

record reset_row =
  rs_id :: string
  rs_token :: string
  rs_tenant :: string
  rs_user :: string
  rs_created :: time
  rs_expires :: time
  rs_used :: "time option"

record verification_row =
  ev_id :: string
  ev_token :: string
  ev_tenant :: string
  ev_user :: string
  ev_email :: string
  ev_created :: time
  ev_expires :: time
  ev_used :: "time option"

record db =
  tenants :: "tenant_row list"
  users :: "user_row list"
  sessions :: "session_row list"
  invitations :: "invitation_row list"
  resets :: "reset_row list"
  verifications :: "verification_row list"

definition empty_db :: db where
  "empty_db = \<lparr>tenants = [], users = [], sessions = [], invitations = [], resets = [], verifications = []\<rparr>"

section \<open>What the package uses from outside\<close>

record env =
  e_sha :: "string \<Rightarrow> string"
  e_lower :: "string \<Rightarrow> string"
  e_fold :: "string \<Rightarrow> string \<Rightarrow> bool"
  e_hash :: "string \<Rightarrow> go_error + string"
  e_verify :: "string \<Rightarrow> string \<Rightarrow> go_error option"
  e_dummy :: string

section \<open>Transactions\<close>

text \<open>\<open>inTx\<close>: the body on the database, its effect kept only if the commit succeeds.\<close>

definition in_tx :: "faults \<Rightarrow> nat \<Rightarrow> nat \<Rightarrow> (db \<Rightarrow> go_error + 'a \<times> db) \<Rightarrow> db \<Rightarrow> (go_error + 'a) \<times> db" where
  "in_tx f b c body d = transaction f b c (wrapped ''auth: begin'') (wrapped ''auth: commit'') body d"

lemmas in_tx_defs = in_tx_def transaction_def

lemma in_tx_Inl: "in_tx f b c body d = (Inl e, d') \<Longrightarrow> d' = d"
  by (auto simp: in_tx_def dest: transaction_Inl)

lemma in_tx_Inr: "in_tx f b c body d = (Inr a, d') \<longleftrightarrow> f b = None \<and> body d = Inr (a, d') \<and> f c = None"
  by (simp add: in_tx_def transaction_Inr)

section \<open>Statements with constraints\<close>

definition insert_tenant :: "tenant_row \<Rightarrow> db \<Rightarrow> string + db" where
  "insert_tenant t d =
     (if tn_id t = '''' then Inl (check_failed ''tenants_id_not_empty'')
      else if tn_id t \<in> tn_id ` set (tenants d) then Inl (duplicate_key ''tenants_pkey'')
      else Inr (d\<lparr>tenants := tenants d @ [t]\<rparr>))"

definition insert_user :: "env \<Rightarrow> user_row \<Rightarrow> db \<Rightarrow> string + db" where
  "insert_user E u d =
     (if u_hash u = '''' then Inl (check_failed ''users_have_a_password'')
      else if u_role u \<notin> {''owner'', ''admin'', ''member'', ''viewer''} then Inl (check_failed ''users_role_is_known'')
      else if u_id u \<in> u_id ` set (users d) then Inl (duplicate_key ''users_pkey'')
      else if \<exists>x \<in> set (users d). u_tenant x = u_tenant u \<and> e_lower E (u_email x) = e_lower E (u_email u) then
        Inl (duplicate_key ''users_email_per_tenant'')
      else if \<exists>x \<in> set (users d). e_lower E (u_email x) = e_lower E (u_email u) then
        Inl (duplicate_key ''users_email_global'')
      else if u_tenant u \<notin> tn_id ` set (tenants d) then Inl (foreign_key_failed ''users_tenant_fkey'')
      else Inr (d\<lparr>users := users d @ [u]\<rparr>))"

definition insert_session :: "session_row \<Rightarrow> db \<Rightarrow> string + db" where
  "insert_session s d =
     (if se_expires s \<le> se_created s then Inl (check_failed ''sessions_expire'')
      else if se_id s \<in> se_id ` set (sessions d) then Inl (duplicate_key ''sessions_pkey'')
      else if se_tenant s \<notin> tn_id ` set (tenants d) then Inl (foreign_key_failed ''sessions_tenant_fkey'')
      else if se_user s \<notin> u_id ` set (users d) then Inl (foreign_key_failed ''sessions_user_id_fkey'')
      else Inr (d\<lparr>sessions := sessions d @ [s]\<rparr>))"

section \<open>Accounts\<close>

definition session_lifetime :: duration where
  "session_lifetime = 14 * 24 * 3600 * 1000000000"

definition token_key :: "env \<Rightarrow> string \<Rightarrow> string" where
  "token_key E token = e_sha E token"

definition normalize_email :: "string \<Rightarrow> string" where
  "normalize_email s = trim_space s"

definition role_of :: "string \<Rightarrow> string" where
  "role_of stored = (if valid_role stored then stored else '''')"

definition is_duplicate_email :: "string \<Rightarrow> bool" where
  "is_duplicate_email msg \<longleftrightarrow> contains_str msg ''users_email_global'' \<or> contains_str msg ''users_email_per_tenant''"

definition create_tenant :: "faults \<Rightarrow> string \<Rightarrow> string \<Rightarrow> time \<Rightarrow> db \<Rightarrow> (go_error + unit) \<times> db" where
  "create_tenant f i name now d =
     (if trim_space i = '''' then (Inl (Opaque, ''auth: a tenant needs an id''), d)
      else (case stmt f 0 (if i \<in> tn_id ` set (tenants d) then Inr d
                           else insert_tenant \<lparr>tn_id = i, tn_name = name, tn_created = now, tn_created_by = None,
                                  tn_autonomy = ''supervised'', tn_subject = None, tn_revision = None\<rparr> d) of
              Inl msg \<Rightarrow> (Inl (Opaque, ''auth: create tenant: '' @ msg), d)
            | Inr d' \<Rightarrow> (Inr (), d')))"

definition bad_role :: "string \<Rightarrow> go_error" where
  "bad_role r = (ErrBadRole, ''auth: unknown role: '' @ fmt_q r)"

definition email_taken :: go_error where
  "email_taken = (ErrEmailTaken, ''auth: that email already exists in this organization'')"

definition create_user :: "env \<Rightarrow> faults \<Rightarrow> string \<Rightarrow> time \<Rightarrow> string \<Rightarrow> string \<Rightarrow> string \<Rightarrow> string \<Rightarrow> db
    \<Rightarrow> (go_error + string) \<times> db" where
  "create_user E f rid now tenant email password role d =
     (if \<not> valid_role role then (Inl (bad_role role), d)
      else (case e_hash E password of
              Inl e \<Rightarrow> (Inl e, d)
            | Inr hash \<Rightarrow>
                let i = ''usr_'' @ rid in
                (case stmt f 0 (insert_user E \<lparr>u_id = i, u_tenant = tenant, u_email = normalize_email email,
                                  u_hash = hash, u_role = role, u_created = now, u_verified = None\<rparr> d) of
                   Inl msg \<Rightarrow>
                     (if is_duplicate_email msg then (Inl email_taken, d)
                      else (Inl (Opaque, ''auth: create user: '' @ msg), d))
                 | Inr d' \<Rightarrow> (Inr i, d'))))"

section \<open>Sessions\<close>

definition no_such_user :: go_error where
  "no_such_user = (ErrNoSuchUser, ''auth: no such user'')"

definition no_session :: go_error where
  "no_session = (ErrNoSession, ''auth: no such session'')"

text \<open>The lookup of \<open>Login\<close> and \<open>CreatePasswordReset\<close>: an empty tenant is resolved from the address.\<close>

definition find_by_email :: "env \<Rightarrow> string \<Rightarrow> string \<Rightarrow> db \<Rightarrow> user_row option" where
  "find_by_email E tenant email d =
     find (\<lambda>u. e_lower E (u_email u) = e_lower E (normalize_email email) \<and> (tenant \<noteq> '''' \<longrightarrow> u_tenant u = tenant)) (users d)"

definition principal_of :: "string \<Rightarrow> string \<Rightarrow> string \<Rightarrow> string \<Rightarrow> string \<Rightarrow> principal" where
  "principal_of tenant subject session user role =
     \<lparr>p_tenant = tenant, p_subject = subject, p_user = user, p_session = session, p_role = role_of role\<rparr>"

definition new_session :: "string \<Rightarrow> string \<Rightarrow> string \<Rightarrow> time \<Rightarrow> session_row" where
  "new_session i tenant user now = \<lparr>se_id = i, se_tenant = tenant, se_user = user, se_created = now,
     se_expires = now + session_lifetime\<rparr>"

definition login :: "env \<Rightarrow> faults \<Rightarrow> string \<Rightarrow> time \<Rightarrow> string \<Rightarrow> string \<Rightarrow> string \<Rightarrow> db
    \<Rightarrow> (go_error + string \<times> principal) \<times> db" where
  "login E f tok now tenant email password d =
     (case stmt f 0 (Inr (find_by_email E tenant email d)) of
        Inl msg \<Rightarrow> (Inl (Opaque, ''auth: login: '' @ msg), d)
      | Inr None \<Rightarrow>
          (case e_verify E password (e_dummy E) of
             Some e \<Rightarrow> if errors_is e ErrBusy then (Inl e, d) else (Inl no_such_user, d)
           | None \<Rightarrow> (Inl no_such_user, d))
      | Inr (Some u) \<Rightarrow>
          (case e_verify E password (u_hash u) of
             Some e \<Rightarrow> if errors_is e ErrBusy then (Inl e, d) else (Inl no_such_user, d)
           | None \<Rightarrow>
               let sid = token_key E tok in
               (case stmt f 1 (insert_session (new_session sid (u_tenant u) (u_id u) now) d) of
                  Inl msg \<Rightarrow> (Inl (Opaque, ''auth: creating session: '' @ msg), d)
                | Inr d' \<Rightarrow> (Inr (tok, principal_of (u_tenant u) email sid (u_id u) (u_role u)), d'))))"

definition authenticate :: "env \<Rightarrow> faults \<Rightarrow> time \<Rightarrow> string \<Rightarrow> db \<Rightarrow> go_error + principal" where
  "authenticate E f db_now token d =
     (let i = token_key E token in
      sql ''auth: authenticate''
        (stmt f 0 (Inr (case find (\<lambda>s. se_id s = i \<and> se_expires s > db_now) (sessions d) of
                          None \<Rightarrow> None
                        | Some s \<Rightarrow> map_option (\<lambda>u. (s, u)) (find (\<lambda>u. u_id u = se_user s) (users d)))))
        (\<lambda>r. case r of None \<Rightarrow> Inl no_session
                     | Some (s, u) \<Rightarrow> Inr (principal_of (se_tenant s) (u_email u) i (u_id u) (u_role u))))"

definition logout :: "env \<Rightarrow> faults \<Rightarrow> string \<Rightarrow> db \<Rightarrow> (go_error + unit) \<times> db" where
  "logout E f token d =
     (case stmt f 0 (Inr (d\<lparr>sessions := filter (\<lambda>s. se_id s \<noteq> token_key E token) (sessions d)\<rparr>)) of
        Inl msg \<Rightarrow> (Inl (Opaque, msg), d)
      | Inr d' \<Rightarrow> (Inr (), d'))"

definition count_users :: "faults \<Rightarrow> db \<Rightarrow> go_error + int" where
  "count_users f d = (case stmt f 0 (Inr (int (length (users d)))) of Inl msg \<Rightarrow> Inl (Opaque, msg) | Inr n \<Rightarrow> Inr n)"

section \<open>Sign-up\<close>

definition max_org_name_length :: nat where
  "max_org_name_length = 80"

definition sign_up :: "env \<Rightarrow> faults \<Rightarrow> string \<Rightarrow> string \<Rightarrow> string \<Rightarrow> time \<Rightarrow> string \<Rightarrow> string \<Rightarrow> string \<Rightarrow> db
    \<Rightarrow> (go_error + string \<times> principal) \<times> db" where
  "sign_up E f orid urid tok now org_name email password d =
     (let org = trim_space org_name in
      if org = '''' then (Inl (ErrOrgNameRequired, ''auth: an organization needs a name''), d)
      else if rune_count org > max_org_name_length then
        (Inl (ErrOrgNameRequired, ''auth: an organization needs a name: at most '' @ itoa (int max_org_name_length) @
           '' characters''), d)
      else let mail = normalize_email email in
      if mail = '''' \<or> \<not> contains_str mail ''@'' then (Inl no_such_user, d)
      else (case e_hash E password of
              Inl e \<Rightarrow> (Inl e, d)
            | Inr hash \<Rightarrow>
                let tid = ''org_'' @ orid; uid = ''usr_'' @ urid; sid = token_key E tok in
                (case stmt f 0 (Inr ()) of
                   Inl msg \<Rightarrow> (Inl (Opaque, ''auth: sign up: '' @ msg), d)
                 | Inr _ \<Rightarrow>
                (case stmt f 1 (insert_tenant \<lparr>tn_id = tid, tn_name = org, tn_created = now, tn_created_by = Some mail,
                                  tn_autonomy = ''supervised'', tn_subject = None, tn_revision = None\<rparr> d) of
                   Inl msg \<Rightarrow> (Inl (Opaque, ''auth: sign up: creating organization: '' @ msg), d)
                 | Inr d1 \<Rightarrow>
                (case stmt f 2 (insert_user E \<lparr>u_id = uid, u_tenant = tid, u_email = mail, u_hash = hash,
                                  u_role = Owner, u_created = now, u_verified = None\<rparr> d1) of
                   Inl msg \<Rightarrow>
                     (if is_duplicate_email msg then (Inl email_taken, d)
                      else (Inl (Opaque, ''auth: sign up: creating account: '' @ msg), d))
                 | Inr d2 \<Rightarrow>
                (case stmt f 3 (insert_session (new_session sid tid uid now) d2) of
                   Inl msg \<Rightarrow> (Inl (Opaque, ''auth: sign up: creating session: '' @ msg), d)
                 | Inr d3 \<Rightarrow>
                (case stmt f 4 (Inr ()) of
                   Inl msg \<Rightarrow> (Inl (Opaque, ''auth: sign up: '' @ msg), d)
                 | Inr _ \<Rightarrow>
                     (Inr (tok, \<lparr>p_tenant = tid, p_subject = mail, p_user = uid, p_session = sid, p_role = Owner\<rparr>), d3))))))))"

definition organization_of :: "env \<Rightarrow> faults \<Rightarrow> string \<Rightarrow> db \<Rightarrow> go_error + string" where
  "organization_of E f email d =
     (case stmt f 0 (Inr (find (\<lambda>u. e_lower E (u_email u) = e_lower E (normalize_email email)) (users d))) of
        Inl msg \<Rightarrow> Inl (Opaque, msg)
      | Inr None \<Rightarrow> Inl no_such_user
      | Inr (Some u) \<Rightarrow> Inr (u_tenant u))"

definition remember_subject :: "faults \<Rightarrow> string \<Rightarrow> string \<Rightarrow> string \<Rightarrow> db \<Rightarrow> (go_error + unit) \<times> db" where
  "remember_subject f tenant ref pinned d =
     (case stmt f 0 (Inr (d\<lparr>tenants := map (\<lambda>t. if tn_id t = tenant
                then t\<lparr>tn_subject := Some ref, tn_revision := Some pinned\<rparr> else t) (tenants d)\<rparr>)) of
        Inl msg \<Rightarrow> (Inl (Opaque, ''auth: remembering the subject: '' @ msg), d)
      | Inr d' \<Rightarrow> (Inr (), d'))"

definition remembered_subject :: "faults \<Rightarrow> string \<Rightarrow> db \<Rightarrow> go_error + string \<times> string" where
  "remembered_subject f tenant d =
     sql ''auth: reading the remembered subject'' (stmt f 0 (Inr (find (\<lambda>t. tn_id t = tenant) (tenants d))))
       (\<lambda>r. case r of
          None \<Rightarrow> Inr ('''', '''')
        | Some t \<Rightarrow> Inr (case tn_subject t of None \<Rightarrow> '''' | Some s \<Rightarrow> s,
                         case tn_revision t of None \<Rightarrow> '''' | Some s \<Rightarrow> s))"

end
