(* ===== verification/Members.thy ===== *)
theory Members
  imports Identity "HOL-Library.Product_Lexorder"
begin

text \<open>
  \<open>internal/auth/members.go\<close>: who is in an organization and what they may do.  Each change runs in one
  transaction that first takes the owners of the organization and then the target, both under row locks, so
  a change is one atomic step on the database; the statements of the body are numbered after the \<open>BEGIN\<close>.
\<close>

section \<open>Reading\<close>

record member_view =
  mv_id :: string
  mv_email :: string
  mv_role :: string
  mv_verified :: bool
  mv_created :: time

definition view_of :: "user_row \<Rightarrow> member_view" where
  "view_of u = \<lparr>mv_id = u_id u, mv_email = u_email u, mv_role = role_of (u_role u),
     mv_verified = (u_verified u \<noteq> None), mv_created = u_created u\<rparr>"

text \<open>The \<open>CASE role\<close> of the listing's \<open>ORDER BY\<close>.\<close>

definition role_rank :: "string \<Rightarrow> nat" where
  "role_rank r = (if r = ''owner'' then 0 else if r = ''admin'' then 1 else if r = ''member'' then 2 else 3)"

definition list_members :: "env \<Rightarrow> faults \<Rightarrow> string \<Rightarrow> db \<Rightarrow> go_error + member_view list" where
  "list_members E f tenant d =
     sql ''auth: listing members''
       (stmt f 0 (Inr (sort_key (\<lambda>u. (role_rank (u_role u), e_lower E (u_email u)))
                         (filter (\<lambda>u. u_tenant u = tenant) (users d)))))
       (\<lambda>rows. Inr (map view_of rows))"

definition no_such_member :: go_error where
  "no_such_member = (ErrNoSuchMember, ''auth: no such member in this organization'')"

definition find_member :: "string \<Rightarrow> string \<Rightarrow> db \<Rightarrow> user_row option" where
  "find_member tenant i d = find (\<lambda>u. u_id u = i \<and> u_tenant u = tenant) (users d)"

definition member :: "faults \<Rightarrow> string \<Rightarrow> string \<Rightarrow> db \<Rightarrow> go_error + member_view" where
  "member f tenant i d =
     sql ''auth: reading member'' (stmt f 0 (Inr (find_member tenant i d)))
       (\<lambda>r. case r of None \<Rightarrow> Inl no_such_member | Some u \<Rightarrow> Inr (view_of u))"

definition org_name :: "faults \<Rightarrow> string \<Rightarrow> db \<Rightarrow> go_error + string" where
  "org_name f tenant d =
     (case stmt f 0 (Inr (find (\<lambda>t. tn_id t = tenant) (tenants d))) of
        Inl msg \<Rightarrow> Inl (Opaque, msg)
      | Inr None \<Rightarrow> Inl (Opaque, ''auth: no such organization'')
      | Inr (Some t) \<Rightarrow> Inr (tn_name t))"

section \<open>Locks and the last owner\<close>

definition lock_owners :: "faults \<Rightarrow> nat \<Rightarrow> string \<Rightarrow> db \<Rightarrow> string + string list" where
  "lock_owners f n tenant d =
     stmt f n (Inr (sort (map u_id (filter (\<lambda>u. u_tenant u = tenant \<and> u_role u = ''owner'') (users d)))))"

definition lock_member :: "faults \<Rightarrow> nat \<Rightarrow> string \<Rightarrow> string \<Rightarrow> db \<Rightarrow> go_error + string" where
  "lock_member f n tenant i d =
     sql ''auth: reading member'' (stmt f n (Inr (find_member tenant i d)))
       (\<lambda>r. case r of None \<Rightarrow> Inl no_such_member | Some u \<Rightarrow> Inr (role_of (u_role u)))"

definition last_owner :: "string list \<Rightarrow> string \<Rightarrow> bool" where
  "last_owner owners i \<longleftrightarrow> length owners = 1 \<and> owners ! 0 = i"

definition refused :: "string \<Rightarrow> go_error" where
  "refused why = (ErrRefused, ''auth: your role does not permit that: '' @ why)"

definition last_owner_error :: "string \<Rightarrow> go_error" where
  "last_owner_error why = (ErrLastOwner, ''auth: an organization must always have an owner: '' @ why)"

section \<open>Changing a role\<close>

definition update_role :: "string \<Rightarrow> string \<Rightarrow> string \<Rightarrow> db \<Rightarrow> string + db" where
  "update_role role i tenant d =
     (if role \<notin> {''owner'', ''admin'', ''member'', ''viewer''} then Inl (check_failed ''users_role_is_known'')
      else Inr (d\<lparr>users := map (\<lambda>u. if u_id u = i \<and> u_tenant u = tenant then u\<lparr>u_role := role\<rparr> else u) (users d)\<rparr>))"

definition set_role :: "faults \<Rightarrow> principal \<Rightarrow> string \<Rightarrow> string \<Rightarrow> db \<Rightarrow> (go_error + unit) \<times> db" where
  "set_role f actor target new_role d =
     (if \<not> valid_role new_role then (Inl (bad_role new_role), d)
      else in_tx f 0 4 (\<lambda>d.
        sql ''auth: locking owners'' (lock_owners f 1 (p_tenant actor) d) (\<lambda>owners.
          (case lock_member f 2 (p_tenant actor) target d of
             Inl e \<Rightarrow> Inl e
           | Inr current \<Rightarrow>
               if \<not> can_manage (p_role actor) current then
                 Inl (refused ''only an owner can change the role of an owner'')
               else if \<not> can_grant (p_role actor) new_role then
                 Inl (refused ''only an owner can make somebody else an owner'')
               else if current = new_role then Inr ((), d)
               else if current = Owner \<and> new_role \<noteq> Owner \<and> last_owner owners target then
                 Inl (last_owner_error ''make somebody else an owner first, then change this one'')
               else sql ''auth: setting role'' (stmt f 3 (update_role new_role target (p_tenant actor) d))
                      (\<lambda>d'. Inr ((), d'))))) d)"

section \<open>Removing a member\<close>

text \<open>\<open>DELETE FROM users\<close>, with the cascades of the migrations: sessions, resets and verifications of the account
go with it, and the invitations it sent keep no inviter.\<close>

definition delete_user :: "string \<Rightarrow> string \<Rightarrow> db \<Rightarrow> db" where
  "delete_user i tenant d =
     (if \<exists>u \<in> set (users d). u_id u = i \<and> u_tenant u = tenant then
        d\<lparr>users := filter (\<lambda>u. \<not> (u_id u = i \<and> u_tenant u = tenant)) (users d),
          sessions := filter (\<lambda>s. se_user s \<noteq> i) (sessions d),
          invitations := map (\<lambda>v. if iv_by v = Some i then v\<lparr>iv_by := None\<rparr> else v) (invitations d),
          resets := filter (\<lambda>r. rs_user r \<noteq> i) (resets d),
          verifications := filter (\<lambda>v. ev_user v \<noteq> i) (verifications d)\<rparr>
      else d)"

definition remove_member :: "faults \<Rightarrow> principal \<Rightarrow> string \<Rightarrow> db \<Rightarrow> (go_error + unit) \<times> db" where
  "remove_member f actor target d =
     in_tx f 0 4 (\<lambda>d.
       sql ''auth: locking owners'' (lock_owners f 1 (p_tenant actor) d) (\<lambda>owners.
         (case lock_member f 2 (p_tenant actor) target d of
            Inl e \<Rightarrow> Inl e
          | Inr current \<Rightarrow>
              if \<not> can_manage (p_role actor) current then Inl (refused ''only an owner can remove an owner'')
              else if current = Owner \<and> last_owner owners target then
                Inl (last_owner_error ''make somebody else an owner first, then remove this one'')
              else sql ''auth: removing member'' (stmt f 3 (Inr (delete_user target (p_tenant actor) d)))
                     (\<lambda>d'. Inr ((), d'))))) d"

definition mark_email_verified :: "string \<Rightarrow> time \<Rightarrow> db \<Rightarrow> db" where
  "mark_email_verified i at d =
     d\<lparr>users := map (\<lambda>u. if u_id u = i \<and> u_verified u = None then u\<lparr>u_verified := Some at\<rparr> else u) (users d)\<rparr>"

section \<open>Autonomy\<close>

definition autonomy_for :: "faults \<Rightarrow> string \<Rightarrow> db \<Rightarrow> go_error + string" where
  "autonomy_for f tenant d =
     (case stmt f 0 (Inr (find (\<lambda>t. tn_id t = tenant) (tenants d))) of
        Inl msg \<Rightarrow> Inl (Opaque, ''auth: reading autonomy for '' @ fmt_q tenant @ '': '' @ msg)
      | Inr None \<Rightarrow> Inl (Opaque, ''auth: no organization '' @ fmt_q tenant)
      | Inr (Some t) \<Rightarrow>
          if \<not> valid_level (tn_autonomy t) then
            Inl (Opaque, ''auth: organization '' @ fmt_q tenant @ '' has an unrecognised autonomy setting'')
          else Inr (tn_autonomy t))"

definition set_autonomy :: "faults \<Rightarrow> string \<Rightarrow> string \<Rightarrow> db \<Rightarrow> (go_error + unit) \<times> db" where
  "set_autonomy f tenant level d =
     (if \<not> valid_level level then
        (Inl (ErrBadRole, ''auth: unknown role: '' @ fmt_q level @ '' is not an autonomy level''), d)
      else (case stmt f 0 (Inr (d\<lparr>tenants := map (\<lambda>t. if tn_id t = tenant then t\<lparr>tn_autonomy := level\<rparr> else t)
                                                (tenants d)\<rparr>)) of
              Inl msg \<Rightarrow> (Inl (Opaque, ''auth: setting autonomy: '' @ msg), d)
            | Inr d' \<Rightarrow>
                if length (filter (\<lambda>t. tn_id t = tenant) (tenants d)) = 0 then
                  (Inl (Opaque, ''auth: no organization '' @ fmt_q tenant), d')
                else (Inr (), d')))"

end
