(* ===== verification/Tokens.thy ===== *)
theory Tokens
  imports Members
begin

text \<open>
  \<open>internal/auth/tokens.go\<close>: the three links that stand in for a password.  An invitation, a reset and a
  confirmation are rows that hold the hash of a token; a token is claimed by one conditional update.
\<close>

section \<open>Lifetimes and statements\<close>

definition hour :: duration where "hour = 3600 * 1000000000"

definition invitation_lifetime :: duration where "invitation_lifetime = 7 * 24 * hour"
definition password_reset_lifetime :: duration where "password_reset_lifetime = hour"
definition email_verification_lifetime :: duration where "email_verification_lifetime = 24 * hour"

definition bad_token :: go_error where
  "bad_token = (ErrBadToken, ''auth: that link is no longer valid'')"

definition already_member :: go_error where
  "already_member = (ErrAlreadyMember, ''auth: that address already has an account in this organization'')"

definition account_elsewhere :: go_error where
  "account_elsewhere = (ErrAccountElsewhere, ''auth: that email already has an account in another organization'')"

definition null_if_empty :: "string \<Rightarrow> string option" where
  "null_if_empty s = (if trim_space s = '''' then None else Some s)"

definition insert_invitation :: "env \<Rightarrow> invitation_row \<Rightarrow> db \<Rightarrow> string + db" where
  "insert_invitation E v d =
     (if iv_role v \<notin> {''admin'', ''member'', ''viewer''} then Inl (check_failed ''invitations_cannot_mint_an_owner'')
      else if iv_expires v \<le> iv_created v then Inl (check_failed ''invitations_expire'')
      else if iv_id v \<in> iv_id ` set (invitations d) then Inl (duplicate_key ''invitations_pkey'')
      else if iv_token v \<in> iv_token ` set (invitations d) then Inl (duplicate_key ''invitations_token_hash_key'')
      else if iv_accepted v = None \<and> (\<exists>x \<in> set (invitations d). iv_accepted x = None \<and> iv_tenant x = iv_tenant v \<and>
                e_lower E (iv_email x) = e_lower E (iv_email v)) then
        Inl (duplicate_key ''invitations_one_live_per_email'')
      else if iv_tenant v \<notin> tn_id ` set (tenants d) then Inl (foreign_key_failed ''invitations_tenant_fkey'')
      else if (case iv_by v of None \<Rightarrow> False | Some u \<Rightarrow> u \<notin> u_id ` set (users d)) then
        Inl (foreign_key_failed ''invitations_invited_by_fkey'')
      else Inr (d\<lparr>invitations := invitations d @ [v]\<rparr>))"

definition insert_reset :: "reset_row \<Rightarrow> db \<Rightarrow> string + db" where
  "insert_reset r d =
     (if rs_expires r \<le> rs_created r then Inl (check_failed ''password_resets_expire'')
      else if rs_id r \<in> rs_id ` set (resets d) then Inl (duplicate_key ''password_resets_pkey'')
      else if rs_token r \<in> rs_token ` set (resets d) then Inl (duplicate_key ''password_resets_token_hash_key'')
      else if rs_tenant r \<notin> tn_id ` set (tenants d) then Inl (foreign_key_failed ''password_resets_tenant_fkey'')
      else if rs_user r \<notin> u_id ` set (users d) then Inl (foreign_key_failed ''password_resets_user_id_fkey'')
      else Inr (d\<lparr>resets := resets d @ [r]\<rparr>))"

definition insert_verification :: "verification_row \<Rightarrow> db \<Rightarrow> string + db" where
  "insert_verification v d =
     (if ev_expires v \<le> ev_created v then Inl (check_failed ''email_verifications_expire'')
      else if ev_id v \<in> ev_id ` set (verifications d) then Inl (duplicate_key ''email_verifications_pkey'')
      else if ev_token v \<in> ev_token ` set (verifications d) then Inl (duplicate_key ''email_verifications_token_hash_key'')
      else if ev_tenant v \<notin> tn_id ` set (tenants d) then Inl (foreign_key_failed ''email_verifications_tenant_fkey'')
      else if ev_user v \<notin> u_id ` set (users d) then Inl (foreign_key_failed ''email_verifications_user_id_fkey'')
      else Inr (d\<lparr>verifications := verifications d @ [v]\<rparr>))"

section \<open>Invitations\<close>

definition create_invitation :: "env \<Rightarrow> faults \<Rightarrow> string \<Rightarrow> string \<Rightarrow> time \<Rightarrow> principal \<Rightarrow> string \<Rightarrow> string \<Rightarrow> db
    \<Rightarrow> (go_error + string \<times> invitation_row) \<times> db" where
  "create_invitation E f rid tok now actor email role d =
     (let mail = normalize_email email in
      if mail = '''' then (Inl (Opaque, ''auth: an invitation needs an email address''), d)
      else if role = Owner then
        (Inl (refused (''ownership is transferred inside the console, to somebody who already has an account '' @ em_dash @
           '' never by a link in an email, which travels through a mailbox this organization does not control'')), d)
      else if \<not> can_grant (p_role actor) role then
        (Inl (refused (''you cannot invite somebody as '' @ role)), d)
      else
        let v = \<lparr>iv_id = ''inv_'' @ rid, iv_token = token_key E tok, iv_tenant = p_tenant actor, iv_email = mail,
                 iv_role = role, iv_by = null_if_empty (p_user actor), iv_created = now,
                 iv_expires = now + invitation_lifetime, iv_accepted = None\<rparr> in
        in_tx f 0 4 (\<lambda>d.
          sql ''auth: checking for an existing account''
            (stmt f 1 (Inr (\<exists>u \<in> set (users d). u_tenant u = p_tenant actor \<and> e_lower E (u_email u) = e_lower E mail)))
            (\<lambda>there. if there then Inl already_member
              else sql ''auth: replacing an earlier invitation''
                (stmt f 2 (Inr (d\<lparr>invitations := filter (\<lambda>x. \<not> (iv_tenant x = p_tenant actor \<and>
                    e_lower E (iv_email x) = e_lower E mail \<and> iv_accepted x = None)) (invitations d)\<rparr>)))
                (\<lambda>d1. sql ''auth: creating invitation'' (stmt f 3 (insert_invitation E v d1))
                   (\<lambda>d2. Inr ((tok, v), d2))))) d)"

text \<open>The address of the inviter, empty once the account is gone.\<close>

definition inviter :: "db \<Rightarrow> invitation_row \<Rightarrow> string" where
  "inviter d v = (case iv_by v of None \<Rightarrow> ''''
     | Some i \<Rightarrow> (case find (\<lambda>u. u_id u = i) (users d) of None \<Rightarrow> '''' | Some u \<Rightarrow> u_email u))"

record invitation_view =
  vv_id :: string
  vv_email :: string
  vv_role :: string
  vv_by :: string
  vv_created :: time
  vv_expires :: time
  vv_expired :: bool

definition list_invitations :: "faults \<Rightarrow> time \<Rightarrow> string \<Rightarrow> db \<Rightarrow> go_error + invitation_view list" where
  "list_invitations f db_now tenant d =
     sql ''auth: listing invitations''
       (stmt f 0 (Inr (map (\<lambda>v. \<lparr>vv_id = iv_id v, vv_email = iv_email v, vv_role = iv_role v, vv_by = inviter d v,
            vv_created = iv_created v, vv_expires = iv_expires v, vv_expired = (iv_expires v \<le> db_now)\<rparr>)
          (sort_key (\<lambda>v. - iv_created v)
             (filter (\<lambda>v. iv_tenant v = tenant \<and> iv_accepted v = None) (invitations d))))))
       Inr"

definition revoke_invitation :: "faults \<Rightarrow> string \<Rightarrow> string \<Rightarrow> db \<Rightarrow> (go_error + unit) \<times> db" where
  "revoke_invitation f tenant i d =
     (let hit = (\<lambda>v. iv_id v = i \<and> iv_tenant v = tenant \<and> iv_accepted v = None) in
      case stmt f 0 (Inr (d\<lparr>invitations := filter (\<lambda>v. \<not> hit v) (invitations d)\<rparr>)) of
        Inl msg \<Rightarrow> (Inl (Opaque, ''auth: revoking invitation: '' @ msg), d)
      | Inr d' \<Rightarrow>
          if length (filter hit (invitations d)) = 0 then
            (Inl (Opaque, ''auth: no invitation is waiting under that id '' @ em_dash @
               '' it may have been accepted or already withdrawn''), d')
          else (Inr (), d'))"

definition live_invitation :: "env \<Rightarrow> time \<Rightarrow> string \<Rightarrow> invitation_row \<Rightarrow> bool" where
  "live_invitation E db_now token v \<longleftrightarrow> iv_token v = token_key E token \<and> iv_accepted v = None \<and> iv_expires v > db_now"

record pending_invitation =
  pi_email :: string
  pi_role :: string
  pi_org :: string
  pi_by :: string
  pi_expires :: time

definition lookup_invitation :: "env \<Rightarrow> faults \<Rightarrow> nat \<Rightarrow> time \<Rightarrow> string \<Rightarrow> db \<Rightarrow> go_error + pending_invitation" where
  "lookup_invitation E f n db_now token d =
     sql ''auth: looking up invitation''
       (stmt f n (Inr (case find (live_invitation E db_now token) (invitations d) of
                         None \<Rightarrow> None
                       | Some v \<Rightarrow> map_option (\<lambda>t. (v, t)) (find (\<lambda>t. tn_id t = iv_tenant v) (tenants d)))))
       (\<lambda>r. case r of None \<Rightarrow> Inl bad_token
         | Some (v, t) \<Rightarrow> Inr \<lparr>pi_email = iv_email v, pi_role = iv_role v, pi_org = tn_name t, pi_by = inviter d v,
                                pi_expires = iv_expires v\<rparr>)"

text \<open>The account an accepted invitation creates; its role is the row's.\<close>

definition invited_user :: "invitation_row \<Rightarrow> string \<Rightarrow> string \<Rightarrow> time \<Rightarrow> user_row" where
  "invited_user v uid hash now = \<lparr>u_id = uid, u_tenant = iv_tenant v, u_email = iv_email v, u_hash = hash,
     u_role = iv_role v, u_created = now, u_verified = Some now\<rparr>"

definition claim_invitation :: "env \<Rightarrow> faults \<Rightarrow> string \<Rightarrow> time \<Rightarrow> time \<Rightarrow> string \<Rightarrow> string \<Rightarrow> db
    \<Rightarrow> go_error + invitation_row \<times> db" where
  "claim_invitation E f uid now db_now token hash d =
     (case stmt f 2 (Inr (find (live_invitation E db_now token) (invitations d))) of
        Inl msg \<Rightarrow> Inl (Opaque, ''auth: accepting invitation: '' @ msg)
      | Inr None \<Rightarrow> Inl bad_token
      | Inr (Some v) \<Rightarrow>
          let d1 = d\<lparr>invitations := map (\<lambda>x. if live_invitation E db_now token x
                 then x\<lparr>iv_accepted := Some now\<rparr> else x) (invitations d)\<rparr> in
          (case stmt f 3 (insert_user E (invited_user v uid hash now) d1) of
             Inl msg \<Rightarrow>
               if contains_str msg ''users_email_per_tenant'' then Inl already_member
               else if contains_str msg ''users_email_global'' then Inl account_elsewhere
               else Inl (Opaque, ''auth: creating the invited account: '' @ msg)
           | Inr d2 \<Rightarrow> Inr (v, d2)))"

definition accept_invitation :: "env \<Rightarrow> faults \<Rightarrow> string \<Rightarrow> string \<Rightarrow> time \<Rightarrow> time \<Rightarrow> string \<Rightarrow> string \<Rightarrow> db
    \<Rightarrow> (go_error + string \<times> principal) \<times> db" where
  "accept_invitation E f rid tok now db_now token password d =
     (case lookup_invitation E f 0 db_now token d of
        Inl e \<Rightarrow> (Inl e, d)
      | Inr _ \<Rightarrow>
     (case e_hash E password of
        Inl e \<Rightarrow> (Inl e, d)
      | Inr hash \<Rightarrow>
          let uid = ''usr_'' @ rid in
     (case in_tx f 1 4 (claim_invitation E f uid now db_now token hash) d of
        (Inl e, d') \<Rightarrow> (Inl e, d')
      | (Inr v, d') \<Rightarrow>
          let sid = token_key E tok in
          (case stmt f 5 (insert_session (new_session sid (iv_tenant v) uid now) d') of
             Inl msg \<Rightarrow> (Inl (Opaque, ''auth: your account was created, but signing you in failed '' @ em_dash @
                '' sign in with the password you just chose: '' @ msg), d')
           | Inr d'' \<Rightarrow> (Inr (tok, principal_of (iv_tenant v) (iv_email v) sid uid (iv_role v)), d'')))))"

section \<open>Password resets\<close>

definition create_password_reset :: "env \<Rightarrow> faults \<Rightarrow> string \<Rightarrow> string \<Rightarrow> time \<Rightarrow> string \<Rightarrow> string \<Rightarrow> db
    \<Rightarrow> (go_error + string \<times> string \<times> string) \<times> db" where
  "create_password_reset E f rid tok now tenant email d =
     (case stmt f 0 (Inr (case find_by_email E tenant email d of
                            None \<Rightarrow> None
                          | Some u \<Rightarrow> map_option (\<lambda>t. (u, t)) (find (\<lambda>t. tn_id t = u_tenant u) (tenants d)))) of
        Inl msg \<Rightarrow> (Inl (Opaque, ''auth: password reset: '' @ msg), d)
      | Inr None \<Rightarrow> (Inl no_such_user, d)
      | Inr (Some (u, t)) \<Rightarrow>
          (case stmt f 1 (insert_reset \<lparr>rs_id = ''pwr_'' @ rid, rs_token = token_key E tok, rs_tenant = u_tenant u,
                 rs_user = u_id u, rs_created = now, rs_expires = now + password_reset_lifetime, rs_used = None\<rparr> d) of
             Inl msg \<Rightarrow> (Inl (Opaque, ''auth: password reset: '' @ msg), d)
           | Inr d' \<Rightarrow> (Inr (tok, u_email u, tn_name t), d')))"

definition live_reset :: "env \<Rightarrow> time \<Rightarrow> string \<Rightarrow> reset_row \<Rightarrow> bool" where
  "live_reset E db_now token r \<longleftrightarrow> rs_token r = token_key E token \<and> rs_used r = None \<and> rs_expires r > db_now"

definition reset_token_is_live :: "env \<Rightarrow> faults \<Rightarrow> nat \<Rightarrow> time \<Rightarrow> string \<Rightarrow> db \<Rightarrow> go_error + unit" where
  "reset_token_is_live E f n db_now token d =
     sql ''auth: checking reset link'' (stmt f n (Inr (\<exists>r \<in> set (resets d). live_reset E db_now token r)))
       (\<lambda>ok. if \<not> ok then Inl bad_token else Inr ())"

definition update_hash :: "string \<Rightarrow> string \<Rightarrow> db \<Rightarrow> string + db" where
  "update_hash hash uid d =
     (if hash = '''' then Inl (check_failed ''users_have_a_password'')
      else Inr (d\<lparr>users := map (\<lambda>u. if u_id u = uid then u\<lparr>u_hash := hash\<rparr> else u) (users d)\<rparr>))"

definition claim_reset :: "env \<Rightarrow> faults \<Rightarrow> time \<Rightarrow> time \<Rightarrow> string \<Rightarrow> string \<Rightarrow> db \<Rightarrow> go_error + unit \<times> db" where
  "claim_reset E f now db_now token hash d =
     (case stmt f 2 (Inr (find (live_reset E db_now token) (resets d))) of
        Inl msg \<Rightarrow> Inl (Opaque, ''auth: resetting password: '' @ msg)
      | Inr None \<Rightarrow> Inl bad_token
      | Inr (Some r) \<Rightarrow>
          let uid = rs_user r;
              d1 = d\<lparr>resets := map (\<lambda>x. if live_reset E db_now token x then x\<lparr>rs_used := Some now\<rparr> else x) (resets d)\<rparr> in
          sql ''auth: resetting password''
            (stmt f 3 (update_hash hash uid d1))
            (\<lambda>d2. sql ''auth: signing out other sessions''
               (stmt f 4 (Inr (d2\<lparr>sessions := filter (\<lambda>s. se_user s \<noteq> uid) (sessions d2)\<rparr>)))
               (\<lambda>d3. sql ''auth: invalidating other reset links''
                  (stmt f 5 (Inr (d3\<lparr>resets := filter (\<lambda>x. \<not> (rs_user x = uid \<and> rs_used x = None)) (resets d3)\<rparr>)))
                  (\<lambda>d4. Inr ((), d4)))))"

definition reset_password :: "env \<Rightarrow> faults \<Rightarrow> time \<Rightarrow> time \<Rightarrow> string \<Rightarrow> string \<Rightarrow> db \<Rightarrow> (go_error + unit) \<times> db" where
  "reset_password E f now db_now token new_password d =
     (case reset_token_is_live E f 0 db_now token d of
        Inl e \<Rightarrow> (Inl e, d)
      | Inr _ \<Rightarrow>
          (case e_hash E new_password of
             Inl e \<Rightarrow> (Inl e, d)
           | Inr hash \<Rightarrow> in_tx f 1 6 (claim_reset E f now db_now token hash) d))"

section \<open>Email verification\<close>

definition create_email_verification :: "env \<Rightarrow> faults \<Rightarrow> string \<Rightarrow> string \<Rightarrow> time \<Rightarrow> string \<Rightarrow> string \<Rightarrow> db
    \<Rightarrow> (go_error + string \<times> string \<times> string) \<times> db" where
  "create_email_verification E f rid tok now tenant uid d =
     (case stmt f 0 (Inr (case find_member tenant uid d of
                            None \<Rightarrow> None
                          | Some u \<Rightarrow> map_option (\<lambda>t. (u, t)) (find (\<lambda>t. tn_id t = u_tenant u) (tenants d)))) of
        Inl msg \<Rightarrow> (Inl (Opaque, ''auth: email verification: '' @ msg), d)
      | Inr None \<Rightarrow> (Inl no_such_member, d)
      | Inr (Some (u, t)) \<Rightarrow>
          if u_verified u \<noteq> None then (Inl (ErrAlreadyVerified, ''auth: that address is already confirmed''), d)
          else
            (case stmt f 1 (Inr (d\<lparr>verifications := filter (\<lambda>v. \<not> (ev_user v = uid \<and> ev_used v = None)) (verifications d)\<rparr>)) of
               Inl msg \<Rightarrow> (Inl (Opaque, ''auth: email verification: '' @ msg), d)
             | Inr d1 \<Rightarrow>
                 (case stmt f 2 (insert_verification \<lparr>ev_id = ''evr_'' @ rid, ev_token = token_key E tok, ev_tenant = tenant,
                        ev_user = uid, ev_email = u_email u, ev_created = now,
                        ev_expires = now + email_verification_lifetime, ev_used = None\<rparr> d1) of
                    Inl msg \<Rightarrow> (Inl (Opaque, ''auth: email verification: '' @ msg), d1)
                  | Inr d2 \<Rightarrow> (Inr (tok, u_email u, tn_name t), d2))))"

definition live_verification :: "env \<Rightarrow> time \<Rightarrow> string \<Rightarrow> verification_row \<Rightarrow> bool" where
  "live_verification E db_now token v \<longleftrightarrow> ev_token v = token_key E token \<and> ev_used v = None \<and> ev_expires v > db_now"

text \<open>The message of \<open>Scan\<close> when the account of the row is gone is the driver's \<open>sql.ErrNoRows\<close>.\<close>

definition claim_verification :: "env \<Rightarrow> faults \<Rightarrow> time \<Rightarrow> time \<Rightarrow> string \<Rightarrow> db \<Rightarrow> go_error + string \<times> db" where
  "claim_verification E f now db_now token d =
     (case stmt f 1 (Inr (find (live_verification E db_now token) (verifications d))) of
        Inl msg \<Rightarrow> Inl (Opaque, ''auth: confirming address: '' @ msg)
      | Inr None \<Rightarrow> Inl bad_token
      | Inr (Some v) \<Rightarrow>
          let uid = ev_user v;
              d1 = d\<lparr>verifications := map (\<lambda>x. if live_verification E db_now token x
                     then x\<lparr>ev_used := Some now\<rparr> else x) (verifications d)\<rparr> in
          sql ''auth: confirming address''
            (stmt f 2 (case find (\<lambda>u. u_id u = uid) (users d1) of
                         None \<Rightarrow> Inl ''sql: no rows in result set'' | Some u \<Rightarrow> Inr (u_email u)))
            (\<lambda>current. if \<not> e_fold E current (ev_email v) then Inl bad_token
               else sql ''auth: marking address verified'' (stmt f 3 (Inr (mark_email_verified uid now d1)))
                      (\<lambda>d2. Inr (current, d2))))"

definition verify_email :: "env \<Rightarrow> faults \<Rightarrow> time \<Rightarrow> time \<Rightarrow> string \<Rightarrow> db \<Rightarrow> (go_error + string) \<times> db" where
  "verify_email E f now db_now token d = in_tx f 0 4 (claim_verification E f now db_now token) d"

end
