(* ===== verification/Link.thy ===== *)
theory Link
  imports Main
begin

text \<open>
  The contract of a link that stands in for a password, as a locale: a claim that succeeds found the link's key live,
  leaves it spent, and revives no spent key.  The client lemmas are what the mails promise: a link is
  claimed at most once, whatever a later claim carries beside the token and whatever other links are claimed between.
\<close>

locale single_use =
  fixes valid :: "'s \<Rightarrow> bool"
    and claim :: "'c \<Rightarrow> 's \<Rightarrow> 'e + 'a \<times> 's"
    and key :: "'c \<Rightarrow> 'k"
    and live :: "'k \<Rightarrow> 's \<Rightarrow> bool"
  assumes claim_live: "claim c s = Inr (a, s') \<Longrightarrow> live (key c) s"
    and claim_spends: "valid s \<Longrightarrow> claim c s = Inr (a, s') \<Longrightarrow> \<not> live (key c) s'"
    and claim_revives_none: "valid s \<Longrightarrow> claim c s = Inr (a, s') \<Longrightarrow> \<not> live k s \<Longrightarrow> \<not> live k s'"
    and claim_valid: "valid s \<Longrightarrow> claim c s = Inr (a, s') \<Longrightarrow> valid s'"
begin

lemma spent_refused: "\<not> live (key c) s \<Longrightarrow> \<exists>e. claim c s = Inl e"
  by (cases "claim c s") (auto dest: claim_live)

lemma claimed_once: "valid s \<Longrightarrow> claim c s = Inr (a, s') \<Longrightarrow> key c' = key c \<Longrightarrow> \<exists>e. claim c' s' = Inl e"
  using claim_spends spent_refused by metis

lemma claimed_once_between:
  "valid s \<Longrightarrow> claim c s = Inr (a, s') \<Longrightarrow> claim c2 s' = Inr (b, s'') \<Longrightarrow> key c' = key c \<Longrightarrow> \<exists>e. claim c' s'' = Inl e"
  using claim_spends claim_revives_none claim_valid spent_refused by metis

end

end
