(* ===== verification/Identity_Inv.thy ===== *)
theory Identity_Inv
  imports Tokens Link
begin

text \<open>
  What every operation keeps of the identity tables: unique keys, roles the build knows, invitations that
  cannot mint an owner, and no session, reset or confirmation that outlives its account.  The operations
  form the step relation \<open>auth_step\<close>; \<open>identity_reachable\<close> holds the databases it reaches from the empty one.
\<close>

section \<open>The invariant\<close>

definition refers :: "db \<Rightarrow> string \<Rightarrow> string \<Rightarrow> bool" where
  "refers d i T \<longleftrightarrow> (\<exists>u \<in> set (users d). u_id u = i \<and> u_tenant u = T)"

definition users_ok :: "(string \<Rightarrow> string) \<Rightarrow> db \<Rightarrow> bool" where
  "users_ok L d \<longleftrightarrow> distinct (map u_id (users d)) \<and> distinct (map (\<lambda>u. L (u_email u)) (users d)) \<and>
     (\<forall>u \<in> set (users d). valid_role (u_role u) \<and> u_hash u \<noteq> '''' \<and> u_tenant u \<in> tn_id ` set (tenants d))"

definition links_ok :: "db \<Rightarrow> bool" where
  "links_ok d \<longleftrightarrow> distinct (map se_id (sessions d)) \<and> (\<forall>s \<in> set (sessions d). refers d (se_user s) (se_tenant s)) \<and>
     distinct (map rs_token (resets d)) \<and> (\<forall>r \<in> set (resets d). refers d (rs_user r) (rs_tenant r)) \<and>
     distinct (map ev_token (verifications d)) \<and> (\<forall>v \<in> set (verifications d). refers d (ev_user v) (ev_tenant v))"

definition invitations_ok :: "db \<Rightarrow> bool" where
  "invitations_ok d \<longleftrightarrow> distinct (map iv_token (invitations d)) \<and>
     (\<forall>v \<in> set (invitations d). iv_role v \<in> {Admin, Member, Viewer} \<and> iv_tenant v \<in> tn_id ` set (tenants d))"

definition db_ok :: "(string \<Rightarrow> string) \<Rightarrow> db \<Rightarrow> bool" where
  "db_ok L d \<longleftrightarrow> users_ok L d \<and> links_ok d \<and> invitations_ok d"

lemma empty_db_ok: "db_ok L empty_db"
  by (simp add: db_ok_def users_ok_def links_ok_def invitations_ok_def empty_db_def)

lemma db_okD: "db_ok L d \<Longrightarrow> users_ok L d" "db_ok L d \<Longrightarrow> links_ok d" "db_ok L d \<Longrightarrow> invitations_ok d"
  by (simp_all add: db_ok_def)

lemma refers_users: "users d' = users d \<Longrightarrow> refers d' = refers d"
  by (simp add: refers_def fun_eq_iff)

lemma distinct_map_eqD: "distinct (map k xs) \<Longrightarrow> x \<in> set xs \<Longrightarrow> y \<in> set xs \<Longrightarrow> k x = k y \<Longrightarrow> x = y"
  by (metis distinct_map inj_onD)

text \<open>Rows are determined by their keys.\<close>

lemma same_row:
  assumes "db_ok L d"
  shows "\<lbrakk>u \<in> set (users d); v \<in> set (users d); u_id u = u_id v\<rbrakk> \<Longrightarrow> u = v"
    "\<lbrakk>s \<in> set (sessions d); t \<in> set (sessions d); se_id s = se_id t\<rbrakk> \<Longrightarrow> s = t"
    "\<lbrakk>i \<in> set (invitations d); j \<in> set (invitations d); iv_token i = iv_token j\<rbrakk> \<Longrightarrow> i = j"
    "\<lbrakk>a \<in> set (resets d); b \<in> set (resets d); rs_token a = rs_token b\<rbrakk> \<Longrightarrow> a = b"
    "\<lbrakk>x \<in> set (verifications d); y \<in> set (verifications d); ev_token x = ev_token y\<rbrakk> \<Longrightarrow> x = y"
  using assms by (auto simp: db_ok_def users_ok_def links_ok_def invitations_ok_def intro: distinct_map_eqD)

text \<open>After the conditional update of a claim, no row with the claimed token is unclaimed.\<close>

lemma spent_row:
  assumes "distinct (map k xs)" "find P xs = Some v" "\<And>x. k (g x) = k x" "\<And>x. P x \<Longrightarrow> used (g x)"
    "y \<in> set (map (\<lambda>x. if P x then g x else x) xs)" "k y = k v"
  shows "used y"
proof -
  from assms(5) obtain x where x: "x \<in> set xs" "y = (if P x then g x else x)" by auto
  have v: "v \<in> set xs" "P v" using assms(2) by (induction xs) (auto split: if_splits)
  have "k x = k v" using x(2) assms(3,6) by (auto split: if_splits)
  with distinct_map_eqD [OF assms(1) x(1) v(1)] have "x = v" .
  with v x(2) assms(4) show ?thesis by simp
qed

section \<open>The tables after an insert\<close>

lemma insert_tenant_Inr:
  "insert_tenant t d = Inr d' \<longleftrightarrow> tn_id t \<noteq> '''' \<and> tn_id t \<notin> tn_id ` set (tenants d) \<and> d' = d\<lparr>tenants := tenants d @ [t]\<rparr>"
  by (auto simp: insert_tenant_def)

lemma insert_user_Inr:
  "insert_user E u d = Inr d' \<longleftrightarrow> u_hash u \<noteq> '''' \<and> valid_role (u_role u) \<and> u_id u \<notin> u_id ` set (users d) \<and>
     e_lower E (u_email u) \<notin> (\<lambda>x. e_lower E (u_email x)) ` set (users d) \<and> u_tenant u \<in> tn_id ` set (tenants d) \<and>
     d' = d\<lparr>users := users d @ [u]\<rparr>"
proof -
  have role: "r \<notin> {''owner'', ''admin'', ''member'', ''viewer''} \<longleftrightarrow> \<not> valid_role r" for r
    by (simp add: valid_role_iff role_defs)
  have mail: "(\<exists>x \<in> set (users d). e_lower E (u_email x) = e_lower E (u_email u)) \<longleftrightarrow>
      e_lower E (u_email u) \<in> (\<lambda>x. e_lower E (u_email x)) ` set (users d)" unfolding image_iff by metis
  have clash: False if "e_lower E (u_email u) \<notin> (\<lambda>x. e_lower E (u_email x)) ` set (users d)" "x \<in> set (users d)"
      "e_lower E (u_email x) = e_lower E (u_email u)" for x
    using that by (metis image_eqI)
  show ?thesis unfolding insert_user_def role mail by (auto dest: clash)
qed

lemma insert_session_Inr:
  "insert_session s d = Inr d' \<longleftrightarrow> se_expires s > se_created s \<and> se_id s \<notin> se_id ` set (sessions d) \<and>
     se_tenant s \<in> tn_id ` set (tenants d) \<and> se_user s \<in> u_id ` set (users d) \<and> d' = d\<lparr>sessions := sessions d @ [s]\<rparr>"
  by (auto simp: insert_session_def not_less)

lemma insert_reset_Inr:
  "insert_reset r d = Inr d' \<Longrightarrow> rs_token r \<notin> rs_token ` set (resets d) \<and> d' = d\<lparr>resets := resets d @ [r]\<rparr>"
  by (auto simp: insert_reset_def split: if_splits)

lemma insert_verification_Inr:
  "insert_verification v d = Inr d' \<Longrightarrow>
     ev_token v \<notin> ev_token ` set (verifications d) \<and> d' = d\<lparr>verifications := verifications d @ [v]\<rparr>"
  by (auto simp: insert_verification_def split: if_splits)

lemma insert_invitation_Inr:
  "insert_invitation E v d = Inr d' \<Longrightarrow> iv_role v \<in> {Admin, Member, Viewer} \<and> iv_token v \<notin> iv_token ` set (invitations d) \<and>
     iv_tenant v \<in> tn_id ` set (tenants d) \<and> d' = d\<lparr>invitations := invitations d @ [v]\<rparr>"
  by (auto simp: insert_invitation_def role_defs split: if_splits)

section \<open>Steps on one table\<close>

text \<open>Each lemma says what a change of one table keeps; the operations are compositions of these changes.\<close>

lemma db_ok_tenants:
  "db_ok L d \<Longrightarrow> tn_id ` set (tenants d) \<subseteq> tn_id ` set ts \<Longrightarrow> db_ok L (d\<lparr>tenants := ts\<rparr>)"
  by (auto simp: db_ok_def users_ok_def links_ok_def invitations_ok_def refers_def)

lemma db_ok_insert_user:
  assumes "db_ok L d" "insert_user E u d = Inr d'" "e_lower E = L"
  shows "db_ok L d'"
  using assms unfolding insert_user_Inr
  by (auto simp: db_ok_def users_ok_def links_ok_def invitations_ok_def refers_def)

lemma db_ok_sessions:
  "db_ok L d \<Longrightarrow> distinct (map se_id ss) \<Longrightarrow> \<forall>s \<in> set ss. refers d (se_user s) (se_tenant s) \<Longrightarrow> db_ok L (d\<lparr>sessions := ss\<rparr>)"
  by (auto simp: db_ok_def users_ok_def links_ok_def invitations_ok_def refers_def)

lemma db_ok_insert_session:
  assumes "db_ok L d" "insert_session s d = Inr d'" "refers d (se_user s) (se_tenant s)"
  shows "db_ok L d'"
proof -
  from assms(2) have d': "d' = d\<lparr>sessions := sessions d @ [s]\<rparr>" and fresh: "se_id s \<notin> se_id ` set (sessions d)"
    by (auto simp: insert_session_Inr)
  show ?thesis unfolding d'
    by (rule db_ok_sessions [OF assms(1)]) (use assms fresh in \<open>auto simp: db_ok_def links_ok_def\<close>)
qed

lemma db_ok_filter_sessions: "db_ok L d \<Longrightarrow> db_ok L (d\<lparr>sessions := filter P (sessions d)\<rparr>)"
  by (rule db_ok_sessions) (auto simp: db_ok_def links_ok_def)

lemma db_ok_resets:
  "db_ok L d \<Longrightarrow> distinct (map rs_token rs) \<Longrightarrow> \<forall>r \<in> set rs. refers d (rs_user r) (rs_tenant r) \<Longrightarrow> db_ok L (d\<lparr>resets := rs\<rparr>)"
  by (auto simp: db_ok_def users_ok_def links_ok_def invitations_ok_def refers_def)

lemma db_ok_verifications:
  "db_ok L d \<Longrightarrow> distinct (map ev_token vs) \<Longrightarrow> \<forall>v \<in> set vs. refers d (ev_user v) (ev_tenant v) \<Longrightarrow>
     db_ok L (d\<lparr>verifications := vs\<rparr>)"
  by (auto simp: db_ok_def users_ok_def links_ok_def invitations_ok_def refers_def)

lemma db_ok_invitations:
  "db_ok L d \<Longrightarrow> distinct (map iv_token vs) \<Longrightarrow>
     \<forall>v \<in> set vs. iv_role v \<in> {Admin, Member, Viewer} \<and> iv_tenant v \<in> tn_id ` set (tenants d) \<Longrightarrow>
     db_ok L (d\<lparr>invitations := vs\<rparr>)"
  by (auto simp: db_ok_def users_ok_def links_ok_def invitations_ok_def refers_def)

text \<open>A change of the accounts that keeps ids, tenants and addresses and leaves every role known.\<close>

lemma db_ok_map_users:
  assumes "db_ok L d" "\<And>u. u_id (g u) = u_id u" "\<And>u. u_tenant (g u) = u_tenant u" "\<And>u. u_email (g u) = u_email u"
    "\<And>u. u \<in> set (users d) \<Longrightarrow> valid_role (u_role (g u)) \<and> u_hash (g u) \<noteq> ''''"
  shows "db_ok L (d\<lparr>users := map g (users d)\<rparr>)"
proof -
  have "refers (d\<lparr>users := map g (users d)\<rparr>) = refers d" using assms(2,3) by (auto simp: refers_def fun_eq_iff)
  moreover have "u_id \<circ> g = u_id" "(\<lambda>u. L (u_email u)) \<circ> g = (\<lambda>u. L (u_email u))"
    using assms(2,4) by auto
  ultimately show ?thesis
    using assms(1,3,5) by (auto simp: db_ok_def users_ok_def links_ok_def invitations_ok_def)
qed

section \<open>Every operation keeps the invariant\<close>

lemma find_SomeD: "find P xs = Some x \<Longrightarrow> x \<in> set xs \<and> P x"
  by (induction xs) (auto split: if_splits)

lemma create_tenant_ok: "create_tenant f i name now d = (r, d') \<Longrightarrow> db_ok L d \<Longrightarrow> db_ok L d'"
  by (auto simp: create_tenant_def insert_tenant_Inr stmt_def split: if_splits sum.splits option.splits intro!: db_ok_tenants)

lemma create_user_ok:
  "create_user E f rid now tenant email pw role d = (r, d') \<Longrightarrow> e_lower E = L \<Longrightarrow> db_ok L d \<Longrightarrow> db_ok L d'"
  by (auto simp: create_user_def Let_def split: if_splits sum.splits dest: db_ok_insert_user)

lemma refers_member: "u \<in> set (users d) \<Longrightarrow> refers d (u_id u) (u_tenant u)"
  by (auto simp: refers_def)

lemma login_spec:
  "case login E f tok now tenant email pw d of
     (Inl e, d') \<Rightarrow> d' = d
   | (Inr p, d') \<Rightarrow> \<exists>u. find_by_email E tenant email d = Some u \<and> e_verify E pw (u_hash u) = None \<and>
       insert_session (new_session (token_key E tok) (u_tenant u) (u_id u) now) d = Inr d' \<and>
       p = (tok, principal_of (u_tenant u) email (token_key E tok) (u_id u) (u_role u))"
  by (auto simp: login_def stmt_def Let_def split: sum.split option.split prod.split)

lemma new_session_simps [simp]:
  "se_id (new_session i t u now) = i" "se_tenant (new_session i t u now) = t" "se_user (new_session i t u now) = u"
  "se_created (new_session i t u now) = now" "se_expires (new_session i t u now) = now + session_lifetime"
  by (simp_all add: new_session_def)

lemma find_by_email_Some:
  "find_by_email E tenant email d = Some u \<Longrightarrow>
     u \<in> set (users d) \<and> e_lower E (u_email u) = e_lower E (normalize_email email) \<and> (tenant \<noteq> '''' \<longrightarrow> u_tenant u = tenant)"
  unfolding find_by_email_def by (drule find_SomeD) simp

lemma login_Inr:
  assumes "login E f tok now tenant email pw d = (Inr p, d')"
  obtains u where "u \<in> set (users d)" "e_verify E pw (u_hash u) = None"
    "insert_session (new_session (token_key E tok) (u_tenant u) (u_id u) now) d = Inr d'"
    "p = (tok, principal_of (u_tenant u) email (token_key E tok) (u_id u) (u_role u))"
    "e_lower E (u_email u) = e_lower E (normalize_email email)" "tenant \<noteq> '''' \<longrightarrow> u_tenant u = tenant"
  using login_spec [where E = E and f = f and tok = tok and now = now and tenant = tenant and email = email and pw = pw and d = d]
    assms find_by_email_Some by (simp, blast)

lemma login_Inl: "login E f tok now tenant email pw d = (Inl e, d') \<Longrightarrow> d' = d"
  using login_spec [where E = E and f = f and tok = tok and now = now and tenant = tenant and email = email and pw = pw and d = d]
  by simp

lemma login_ok:
  assumes "login E f tok now tenant email pw d = (r, d')" "db_ok L d"
  shows "db_ok L d'"
proof (cases r)
  case (Inl e)
  with assms login_Inl show ?thesis by blast
next
  case (Inr p)
  with assms(1) have "login E f tok now tenant email pw d = (Inr p, d')" by simp
  then obtain u where "u \<in> set (users d)"
      "insert_session (new_session (token_key E tok) (u_tenant u) (u_id u) now) d = Inr d'"
    by (rule login_Inr)
  then show ?thesis
    by (intro db_ok_insert_session [OF assms(2), of "new_session (token_key E tok) (u_tenant u) (u_id u) now"])
      (simp_all add: refers_member)
qed

lemma logout_ok: "logout E f token d = (r, d') \<Longrightarrow> db_ok L d \<Longrightarrow> db_ok L d'"
  by (auto simp: logout_def stmt_def split: sum.splits option.splits intro: db_ok_filter_sessions)

lemma sign_up_spec:
  "case sign_up E f orid urid tok now name email pw d of
     (Inl e, d') \<Rightarrow> d' = d
   | (Inr p, d') \<Rightarrow> \<exists>t u d1 d2. insert_tenant t d = Inr d1 \<and> insert_user E u d1 = Inr d2 \<and> u_role u = Owner \<and>
       u_tenant u = tn_id t \<and> u_id u = ''usr_'' @ urid \<and> tn_id t = ''org_'' @ orid \<and> u_email u = normalize_email email \<and>
       insert_session (new_session (token_key E tok) (tn_id t) (u_id u) now) d2 = Inr d' \<and>
       p = (tok, \<lparr>p_tenant = tn_id t, p_subject = u_email u, p_user = u_id u, p_session = token_key E tok, p_role = Owner\<rparr>)"
  by (simp add: sign_up_def Let_def stmt_def normalize_email_def split: sum.split option.split prod.split)
    (intro allI impI conjI exI, (assumption | rule refl | simp)+)

lemma sign_up_ok:
  assumes "sign_up E f orid urid tok now name email pw d = (r, d')" "e_lower E = L" "db_ok L d"
  shows "db_ok L d'"
proof (cases r)
  case (Inl e)
  with assms(1) sign_up_spec [where E = E and f = f and orid = orid and urid = urid and tok = tok and now = now
      and name = name and email = email and pw = pw and d = d] assms(3) show ?thesis by simp
next
  case (Inr p)
  with assms(1) sign_up_spec [where E = E and f = f and orid = orid and urid = urid and tok = tok and now = now
      and name = name and email = email and pw = pw and d = d]
  obtain t u d1 d2 where s: "insert_tenant t d = Inr d1" "insert_user E u d1 = Inr d2" "u_tenant u = tn_id t"
      "insert_session (new_session (token_key E tok) (tn_id t) (u_id u) now) d2 = Inr d'" by auto
  have "db_ok L d1" using s(1) db_ok_tenants [OF assms(3), of "tenants d @ [t]"] by (auto simp: insert_tenant_Inr)
  then have d2: "db_ok L d2" by (rule db_ok_insert_user [OF _ s(2) assms(2)])
  have "u \<in> set (users d2)" using s(2) by (simp add: insert_user_Inr)
  then have "refers d2 (u_id u) (tn_id t)" using s(3) by (auto simp: refers_def)
  then show ?thesis by (intro db_ok_insert_session [OF d2 s(4)]) simp
qed

lemma db_ok_map_tenants: "db_ok L d \<Longrightarrow> (\<And>t. tn_id (g t) = tn_id t) \<Longrightarrow> db_ok L (d\<lparr>tenants := map g (tenants d)\<rparr>)"
  by (rule db_ok_tenants) (auto simp: image_image)

lemma remember_subject_ok: "remember_subject f tenant ref pinned d = (r, d') \<Longrightarrow> db_ok L d \<Longrightarrow> db_ok L d'"
  by (auto simp: remember_subject_def stmt_def split: sum.splits option.splits intro!: db_ok_map_tenants)

lemma set_autonomy_ok: "set_autonomy f tenant level d = (r, d') \<Longrightarrow> db_ok L d \<Longrightarrow> db_ok L d'"
  by (auto simp: set_autonomy_def stmt_def split: sum.splits option.splits if_splits intro!: db_ok_map_tenants)

section \<open>Members\<close>

lemma role_of_valid [simp]: "valid_role r \<Longrightarrow> role_of r = r"
  by (simp add: role_of_def)

lemma find_member_Some: "find_member T i d = Some u \<Longrightarrow> u \<in> set (users d) \<and> u_id u = i \<and> u_tenant u = T"
  unfolding find_member_def by (drule find_SomeD) simp

definition owner_ids :: "db \<Rightarrow> string \<Rightarrow> string list" where
  "owner_ids d T = sort (map u_id (filter (\<lambda>u. u_tenant u = T \<and> u_role u = ''owner'') (users d)))"

text \<open>What a successful change has checked.\<close>

lemma set_role_spec:
  "case set_role f actor i nr d of
     (Inl e, d') \<Rightarrow> d' = d
   | (Inr _, d') \<Rightarrow> \<exists>u. valid_role nr \<and> find_member (p_tenant actor) i d = Some u \<and>
       can_manage (p_role actor) (role_of (u_role u)) \<and> can_grant (p_role actor) nr \<and>
       (d' = d \<and> role_of (u_role u) = nr \<or>
        role_of (u_role u) \<noteq> nr \<and> \<not> (role_of (u_role u) = Owner \<and> last_owner (owner_ids d (p_tenant actor)) i) \<and>
        update_role nr i (p_tenant actor) d = Inr d')"
  unfolding set_role_def in_tx_defs wrapped_def sql_def stmt_def lock_owners_def lock_member_def owner_ids_def
  by (cases "valid_role nr"; cases "f 0"; cases "f 1"; cases "f 2"; cases "f 3"; cases "f 4";
      cases "find_member (p_tenant actor) i d"; cases "update_role nr i (p_tenant actor) d")
    (simp_all only: if_True if_False if_not_P option.case sum.case prod.case not_True_eq_False not_False_eq_True,
     simp_all, blast)

lemma remove_member_spec:
  "case remove_member f actor i d of
     (Inl e, d') \<Rightarrow> d' = d
   | (Inr _, d') \<Rightarrow> \<exists>u. find_member (p_tenant actor) i d = Some u \<and> can_manage (p_role actor) (role_of (u_role u)) \<and>
       \<not> (role_of (u_role u) = Owner \<and> last_owner (owner_ids d (p_tenant actor)) i) \<and>
       d' = delete_user i (p_tenant actor) d"
  by (simp add: remove_member_def in_tx_defs wrapped_def sql_def stmt_def lock_owners_def lock_member_def owner_ids_def
      split: sum.split option.split prod.split)

text \<open>Some other account of the organization is an owner when the target is not the last one.\<close>

definition has_owner :: "db \<Rightarrow> string \<Rightarrow> bool" where
  "has_owner d T \<longleftrightarrow> (\<exists>u \<in> set (users d). u_tenant u = T \<and> u_role u = Owner)"

lemma not_last_owner:
  assumes "users_ok L d" "u \<in> set (users d)" "u_tenant u = T" "u_role u = Owner" "\<not> last_owner (owner_ids d T) (u_id u)"
  shows "\<exists>v \<in> set (users d). u_id v \<noteq> u_id u \<and> u_tenant v = T \<and> u_role v = Owner"
proof (rule ccontr)
  let ?own = "filter (\<lambda>u. u_tenant u = T \<and> u_role u = ''owner'') (users d)"
  assume none: "\<not> ?thesis"
  have "x = u_id u" if "x \<in> set (owner_ids d T)" for x
    using that none by (auto simp: owner_ids_def role_defs)
  moreover have "u_id u \<in> set (owner_ids d T)"
    using assms(2-4) by (auto simp: owner_ids_def role_defs)
  moreover have "distinct (owner_ids d T)"
    using assms(1) by (simp add: owner_ids_def users_ok_def)
  moreover from calculation have set: "set (owner_ids d T) = {u_id u}" by blast
  ultimately have "length (owner_ids d T) = 1" using distinct_card [of "owner_ids d T"] by (simp only: card_1_singleton_iff) simp
  moreover from this set have "owner_ids d T ! 0 = u_id u" by (metis nth_mem singletonD zero_less_one)
  ultimately show False using assms(5) by (simp add: last_owner_def)
qed

lemma update_role_Inr:
  "update_role nr i T d = Inr d' \<longleftrightarrow> valid_role nr \<and>
     d' = d\<lparr>users := map (\<lambda>u. if u_id u = i \<and> u_tenant u = T then u\<lparr>u_role := nr\<rparr> else u) (users d)\<rparr>"
  by (auto simp: update_role_def valid_role_iff role_defs)

lemma set_role_ok:
  assumes "set_role f actor i nr d = (r, d')" "db_ok L d"
  shows "db_ok L d'"
proof -
  have "d' = d \<or> update_role nr i (p_tenant actor) d = Inr d'"
    using set_role_spec [where f = f and actor = actor and i = i and nr = nr and d = d] assms(1) by (auto split: sum.splits)
  then show ?thesis
  proof
    assume "update_role nr i (p_tenant actor) d = Inr d'"
    then have nr: "valid_role nr" and d': "d' = d\<lparr>users := map (\<lambda>u. if u_id u = i \<and> u_tenant u = p_tenant actor
        then u\<lparr>u_role := nr\<rparr> else u) (users d)\<rparr>" by (simp_all add: update_role_Inr)
    show ?thesis unfolding d' by (rule db_ok_map_users [OF assms(2)]) (use assms(2) nr in \<open>auto simp: db_ok_def users_ok_def\<close>)
  qed (use assms(2) in simp)
qed

lemma delete_user_ok: assumes "db_ok L d" shows "db_ok L (delete_user i T d)"
proof (cases "\<exists>u \<in> set (users d). u_id u = i \<and> u_tenant u = T")
  case True
  then obtain u where u: "u \<in> set (users d)" "u_id u = i" "u_tenant u = T" by blast
  have uniq: "v = u" if "v \<in> set (users d)" "u_id v = i" for v
    using assms u that by (auto simp: db_ok_def users_ok_def distinct_map dest: inj_onD)
  have keep: "refers d j S \<Longrightarrow> j \<noteq> i \<Longrightarrow>
      (\<exists>v \<in> set (users d). \<not> (u_id v = i \<and> u_tenant v = T) \<and> u_id v = j \<and> u_tenant v = S)" for j S
    by (auto simp: refers_def)
  define g :: "invitation_row \<Rightarrow> invitation_row" where "g = (\<lambda>v. if iv_by v = Some i then v\<lparr>iv_by := None\<rparr> else v)"
  have g: "iv_role (g v) = iv_role v" "iv_tenant (g v) = iv_tenant v" "iv_token (g v) = iv_token v" for v
    by (simp_all add: g_def)
  have d': "delete_user i T d = d\<lparr>users := filter (\<lambda>u. \<not> (u_id u = i \<and> u_tenant u = T)) (users d),
      sessions := filter (\<lambda>s. se_user s \<noteq> i) (sessions d), invitations := map g (invitations d),
      resets := filter (\<lambda>r. rs_user r \<noteq> i) (resets d), verifications := filter (\<lambda>v. ev_user v \<noteq> i) (verifications d)\<rparr>"
    using True by (simp add: delete_user_def g_def)
  have keeps: "refers (delete_user i T d) j S" if "refers d j S" "j \<noteq> i" for j S
    using keep [OF that] by (simp add: refers_def d') blast
  have "users_ok L (delete_user i T d)" using assms by (auto simp: db_ok_def users_ok_def d')
  moreover have "links_ok (delete_user i T d)"
    using assms keeps by (simp add: db_ok_def links_ok_def d')
  moreover have "invitations_ok (delete_user i T d)"
    using assms by (simp add: db_ok_def invitations_ok_def d' g comp_def)
  ultimately show ?thesis by (simp add: db_ok_def)
next
  case False
  with assms show ?thesis by (auto simp: delete_user_def)
qed

lemma remove_member_ok:
  assumes "remove_member f actor i d = (r, d')" "db_ok L d"
  shows "db_ok L d'"
proof -
  have "d' = d \<or> d' = delete_user i (p_tenant actor) d"
    using remove_member_spec [where f = f and actor = actor and i = i and d = d] assms(1) by (auto split: sum.splits)
  with assms(2) delete_user_ok show ?thesis by blast
qed

section \<open>Links\<close>

lemma map_if_token:
  "(\<And>x. P x \<Longrightarrow> k (g x) = k x) \<Longrightarrow> map k (map (\<lambda>x. if P x then g x else x) xs) = map k xs"
  by simp

lemma create_invitation_spec:
  "case create_invitation E f rid tok now actor email role d of
     (Inl e, d') \<Rightarrow> d' = d
   | (Inr p, d') \<Rightarrow> \<exists>v. p = (tok, v) \<and> role \<noteq> Owner \<and> can_grant (p_role actor) role \<and> iv_role v = role \<and>
       iv_tenant v = p_tenant actor \<and> iv_token v = token_key E tok \<and> iv_accepted v = None \<and>
       iv_email v = normalize_email email \<and> iv_expires v = now + invitation_lifetime \<and>
       insert_invitation E v (d\<lparr>invitations := filter (\<lambda>x. \<not> (iv_tenant x = p_tenant actor \<and>
          e_lower E (iv_email x) = e_lower E (normalize_email email) \<and> iv_accepted x = None)) (invitations d)\<rparr>) = Inr d'"
  by (simp add: create_invitation_def in_tx_defs wrapped_def sql_def stmt_def Let_def split: sum.split option.split prod.split)

lemma db_ok_filter_invitations: "db_ok L d \<Longrightarrow> db_ok L (d\<lparr>invitations := filter P (invitations d)\<rparr>)"
  by (rule db_ok_invitations) (auto simp: db_ok_def invitations_ok_def)

lemma db_ok_insert_invitation:
  assumes "db_ok L d" "insert_invitation E v d = Inr d'"
  shows "db_ok L d'"
proof -
  from insert_invitation_Inr [OF assms(2)] have d': "d' = d\<lparr>invitations := invitations d @ [v]\<rparr>" by blast
  show ?thesis unfolding d'
    by (rule db_ok_invitations [OF assms(1)])
      (use assms(1) insert_invitation_Inr [OF assms(2)] in \<open>auto simp: db_ok_def invitations_ok_def\<close>)
qed

lemma create_invitation_ok:
  assumes "create_invitation E f rid tok now actor email role d = (r, d')" "db_ok L d"
  shows "db_ok L d'"
  using create_invitation_spec [where E = E and f = f and rid = rid and tok = tok and now = now and actor = actor
      and email = email and role = role and d = d] assms
  by (auto split: sum.splits dest: db_ok_insert_invitation [OF db_ok_filter_invitations])

lemma revoke_invitation_ok: "revoke_invitation f T i d = (r, d') \<Longrightarrow> db_ok L d \<Longrightarrow> db_ok L d'"
  by (auto simp: revoke_invitation_def Let_def stmt_def split: sum.splits option.splits if_splits
      intro: db_ok_filter_invitations)

lemma claim_invitation_Inr:
  "claim_invitation E f uid now db_now token hash d = Inr (v, d') \<longleftrightarrow> f 2 = None \<and> f 3 = None \<and>
     find (live_invitation E db_now token) (invitations d) = Some v \<and>
     insert_user E (invited_user v uid hash now) (d\<lparr>invitations := map (\<lambda>x. if live_invitation E db_now token x
       then x\<lparr>iv_accepted := Some now\<rparr> else x) (invitations d)\<rparr>) = Inr d'"
  by (auto simp: claim_invitation_def Let_def stmt_def split: option.splits sum.splits if_splits)

lemma claim_invitation_ok:
  assumes "claim_invitation E f uid now db_now token hash d = Inr (v, d')" "db_ok L d" "e_lower E = L"
  shows "db_ok L d' \<and> refers d' uid (iv_tenant v)"
proof -
  let ?d = "d\<lparr>invitations := map (\<lambda>x. if live_invitation E db_now token x then x\<lparr>iv_accepted := Some now\<rparr> else x) (invitations d)\<rparr>"
  from assms(1) have ins: "insert_user E (invited_user v uid hash now) ?d = Inr d'" by (simp add: claim_invitation_Inr)
  have "db_ok L ?d"
    by (rule db_ok_invitations [OF assms(2)])
      (use assms(2) in \<open>auto simp: db_ok_def invitations_ok_def comp_def if_distrib cong: if_cong\<close>)
  then have "db_ok L d'" by (rule db_ok_insert_user [OF _ ins assms(3)])
  moreover have "refers d' uid (iv_tenant v)" using ins by (auto simp: insert_user_Inr refers_def invited_user_def)
  ultimately show ?thesis by blast
qed

lemma accept_invitation_spec:
  "case accept_invitation E f rid tok now db_now token pw d of
     (Inl e, d') \<Rightarrow> d' = d \<or> (\<exists>v hash. claim_invitation E f (''usr_'' @ rid) now db_now token hash d = Inr (v, d'))
   | (Inr p, d') \<Rightarrow> \<exists>v hash d1. e_hash E pw = Inr hash \<and>
       claim_invitation E f (''usr_'' @ rid) now db_now token hash d = Inr (v, d1) \<and>
       insert_session (new_session (token_key E tok) (iv_tenant v) (''usr_'' @ rid) now) d1 = Inr d' \<and>
       p = (tok, principal_of (iv_tenant v) (iv_email v) (token_key E tok) (''usr_'' @ rid) (iv_role v))"
  by (auto simp: accept_invitation_def Let_def in_tx_defs wrapped_def stmt_def split: sum.split option.split prod.split)

lemma accept_invitation_ok:
  assumes "accept_invitation E f rid tok now db_now token pw d = (r, d')" "db_ok L d" "e_lower E = L"
  shows "db_ok L d'"
proof (cases r)
  case (Inl e)
  with accept_invitation_spec [where E = E and f = f and rid = rid and tok = tok and now = now and db_now = db_now
      and token = token and pw = pw and d = d] assms claim_invitation_ok show ?thesis by auto
next
  case (Inr p)
  with accept_invitation_spec [where E = E and f = f and rid = rid and tok = tok and now = now and db_now = db_now
      and token = token and pw = pw and d = d] assms(1)
  obtain v hash d1 where c: "claim_invitation E f (''usr_'' @ rid) now db_now token hash d = Inr (v, d1)"
      and s: "insert_session (new_session (token_key E tok) (iv_tenant v) (''usr_'' @ rid) now) d1 = Inr d'"
    by auto
  from claim_invitation_ok [OF c assms(2,3)] show ?thesis
    by (intro db_ok_insert_session [OF _ s]) simp_all
qed

lemma db_ok_insert_reset:
  assumes "db_ok L d" "insert_reset x d = Inr d'" "refers d (rs_user x) (rs_tenant x)"
  shows "db_ok L d'"
proof -
  from insert_reset_Inr [OF assms(2)] have d': "d' = d\<lparr>resets := resets d @ [x]\<rparr>" by blast
  show ?thesis unfolding d'
    by (rule db_ok_resets [OF assms(1)]) (use assms insert_reset_Inr [OF assms(2)] in \<open>auto simp: db_ok_def links_ok_def\<close>)
qed

lemma create_password_reset_spec:
  "case create_password_reset E f rid tok now tenant email d of
     (Inl e, d') \<Rightarrow> d' = d
   | (Inr p, d') \<Rightarrow> \<exists>u. find_by_email E tenant email d = Some u \<and> insert_reset \<lparr>rs_id = ''pwr_'' @ rid, rs_token = token_key E tok,
       rs_tenant = u_tenant u, rs_user = u_id u, rs_created = now, rs_expires = now + password_reset_lifetime, rs_used = None\<rparr> d = Inr d'"
  by (auto simp: create_password_reset_def Let_def stmt_def split: sum.split option.split prod.split)

lemma create_password_reset_ok:
  assumes "create_password_reset E f rid tok now tenant email d = (r, d')" "db_ok L d"
  shows "db_ok L d'"
  using create_password_reset_spec [where E = E and f = f and rid = rid and tok = tok and now = now and tenant = tenant
      and email = email and d = d] assms
  by (auto split: sum.splits intro: db_ok_insert_reset dest!: find_by_email_Some simp: refers_member)

text \<open>The database after a claimed reset.\<close>

definition reset_done :: "env \<Rightarrow> time \<Rightarrow> time \<Rightarrow> string \<Rightarrow> string \<Rightarrow> string \<Rightarrow> db \<Rightarrow> db" where
  "reset_done E now db_now token hash uid d = d\<lparr>
     users := map (\<lambda>u. if u_id u = uid then u\<lparr>u_hash := hash\<rparr> else u) (users d),
     sessions := filter (\<lambda>s. se_user s \<noteq> uid) (sessions d),
     resets := filter (\<lambda>x. \<not> (rs_user x = uid \<and> rs_used x = None))
       (map (\<lambda>x. if live_reset E db_now token x then x\<lparr>rs_used := Some now\<rparr> else x) (resets d))\<rparr>"

lemma claim_reset_Inr:
  "claim_reset E f now db_now token hash d = Inr (w, d') \<longleftrightarrow> f 2 = None \<and> f 3 = None \<and> f 4 = None \<and> f 5 = None \<and> hash \<noteq> '''' \<and>
     (\<exists>r. find (live_reset E db_now token) (resets d) = Some r \<and> d' = reset_done E now db_now token hash (rs_user r) d)"
  by (auto simp: claim_reset_def Let_def sql_def stmt_def update_hash_def reset_done_def split: option.splits sum.splits if_splits)

lemma reset_done_ok:
  assumes "db_ok L d" "hash \<noteq> ''''"
  shows "db_ok L (reset_done E now db_now token hash uid d)"
proof -
  define g where "g = (\<lambda>u. if u_id u = uid then u\<lparr>u_hash := hash\<rparr> else (u :: user_row))"
  define h where "h = (\<lambda>x. if live_reset E db_now token x then x\<lparr>rs_used := Some now\<rparr> else (x :: reset_row))"
  have h: "rs_user (h x) = rs_user x" "rs_tenant (h x) = rs_tenant x" "rs_token (h x) = rs_token x" for x
    by (simp_all add: h_def)
  let ?d1 = "d\<lparr>users := map g (users d)\<rparr>"
  have d1: "db_ok L ?d1"
    by (rule db_ok_map_users [OF assms(1)]) (use assms in \<open>auto simp: g_def db_ok_def users_ok_def\<close>)
  let ?d2 = "?d1\<lparr>sessions := filter (\<lambda>s. se_user s \<noteq> uid) (sessions ?d1)\<rparr>"
  have d2: "db_ok L ?d2" by (rule db_ok_filter_sessions [OF d1])
  have "db_ok L (?d2\<lparr>resets := filter (\<lambda>x. \<not> (rs_user x = uid \<and> rs_used x = None)) (map h (resets d))\<rparr>)"
    by (rule db_ok_resets [OF d2])
      (use d2 in \<open>auto simp: db_ok_def links_ok_def h comp_def intro!: distinct_map_filter\<close>)
  then show ?thesis by (simp add: reset_done_def g_def h_def)
qed

lemma reset_password_spec:
  "case reset_password E f now db_now token pw d of
     (Inl e, d') \<Rightarrow> d' = d
   | (Inr _, d') \<Rightarrow> \<exists>hash r. e_hash E pw = Inr hash \<and> hash \<noteq> '''' \<and> find (live_reset E db_now token) (resets d) = Some r \<and>
       d' = reset_done E now db_now token hash (rs_user r) d"
  by (auto simp: reset_password_def in_tx_defs wrapped_def claim_reset_Inr [THEN iffD1] split: sum.split option.split prod.split
      dest!: claim_reset_Inr [THEN iffD1])

lemma reset_password_ok:
  assumes "reset_password E f now db_now token pw d = (r, d')" "db_ok L d"
  shows "db_ok L d'"
  using reset_password_spec [where E = E and f = f and now = now and db_now = db_now and token = token and pw = pw and d = d]
    assms by (auto split: sum.splits intro: reset_done_ok)

lemma db_ok_insert_verification:
  assumes "db_ok L d" "insert_verification x d = Inr d'" "refers d (ev_user x) (ev_tenant x)"
  shows "db_ok L d'"
proof -
  from insert_verification_Inr [OF assms(2)] have d': "d' = d\<lparr>verifications := verifications d @ [x]\<rparr>" by blast
  show ?thesis unfolding d'
    by (rule db_ok_verifications [OF assms(1)])
      (use assms insert_verification_Inr [OF assms(2)] in \<open>auto simp: db_ok_def links_ok_def\<close>)
qed

lemma db_ok_filter_verifications: "db_ok L d \<Longrightarrow> db_ok L (d\<lparr>verifications := filter P (verifications d)\<rparr>)"
  by (rule db_ok_verifications) (auto simp: db_ok_def links_ok_def)

lemma create_email_verification_spec:
  "case create_email_verification E f rid tok now T uid d of
     (r, d') \<Rightarrow> d' = d \<or> (\<exists>u. find_member T uid d = Some u \<and>
       (let d1 = d\<lparr>verifications := filter (\<lambda>v. \<not> (ev_user v = uid \<and> ev_used v = None)) (verifications d)\<rparr> in
        d' = d1 \<or> insert_verification \<lparr>ev_id = ''evr_'' @ rid, ev_token = token_key E tok, ev_tenant = T,
          ev_user = uid, ev_email = u_email u, ev_created = now,
          ev_expires = now + email_verification_lifetime, ev_used = None\<rparr> d1 = Inr d'))"
  by (auto simp: create_email_verification_def Let_def stmt_def split: sum.split option.split prod.split)

lemma create_email_verification_ok:
  assumes "create_email_verification E f rid tok now T uid d = (r, d')" "db_ok L d"
  shows "db_ok L d'"
proof -
  define d1 where "d1 = d\<lparr>verifications := filter (\<lambda>v. \<not> (ev_user v = uid \<and> ev_used v = None)) (verifications d)\<rparr>"
  have d1: "db_ok L d1" unfolding d1_def by (rule db_ok_filter_verifications [OF assms(2)])
  have ref: "find_member T uid d = Some u \<Longrightarrow> refers d1 uid T" for u
    by (auto simp: refers_def d1_def dest: find_member_Some)
  show ?thesis
    using create_email_verification_spec [where E = E and f = f and rid = rid and tok = tok and now = now and T = T
        and uid = uid and d = d, folded d1_def] assms ref d1
    by (auto intro: db_ok_insert_verification [OF d1])
qed

lemma claim_verification_Inr:
  "claim_verification E f now db_now token d = Inr (mail, d') \<Longrightarrow>
     \<exists>v u. find (live_verification E db_now token) (verifications d) = Some v \<and> find (\<lambda>u. u_id u = ev_user v) (users d) = Some u \<and>
       mail = u_email u \<and> e_fold E (u_email u) (ev_email v) \<and>
       d' = mark_email_verified (ev_user v) now (d\<lparr>verifications := map (\<lambda>x. if live_verification E db_now token x
         then x\<lparr>ev_used := Some now\<rparr> else x) (verifications d)\<rparr>)"
  by (auto simp: claim_verification_def Let_def sql_def stmt_def split: option.splits sum.splits if_splits)

lemma verify_email_spec:
  "case verify_email E f now db_now token d of
     (Inl e, d') \<Rightarrow> d' = d
   | (Inr mail, d') \<Rightarrow> claim_verification E f now db_now token d = Inr (mail, d')"
  by (auto simp: verify_email_def in_tx_defs wrapped_def split: sum.split option.split prod.split)

lemma claim_verification_ok:
  assumes "claim_verification E f now db_now token d = Inr (mail, d')" "db_ok L d"
  shows "db_ok L d'"
proof -
  let ?d1 = "d\<lparr>verifications := map (\<lambda>x. if live_verification E db_now token x then x\<lparr>ev_used := Some now\<rparr> else x) (verifications d)\<rparr>"
  from claim_verification_Inr [OF assms(1)] obtain v :: verification_row
    where d': "d' = mark_email_verified (ev_user v) now ?d1" by blast
  have d1: "db_ok L ?d1"
    by (rule db_ok_verifications [OF assms(2)])
      (use assms(2) in \<open>auto simp: db_ok_def links_ok_def comp_def if_distrib cong: if_cong\<close>)
  show ?thesis unfolding d' mark_email_verified_def
    by (rule db_ok_map_users [OF d1]) (use d1 in \<open>auto simp: db_ok_def users_ok_def\<close>)
qed

lemma verify_email_ok:
  assumes "verify_email E f now db_now token d = (r, d')" "db_ok L d"
  shows "db_ok L d'"
  using verify_email_spec [where E = E and f = f and now = now and db_now = db_now and token = token and d = d] assms
  by (cases r) (auto dest: claim_verification_ok)

section \<open>Every link is used once\<close>

text \<open>The three claims provide the contract of a single-use link.\<close>

lemma claim_reset_resets:
  "claim_reset E f now db_now token hash d = Inr (w, d') \<Longrightarrow> \<exists>r. find (live_reset E db_now token) (resets d) = Some r \<and>
     set (resets d') \<subseteq> set (map (\<lambda>x. if live_reset E db_now token x then x\<lparr>rs_used := Some now\<rparr> else x) (resets d))"
  by (auto simp: claim_reset_Inr reset_done_def)

interpretation reset_link: single_use "db_ok (e_lower E)"
  "\<lambda>(f, now, db_now, token, hash). claim_reset E f now db_now token hash"
  "\<lambda>(f, now, db_now, token, hash). token_key E token"
  "\<lambda>k d. \<exists>r \<in> set (resets d). rs_token r = k \<and> rs_used r = None" for E
proof (unfold_locales, goal_cases)
  case (1 c s a s')
  then show ?case by (cases c) (fastforce simp: claim_reset_Inr live_reset_def dest: find_SomeD)
next
  case (2 s c a s')
  obtain f now db_now token hash where c: "c = (f, now, db_now, token, hash)" by (cases c)
  from 2(2) claim_reset_resets obtain r where r: "find (live_reset E db_now token) (resets s) = Some r"
      "set (resets s') \<subseteq> set (map (\<lambda>x. if live_reset E db_now token x then x\<lparr>rs_used := Some now\<rparr> else x) (resets s))"
    unfolding c by fastforce
  have "distinct (map rs_token (resets s))" using 2(1) by (simp add: db_ok_def links_ok_def)
  moreover have "rs_token r = token_key E token" using find_SomeD [OF r(1)] by (simp add: live_reset_def)
  ultimately show ?case
    using spent_row [where k = rs_token and P = "live_reset E db_now token" and g = "\<lambda>x. x\<lparr>rs_used := Some now\<rparr>"
        and used = "\<lambda>x. rs_used x \<noteq> None", OF _ r(1)] r(2) by (auto simp: c subset_iff)
next
  case (3 s c a s' k)
  obtain f now db_now token hash where c: "c = (f, now, db_now, token, hash)" by (cases c)
  with 3 show ?case by (auto simp: claim_reset_Inr reset_done_def)
next
  case (4 s c a s')
  then show ?case by (cases c) (auto simp: claim_reset_Inr reset_done_ok)
qed

lemma claim_invitation_rows:
  "claim_invitation E f uid now db_now token hash d = Inr (v, d') \<Longrightarrow> find (live_invitation E db_now token) (invitations d) = Some v \<and>
     invitations d' = map (\<lambda>x. if live_invitation E db_now token x then x\<lparr>iv_accepted := Some now\<rparr> else x) (invitations d)"
  by (simp add: claim_invitation_Inr insert_user_Inr)

interpretation invitation_link: single_use "db_ok (e_lower E)"
  "\<lambda>(f, uid, now, db_now, token, hash). claim_invitation E f uid now db_now token hash"
  "\<lambda>(f, uid, now, db_now, token, hash). token_key E token"
  "\<lambda>k d. \<exists>v \<in> set (invitations d). iv_token v = k \<and> iv_accepted v = None" for E
proof (unfold_locales, goal_cases)
  case (1 c s a s')
  then show ?case by (cases c) (fastforce simp: claim_invitation_Inr live_invitation_def dest: find_SomeD)
next
  case (2 s c a s')
  obtain f uid now db_now token hash where c: "c = (f, uid, now, db_now, token, hash)" by (cases c)
  from 2(2) have r: "find (live_invitation E db_now token) (invitations s) = Some a"
      "invitations s' = map (\<lambda>x. if live_invitation E db_now token x then x\<lparr>iv_accepted := Some now\<rparr> else x) (invitations s)"
    unfolding c by (auto dest: claim_invitation_rows)
  have dist: "distinct (map iv_token (invitations s))" using 2(1) by (simp add: db_ok_def invitations_ok_def)
  have key: "iv_token a = token_key E token" using find_SomeD [OF r(1)] by (simp add: live_invitation_def)
  have "iv_accepted y \<noteq> None" if "y \<in> set (invitations s')" "iv_token y = token_key E token" for y
    by (rule spent_row [OF dist r(1), where g = "\<lambda>x. x\<lparr>iv_accepted := Some now\<rparr>" and used = "\<lambda>x. iv_accepted x \<noteq> None"])
      (use that key r(2) in simp_all)
  then show ?case by (auto simp: c)
next
  case (3 s c a s' k)
  obtain f uid now db_now token hash where c: "c = (f, uid, now, db_now, token, hash)" by (cases c)
  from 3(2) have "invitations s' = map (\<lambda>x. if live_invitation E db_now token x then x\<lparr>iv_accepted := Some now\<rparr> else x) (invitations s)"
    unfolding c by (simp add: claim_invitation_rows)
  with 3(3) show ?case by (auto split: if_splits)
next
  case (4 s c a s')
  then show ?case by (cases c) (auto dest: claim_invitation_ok)
qed

interpretation verification_link: single_use "db_ok (e_lower E)"
  "\<lambda>(f, now, db_now, token). claim_verification E f now db_now token"
  "\<lambda>(f, now, db_now, token). token_key E token"
  "\<lambda>k d. \<exists>v \<in> set (verifications d). ev_token v = k \<and> ev_used v = None" for E
proof (unfold_locales, goal_cases)
  case (1 c s a s')
  then show ?case by (cases c) (fastforce dest!: claim_verification_Inr simp: live_verification_def dest: find_SomeD)
next
  case (2 s c a s')
  obtain f now db_now token where c: "c = (f, now, db_now, token)" by (cases c)
  from 2(2) obtain v :: verification_row where r: "find (live_verification E db_now token) (verifications s) = Some v"
      "verifications s' = map (\<lambda>x. if live_verification E db_now token x then x\<lparr>ev_used := Some now\<rparr> else x) (verifications s)"
    unfolding c by (auto dest!: claim_verification_Inr simp: mark_email_verified_def)
  have dist: "distinct (map ev_token (verifications s))" using 2(1) by (simp add: db_ok_def links_ok_def)
  have key: "ev_token v = token_key E token" using find_SomeD [OF r(1)] by (simp add: live_verification_def)
  have "ev_used y \<noteq> None" if "y \<in> set (verifications s')" "ev_token y = token_key E token" for y
    by (rule spent_row [OF dist r(1), where g = "\<lambda>x. x\<lparr>ev_used := Some now\<rparr>" and used = "\<lambda>x. ev_used x \<noteq> None"])
      (use that key r(2) in simp_all)
  then show ?case by (auto simp: c)
next
  case (3 s c a s' k)
  obtain f now db_now token where c: "c = (f, now, db_now, token)" by (cases c)
  with 3 show ?case by (auto dest!: claim_verification_Inr simp: mark_email_verified_def)
next
  case (4 s c a s')
  obtain f now db_now token where c: "c = (f, now, db_now, token)" by (cases c)
  with 4 show ?case by (auto dest: claim_verification_ok)
qed

section \<open>Steps\<close>

text \<open>One operation on the database, with any fault, any random values and any clocks; \<open>L\<close> is the database's
\<open>lower\<close>, the one function of the environment the tables depend on.\<close>

inductive auth_step :: "(string \<Rightarrow> string) \<Rightarrow> db \<Rightarrow> db \<Rightarrow> bool" for L where
  create_tenant: "create_tenant f i name now d = (r, d') \<Longrightarrow> auth_step L d d'"
| create_user: "e_lower E = L \<Longrightarrow> create_user E f rid now T email pw role d = (r, d') \<Longrightarrow> auth_step L d d'"
| login: "e_lower E = L \<Longrightarrow> login E f tok now T email pw d = (r, d') \<Longrightarrow> auth_step L d d'"
| logout: "logout E f token d = (r, d') \<Longrightarrow> auth_step L d d'"
| sign_up: "e_lower E = L \<Longrightarrow> sign_up E f orid urid tok now name email pw d = (r, d') \<Longrightarrow> auth_step L d d'"
| remember_subject: "remember_subject f T ref pinned d = (r, d') \<Longrightarrow> auth_step L d d'"
| set_role: "set_role f actor i nr d = (r, d') \<Longrightarrow> auth_step L d d'"
| remove_member: "remove_member f actor i d = (r, d') \<Longrightarrow> auth_step L d d'"
| set_autonomy: "set_autonomy f T level d = (r, d') \<Longrightarrow> auth_step L d d'"
| create_invitation: "e_lower E = L \<Longrightarrow> create_invitation E f rid tok now actor email role d = (r, d') \<Longrightarrow> auth_step L d d'"
| revoke_invitation: "revoke_invitation f T i d = (r, d') \<Longrightarrow> auth_step L d d'"
| accept_invitation: "e_lower E = L \<Longrightarrow> accept_invitation E f rid tok now db_now token pw d = (r, d') \<Longrightarrow> auth_step L d d'"
| create_password_reset: "e_lower E = L \<Longrightarrow> create_password_reset E f rid tok now T email d = (r, d') \<Longrightarrow> auth_step L d d'"
| reset_password: "e_lower E = L \<Longrightarrow> reset_password E f now db_now token pw d = (r, d') \<Longrightarrow> auth_step L d d'"
| create_email_verification:
    "e_lower E = L \<Longrightarrow> create_email_verification E f rid tok now T uid d = (r, d') \<Longrightarrow> auth_step L d d'"
| verify_email: "e_lower E = L \<Longrightarrow> verify_email E f now db_now token d = (r, d') \<Longrightarrow> auth_step L d d'"

inductive identity_reachable :: "(string \<Rightarrow> string) \<Rightarrow> db \<Rightarrow> bool" for L where
  initial: "identity_reachable L empty_db"
| step_on: "identity_reachable L d \<Longrightarrow> auth_step L d d' \<Longrightarrow> identity_reachable L d'"

lemmas auth_ops_ok = create_tenant_ok create_user_ok login_ok logout_ok sign_up_ok remember_subject_ok set_role_ok
  remove_member_ok set_autonomy_ok create_invitation_ok revoke_invitation_ok accept_invitation_ok create_password_reset_ok
  reset_password_ok create_email_verification_ok verify_email_ok

lemma auth_step_ok: "auth_step L d d' \<Longrightarrow> db_ok L d \<Longrightarrow> db_ok L d'"
  by (induction rule: auth_step.induct) (fact auth_ops_ok auth_ops_ok | erule (2) auth_ops_ok | erule (1) auth_ops_ok)+

lemma identity_reachable_ok: "identity_reachable L d \<Longrightarrow> db_ok L d"
  by (induction rule: identity_reachable.induct) (auto intro: empty_db_ok auth_step_ok)

end
