(* ===== verification/Identity_Props.thy ===== *)
theory Identity_Props
  imports Identity_Inv
begin

text \<open>
  The properties of the identity store: its tables, ownership of an organization, who may change whom, single-use
  links, and what a session and a sign-in answer.
\<close>

section \<open>A sample organization\<close>

definition sample_env :: env where
  "sample_env = \<lparr>e_sha = (\<lambda>s. ''h:'' @ s), e_lower = (\<lambda>s. s), e_fold = (=), e_hash = (\<lambda>p. Inr (''k:'' @ p)),
     e_verify = (\<lambda>p h. if h = ''k:'' @ p then None else Some (ErrWrongPassword, ''auth: password does not match'')),
     e_dummy = ''k:a-password-nobody-has-ever-used''\<rparr>"

definition org_db :: db where
  "org_db = \<lparr>tenants = [\<lparr>tn_id = ''org_1'', tn_name = ''Acme'', tn_created = 1, tn_created_by = Some ''o@x'', tn_autonomy = ''supervised'',
       tn_subject = None, tn_revision = None\<rparr>],
     users = [\<lparr>u_id = ''usr_1'', u_tenant = ''org_1'', u_email = ''o@x'', u_hash = ''k:owner-password'', u_role = ''owner'',
       u_created = 1, u_verified = None\<rparr>],
     sessions = [new_session ''h:t1'' ''org_1'' ''usr_1'' 1], invitations = [], resets = [], verifications = []\<rparr>"

lemma org_sign_up:
  "sign_up sample_env no_faults ''1'' ''1'' ''t1'' 1 '' Acme '' '' o@x'' ''owner-password'' empty_db =
     (Inr (''t1'', \<lparr>p_tenant = ''org_1'', p_subject = ''o@x'', p_user = ''usr_1'', p_session = ''h:t1'', p_role = ''owner''\<rparr>), org_db)"
  by code_simp

lemma sample_lower: "e_lower sample_env = (\<lambda>s. s)"
  by (simp add: sample_env_def)

lemma org_reachable: "identity_reachable (\<lambda>s. s) org_db"
  by (rule identity_reachable.step_on [OF identity_reachable.initial auth_step.sign_up [OF sample_lower org_sign_up]])

definition owner_principal :: principal where
  "owner_principal = principal_of ''org_1'' ''o@x'' ''h:t1'' ''usr_1'' ''owner''"

definition invited_db :: db where
  "invited_db = snd (create_invitation sample_env no_faults ''1'' ''i1'' 5 owner_principal ''m@x'' ''admin'' org_db)"

definition joined_db :: db where
  "joined_db = snd (accept_invitation sample_env no_faults ''2'' ''t2'' 6 6 ''i1'' ''admin-password'' invited_db)"

lemma invited_reachable: "identity_reachable (\<lambda>s. s) invited_db"
proof -
  obtain r d where "create_invitation sample_env no_faults ''1'' ''i1'' 5 owner_principal ''m@x'' ''admin'' org_db = (r, d)"
    by (rule prod.exhaust)
  then show ?thesis unfolding invited_db_def
    by (auto intro: identity_reachable.step_on [OF org_reachable auth_step.create_invitation [OF sample_lower]])
qed

lemma joined_reachable: "identity_reachable (\<lambda>s. s) joined_db"
proof -
  obtain r d where "accept_invitation sample_env no_faults ''2'' ''t2'' 6 6 ''i1'' ''admin-password'' invited_db = (r, d)"
    by (rule prod.exhaust)
  then show ?thesis unfolding joined_db_def
    by (auto intro: identity_reachable.step_on [OF invited_reachable auth_step.accept_invitation [OF sample_lower]])
qed

section \<open>The tables\<close>

text \<open>C5. In every database the operations reach, account ids and addresses (compared as the database compares them) are
unique, every account holds a known role in an existing organization, no invitation grants ownership, and every session,
reset and confirmation belongs to an existing account of its organization.\<close>

theorem identity_tables_sound:
  assumes "identity_reachable L d"
  shows "distinct (map u_id (users d)) \<and> distinct (map (\<lambda>u. L (u_email u)) (users d)) \<and>
    (\<forall>u \<in> set (users d). u_role u \<in> set roles \<and> u_tenant u \<in> tn_id ` set (tenants d)) \<and>
    (\<forall>v \<in> set (invitations d). iv_role v \<in> set roles - {Owner}) \<and>
    (\<forall>s \<in> set (sessions d). \<exists>u \<in> set (users d). u_id u = se_user s \<and> u_tenant u = se_tenant s) \<and>
    (\<forall>r \<in> set (resets d). \<exists>u \<in> set (users d). u_id u = rs_user r \<and> u_tenant u = rs_tenant r) \<and>
    (\<forall>v \<in> set (verifications d). \<exists>u \<in> set (users d). u_id u = ev_user v \<and> u_tenant u = ev_tenant v)"
  using identity_reachable_ok [OF assms]
  by (auto simp: db_ok_def users_ok_def links_ok_def invitations_ok_def refers_def roles_def valid_role_iff)

theorem identity_tables_sound_witness:
  "distinct (map u_id (users joined_db)) \<and> map u_role (users joined_db) = [''owner'', ''admin'']"
proof -
  have "map u_role (users joined_db) = [''owner'', ''admin'']" by code_simp
  with identity_tables_sound [OF joined_reachable] show ?thesis by blast
qed

section \<open>Ownership\<close>

lemma has_owner_superset: "has_owner d T \<Longrightarrow> set (users d) \<subseteq> set (users d') \<Longrightarrow> has_owner d' T"
  by (auto simp: has_owner_def)

lemma has_owner_map:
  "has_owner d T \<Longrightarrow> users d' = map g (users d) \<Longrightarrow> (\<And>u. u_tenant (g u) = u_tenant u \<and> u_role (g u) = u_role u) \<Longrightarrow> has_owner d' T"
  by (auto simp: has_owner_def)

text \<open>A member whose removal or demotion was allowed leaves another owner behind.\<close>

lemma another_owner:
  assumes "db_ok L d" "has_owner d T" "find_member S i d = Some u"
    "\<not> (role_of (u_role u) = Owner \<and> last_owner (owner_ids d S) i)"
  obtains v where "v \<in> set (users d)" "u_id v \<noteq> i" "u_tenant v = T" "u_role v = Owner"
proof -
  from find_member_Some [OF assms(3)] have um: "u \<in> set (users d)" "u_id u = i" "u_tenant u = S" by auto
  have ok: "users_ok L d" using assms(1) by (rule db_okD)
  from um(1) ok have role: "role_of (u_role u) = u_role u" by (simp add: users_ok_def)
  from assms(2) obtain w where w: "w \<in> set (users d)" "u_tenant w = T" "u_role w = Owner" by (auto simp: has_owner_def)
  have "\<exists>v \<in> set (users d). u_id v \<noteq> i \<and> u_tenant v = T \<and> u_role v = Owner"
  proof (cases "u_id w = i")
    case True
    have "w = u" using same_row(1) [OF assms(1) w(1) um(1)] um(2) True by simp
    with w um assms(4) role have "\<not> last_owner (owner_ids d T) (u_id u)" "u_tenant u = T" "u_role u = Owner" by auto
    from not_last_owner [OF ok um(1) this(2,3,1)] um(2) show ?thesis by auto
  qed (use w in blast)
  then show ?thesis using that by blast
qed

lemma set_role_owner:
  assumes "set_role f actor i nr d = (r, d')" "db_ok L d" "has_owner d T"
  shows "has_owner d' T"
proof (cases "d' = d")
  case False
  with set_role_spec [where f = f and actor = actor and i = i and nr = nr and d = d] assms(1)
  obtain u where u: "find_member (p_tenant actor) i d = Some u" and up: "update_role nr i (p_tenant actor) d = Inr d'"
      and last: "\<not> (role_of (u_role u) = Owner \<and> last_owner (owner_ids d (p_tenant actor)) i)" by (auto split: sum.splits)
  from another_owner [OF assms(2,3) u last] obtain v where "v \<in> set (users d)" "u_id v \<noteq> i" "u_tenant v = T" "u_role v = Owner" .
  with up show ?thesis by (force simp: has_owner_def update_role_Inr)
qed (use assms(3) in simp)

lemma remove_member_owner:
  assumes "remove_member f actor i d = (r, d')" "db_ok L d" "has_owner d T"
  shows "has_owner d' T"
proof (cases "d' = d")
  case False
  with remove_member_spec [where f = f and actor = actor and i = i and d = d] assms(1)
  obtain u where u: "find_member (p_tenant actor) i d = Some u" and d': "d' = delete_user i (p_tenant actor) d"
      and last: "\<not> (role_of (u_role u) = Owner \<and> last_owner (owner_ids d (p_tenant actor)) i)" by (auto split: sum.splits)
  from another_owner [OF assms(2,3) u last] obtain v where "v \<in> set (users d)" "u_id v \<noteq> i" "u_tenant v = T" "u_role v = Owner" .
  with d' show ?thesis by (auto simp: has_owner_def delete_user_def)
qed (use assms(3) in simp)

text \<open>The operations that never change an existing account, and those that change no role.\<close>

lemma accounts_kept:
  "create_tenant f i name now d = (r1, d') \<Longrightarrow> set (users d) \<subseteq> set (users d')"
  "create_user E f rid now T email pw role d = (r2, d') \<Longrightarrow> set (users d) \<subseteq> set (users d')"
  "logout E f token d = (r3, d') \<Longrightarrow> set (users d) \<subseteq> set (users d')"
  "remember_subject f T ref pinned d = (r4, d') \<Longrightarrow> set (users d) \<subseteq> set (users d')"
  "set_autonomy f T level d = (r5, d') \<Longrightarrow> set (users d) \<subseteq> set (users d')"
  "revoke_invitation f T i d = (r6, d') \<Longrightarrow> set (users d) \<subseteq> set (users d')"
  by (auto simp: create_tenant_def insert_tenant_Inr create_user_def insert_user_Inr Let_def logout_def remember_subject_def
      set_autonomy_def revoke_invitation_def stmt_def split: if_splits sum.splits option.splits)

lemma login_accounts: "login E f tok now T email pw d = (r, d') \<Longrightarrow> users d' = users d"
  by (cases r) (auto dest: login_Inl elim!: login_Inr simp: insert_session_Inr)

lemma sign_up_accounts: "sign_up E f orid urid tok now name email pw d = (r, d') \<Longrightarrow> set (users d) \<subseteq> set (users d')"
  using sign_up_spec [where E = E and f = f and orid = orid and urid = urid and tok = tok and now = now
      and name = name and email = email and pw = pw and d = d]
  by (auto simp: insert_tenant_Inr insert_user_Inr insert_session_Inr split: sum.splits)

lemma create_invitation_accounts: "create_invitation E f rid tok now actor email role d = (r, d') \<Longrightarrow> users d' = users d"
  using create_invitation_spec [where E = E and f = f and rid = rid and tok = tok and now = now and actor = actor
      and email = email and role = role and d = d]
  by (auto split: sum.splits dest: insert_invitation_Inr)

lemma claim_invitation_accounts:
  "claim_invitation E f uid now db_now token hash d = Inr (v, d') \<Longrightarrow> users d' = users d @ [invited_user v uid hash now]"
  by (simp add: claim_invitation_Inr insert_user_Inr)

lemma accept_invitation_accounts:
  "accept_invitation E f rid tok now db_now token pw d = (r, d') \<Longrightarrow> set (users d) \<subseteq> set (users d')"
  using accept_invitation_spec [where E = E and f = f and rid = rid and tok = tok and now = now and db_now = db_now
      and token = token and pw = pw and d = d]
  by (auto split: sum.splits dest!: claim_invitation_accounts simp: insert_session_Inr)

lemma create_password_reset_accounts: "create_password_reset E f rid tok now T email d = (r, d') \<Longrightarrow> users d' = users d"
  using create_password_reset_spec [where E = E and f = f and rid = rid and tok = tok and now = now and tenant = T
      and email = email and d = d]
  by (auto split: sum.splits dest: insert_reset_Inr)

lemma create_email_verification_accounts:
  "create_email_verification E f rid tok now T uid d = (r, d') \<Longrightarrow> users d' = users d"
  using create_email_verification_spec [where E = E and f = f and rid = rid and tok = tok and now = now and T = T
      and uid = uid and d = d]
  by (auto simp: Let_def dest: insert_verification_Inr)

lemma has_owner_reset_done: "has_owner d T \<Longrightarrow> has_owner (reset_done E now db_now token hash uid d) T"
  by (rule has_owner_map [where g = "\<lambda>u. if u_id u = uid then u\<lparr>u_hash := hash\<rparr> else u"]) (simp_all add: reset_done_def)

lemma has_owner_verified: "has_owner d T \<Longrightarrow> has_owner (mark_email_verified uid at d) T"
  by (rule has_owner_map [where g = "\<lambda>u. if u_id u = uid \<and> u_verified u = None then u\<lparr>u_verified := Some at\<rparr> else u"])
    (simp_all add: mark_email_verified_def)

lemma has_owner_users: "users d' = users d \<Longrightarrow> has_owner d' T = has_owner d T"
  by (simp add: has_owner_def)

lemma reset_password_owner:
  "reset_password E f now db_now token pw d = (r, d') \<Longrightarrow> has_owner d T \<Longrightarrow> has_owner d' T"
  using reset_password_spec [where E = E and f = f and now = now and db_now = db_now and token = token and pw = pw and d = d]
  by (auto split: sum.splits intro: has_owner_reset_done)

lemma verify_email_owner:
  assumes "verify_email E f now db_now token d = (r, d')" "has_owner d T"
  shows "has_owner d' T"
proof (cases r)
  case (Inl e)
  with verify_email_spec [where E = E and f = f and now = now and db_now = db_now and token = token and d = d] assms
  show ?thesis by simp
next
  case (Inr mail)
  with verify_email_spec [where E = E and f = f and now = now and db_now = db_now and token = token and d = d] assms(1)
  have "claim_verification E f now db_now token d = Inr (mail, d')" by simp
  from claim_verification_Inr [OF this] obtain v :: verification_row
    where "d' = mark_email_verified (ev_user v) now (d\<lparr>verifications := map (\<lambda>x. if live_verification E db_now token x
       then x\<lparr>ev_used := Some now\<rparr> else x) (verifications d)\<rparr>)" by blast
  moreover have "has_owner (d\<lparr>verifications := vs\<rparr>) T" for vs using assms(2) by (simp add: has_owner_def)
  ultimately show ?thesis by (simp add: has_owner_verified)
qed

lemmas change_owner = set_role_owner remove_member_owner

lemmas owner_rules = reset_password_owner verify_email_owner
  accounts_kept [THEN has_owner_superset [rotated]] sign_up_accounts [THEN has_owner_superset [rotated]]
  accept_invitation_accounts [THEN has_owner_superset [rotated]]
  login_accounts [THEN has_owner_users, THEN iffD2] create_invitation_accounts [THEN has_owner_users, THEN iffD2]
  create_password_reset_accounts [THEN has_owner_users, THEN iffD2]
  create_email_verification_accounts [THEN has_owner_users, THEN iffD2]

text \<open>C6. An organization that has an owner always keeps one: no operation, whoever runs it and whatever fails in it,
leaves an organization without the owner it had.\<close>

theorem organization_keeps_an_owner:
  assumes "identity_reachable L d" "\<exists>u \<in> set (users d). u_tenant u = T \<and> u_role u = Owner" "auth_step L d d'"
  shows "\<exists>u \<in> set (users d'). u_tenant u = T \<and> u_role u = Owner"
proof -
  have ok: "db_ok L d" by (rule identity_reachable_ok [OF assms(1)])
  have "has_owner d T" using assms(2) by (simp add: has_owner_def)
  from assms(3) ok this have "has_owner d' T"
    by cases (erule (2) change_owner | erule (1) owner_rules)+
  then show ?thesis by (simp add: has_owner_def)
qed

theorem organization_keeps_an_owner_witness:
  "\<exists>u \<in> set (users (snd (remove_member no_faults owner_principal ''usr_1'' joined_db))). u_tenant u = ''org_1'' \<and> u_role u = Owner"
proof -
  obtain r d where rd: "remove_member no_faults owner_principal ''usr_1'' joined_db = (r, d)" by (rule prod.exhaust)
  have "u_tenant (users joined_db ! 0) = ''org_1'' \<and> u_role (users joined_db ! 0) = Owner \<and> length (users joined_db) > 0" by code_simp
  then have "\<exists>u \<in> set (users joined_db). u_tenant u = ''org_1'' \<and> u_role u = Owner" by (metis nth_mem)
  from organization_keeps_an_owner [OF joined_reachable this auth_step.remove_member [OF rd]] rd show ?thesis by simp
qed

section \<open>Who may change whom\<close>

text \<open>C7. A change of role or a removal that succeeds was made by an owner, or by an admin on somebody who is not an owner
and without granting ownership, inside the actor's own organization; it changes that one account and nobody else's,
and a change that fails changes nothing.\<close>

theorem member_changes_authorized:
  assumes "identity_reachable L d" "set_role f actor i nr d = (r, d') \<or> remove_member f actor i d = (r, d')" "d' \<noteq> d"
  shows "r = Inr () \<and>
    (\<exists>u \<in> set (users d). u_id u = i \<and> u_tenant u = p_tenant actor \<and>
      (p_role actor = Owner \<or> p_role actor = Admin \<and> u_role u \<noteq> Owner) \<and>
      (\<forall>v \<in> set (users d). v \<noteq> u \<longrightarrow> v \<in> set (users d')) \<and>
      (\<forall>v \<in> set (users d'). v \<in> set (users d) \<or>
         v = u\<lparr>u_role := nr\<rparr> \<and> (p_role actor = Owner \<or> nr \<noteq> Owner)))"
proof -
  note changed = assms(3)
  have dbok: "db_ok L d" by (rule identity_reachable_ok [OF assms(1)])
  have ok: "users_ok L d" using identity_reachable_ok [OF assms(1)] by (rule db_okD)
  from assms(2) show ?thesis
  proof
    assume run: "set_role f actor i nr d = (r, d')"
    with set_role_spec [where f = f and actor = actor and i = i and nr = nr and d = d] changed
    obtain u where r: "r = Inr ()" and u: "find_member (p_tenant actor) i d = Some u" and may: "can_manage (p_role actor) (role_of (u_role u))"
        "can_grant (p_role actor) nr" and up: "update_role nr i (p_tenant actor) d = Inr d'"
      by (auto split: sum.splits)
    from find_member_Some [OF u] have um: "u \<in> set (users d)" "u_id u = i" "u_tenant u = p_tenant actor" by auto
    have role: "role_of (u_role u) = u_role u" using um(1) ok by (simp add: users_ok_def)
    have uniq: "v = u" if "v \<in> set (users d)" "u_id v = i" for v
      using same_row(1) [OF dbok that(1) um(1)] that(2) um(2) by simp
    have users: "set (users d') = (\<lambda>v. if u_id v = i \<and> u_tenant v = p_tenant actor then v\<lparr>u_role := nr\<rparr> else v) ` set (users d)"
      using up by (simp add: update_role_Inr)
    have "\<forall>v \<in> set (users d). v \<noteq> u \<longrightarrow> v \<in> set (users d')"
      unfolding users using uniq by (auto simp: image_iff)
    moreover have "\<forall>v \<in> set (users d'). v \<in> set (users d) \<or> v = u\<lparr>u_role := nr\<rparr> \<and> (p_role actor = Owner \<or> nr \<noteq> Owner)"
      unfolding users using uniq may(2) by (auto simp: can_grant_def can_manage_iff)
    ultimately show ?thesis using um r may(1) role changed by (auto simp: can_manage_iff)
  next
    assume run: "remove_member f actor i d = (r, d')"
    with remove_member_spec [where f = f and actor = actor and i = i and d = d] changed
    obtain u where r: "r = Inr ()" and u: "find_member (p_tenant actor) i d = Some u" and may: "can_manage (p_role actor) (role_of (u_role u))"
        and d': "d' = delete_user i (p_tenant actor) d"
      by (auto split: sum.splits)
    from find_member_Some [OF u] have um: "u \<in> set (users d)" "u_id u = i" "u_tenant u = p_tenant actor" by auto
    have role: "role_of (u_role u) = u_role u" using um(1) ok by (simp add: users_ok_def)
    have uniq: "v = u" if "v \<in> set (users d)" "u_id v = i" for v
      using same_row(1) [OF dbok that(1) um(1)] that(2) um(2) by simp
    have ex: "\<exists>u \<in> set (users d). u_id u = i \<and> u_tenant u = p_tenant actor" using um by blast
    have "users d' = filter (\<lambda>v. \<not> (u_id v = i \<and> u_tenant v = p_tenant actor)) (users d)"
      using ex by (simp add: d' delete_user_def)
    then have "set (users d') = set (users d) - {u}" using um(2,3) uniq by fastforce
    then show ?thesis using um r may role changed by (auto simp: can_manage_iff)
  qed
qed

theorem member_changes_authorized_witness:
  "p_role owner_principal = Owner \<or> p_role owner_principal = Admin"
proof -
  obtain r d where rd: "set_role no_faults owner_principal ''usr_2'' ''viewer'' joined_db = (r, d)" by (rule prod.exhaust)
  have "map u_role (users (snd (set_role no_faults owner_principal ''usr_2'' ''viewer'' joined_db))) \<noteq> map u_role (users joined_db)"
    by code_simp
  with rd have "d \<noteq> joined_db" by auto
  from member_changes_authorized [OF joined_reachable disjI1 [OF rd] this] show ?thesis by blast
qed

section \<open>Links\<close>

lemma find_None_all: "find P xs = None \<longleftrightarrow> (\<forall>x \<in> set xs. \<not> P x)"
  by (induction xs) auto

lemma dead_reset:
  "\<forall>r \<in> set (resets d). rs_token r = token_key E token \<longrightarrow> rs_used r \<noteq> None \<Longrightarrow>
     reset_password E no_faults now db_now token pw d = (Inl bad_token, d)"
  by (auto simp: reset_password_def reset_token_is_live_def sql_def stmt_def live_reset_def)

text \<open>A reset link works once.  A reset that succeeds replaces the password of the one account the link was issued for, ends
every session of that account and voids its other reset links; every other account and session stays, and using the
same link again, at any time and with any password, is refused with \<open>ErrBadToken\<close> and changes nothing.\<close>

theorem reset_once_ends_sessions:
  assumes "identity_reachable L d" "reset_password E f now db_now token pw d = (Inr w, d')" "e_lower E = L"
  shows "\<exists>uid hash. uid \<in> u_id ` set (users d) \<and> e_hash E pw = Inr hash \<and>
    (\<exists>r \<in> set (resets d). rs_user r = uid \<and> rs_token r = token_key E token \<and> rs_used r = None \<and> rs_expires r > db_now) \<and>
    users d' = map (\<lambda>u. if u_id u = uid then u\<lparr>u_hash := hash\<rparr> else u) (users d) \<and>
    set (sessions d') = {s \<in> set (sessions d). se_user s \<noteq> uid} \<and>
    (\<forall>r \<in> set (resets d'). rs_user r = uid \<longrightarrow> rs_used r \<noteq> None) \<and>
    (\<forall>now2 db_now2 pw2. reset_password E no_faults now2 db_now2 token pw2 d' = (Inl bad_token, d'))"
proof -
  have ok: "db_ok L d" by (rule identity_reachable_ok [OF assms(1)])
  from reset_password_spec [where E = E and f = f and now = now and db_now = db_now and token = token and pw = pw and d = d] assms(2)
  obtain hash r where h: "e_hash E pw = Inr hash" and r: "find (live_reset E db_now token) (resets d) = Some r"
      and d': "d' = reset_done E now db_now token hash (rs_user r) d" by auto
  from find_SomeD [OF r] have rm: "r \<in> set (resets d)" "rs_token r = token_key E token" "rs_used r = None" "rs_expires r > db_now"
    by (auto simp: live_reset_def)
  have "rs_user r \<in> u_id ` set (users d)" using ok rm(1) by (force simp: db_ok_def links_ok_def refers_def)
  moreover have c: "claim_reset E no_faults now db_now token hash d = Inr ((), d')"
    using reset_password_spec [where E = E and f = f and now = now and db_now = db_now and token = token and pw = pw and d = d]
      assms(2) h r d' by (auto simp: claim_reset_Inr)
  have "db_ok (e_lower E) d" by (rule identity_reachable_ok) (use assms(1,3) in simp)
  then have "\<not> (\<exists>x \<in> set (resets d'). rs_token x = token_key E token \<and> rs_used x = None)"
    using reset_link.claim_spends [of E d "(no_faults, now, db_now, token, hash)"] c by simp
  then have "\<forall>now2 db_now2 pw2. reset_password E no_faults now2 db_now2 token pw2 d' = (Inl bad_token, d')"
    by (simp add: dead_reset)
  moreover have "\<forall>x \<in> set (resets d'). rs_user x = rs_user r \<longrightarrow> rs_used x \<noteq> None" by (auto simp: d' reset_done_def)
  moreover have "users d' = map (\<lambda>u. if u_id u = rs_user r then u\<lparr>u_hash := hash\<rparr> else u) (users d)"
    "set (sessions d') = {s \<in> set (sessions d). se_user s \<noteq> rs_user r}" by (simp_all add: d' reset_done_def)
  ultimately show ?thesis using h rm by blast
qed

definition reset_db :: db where
  "reset_db = snd (create_password_reset sample_env no_faults ''1'' ''r1'' 9 '''' ''o@x'' org_db)"

lemma reset_reachable: "identity_reachable (\<lambda>s. s) reset_db"
proof -
  obtain r d where "create_password_reset sample_env no_faults ''1'' ''r1'' 9 '''' ''o@x'' org_db = (r, d)"
    by (rule prod.exhaust)
  then show ?thesis unfolding reset_db_def
    by (auto intro: identity_reachable.step_on [OF org_reachable auth_step.create_password_reset [OF sample_lower]])
qed

theorem reset_once_ends_sessions_witness:
  "\<exists>d'. reset_password sample_env no_faults 10 10 ''r1'' ''another-password'' reset_db = (Inr (), d') \<and>
     reset_password sample_env no_faults 11 11 ''r1'' ''third-password'' d' = (Inl bad_token, d')"
proof -
  let ?r = "reset_password sample_env no_faults 10 10 ''r1'' ''another-password'' reset_db"
  have "fst ?r = Inr ()" by code_simp
  then have run: "?r = (Inr (), snd ?r)" by (simp add: prod_eq_iff)
  with reset_once_ends_sessions [OF reset_reachable run sample_lower] show ?thesis by blast
qed

text \<open>C9. Accepting an invitation creates exactly one account: in the inviting organization, under the invited address, with the
role of the invitation, which is never owner, and with that address confirmed.  The invitation is then spent: looking it up or accepting it again is
refused with \<open>ErrBadToken\<close>.\<close>

theorem invitation_accepted_once:
  assumes "identity_reachable L d" "e_lower E = L" "accept_invitation E f rid tok now db_now token pw d = (r, d')" "d' \<noteq> d"
  shows "\<exists>v \<in> set (invitations d). \<exists>hash. iv_token v = token_key E token \<and> iv_accepted v = None \<and> iv_expires v > db_now \<and>
    e_hash E pw = Inr hash \<and> iv_role v \<noteq> Owner \<and>
    users d' = users d @ [\<lparr>u_id = ''usr_'' @ rid, u_tenant = iv_tenant v, u_email = iv_email v, u_hash = hash,
       u_role = iv_role v, u_created = now, u_verified = Some now\<rparr>] \<and>
    (\<forall>rid2 tok2 now2 db_now2 pw2. accept_invitation E no_faults rid2 tok2 now2 db_now2 token pw2 d' = (Inl bad_token, d'))"
proof -
  have ok: "db_ok L d" by (rule identity_reachable_ok [OF assms(1)])
  obtain v hash d1 where h: "e_hash E pw = Inr hash"
      and c: "claim_invitation E f (''usr_'' @ rid) now db_now token hash d = Inr (v, d1)"
      and same: "invitations d' = invitations d1" "users d' = users d1"
    using assms(3,4) by (cases r) (auto simp: accept_invitation_def Let_def in_tx_defs wrapped_def insert_session_Inr stmt_def
        split: sum.splits option.splits prod.splits)
  from c have v: "find (live_invitation E db_now token) (invitations d) = Some v"
    and ins: "insert_user E (invited_user v (''usr_'' @ rid) hash now) (d\<lparr>invitations := map (\<lambda>x. if live_invitation E db_now token x
       then x\<lparr>iv_accepted := Some now\<rparr> else x) (invitations d)\<rparr>) = Inr d1" by (simp_all add: claim_invitation_Inr)
  from find_SomeD [OF v] have vm: "v \<in> set (invitations d)" "iv_token v = token_key E token" "iv_accepted v = None" "iv_expires v > db_now"
    by (auto simp: live_invitation_def)
  have "\<not> (\<exists>x \<in> set (invitations d1). iv_token x = token_key E token \<and> iv_accepted x = None)"
    using invitation_link.claim_spends [of E d "(f, ''usr_'' @ rid, now, db_now, token, hash)"] c ok assms(2) by simp
  then have "find (live_invitation E n token) (invitations d') = None" for n
    using same(1) by (auto simp: find_None_all live_invitation_def)
  then have again: "accept_invitation E no_faults rid2 tok2 now2 db_now2 token pw2 d' = (Inl bad_token, d')" for rid2 tok2 now2 db_now2 pw2
    by (simp add: accept_invitation_def lookup_invitation_def sql_def stmt_def)
  have "iv_role v \<noteq> Owner" using ok vm(1) by (auto simp: db_ok_def invitations_ok_def)
  moreover have "users d' = users d @ [invited_user v (''usr_'' @ rid) hash now]"
    using claim_invitation_accounts [OF c] same by simp
  ultimately show ?thesis using vm h again by (auto simp: invited_user_def)
qed

theorem invitation_accepted_once_witness:
  "\<exists>v \<in> set (invitations invited_db). iv_role v \<noteq> Owner \<and> users joined_db = users invited_db @ [\<lparr>u_id = ''usr_2'',
     u_tenant = iv_tenant v, u_email = iv_email v, u_hash = ''k:admin-password'', u_role = iv_role v, u_created = 6, u_verified = Some 6\<rparr>]"
proof -
  obtain r d where rd: "accept_invitation sample_env no_faults ''2'' ''t2'' 6 6 ''i1'' ''admin-password'' invited_db = (r, d)"
    by (rule prod.exhaust)
  then have d: "d = joined_db" by (simp add: joined_db_def)
  have "length (users joined_db) \<noteq> length (users invited_db)" by code_simp
  then have "d \<noteq> invited_db" using d by auto
  from invitation_accepted_once [OF invited_reachable sample_lower rd this] d show ?thesis by (auto simp: sample_env_def)
qed

section \<open>Sign-in and sessions\<close>



text \<open>A session speaks for its account as it is now: a token that is accepted belongs to an unexpired session of an existing
account, and the principal carries that account's current organization, address and role; so a changed role holds at
the next request, and a removed account's sessions are refused.\<close>

theorem session_is_current:
  assumes "identity_reachable L d" "authenticate E f db_now token d = Inr p"
  shows "(\<exists>u \<in> set (users d). \<exists>s \<in> set (sessions d). se_id s = token_key E token \<and> se_expires s > db_now \<and> se_user s = u_id u \<and>
      p = \<lparr>p_tenant = u_tenant u, p_subject = u_email u, p_user = u_id u, p_session = token_key E token, p_role = u_role u\<rparr>) \<and>
    (\<forall>actor g w d'. remove_member g actor (p_user p) d = (Inr w, d') \<longrightarrow>
       authenticate E no_faults db_now token d' = Inl no_session)"
proof -
  have ok: "db_ok L d" by (rule identity_reachable_ok [OF assms(1)])
  from assms(2) obtain s u where s: "find (\<lambda>s. se_id s = token_key E token \<and> se_expires s > db_now) (sessions d) = Some s"
      and u: "find (\<lambda>u. u_id u = se_user s) (users d) = Some u"
      and p: "p = principal_of (se_tenant s) (u_email u) (token_key E token) (u_id u) (u_role u)"
    by (auto simp: authenticate_def Let_def split: option.splits)
  from find_SomeD [OF s] find_SomeD [OF u]
  have m: "s \<in> set (sessions d)" "se_id s = token_key E token" "se_expires s > db_now" "u \<in> set (users d)" "u_id u = se_user s"
    by auto
  from ok m(1) obtain x where "x \<in> set (users d)" "u_id x = se_user s" "u_tenant x = se_tenant s"
    by (auto simp: db_ok_def links_ok_def refers_def)
  moreover have "x = u" using same_row(1) [OF ok calculation(1) m(4)] calculation(2) m(5) by simp
  ultimately have T: "se_tenant s = u_tenant u" by simp
  have role: "role_of (u_role u) = u_role u" using ok m(4) by (simp add: db_ok_def users_ok_def)
  have p': "p = \<lparr>p_tenant = u_tenant u, p_subject = u_email u, p_user = u_id u, p_session = token_key E token, p_role = u_role u\<rparr>"
    using p T role by (simp add: principal_of_def)
  have gone: "authenticate E no_faults db_now token d' = Inl no_session" if "remove_member g actor (p_user p) d = (Inr w, d')" for actor g w d'
  proof -
    from that remove_member_spec [where f = g and actor = actor and i = "p_user p" and d = d]
    obtain v where v: "find_member (p_tenant actor) (u_id u) d = Some v" and d': "d' = delete_user (u_id u) (p_tenant actor) d"
      by (auto simp: p')
    from find_member_Some [OF v] have "\<exists>v \<in> set (users d). u_id v = u_id u \<and> u_tenant v = p_tenant actor" by blast
    then have ses: "sessions d' = filter (\<lambda>s. se_user s \<noteq> u_id u) (sessions d)" by (simp add: d' delete_user_def)
    have "x = s" if "x \<in> set (sessions d)" "se_id x = token_key E token" for x
      using same_row(2) [OF ok that(1) m(1)] that(2) m(2) by simp
    then have "\<forall>x \<in> set (sessions d'). se_id x \<noteq> token_key E token" using m(5) by (auto simp: ses)
    then have "find (\<lambda>s. se_id s = token_key E token \<and> se_expires s > db_now) (sessions d') = None"
      by (simp add: find_None_all)
    then show ?thesis by (simp add: authenticate_def Let_def sql_def stmt_def)
  qed
  show ?thesis using m gone p' by (intro conjI bexI [of _ u] bexI [of _ s]) auto
qed

theorem session_is_current_witness:
  "authenticate sample_env no_faults 9 ''t2'' joined_db = Inr (principal_of ''org_1'' ''m@x'' ''h:t2'' ''usr_2'' ''admin'') \<and>
   authenticate sample_env no_faults 9 ''t2'' (snd (remove_member no_faults owner_principal ''usr_2'' joined_db)) = Inl no_session"
proof -
  have a: "authenticate sample_env no_faults 9 ''t2'' joined_db = Inr (principal_of ''org_1'' ''m@x'' ''h:t2'' ''usr_2'' ''admin'')"
    by code_simp
  have "fst (remove_member no_faults owner_principal ''usr_2'' joined_db) = Inr ()" by code_simp
  then have "remove_member no_faults owner_principal ''usr_2'' joined_db = (Inr (), snd (remove_member no_faults owner_principal ''usr_2'' joined_db))"
    by (simp add: prod_eq_iff)
  with session_is_current [OF joined_reachable a] a show ?thesis by (simp add: principal_of_def)
qed

end
