(* ===== verification/Ratelimit.thy ===== *)
theory Ratelimit
  imports Prelude Complex_Main
begin

text \<open>
  Package \<open>internal/ratelimit\<close>: a token bucket per key, held in a map of bounded size.  The fractional tokens are
  exact rationals here where the code has \<open>float64\<close>; durations and times are nanoseconds.  \<open>New\<close>'s two panics are
  \<open>None\<close>, and the clock is an argument.
\<close>

section \<open>The limiter\<close>

record bucket =
  b_tokens :: rat
  b_last :: time

record limiter =
  l_burst :: int
  l_refill :: duration
  l_capacity :: int
  l_keys :: "(string \<times> bucket) list"

definition new_limiter :: "int \<Rightarrow> duration \<Rightarrow> int \<Rightarrow> limiter option" where
  "new_limiter burst refill capacity =
     (if burst < 1 then None else if refill \<le> 0 then None
      else Some \<lparr>l_burst = burst, l_refill = refill, l_capacity = capacity, l_keys = []\<rparr>)"

definition refilled :: "limiter \<Rightarrow> time \<Rightarrow> bucket \<Rightarrow> rat" where
  "refilled l now b = b_tokens b + of_int (now - b_last b) / of_int (l_refill l)"

definition sweep_full :: "time \<Rightarrow> limiter \<Rightarrow> limiter" where
  "sweep_full now l = l\<lparr>l_keys := filter (\<lambda>(k, b). \<not> refilled l now b \<ge> of_int (l_burst l)) (l_keys l)\<rparr>"

definition second :: duration where "second = 1000000000"

text \<open>\<open>d.Round(time.Second)\<close> of a duration that is not negative: to the nearest second, halves up.\<close>

definition round_second :: "duration \<Rightarrow> duration" where
  "round_second d = (d + second div 2) div second * second"

text \<open>The refill for the time that has passed, capped at the burst.\<close>

definition top_up :: "limiter \<Rightarrow> time \<Rightarrow> bucket \<Rightarrow> bucket" where
  "top_up l now b =
     (if now - b_last b > 0 then
        \<lparr>b_tokens = (if refilled l now b > of_int (l_burst l) then of_int (l_burst l) else refilled l now b), b_last = now\<rparr>
      else b)"

text \<open>Refill, then spend.\<close>

definition spend_token :: "string \<Rightarrow> time \<Rightarrow> bucket \<Rightarrow> limiter \<Rightarrow> (bool \<times> duration) \<times> limiter" where
  "spend_token key now b0 l =
     (let b = top_up l now b0 in
      if b_tokens b < 1 then
        ((False, round_second \<lfloor>(1 - b_tokens b) * of_int (l_refill l)\<rfloor> + second),
         l\<lparr>l_keys := AList.update key b (l_keys l)\<rparr>)
      else ((True, 0), l\<lparr>l_keys := AList.update key (b\<lparr>b_tokens := b_tokens b - 1\<rparr>) (l_keys l)\<rparr>))"

definition allow :: "string \<Rightarrow> time \<Rightarrow> limiter \<Rightarrow> (bool \<times> duration) \<times> limiter" where
  "allow key now l =
     (case map_of (l_keys l) key of
        Some b \<Rightarrow> spend_token key now b l
      | None \<Rightarrow>
          let l1 = (if int (length (l_keys l)) \<ge> l_capacity l then sweep_full now l else l) in
          if int (length (l_keys l1)) \<ge> l_capacity l1 then ((False, l_refill l1), l1)
          else spend_token key now \<lparr>b_tokens = of_int (l_burst l1), b_last = now\<rparr> l1)"

definition restore :: "string \<Rightarrow> limiter \<Rightarrow> limiter" where
  "restore key l =
     (case map_of (l_keys l) key of
        None \<Rightarrow> l
      | Some b \<Rightarrow> l\<lparr>l_keys := AList.update key (b\<lparr>b_tokens :=
           (if b_tokens b + 1 > of_int (l_burst l) then of_int (l_burst l) else b_tokens b + 1)\<rparr>) (l_keys l)\<rparr>)"

definition held_keys :: "limiter \<Rightarrow> int" where
  "held_keys l = int (length (l_keys l))"

section \<open>The budget of a key\<close>

text \<open>What a key may spend at a time: its refilled bucket, or a full one when the map does not hold it.\<close>

definition budget :: "limiter \<Rightarrow> string \<Rightarrow> time \<Rightarrow> rat" where
  "budget l k t = (case map_of (l_keys l) k of
     None \<Rightarrow> of_int (l_burst l)
   | Some b \<Rightarrow> min (of_int (l_burst l)) (refilled l t b))"

text \<open>The invariant at a time: parameters as \<open>New\<close> demands, one bucket per key, each between empty and full.\<close>

definition limiter_ok :: "time \<Rightarrow> limiter \<Rightarrow> bool" where
  "limiter_ok t l \<longleftrightarrow> l_burst l \<ge> 1 \<and> l_refill l > 0 \<and> distinct (map fst (l_keys l)) \<and>
     (\<forall>k b. map_of (l_keys l) k = Some b \<longrightarrow> 0 \<le> b_tokens b \<and> b_tokens b \<le> of_int (l_burst l) \<and> b_last b \<le> t)"

lemma limiter_okD:
  assumes "limiter_ok t l"
  shows "l_burst l \<ge> 1" "l_refill l > 0" "distinct (map fst (l_keys l))"
    "map_of (l_keys l) k = Some b \<Longrightarrow> 0 \<le> b_tokens b \<and> b_tokens b \<le> of_int (l_burst l) \<and> b_last b \<le> t"
  using assms by (auto simp: limiter_ok_def)

lemma limiter_ok_later: "limiter_ok t l \<Longrightarrow> t \<le> t' \<Longrightarrow> limiter_ok t' l"
  by (fastforce simp: limiter_ok_def)

lemma new_limiter_ok: "new_limiter burst refill capacity = Some l \<Longrightarrow> limiter_ok t l"
  by (auto simp: new_limiter_def limiter_ok_def split: if_splits)

text \<open>One bucket written back.\<close>

lemma limiter_ok_update:
  assumes "limiter_ok t l" "0 \<le> b_tokens b" "b_tokens b \<le> of_int (l_burst l)" "b_last b \<le> t"
  shows "limiter_ok t (l\<lparr>l_keys := AList.update k b (l_keys l)\<rparr>)"
  using assms by (auto simp: limiter_ok_def)

lemma map_of_sweep:
  assumes "distinct (map fst (l_keys l))"
  shows "map_of (l_keys (sweep_full now l)) k =
    (case map_of (l_keys l) k of None \<Rightarrow> None | Some b \<Rightarrow> if refilled l now b \<ge> of_int (l_burst l) then None else Some b)"
  using map_of_filter_values [OF assms, of "\<lambda>b. \<not> refilled l now b \<ge> of_int (l_burst l)" k]
  by (simp add: sweep_full_def split: option.split)

lemma sweep_simps [simp]:
  "l_burst (sweep_full now l) = l_burst l" "l_refill (sweep_full now l) = l_refill l"
  "l_capacity (sweep_full now l) = l_capacity l"
  "distinct (map fst (l_keys l)) \<Longrightarrow> distinct (map fst (l_keys (sweep_full now l)))"
  by (simp_all add: sweep_full_def)

lemma sweep_ok: "limiter_ok t l \<Longrightarrow> limiter_ok t (sweep_full now l)"
  by (auto simp: limiter_ok_def map_of_sweep simp del: map_of_eq_Some_iff split: option.splits if_splits)

text \<open>Dropping the full buckets changes nobody's budget.\<close>

lemma sweep_budget: "limiter_ok now l \<Longrightarrow> budget (sweep_full now l) k now = budget l k now"
  by (auto simp: budget_def map_of_sweep limiter_ok_def refilled_def simp del: map_of_eq_Some_iff split: option.splits)

lemma budget_cong:
  "map_of (l_keys l') k = map_of (l_keys l) k \<Longrightarrow> l_burst l' = l_burst l \<Longrightarrow> l_refill l' = l_refill l \<Longrightarrow>
     budget l' k t = budget l k t"
  by (simp add: budget_def refilled_def split: option.split)

lemma budget_bounds:
  assumes "limiter_ok t l"
  shows "0 \<le> budget l k t" "budget l k t \<le> of_int (l_burst l)"
proof -
  have "0 \<le> refilled l t b" if "map_of (l_keys l) k = Some b" for b
    using limiter_okD(2) [OF assms] limiter_okD(4) [OF assms that] by (simp add: refilled_def)
  then show "0 \<le> budget l k t" "budget l k t \<le> of_int (l_burst l)"
    using limiter_okD(1) [OF assms] by (auto simp: budget_def split: option.splits)
qed

text \<open>A budget grows with time by at most one token per refill.\<close>

lemma budget_time:
  assumes "limiter_ok t l" "t \<le> t'"
  shows "budget l k t' \<le> budget l k t + of_int (t' - t) / of_int (l_refill l)"
proof (cases "map_of (l_keys l) k")
  case None
  with assms limiter_okD(2) [OF assms(1)] show ?thesis by (simp add: budget_def)
next
  case (Some b)
  have "refilled l t' b = refilled l t b + of_int (t' - t) / of_int (l_refill l)"
    using limiter_okD(2) [OF assms(1)] by (simp add: refilled_def field_simps)
  moreover have "0 \<le> (of_int (t' - t) / of_int (l_refill l) :: rat)" using assms limiter_okD(2) [OF assms(1)] by simp
  ultimately show ?thesis using Some by (simp add: budget_def min_def)
qed

section \<open>The operations on budgets\<close>

lemma top_up_spec:
  assumes "limiter_ok now l" "0 \<le> b_tokens b" "b_tokens b \<le> of_int (l_burst l)" "b_last b \<le> now"
  shows "b_tokens (top_up l now b) = min (of_int (l_burst l)) (refilled l now b)" "b_last (top_up l now b) = now"
  using assms by (auto simp: top_up_def refilled_def min_def)

text \<open>A spend grants exactly when the budget holds a token, takes one then, and leaves the other keys alone.\<close>

lemma spend_spec:
  assumes "limiter_ok now l" "0 \<le> b_tokens b" "b_tokens b \<le> of_int (l_burst l)" "b_last b \<le> now"
    "spend_token key now b l = ((ok, wait), l')"
  shows "limiter_ok now l'" "ok \<longleftrightarrow> min (of_int (l_burst l)) (refilled l now b) \<ge> 1"
    "budget l' key now = min (of_int (l_burst l)) (refilled l now b) - (if ok then 1 else 0)"
    "k \<noteq> key \<Longrightarrow> map_of (l_keys l') k = map_of (l_keys l) k"
    "l_burst l' = l_burst l" "l_refill l' = l_refill l" "l_capacity l' = l_capacity l"
    "l_keys l' = AList.update key (the (map_of (l_keys l') key)) (l_keys l)"
proof -
  note t = top_up_spec [OF assms(1-4)]
  have nn: "0 \<le> b_tokens (top_up l now b)" "b_tokens (top_up l now b) \<le> of_int (l_burst l)"
    using assms(2-4) limiter_okD(1,2) [OF assms(1)] by (auto simp: t refilled_def)
  have l': "l' = l\<lparr>l_keys := AList.update key (if ok then (top_up l now b)\<lparr>b_tokens := b_tokens (top_up l now b) - 1\<rparr>
      else top_up l now b) (l_keys l)\<rparr>" and ok: "ok \<longleftrightarrow> b_tokens (top_up l now b) \<ge> 1"
    using assms(5) by (auto simp: spend_token_def Let_def split: if_splits)
  show "limiter_ok now l'" unfolding l'
    by (rule limiter_ok_update [OF assms(1)]) (use nn t ok in auto)
  show "ok \<longleftrightarrow> min (of_int (l_burst l)) (refilled l now b) \<ge> 1" using ok t by simp
  show "budget l' key now = min (of_int (l_burst l)) (refilled l now b) - (if ok then 1 else 0)"
    using t nn by (auto simp: l' budget_def refilled_def)
  show "k \<noteq> key \<Longrightarrow> map_of (l_keys l') k = map_of (l_keys l) k" by (simp add: l')
  show "l_burst l' = l_burst l" "l_refill l' = l_refill l" "l_capacity l' = l_capacity l"
    "l_keys l' = AList.update key (the (map_of (l_keys l') key)) (l_keys l)" by (simp_all add: l')
qed

lemma allow_spec:
  assumes "limiter_ok t l" "t \<le> now" "allow key now l = ((ok, wait), l')"
  shows "limiter_ok now l'" "l_burst l' = l_burst l" "l_refill l' = l_refill l" "l_capacity l' = l_capacity l"
    "budget l' k now = budget l k now - (if ok \<and> k = key then 1 else 0)"
    "held_keys l \<le> l_capacity l \<Longrightarrow> held_keys l' \<le> l_capacity l'"
    "ok \<Longrightarrow> budget l key now \<ge> 1" "map_of (l_keys l) key \<noteq> None \<Longrightarrow> budget l key now \<ge> 1 \<Longrightarrow> ok"
proof -
  have ok: "limiter_ok now l" by (rule limiter_ok_later [OF assms(1,2)])
  have "limiter_ok now l' \<and> l_burst l' = l_burst l \<and> l_refill l' = l_refill l \<and> l_capacity l' = l_capacity l \<and>
      budget l' k now = budget l k now - (if ok \<and> k = key then 1 else 0) \<and>
      (held_keys l \<le> l_capacity l \<longrightarrow> held_keys l' \<le> l_capacity l') \<and>
      (ok \<longrightarrow> budget l key now \<ge> 1) \<and> (map_of (l_keys l) key \<noteq> None \<longrightarrow> budget l key now \<ge> 1 \<longrightarrow> ok)"
  proof (cases "map_of (l_keys l) key")
    case (Some b)
    with assms(3) have run: "spend_token key now b l = ((ok, wait), l')" by (simp add: allow_def)
    note s = spend_spec [OF ok _ _ _ run]
    have bounds: "0 \<le> b_tokens b" "b_tokens b \<le> of_int (l_burst l)" "b_last b \<le> now"
      using limiter_okD(4) [OF ok Some] by auto
    have len: "length (l_keys l') = length (l_keys l)"
      using s(8) [OF bounds] update_Some_length [OF Some] by metis
    show ?thesis
    proof (cases "k = key")
      case True
      with s [OF bounds] len Some show ?thesis by (simp add: held_keys_def budget_def [of l])
    next
      case False
      have "budget l' k now = budget l k now" by (rule budget_cong) (use s(4) [OF bounds False] s(5,6) [OF bounds] in simp_all)
      moreover have "budget l key now = min (of_int (l_burst l)) (refilled l now b)" using Some by (simp add: budget_def)
      ultimately show ?thesis using s(1,2,5,6,7) [OF bounds] len Some False by (simp add: held_keys_def)
    qed
  next
    case None
    define l1 where "l1 = (if int (length (l_keys l)) \<ge> l_capacity l then sweep_full now l else l)"
    have l1: "limiter_ok now l1" "budget l1 j now = budget l j now" "map_of (l_keys l1) key = None"
        "l_burst l1 = l_burst l" "l_refill l1 = l_refill l" "l_capacity l1 = l_capacity l"
        "length (l_keys l1) \<le> length (l_keys l)" for j
      using ok None sweep_ok [OF ok] sweep_budget [OF ok] map_of_sweep [OF limiter_okD(3) [OF ok], of now key]
      by (auto simp: l1_def simp del: map_of_eq_Some_iff) (simp add: sweep_full_def)
    have full: "budget l key now = of_int (l_burst l)" using None by (simp add: budget_def)
    show ?thesis
    proof (cases "int (length (l_keys l1)) \<ge> l_capacity l1")
      case True
      with assms(3) None have "l' = l1" "\<not> ok" by (simp_all add: allow_def Let_def l1_def)
      with l1 None show ?thesis by (auto simp: held_keys_def)
    next
      case False
      let ?b = "\<lparr>b_tokens = of_int (l_burst l1), b_last = now\<rparr>"
      have run: "spend_token key now ?b l1 = ((ok, wait), l')"
        using assms(3) None False by (simp add: allow_def Let_def l1_def)
      have bounds: "0 \<le> b_tokens ?b" "b_tokens ?b \<le> of_int (l_burst l1)" "b_last ?b \<le> now"
        using limiter_okD(1) [OF l1(1)] by simp_all
      note s = spend_spec [OF l1(1) bounds run]
      have "length (l_keys l') = Suc (length (l_keys l1))"
        by (subst s(8)) (simp add: update_absent l1(3) [unfolded map_of_eq_None_iff])
      then have len: "held_keys l' \<le> l_capacity l'" using False s(7) by (simp add: held_keys_def)
      have ok1: "ok" using s(2) limiter_okD(1) [OF l1(1)] by (simp add: refilled_def)
      show ?thesis
      proof (cases "k = key")
        case True
        then show ?thesis using s(1,3,5,6,7) l1 len ok1 full None limiter_okD(1) [OF ok] by (simp add: refilled_def)
      next
        case False
        have "budget l' k now = budget l1 k now" by (rule budget_cong) (use s(4) [OF False] s(5,6) in simp_all)
        then show ?thesis using s(1,5,6,7) l1 len ok1 full False None limiter_okD(1) [OF ok] by simp
      qed
    qed
  qed
  then show "limiter_ok now l'" "l_burst l' = l_burst l" "l_refill l' = l_refill l" "l_capacity l' = l_capacity l"
    "budget l' k now = budget l k now - (if ok \<and> k = key then 1 else 0)"
    "held_keys l \<le> l_capacity l \<Longrightarrow> held_keys l' \<le> l_capacity l'"
    "ok \<Longrightarrow> budget l key now \<ge> 1" "map_of (l_keys l) key \<noteq> None \<Longrightarrow> budget l key now \<ge> 1 \<Longrightarrow> ok" by blast+
qed

lemma restore_spec:
  assumes "limiter_ok t l"
  shows "limiter_ok t (restore key l)" "l_burst (restore key l) = l_burst l" "l_refill (restore key l) = l_refill l"
    "l_capacity (restore key l) = l_capacity l" "held_keys (restore key l) = held_keys l"
    "budget (restore key l) k t \<le> budget l k t + (if k = key then 1 else 0)"
proof -
  have "limiter_ok t (restore key l) \<and> l_burst (restore key l) = l_burst l \<and> l_refill (restore key l) = l_refill l \<and>
      l_capacity (restore key l) = l_capacity l \<and> held_keys (restore key l) = held_keys l \<and>
      budget (restore key l) k t \<le> budget l k t + (if k = key then 1 else 0)"
  proof (cases "map_of (l_keys l) key")
    case None
    with assms show ?thesis by (simp add: restore_def)
  next
    case (Some b)
    note b = limiter_okD(4) [OF assms Some]
    let ?b = "b\<lparr>b_tokens := (if b_tokens b + 1 > of_int (l_burst l) then of_int (l_burst l) else b_tokens b + 1)\<rparr>"
    have r: "restore key l = l\<lparr>l_keys := AList.update key ?b (l_keys l)\<rparr>" using Some by (simp add: restore_def)
    have "limiter_ok t (restore key l)" unfolding r
      by (rule limiter_ok_update [OF assms]) (use b limiter_okD(1) [OF assms] in auto)
    moreover have "budget (restore key l) k t \<le> budget l k t + (if k = key then 1 else 0)"
      using Some by (cases "k = key") (simp_all add: r budget_def refilled_def min_def split: option.split)
    ultimately show ?thesis using update_Some_length [OF Some] by (simp add: r held_keys_def)
  qed
  then show "limiter_ok t (restore key l)" "l_burst (restore key l) = l_burst l" "l_refill (restore key l) = l_refill l"
    "l_capacity (restore key l) = l_capacity l" "held_keys (restore key l) = held_keys l"
    "budget (restore key l) k t \<le> budget l k t + (if k = key then 1 else 0)" by blast+
qed

section \<open>A run of the limiter\<close>

datatype limit_op = OpAllow string time | OpRestore string

text \<open>The verdicts on one key, in the order the operations come.\<close>

fun run_limiter :: "string \<Rightarrow> limit_op list \<Rightarrow> limiter \<Rightarrow> bool list \<times> limiter" where
  "run_limiter k [] l = ([], l)"
| "run_limiter k (OpAllow key now # ops) l =
     (let ((ok, wait), l1) = allow key now l; (vs, l2) = run_limiter k ops l1 in (if key = k then ok # vs else vs, l2))"
| "run_limiter k (OpRestore key # ops) l = run_limiter k ops (restore key l)"

definition granted :: "bool list \<Rightarrow> nat" where "granted vs = length (filter id vs)"

fun restores :: "string \<Rightarrow> limit_op list \<Rightarrow> nat" where
  "restores k [] = 0"
| "restores k (OpAllow key now # ops) = restores k ops"
| "restores k (OpRestore key # ops) = (if key = k then 1 else 0) + restores k ops"

text \<open>The clock never goes back.\<close>

fun ordered :: "time \<Rightarrow> limit_op list \<Rightarrow> bool" where
  "ordered t [] = True"
| "ordered t (OpAllow key now # ops) = (t \<le> now \<and> ordered now ops)"
| "ordered t (OpRestore key # ops) = ordered t ops"

fun last_time :: "time \<Rightarrow> limit_op list \<Rightarrow> time" where
  "last_time t [] = t"
| "last_time t (OpAllow key now # ops) = last_time now ops"
| "last_time t (OpRestore key # ops) = last_time t ops"

lemma ordered_last: "ordered t ops \<Longrightarrow> t \<le> last_time t ops"
  by (induction t ops rule: ordered.induct) auto

text \<open>What a key was granted and still may spend comes out of what it could spend at the start, the refill since and
  what was given back.\<close>

lemma run_spec:
  assumes "limiter_ok t l" "ordered t ops" "run_limiter k ops l = (vs, l')"
  shows "limiter_ok (last_time t ops) l' \<and> l_burst l' = l_burst l \<and> l_refill l' = l_refill l \<and> l_capacity l' = l_capacity l \<and>
    (held_keys l \<le> l_capacity l \<longrightarrow> held_keys l' \<le> l_capacity l') \<and>
    of_nat (granted vs) + budget l' k (last_time t ops)
      \<le> budget l k t + of_int (last_time t ops - t) / of_int (l_refill l) + of_nat (restores k ops)"
  using assms
proof (induction t ops arbitrary: l vs rule: ordered.induct)
  case (1 t)
  then show ?case by (simp add: granted_def)
next
  case (2 t key now ops)
  obtain ok wait l1 where a: "allow key now l = ((ok, wait), l1)" by (metis surj_pair)
  obtain vs1 where r: "run_limiter k ops l1 = (vs1, l')" and vs: "vs = (if key = k then ok # vs1 else vs1)"
    using "2.prems"(3) a by (auto split: prod.splits)
  have t: "t \<le> now" "ordered now ops" using "2.prems"(2) by simp_all
  note s = allow_spec [OF "2.prems"(1) t(1) a]
  note IH = "2.IH" [OF s(1) t(2) r]
  have r0: "0 < l_refill l" by (rule limiter_okD(2) [OF "2.prems"(1)])
  have g: "of_nat (granted vs) = of_nat (granted vs1) + (if ok \<and> k = key then 1 else (0 :: rat))"
    by (simp add: vs granted_def)
  have "budget l k now \<le> budget l k t + of_int (now - t) / of_int (l_refill l)" by (rule budget_time [OF "2.prems"(1) t(1)])
  moreover have "of_int (last_time now ops - t) / of_int (l_refill l) =
      of_int (last_time now ops - now) / of_int (l_refill l) + (of_int (now - t) / of_int (l_refill l) :: rat)"
    using r0 by (simp add: field_simps)
  ultimately show ?case using IH s(2-6) g by auto
next
  case (3 t key ops)
  note s = restore_spec [OF "3.prems"(1)]
  have r: "run_limiter k ops (restore key l) = (vs, l')" and o: "ordered t ops" using "3.prems" by simp_all
  note IH = "3.IH" [OF s(1) o r]
  have "budget (restore key l) k t \<le> budget l k t + (if key = k then 1 else 0)"
    using restore_spec(6) [OF "3.prems"(1), of key k] by (simp add: eq_commute [of k key])
  then show ?case using IH s(2-5) by (auto split: if_splits)
qed



section \<open>The time a refusal names\<close>

lemma round_second_enough: "x \<le> of_int (round_second \<lfloor>x\<rfloor> + second)" for x :: rat
proof -
  define a where "a = \<lfloor>x\<rfloor> + second div 2"
  have "a - a mod second = a div second * second" by (simp add: minus_mod_eq_div_mult)
  moreover have "a mod second < second" by (simp add: second_def)
  ultimately have "\<lfloor>x\<rfloor> + 1 \<le> round_second \<lfloor>x\<rfloor> + second" by (simp add: round_second_def a_def second_def)
  moreover have "x < of_int (\<lfloor>x\<rfloor> + 1)" by linarith
  ultimately show ?thesis by (metis dual_order.trans less_imp_le of_int_le_iff)
qed



end
