(* ===== verification/Memory_Store.thy ===== *)
theory Memory_Store
  imports Memory
begin

text \<open>
  Package \<open>internal/memory\<close>, part two: the in-process store (\<open>Mem\<close> in \<open>store.go\<close>) and its view bound to one tenant
  (\<open>memScoped\<close> in \<open>scoped.go\<close>).  Every operation is atomic under the store's mutex, so it is a function on the state;
  the clock \<open>nz\<close> reads is an argument.
\<close>

section \<open>The state\<close>

record memory =
  mm_episodes :: "(string \<times> episode list) list"
  mm_summaries :: "(string \<times> summary list) list"
  mm_knowledge :: "(string \<times> knowledge list) list"
  mm_prefs :: "(string \<times> (string \<times> preference) list) list"
  mm_next_sum :: int
  mm_turns :: "(string \<times> turn list) list"
  mm_turn_order :: "string list"
  mm_tenant_of :: "(string \<times> string) list"

definition no_memories :: memory where
  "no_memories = \<lparr>mm_episodes = [], mm_summaries = [], mm_knowledge = [], mm_prefs = [], mm_next_sum = 0,
     mm_turns = [], mm_turn_order = [], mm_tenant_of = []\<rparr>"

text \<open>Go's map of slices: a missing key reads as the empty slice.\<close>

definition at_key :: "('k \<times> 'a list) list \<Rightarrow> 'k \<Rightarrow> 'a list" where
  "at_key xs k = (case map_of xs k of None \<Rightarrow> [] | Some v \<Rightarrow> v)"

lemma at_key_update [simp]: "at_key (AList.update k v xs) k' = (if k = k' then v else at_key xs k')"
  by (simp add: at_key_def update_conv')

lemma at_key_Nil [simp]: "at_key [] k = []"
  by (simp add: at_key_def)

definition subject_key :: "string \<Rightarrow> string \<Rightarrow> string" where
  "subject_key tenant subject = tenant @ char_of (0 :: nat) # subject"

section \<open>Episodes and summaries\<close>

definition mem_append_episode :: "episode \<Rightarrow> memory \<Rightarrow> (go_error + int) \<times> memory" where
  "mem_append_episode e m =
     (let n = int (length (at_key (mm_episodes m) (ep_goal e))) + 1 in
      (Inr n, m\<lparr>mm_episodes := AList.update (ep_goal e)
         (at_key (mm_episodes m) (ep_goal e) @ [e\<lparr>ep_seq := n\<rparr>]) (mm_episodes m)\<rparr>))"

definition mem_episodes :: "string \<Rightarrow> memory \<Rightarrow> episode list" where
  "mem_episodes gid m = at_key (mm_episodes m) gid"

text \<open>The loop that marks the covered episodes.\<close>

definition mark_covered :: "int \<Rightarrow> summary \<Rightarrow> episode list \<Rightarrow> episode list" where
  "mark_covered i s = map (\<lambda>e. if ep_seq e \<ge> sm_from s \<and> ep_seq e \<le> sm_to s then e\<lparr>ep_by := i\<rparr> else e)"

definition mem_save_summary :: "summary \<Rightarrow> memory \<Rightarrow> (go_error + int) \<times> memory" where
  "mem_save_summary s m =
     (let i = mm_next_sum m + 1 in
      (Inr i, m\<lparr>mm_next_sum := i,
         mm_summaries := AList.update (sm_goal s) (at_key (mm_summaries m) (sm_goal s) @ [s\<lparr>sm_id := i\<rparr>]) (mm_summaries m),
         mm_episodes := map (\<lambda>(k, es). (k, if k = sm_goal s then mark_covered i s es else es)) (mm_episodes m)\<rparr>))"

definition mem_summaries :: "string \<Rightarrow> memory \<Rightarrow> summary list" where
  "mem_summaries gid m = at_key (mm_summaries m) gid"

section \<open>Knowledge and preferences\<close>

definition supersede :: "string \<Rightarrow> string \<Rightarrow> knowledge list \<Rightarrow> knowledge list" where
  "supersede key gid = map (\<lambda>k. if kn_key k = key \<and> kn_superseded k = '''' then k\<lparr>kn_superseded := gid\<rparr> else k)"

definition mem_promote_knowledge :: "knowledge \<Rightarrow> memory \<Rightarrow> (go_error + unit) \<times> memory" where
  "mem_promote_knowledge k m =
     (if kn_goal k = '''' \<or> length (kn_seqs k) = 0 then (Inl (no_evidence (kn_key k)), m)
      else let key = subject_key (kn_tenant k) (kn_subject k) in
        (Inr (), m\<lparr>mm_knowledge := AList.update key
           (supersede (kn_key k) (kn_goal k) (at_key (mm_knowledge m) key) @ [k]) (mm_knowledge m)\<rparr>))"

definition mem_knowledge_for :: "string \<Rightarrow> string \<Rightarrow> memory \<Rightarrow> knowledge list" where
  "mem_knowledge_for tenant subject m =
     sort_key kn_key (filter (\<lambda>k. kn_superseded k = '''') (at_key (mm_knowledge m) (subject_key tenant subject)))"

definition mem_set_preference :: "preference \<Rightarrow> memory \<Rightarrow> (go_error + unit) \<times> memory" where
  "mem_set_preference p m =
     (case validate_preference p of
        Inl e \<Rightarrow> (Inl e, m)
      | Inr _ \<Rightarrow>
          (Inr (), m\<lparr>mm_prefs := AList.update (pf_tenant p)
             (AList.update (pf_key p) p (at_key (mm_prefs m) (pf_tenant p))) (mm_prefs m)\<rparr>))"

definition mem_preferences :: "string \<Rightarrow> memory \<Rightarrow> preference list" where
  "mem_preferences tenant m = sort_key pf_key (map snd (at_key (mm_prefs m) tenant))"

section \<open>Turns\<close>

definition mem_append_turn :: "time \<Rightarrow> turn \<Rightarrow> memory \<Rightarrow> (go_error + int) \<times> memory" where
  "mem_append_turn now t m =
     (case validate_turn t of
        Inl e \<Rightarrow> (Inl e, m)
      | Inr _ \<Rightarrow>
          let k = subject_key (tu_tenant t) (tu_conversation t); n = int (length (at_key (mm_turns m) k)) + 1 in
          (Inr n, m\<lparr>mm_turns := AList.update k (at_key (mm_turns m) k @ [t\<lparr>tu_seq := n, tu_at := nz now (tu_at t)\<rparr>])
                      (mm_turns m),
                    mm_turn_order := mm_turn_order m @ [k]\<rparr>))"

definition mem_turns :: "string \<Rightarrow> string \<Rightarrow> memory \<Rightarrow> turn list" where
  "mem_turns tenant conversation m = at_key (mm_turns m) (subject_key tenant conversation)"

definition mem_latest_conversation :: "string \<Rightarrow> memory \<Rightarrow> string option" where
  "mem_latest_conversation tenant m =
     (let prefix = subject_key tenant '''' in
      map_option (drop (length prefix)) (find (\<lambda>k. has_prefix k prefix) (rev (mm_turn_order m))))"

definition mem_conversations :: "string \<Rightarrow> memory \<Rightarrow> conversation list" where
  "mem_conversations tenant m =
     (let prefix = subject_key tenant '''' in
      sort_conversations (map (\<lambda>(k, ts). summarise (drop (length prefix) k) ts)
        (filter (\<lambda>(k, ts). \<not> (\<not> has_prefix k prefix \<or> length ts = 0)) (mm_turns m))))"

section \<open>The view of one tenant\<close>

definition claim_goal :: "string \<Rightarrow> string \<Rightarrow> memory \<Rightarrow> bool \<times> memory" where
  "claim_goal tenant gid m =
     (if tenant = '''' then (False, m)
      else (case map_of (mm_tenant_of m) gid of
              Some owner \<Rightarrow> (owner = tenant, m)
            | None \<Rightarrow> (True, m\<lparr>mm_tenant_of := AList.update gid tenant (mm_tenant_of m)\<rparr>)))"

definition owns_goal :: "string \<Rightarrow> string \<Rightarrow> memory \<Rightarrow> bool" where
  "owns_goal tenant gid m \<longleftrightarrow>
     tenant \<noteq> '''' \<and> (case map_of (mm_tenant_of m) gid of None \<Rightarrow> '''' | Some owner \<Rightarrow> owner) = tenant"

definition goal_not_yours :: "string \<Rightarrow> go_error" where
  "goal_not_yours gid = (ErrNotFound, ''memory: not found: goal '' @ fmt_q gid)"

definition view_append_episode :: "string \<Rightarrow> episode \<Rightarrow> memory \<Rightarrow> (go_error + int) \<times> memory" where
  "view_append_episode tenant e m =
     (let (ok, m1) = claim_goal tenant (ep_goal e) m in
      if \<not> ok then (Inl (goal_not_yours (ep_goal e)), m1) else mem_append_episode e m1)"

definition view_episodes :: "string \<Rightarrow> string \<Rightarrow> memory \<Rightarrow> episode list" where
  "view_episodes tenant gid m = (if \<not> owns_goal tenant gid m then [] else mem_episodes gid m)"

definition view_save_summary :: "string \<Rightarrow> summary \<Rightarrow> memory \<Rightarrow> (go_error + int) \<times> memory" where
  "view_save_summary tenant s m =
     (let (ok, m1) = claim_goal tenant (sm_goal s) m in
      if \<not> ok then (Inl (goal_not_yours (sm_goal s)), m1) else mem_save_summary s m1)"

definition view_summaries :: "string \<Rightarrow> string \<Rightarrow> memory \<Rightarrow> summary list" where
  "view_summaries tenant gid m = (if \<not> owns_goal tenant gid m then [] else mem_summaries gid m)"

definition view_promote_knowledge :: "string \<Rightarrow> knowledge \<Rightarrow> memory \<Rightarrow> (go_error + unit) \<times> memory" where
  "view_promote_knowledge tenant k m = mem_promote_knowledge (k\<lparr>kn_tenant := tenant\<rparr>) m"

definition view_knowledge_for :: "string \<Rightarrow> string \<Rightarrow> string \<Rightarrow> memory \<Rightarrow> knowledge list" where
  "view_knowledge_for tenant other subject m = mem_knowledge_for tenant subject m"

definition view_set_preference :: "string \<Rightarrow> preference \<Rightarrow> memory \<Rightarrow> (go_error + unit) \<times> memory" where
  "view_set_preference tenant p m = mem_set_preference (p\<lparr>pf_tenant := tenant\<rparr>) m"

definition view_preferences :: "string \<Rightarrow> string \<Rightarrow> memory \<Rightarrow> preference list" where
  "view_preferences tenant other m = mem_preferences tenant m"

definition no_turn_tenant :: go_error where
  "no_turn_tenant = (Opaque, ''memory: refusing to append a turn with no tenant'')"

definition view_append_turn :: "string \<Rightarrow> time \<Rightarrow> turn \<Rightarrow> memory \<Rightarrow> (go_error + int) \<times> memory" where
  "view_append_turn tenant now t m =
     (if tenant = '''' then (Inl no_turn_tenant, m) else mem_append_turn now (t\<lparr>tu_tenant := tenant\<rparr>) m)"

definition view_turns :: "string \<Rightarrow> string \<Rightarrow> string \<Rightarrow> memory \<Rightarrow> turn list" where
  "view_turns tenant other conversation m = mem_turns tenant conversation m"

definition view_latest_conversation :: "string \<Rightarrow> string \<Rightarrow> memory \<Rightarrow> string option" where
  "view_latest_conversation tenant other m = mem_latest_conversation tenant m"

definition view_conversations :: "string \<Rightarrow> string \<Rightarrow> memory \<Rightarrow> conversation list" where
  "view_conversations tenant other m = mem_conversations tenant m"

end
