(* ===== verification/Memory_PG.thy ===== *)
theory Memory_PG
  imports Memory Sql
begin

text \<open>
  Package \<open>internal/memory\<close>, part three: the store on PostgreSQL (\<open>PG\<close> in \<open>store.go\<close>) and its view bound to one
  tenant (\<open>pgScoped\<close> in \<open>scoped.go\<close>), on the tables of the migrations \<open>0002\<close> and \<open>0010\<close> and the \<open>goals\<close> and \<open>tenants\<close>
  they refer to.  An advisory lock makes each transaction atomic for its goal or conversation.

  Outside the repository, and so arguments: what a \<open>TIMESTAMPTZ\<close> column keeps of a time, the collation \<open>ORDER BY\<close>
  compares texts with, and the id a \<open>BIGSERIAL\<close> hands out.  A \<open>NULL\<close> \<open>summarised_by\<close> is \<open>0\<close>, as
  the code reads it, and a \<open>NULL\<close> \<open>superseded_by\<close> is the empty text, which \<open>PromoteKnowledge\<close> never stores.
\<close>

section \<open>Tables\<close>

record pgmem =
  pg_goals :: "(string \<times> string) list"
  pg_tenants :: "string list"
  pg_episode_rows :: "episode list"
  pg_summary_rows :: "summary list"
  pg_knowledge_rows :: "knowledge list"
  pg_pref_rows :: "preference list"
  pg_turn_rows :: "turn list"

text \<open>\<open>COALESCE(MAX(seq), 0) + 1\<close>.\<close>

definition next_number :: "int list \<Rightarrow> int" where
  "next_number ns = (if ns = [] then 0 else Max (set ns)) + 1"

section \<open>Episodes and summaries\<close>

definition rows_of_goal :: "string \<Rightarrow> pgmem \<Rightarrow> episode list" where
  "rows_of_goal gid d = filter (\<lambda>e. ep_goal e = gid) (pg_episode_rows d)"

definition episode_row :: "pg_env \<Rightarrow> time \<Rightarrow> episode \<Rightarrow> pgmem \<Rightarrow> episode" where
  "episode_row P now e d = e\<lparr>ep_seq := next_number (map ep_seq (rows_of_goal (ep_goal e) d)),
     ep_at := pe_keep P (nz now (ep_at e)), ep_by := 0\<rparr>"

definition pg_append_episode :: "pg_env \<Rightarrow> faults \<Rightarrow> time \<Rightarrow> episode \<Rightarrow> pgmem \<Rightarrow> (go_error + int) \<times> pgmem" where
  "pg_append_episode P f now e d =
     transaction f 0 3 (wrapped ''memory: append episode'') (wrapped ''memory: append episode'')
       (\<lambda>d. sql (''memory: locking goal '' @ fmt_q (ep_goal e)) (stmt f 1 (Inr ())) (\<lambda>_.
          sql ''memory: append episode''
            (stmt f 2 (if map_of (pg_goals d) (ep_goal e) = None then Inl (foreign_key_failed ''episodes_goal_id_fkey'')
                       else Inr (episode_row P now e d)))
            (\<lambda>row. Inr (ep_seq row, d\<lparr>pg_episode_rows := pg_episode_rows d @ [row]\<rparr>)))) d"

definition pg_episodes :: "faults \<Rightarrow> string \<Rightarrow> pgmem \<Rightarrow> go_error + episode list" where
  "pg_episodes f gid d =
     sql ''memory: episodes'' (stmt f 0 (Inr (sort_key ep_seq (rows_of_goal gid d)))) (rows_err f 1)"

definition summary_row :: "pg_env \<Rightarrow> time \<Rightarrow> int \<Rightarrow> summary \<Rightarrow> summary" where
  "summary_row P now i s = s\<lparr>sm_id := i, sm_at := pe_keep P (nz now (sm_at s))\<rparr>"

text \<open>\<open>UPDATE episodes SET summarised_by = $1 WHERE goal_id = $2 AND seq BETWEEN $3 AND $4\<close>.\<close>

definition cover_rows :: "int \<Rightarrow> summary \<Rightarrow> episode list \<Rightarrow> episode list" where
  "cover_rows i s = map (\<lambda>e. if ep_goal e = sm_goal s \<and> sm_from s \<le> ep_seq e \<and> ep_seq e \<le> sm_to s then e\<lparr>ep_by := i\<rparr> else e)"

definition insert_summary :: "pg_env \<Rightarrow> time \<Rightarrow> int \<Rightarrow> summary \<Rightarrow> pgmem \<Rightarrow> string + pgmem" where
  "insert_summary P now i s d =
     (if sm_to s < sm_from s then Inl (check_failed ''summaries_range_forward'')
      else if map_of (pg_goals d) (sm_goal s) = None then Inl (foreign_key_failed ''episode_summaries_goal_id_fkey'')
      else Inr (d\<lparr>pg_summary_rows := pg_summary_rows d @ [summary_row P now i s]\<rparr>))"

text \<open>The commit error is returned as it is.\<close>

definition pg_save_summary :: "pg_env \<Rightarrow> faults \<Rightarrow> time \<Rightarrow> int \<Rightarrow> summary \<Rightarrow> pgmem \<Rightarrow> (go_error + int) \<times> pgmem" where
  "pg_save_summary P f now i s d =
     transaction f 0 3 (wrapped ''memory: save summary'') (Pair Opaque)
       (\<lambda>d. sql ''memory: save summary'' (stmt f 1 (insert_summary P now i s d)) (\<lambda>d1.
          sql ''memory: marking episodes''
            (stmt f 2 (Inr (d1\<lparr>pg_episode_rows := cover_rows i s (pg_episode_rows d1)\<rparr>)))
            (\<lambda>d2. Inr (i, d2)))) d"

definition pg_summaries :: "faults \<Rightarrow> string \<Rightarrow> pgmem \<Rightarrow> go_error + summary list" where
  "pg_summaries f gid d =
     sql ''memory: summaries''
       (stmt f 0 (Inr (sort_key sm_id (filter (\<lambda>s. sm_goal s = gid) (pg_summary_rows d))))) (rows_err f 1)"

section \<open>Knowledge and preferences\<close>

definition supersede_rows :: "knowledge \<Rightarrow> knowledge list \<Rightarrow> knowledge list" where
  "supersede_rows k = map (\<lambda>r. if kn_tenant r = kn_tenant k \<and> kn_subject r = kn_subject k \<and> kn_key r = kn_key k \<and>
     kn_superseded r = '''' then r\<lparr>kn_superseded := kn_goal k\<rparr> else r)"

definition knowledge_row :: "pg_env \<Rightarrow> time \<Rightarrow> knowledge \<Rightarrow> knowledge" where
  "knowledge_row P now k = k\<lparr>kn_at := pe_keep P (nz now (kn_at k)), kn_superseded := ''''\<rparr>"

definition insert_knowledge :: "pg_env \<Rightarrow> time \<Rightarrow> knowledge \<Rightarrow> pgmem \<Rightarrow> string + pgmem" where
  "insert_knowledge P now k d =
     (let row = knowledge_row P now k in
      if \<exists>r \<in> set (pg_knowledge_rows d). kn_tenant r = kn_tenant row \<and> kn_subject r = kn_subject row \<and>
           kn_key r = kn_key row \<and> kn_at r = kn_at row then Inl (duplicate_key ''knowledge_pkey'')
      else Inr (d\<lparr>pg_knowledge_rows := pg_knowledge_rows d @ [row]\<rparr>))"

definition pg_promote_knowledge :: "pg_env \<Rightarrow> faults \<Rightarrow> time \<Rightarrow> knowledge \<Rightarrow> pgmem \<Rightarrow> (go_error + unit) \<times> pgmem" where
  "pg_promote_knowledge P f now k d =
     (if kn_goal k = '''' \<or> length (kn_seqs k) = 0 then
        (Inl (ErrNoEvidence, ''memory: knowledge promoted without citing evidence: '' @ fmt_q (kn_key k)), d)
      else transaction f 0 3 (wrapped ''memory: promote'') (Pair Opaque)
        (\<lambda>d. sql ''memory: superseding''
           (stmt f 1 (Inr (d\<lparr>pg_knowledge_rows := supersede_rows k (pg_knowledge_rows d)\<rparr>))) (\<lambda>d1.
           sql ''memory: promote'' (stmt f 2 (insert_knowledge P now k d1)) (\<lambda>d2. Inr ((), d2)))) d)"

definition pg_knowledge_for :: "pg_env \<Rightarrow> faults \<Rightarrow> string \<Rightarrow> string \<Rightarrow> pgmem \<Rightarrow> go_error + knowledge list" where
  "pg_knowledge_for P f tenant subject d =
     sql ''memory: knowledge''
       (stmt f 0 (Inr (sort_key (\<lambda>k. pe_collate P (kn_key k))
          (filter (\<lambda>k. kn_tenant k = tenant \<and> kn_subject k = subject \<and> kn_superseded k = '''') (pg_knowledge_rows d)))))
       (rows_err f 1)"

text \<open>\<open>INSERT ... ON CONFLICT (tenant, key) DO UPDATE\<close>.\<close>

definition upsert_preference :: "preference \<Rightarrow> preference list \<Rightarrow> preference list" where
  "upsert_preference p ps =
     (if \<exists>x \<in> set ps. pf_tenant x = pf_tenant p \<and> pf_key x = pf_key p
      then map (\<lambda>x. if pf_tenant x = pf_tenant p \<and> pf_key x = pf_key p
             then x\<lparr>pf_value := pf_value p, pf_author := pf_author p, pf_at := pf_at p\<rparr> else x) ps
      else ps @ [p])"

definition pg_set_preference :: "pg_env \<Rightarrow> faults \<Rightarrow> time \<Rightarrow> preference \<Rightarrow> pgmem \<Rightarrow> (go_error + unit) \<times> pgmem" where
  "pg_set_preference P f now p d =
     (case validate_preference p of
        Inl e \<Rightarrow> (Inl e, d)
      | Inr _ \<Rightarrow>
          (case stmt f 0 (Inr (d\<lparr>pg_pref_rows :=
                  upsert_preference (p\<lparr>pf_at := pe_keep P (nz now (pf_at p))\<rparr>) (pg_pref_rows d)\<rparr>)) of
             Inl msg \<Rightarrow> (Inl (wrapped ''memory: set preference'' msg), d)
           | Inr d' \<Rightarrow> (Inr (), d')))"

definition pg_preferences :: "pg_env \<Rightarrow> faults \<Rightarrow> string \<Rightarrow> pgmem \<Rightarrow> go_error + preference list" where
  "pg_preferences P f tenant d =
     sql ''memory: preferences''
       (stmt f 0 (Inr (sort_key (\<lambda>p. pe_collate P (pf_key p)) (filter (\<lambda>p. pf_tenant p = tenant) (pg_pref_rows d)))))
       (rows_err f 1)"

section \<open>Turns\<close>

definition rows_of_conversation :: "string \<Rightarrow> string \<Rightarrow> pgmem \<Rightarrow> turn list" where
  "rows_of_conversation tenant c d = filter (\<lambda>t. tu_tenant t = tenant \<and> tu_conversation t = c) (pg_turn_rows d)"

definition turn_row :: "pg_env \<Rightarrow> time \<Rightarrow> turn \<Rightarrow> pgmem \<Rightarrow> turn" where
  "turn_row P now t d = t\<lparr>tu_seq := next_number (map tu_seq (rows_of_conversation (tu_tenant t) (tu_conversation t) d)),
     tu_at := pe_keep P (nz now (tu_at t))\<rparr>"

definition pg_append_turn :: "pg_env \<Rightarrow> faults \<Rightarrow> time \<Rightarrow> turn \<Rightarrow> pgmem \<Rightarrow> (go_error + int) \<times> pgmem" where
  "pg_append_turn P f now t d =
     (case validate_turn t of
        Inl e \<Rightarrow> (Inl e, d)
      | Inr _ \<Rightarrow>
          transaction f 0 3 (wrapped ''memory: append turn'') (wrapped ''memory: append turn'')
            (\<lambda>d. sql (''memory: locking conversation '' @ fmt_q (tu_conversation t)) (stmt f 1 (Inr ())) (\<lambda>_.
               sql ''memory: append turn''
                 (stmt f 2 (if tu_tenant t \<notin> set (pg_tenants d) then Inl (foreign_key_failed ''conversation_turns_tenant_fkey'')
                            else Inr (turn_row P now t d)))
                 (\<lambda>row. Inr (tu_seq row, d\<lparr>pg_turn_rows := pg_turn_rows d @ [row]\<rparr>)))) d)"

definition pg_turns :: "faults \<Rightarrow> string \<Rightarrow> string \<Rightarrow> pgmem \<Rightarrow> go_error + turn list" where
  "pg_turns f tenant c d =
     sql ''memory: turns'' (stmt f 0 (Inr (sort_key tu_seq (rows_of_conversation tenant c d)))) (rows_err f 1)"

text \<open>\<open>ORDER BY at DESC, conversation_id DESC LIMIT 1\<close>.\<close>

definition pg_latest_conversation :: "pg_env \<Rightarrow> faults \<Rightarrow> string \<Rightarrow> pgmem \<Rightarrow> go_error + string option" where
  "pg_latest_conversation P f tenant d =
     sql ''memory: latest conversation''
       (stmt f 0 (Inr (case rev (sort_key (\<lambda>t. (tu_at t, pe_collate P (tu_conversation t)))
                               (filter (\<lambda>t. tu_tenant t = tenant) (pg_turn_rows d))) of
                         [] \<Rightarrow> None | t # _ \<Rightarrow> Some (tu_conversation t))))
       Inr"

text \<open>The aggregate of one thread and the body of its opening user turn, empty when there is none.\<close>

definition opening_body :: "turn list \<Rightarrow> string" where
  "opening_body ts = (case sort_key tu_seq (filter (\<lambda>t. tu_role t = TurnUser) ts) of [] \<Rightarrow> '''' | t # _ \<Rightarrow> tu_body t)"

definition thread_row :: "string \<Rightarrow> string \<Rightarrow> pgmem \<Rightarrow> conversation" where
  "thread_row tenant c d =
     (let ts = rows_of_conversation tenant c d in
      \<lparr>cs_id = c, cs_title = title_of (opening_body ts), cs_turns = int (length ts), cs_last = Max (set (map tu_at ts))\<rparr>)"

definition pg_conversations :: "pg_env \<Rightarrow> faults \<Rightarrow> string \<Rightarrow> pgmem \<Rightarrow> go_error + conversation list" where
  "pg_conversations P f tenant d =
     sql ''memory: conversations''
       (stmt f 0 (Inr (rev (sort_key (\<lambda>c. (cs_last c, pe_collate P (cs_id c)))
          (map (\<lambda>c. thread_row tenant c d)
             (remdups (map tu_conversation (filter (\<lambda>t. tu_tenant t = tenant) (pg_turn_rows d)))))))))
       (rows_err f 1)"

section \<open>The view of one tenant\<close>

definition goal_owned :: "string \<Rightarrow> string \<Rightarrow> pgmem \<Rightarrow> bool" where
  "goal_owned tenant gid d \<longleftrightarrow> (gid, tenant) \<in> set (pg_goals d)"

definition pg_not_yours :: "string \<Rightarrow> go_error" where
  "pg_not_yours gid = (ErrNotFound, ''memory: not found: goal '' @ fmt_q gid)"

definition pgview_append_episode :: "pg_env \<Rightarrow> faults \<Rightarrow> string \<Rightarrow> time \<Rightarrow> episode \<Rightarrow> pgmem \<Rightarrow> (go_error + int) \<times> pgmem" where
  "pgview_append_episode P f tenant now e d =
     (if tenant = '''' then (Inl (Opaque, ''memory: refusing to append an episode with no tenant''), d)
      else transaction f 0 3 (wrapped ''memory: append episode'') (Pair Opaque)
        (\<lambda>d. sql (''memory: locking goal '' @ fmt_q (ep_goal e)) (stmt f 1 (Inr ())) (\<lambda>_.
           sql ''memory: append episode''
             (stmt f 2 (Inr (if goal_owned tenant (ep_goal e) d then Some (episode_row P now e d) else None)))
             (\<lambda>r. case r of None \<Rightarrow> Inl (pg_not_yours (ep_goal e))
                | Some row \<Rightarrow> Inr (ep_seq row, d\<lparr>pg_episode_rows := pg_episode_rows d @ [row]\<rparr>)))) d)"

definition pgview_episodes :: "faults \<Rightarrow> string \<Rightarrow> string \<Rightarrow> pgmem \<Rightarrow> go_error + episode list" where
  "pgview_episodes f tenant gid d =
     sql ''memory: episodes''
       (stmt f 0 (Inr (if goal_owned tenant gid d then sort_key ep_seq (rows_of_goal gid d) else []))) (rows_err f 1)"

definition pgview_save_summary :: "pg_env \<Rightarrow> faults \<Rightarrow> string \<Rightarrow> time \<Rightarrow> int \<Rightarrow> summary \<Rightarrow> pgmem \<Rightarrow> (go_error + int) \<times> pgmem" where
  "pgview_save_summary P f tenant now i s d =
     (if tenant = '''' then (Inl (Opaque, ''memory: refusing to save a summary with no tenant''), d)
      else transaction f 0 3 (wrapped ''memory: save summary'') (Pair Opaque)
        (\<lambda>d. sql ''memory: save summary''
           (stmt f 1 (if goal_owned tenant (sm_goal s) d then map_sum id Some (insert_summary P now i s d) else Inr None))
           (\<lambda>r. case r of None \<Rightarrow> Inl (pg_not_yours (sm_goal s))
              | Some d1 \<Rightarrow>
                  sql ''memory: marking episodes''
                    (stmt f 2 (Inr (d1\<lparr>pg_episode_rows := cover_rows i s (pg_episode_rows d1)\<rparr>)))
                    (\<lambda>d2. Inr (i, d2)))) d)"

definition pgview_summaries :: "faults \<Rightarrow> string \<Rightarrow> string \<Rightarrow> pgmem \<Rightarrow> go_error + summary list" where
  "pgview_summaries f tenant gid d =
     sql ''memory: summaries''
       (stmt f 0 (Inr (if goal_owned tenant gid d
          then sort_key sm_id (filter (\<lambda>s. sm_goal s = gid) (pg_summary_rows d)) else []))) (rows_err f 1)"

definition pgview_promote_knowledge :: "pg_env \<Rightarrow> faults \<Rightarrow> string \<Rightarrow> time \<Rightarrow> knowledge \<Rightarrow> pgmem \<Rightarrow> (go_error + unit) \<times> pgmem" where
  "pgview_promote_knowledge P f tenant now k d = pg_promote_knowledge P f now (k\<lparr>kn_tenant := tenant\<rparr>) d"

definition pgview_knowledge_for :: "pg_env \<Rightarrow> faults \<Rightarrow> string \<Rightarrow> string \<Rightarrow> string \<Rightarrow> pgmem \<Rightarrow> go_error + knowledge list" where
  "pgview_knowledge_for P f tenant other subject d = pg_knowledge_for P f tenant subject d"

definition pgview_set_preference :: "pg_env \<Rightarrow> faults \<Rightarrow> string \<Rightarrow> time \<Rightarrow> preference \<Rightarrow> pgmem \<Rightarrow> (go_error + unit) \<times> pgmem" where
  "pgview_set_preference P f tenant now p d = pg_set_preference P f now (p\<lparr>pf_tenant := tenant\<rparr>) d"

definition pgview_preferences :: "pg_env \<Rightarrow> faults \<Rightarrow> string \<Rightarrow> string \<Rightarrow> pgmem \<Rightarrow> go_error + preference list" where
  "pgview_preferences P f tenant other d = pg_preferences P f tenant d"

definition pgview_append_turn :: "pg_env \<Rightarrow> faults \<Rightarrow> string \<Rightarrow> time \<Rightarrow> turn \<Rightarrow> pgmem \<Rightarrow> (go_error + int) \<times> pgmem" where
  "pgview_append_turn P f tenant now t d =
     (if tenant = '''' then (Inl (Opaque, ''memory: refusing to append a turn with no tenant''), d)
      else pg_append_turn P f now (t\<lparr>tu_tenant := tenant\<rparr>) d)"

definition pgview_turns :: "faults \<Rightarrow> string \<Rightarrow> string \<Rightarrow> string \<Rightarrow> pgmem \<Rightarrow> go_error + turn list" where
  "pgview_turns f tenant other c d = pg_turns f tenant c d"

definition pgview_latest_conversation :: "pg_env \<Rightarrow> faults \<Rightarrow> string \<Rightarrow> string \<Rightarrow> pgmem \<Rightarrow> go_error + string option" where
  "pgview_latest_conversation P f tenant other d = pg_latest_conversation P f tenant d"

definition pgview_conversations :: "pg_env \<Rightarrow> faults \<Rightarrow> string \<Rightarrow> string \<Rightarrow> pgmem \<Rightarrow> go_error + conversation list" where
  "pgview_conversations P f tenant other d = pg_conversations P f tenant d"

end
