(* ===== verification/Interfaces.thy ===== *)
theory Interfaces
  imports Prelude
begin

text \<open>
  Two contracts the stores keep, stated once: a log whose entries are numbered by the store (episodes of a goal, turns of a
  conversation), and a simulation between two implementations of one interface.
\<close>

section \<open>Running operations\<close>

fun run_all :: "('o \<Rightarrow> 's \<Rightarrow> 'r \<times> 's) \<Rightarrow> 'o list \<Rightarrow> 's \<Rightarrow> 'r list \<times> 's" where
  "run_all step [] s = ([], s)"
| "run_all step (op # ops) s = (let (r, s1) = step op s; (rs, s2) = run_all step ops s1 in (r # rs, s2))"

lemma run_all_length: "run_all step ops s = (rs, s') \<Longrightarrow> length rs = length ops"
  by (induction ops arbitrary: s rs) (auto split: prod.splits)

section \<open>Numbered logs\<close>

text \<open>The numbers an execution handed out under one key, in order.\<close>

fun handed_out :: "('e \<Rightarrow> 'k) \<Rightarrow> 'k \<Rightarrow> 'e list \<Rightarrow> (go_error + int) list \<Rightarrow> int list" where
  "handed_out key k (e # es) (r # rs) =
     (case r of Inr n \<Rightarrow> if key e = k then n # handed_out key k es rs else handed_out key k es rs
      | Inl _ \<Rightarrow> handed_out key k es rs)"
| "handed_out key k _ _ = []"

locale numbered_log =
  fixes append :: "'e \<Rightarrow> 's \<Rightarrow> (go_error + int) \<times> 's"
    and entries :: "'k \<Rightarrow> 's \<Rightarrow> 'x list"
    and key :: "'e \<Rightarrow> 'k"
    and number :: "'x \<Rightarrow> int"
    and good :: "'s \<Rightarrow> bool"
  assumes numbered: "good s \<Longrightarrow> map number (entries k s) = [1..int (length (entries k s))]"
    and append_good: "good s \<Longrightarrow> append e s = (r, s') \<Longrightarrow> good s'"
    and append_taken: "good s \<Longrightarrow> append e s = (Inr n, s') \<Longrightarrow>
      n = int (length (entries (key e) s)) + 1 \<and>
      (\<exists>x. entries k s' = (if k = key e then entries k s @ [x] else entries k s))"
    and append_refused: "good s \<Longrightarrow> append e s = (Inl err, s') \<Longrightarrow> s' = s"
begin

lemma run_numbers:
  assumes "good s" "run_all append es s = (rs, s')"
  shows "good s' \<and> length (entries k s) \<le> length (entries k s') \<and>
    handed_out key k es rs = [int (length (entries k s)) + 1 .. int (length (entries k s'))]"
  using assms
proof (induction es arbitrary: s rs)
  case (Cons e es)
  obtain r s1 where a: "append e s = (r, s1)" by (metis surj_pair)
  obtain rs1 where run: "run_all append es s1 = (rs1, s')" and rs: "rs = r # rs1"
    using Cons.prems(2) a by (auto split: prod.splits)
  note good = append_good [OF Cons.prems(1) a]
  note IH = Cons.IH [OF good run]
  show ?case
  proof (cases r)
    case (Inl err)
    with append_refused [OF Cons.prems(1)] a have "s1 = s" by blast
    with IH Inl rs show ?thesis by simp
  next
    case (Inr n)
    from append_taken [OF Cons.prems(1) a [unfolded Inr], of k]
    obtain x where n: "n = int (length (entries (key e) s)) + 1"
      and x: "entries k s1 = (if k = key e then entries k s @ [x] else entries k s)" by blast
    show ?thesis
    proof (cases "k = key e")
      case True
      with IH x have le: "int (length (entries k s)) + 1 \<le> int (length (entries k s'))" by simp
      have "int (length (entries k s1)) = int (length (entries k s)) + 1" using x True by simp
      then have "handed_out key k es rs1 = [int (length (entries k s)) + 1 + 1 .. int (length (entries k s'))]"
        using IH by simp
      then have "handed_out key k (e # es) (r # rs1) = [int (length (entries k s)) + 1 .. int (length (entries k s'))]"
        using Inr n True by (subst upto_rec1 [OF le]) simp
      with IH x True rs show ?thesis by simp
    qed (use IH x Inr rs in simp)
  qed
qed simp

text \<open>The log at the end is numbered without a gap, and the numbers handed out are the ones it grew by.\<close>

lemma run_no_gap:
  assumes "good s" "run_all append es s = (rs, s')"
  shows "map number (entries k s') = map number (entries k s) @ handed_out key k es rs"
proof -
  have "good s'" and le: "length (entries k s) \<le> length (entries k s')"
    and h: "handed_out key k es rs = [int (length (entries k s)) + 1 .. int (length (entries k s'))]"
    using run_numbers [OF assms] by blast+
  have "[1..int (length (entries k s'))] = [1..int (length (entries k s))] @ [int (length (entries k s)) + 1 .. int (length (entries k s'))]"
    using upto_split2 [of 1 "int (length (entries k s))" "int (length (entries k s'))"] le
    by (cases "length (entries k s) = 0") simp_all
  then show ?thesis using numbered [OF \<open>good s'\<close>] numbered [OF assms(1)] h by simp
qed

end

section \<open>Simulations\<close>

text \<open>Every operation of the list meets its condition at the states it runs in.\<close>

fun all_ok :: "('o \<Rightarrow> 'c \<Rightarrow> 'a \<Rightarrow> bool) \<Rightarrow> ('o \<Rightarrow> 'c \<Rightarrow> 'r \<times> 'c) \<Rightarrow> ('o \<Rightarrow> 'a \<Rightarrow> 'r \<times> 'a) \<Rightarrow> 'o list \<Rightarrow> 'c \<Rightarrow> 'a \<Rightarrow> bool" where
  "all_ok ok cstep astep [] c a = True"
| "all_ok ok cstep astep (op # ops) c a =
     (ok op c a \<and> all_ok ok cstep astep ops (snd (cstep op c)) (snd (astep op a)))"

locale simulation =
  fixes related :: "'c \<Rightarrow> 'a \<Rightarrow> bool"
    and cstep :: "'o \<Rightarrow> 'c \<Rightarrow> 'r \<times> 'c"
    and astep :: "'o \<Rightarrow> 'a \<Rightarrow> 'r \<times> 'a"
    and ok :: "'o \<Rightarrow> 'c \<Rightarrow> 'a \<Rightarrow> bool"
  assumes sim: "related c a \<Longrightarrow> ok op c a \<Longrightarrow>
    fst (cstep op c) = fst (astep op a) \<and> related (snd (cstep op c)) (snd (astep op a))"
begin

lemma run_agrees:
  "related c a \<Longrightarrow> all_ok ok cstep astep ops c a \<Longrightarrow>
     fst (run_all cstep ops c) = fst (run_all astep ops a) \<and> related (snd (run_all cstep ops c)) (snd (run_all astep ops a))"
proof (induction ops arbitrary: c a)
  case (Cons op ops)
  from Cons.prems have s: "fst (cstep op c) = fst (astep op a)" "related (snd (cstep op c)) (snd (astep op a))"
    using sim by auto
  with Cons.IH [OF s(2)] Cons.prems(2) show ?case by (simp add: case_prod_beta)
qed simp

end

end
