(* ===== verification/Memory_Conform.thy ===== *)
theory Memory_Conform
  imports Memory_Store Memory_PG Interfaces
begin

text \<open>
  The two implementations of the memory store against each other, through their tenant views.  \<open>conforms\<close> relates
  the tables to the in-process state table by table; each operation is shown to give the same answer and keep the relation,
  and the locale \<open>simulation\<close> lifts that to every sequence of operations.
\<close>

section \<open>Keys\<close>

definition no_nul :: "string \<Rightarrow> bool" where
  "no_nul s \<longleftrightarrow> char_of (0 :: nat) \<notin> set s"

lemma split_at_first:
  "c \<notin> set xs \<Longrightarrow> c \<notin> set xs' \<Longrightarrow> xs @ c # ys = xs' @ c # ys' \<longleftrightarrow> xs = xs' \<and> ys = ys'"
proof (induction xs arbitrary: xs')
  case Nil
  then show ?case by (cases xs') auto
next
  case (Cons x xs)
  then show ?case by (cases xs') auto
qed

lemma subject_key_inj [simp]:
  "no_nul t \<Longrightarrow> no_nul t' \<Longrightarrow> subject_key t s = subject_key t' s' \<longleftrightarrow> t = t' \<and> s = s'"
  by (simp add: subject_key_def no_nul_def split_at_first)

lemma subject_key_split: "subject_key t c = subject_key t '''' @ c"
  by (simp add: subject_key_def)

lemma drop_subject_key [simp]: "drop (length (subject_key t '''')) (subject_key t c) = c"
  by (simp add: subject_key_split [of t c])

lemma prefix_subject_key [simp]:
  assumes "no_nul t" "no_nul t'"
  shows "has_prefix (subject_key t' c) (subject_key t '''') \<longleftrightarrow> t = t'"
proof
  assume "has_prefix (subject_key t' c) (subject_key t '''')"
  then have "\<exists>ys. subject_key t' c = subject_key t '''' @ ys" unfolding has_prefix_def by (metis append_take_drop_id)
  then obtain ys where "subject_key t' c = subject_key t ys" by (auto simp: subject_key_def)
  with assms show "t = t'" by simp
qed (simp add: has_prefix_def subject_key_def)

section \<open>Operations of a view\<close>

datatype view_op =
    OpEpisode episode | OpSummary summary | OpKnowledge knowledge | OpPreference preference | OpTurn turn
  | AskEpisodes string | AskSummaries string | AskKnowledge string | AskPreferences | AskTurns string | AskConversations

datatype answer =
    Number "go_error + int" | Done "go_error + unit"
  | GotEpisodes "go_error + episode list" | GotSummaries "go_error + summary list"
  | GotKnowledge "go_error + knowledge list" | GotPreferences "go_error + preference list"
  | GotTurns "go_error + turn list" | GotConversations "go_error + conversation list"

text \<open>A tenant, the clock, the id the sequence of the summaries hands out next, and the call.\<close>

type_synonym view_call = "string \<times> time \<times> int \<times> view_op"

fun mem_do :: "view_call \<Rightarrow> memory \<Rightarrow> answer \<times> memory" where
  "mem_do (T, now, i, OpEpisode e) m = map_prod Number id (view_append_episode T e m)"
| "mem_do (T, now, i, OpSummary s) m = map_prod Number id (view_save_summary T s m)"
| "mem_do (T, now, i, OpKnowledge k) m = map_prod Done id (view_promote_knowledge T k m)"
| "mem_do (T, now, i, OpPreference p) m = map_prod Done id (view_set_preference T p m)"
| "mem_do (T, now, i, OpTurn t) m = map_prod Number id (view_append_turn T now t m)"
| "mem_do (T, now, i, AskEpisodes g) m = (GotEpisodes (Inr (view_episodes T g m)), m)"
| "mem_do (T, now, i, AskSummaries g) m = (GotSummaries (Inr (view_summaries T g m)), m)"
| "mem_do (T, now, i, AskKnowledge s) m = (GotKnowledge (Inr (view_knowledge_for T '''' s m)), m)"
| "mem_do (T, now, i, AskPreferences) m = (GotPreferences (Inr (view_preferences T '''' m)), m)"
| "mem_do (T, now, i, AskTurns c) m = (GotTurns (Inr (view_turns T '''' c m)), m)"
| "mem_do (T, now, i, AskConversations) m = (GotConversations (Inr (view_conversations T '''' m)), m)"

fun pg_do :: "pg_env \<Rightarrow> faults \<Rightarrow> view_call \<Rightarrow> pgmem \<Rightarrow> answer \<times> pgmem" where
  "pg_do P f (T, now, i, OpEpisode e) d = map_prod Number id (pgview_append_episode P f T now e d)"
| "pg_do P f (T, now, i, OpSummary s) d = map_prod Number id (pgview_save_summary P f T now i s d)"
| "pg_do P f (T, now, i, OpKnowledge k) d = map_prod Done id (pgview_promote_knowledge P f T now k d)"
| "pg_do P f (T, now, i, OpPreference p) d = map_prod Done id (pgview_set_preference P f T now p d)"
| "pg_do P f (T, now, i, OpTurn t) d = map_prod Number id (pgview_append_turn P f T now t d)"
| "pg_do P f (T, now, i, AskEpisodes g) d = (GotEpisodes (pgview_episodes f T g d), d)"
| "pg_do P f (T, now, i, AskSummaries g) d = (GotSummaries (pgview_summaries f T g d), d)"
| "pg_do P f (T, now, i, AskKnowledge s) d = (GotKnowledge (pgview_knowledge_for P f T '''' s d), d)"
| "pg_do P f (T, now, i, AskPreferences) d = (GotPreferences (pgview_preferences P f T '''' d), d)"
| "pg_do P f (T, now, i, AskTurns c) d = (GotTurns (pgview_turns f T '''' c d), d)"
| "pg_do P f (T, now, i, AskConversations) d = (GotConversations (pgview_conversations P f T '''' d), d)"

section \<open>The relation\<close>

definition numbered_from_one :: "('x \<Rightarrow> int) \<Rightarrow> 'x list \<Rightarrow> bool" where
  "numbered_from_one number xs \<longleftrightarrow> map number xs = [1..int (length xs)]"

definition conf_episodes :: "pgmem \<Rightarrow> memory \<Rightarrow> bool" where
  "conf_episodes d m \<longleftrightarrow> (\<forall>g. rows_of_goal g d = mem_episodes g m \<and> numbered_from_one ep_seq (mem_episodes g m))"

definition conf_summaries :: "pgmem \<Rightarrow> memory \<Rightarrow> bool" where
  "conf_summaries d m \<longleftrightarrow> (\<forall>g. filter (\<lambda>s. sm_goal s = g) (pg_summary_rows d) = mem_summaries g m) \<and>
     sorted (map sm_id (pg_summary_rows d)) \<and> (\<forall>s \<in> set (pg_summary_rows d). sm_id s \<le> mm_next_sum m)"

definition conf_knowledge :: "pgmem \<Rightarrow> memory \<Rightarrow> bool" where
  "conf_knowledge d m \<longleftrightarrow> (\<forall>T s. no_nul T \<longrightarrow>
     filter (\<lambda>k. kn_tenant k = T \<and> kn_subject k = s) (pg_knowledge_rows d) = at_key (mm_knowledge m) (subject_key T s))"

definition conf_prefs :: "pgmem \<Rightarrow> memory \<Rightarrow> bool" where
  "conf_prefs d m \<longleftrightarrow> (\<forall>T. filter (\<lambda>p. pf_tenant p = T) (pg_pref_rows d) = map snd (at_key (mm_prefs m) T) \<and>
     distinct (map fst (at_key (mm_prefs m) T)) \<and> (\<forall>(k, p) \<in> set (at_key (mm_prefs m) T). k = pf_key p))"

definition turns_keyed :: "memory \<Rightarrow> bool" where
  "turns_keyed m \<longleftrightarrow> distinct (map fst (mm_turns m)) \<and>
     (\<forall>(k, ts) \<in> set (mm_turns m). ts \<noteq> [] \<and> (\<exists>T c. no_nul T \<and> k = subject_key T c))"

definition conf_turns :: "pgmem \<Rightarrow> memory \<Rightarrow> bool" where
  "conf_turns d m \<longleftrightarrow> (\<forall>T c. no_nul T \<longrightarrow> rows_of_conversation T c d = mem_turns T c m) \<and>
     (\<forall>k. numbered_from_one tu_seq (at_key (mm_turns m) k)) \<and> turns_keyed m \<and>
     (\<forall>t \<in> set (pg_turn_rows d). tu_at t > 0 \<and> no_nul (tu_tenant t))"

definition conf_owners :: "pgmem \<Rightarrow> memory \<Rightarrow> bool" where
  "conf_owners d m \<longleftrightarrow> distinct (map fst (pg_goals d)) \<and>
     (\<forall>g T. map_of (mm_tenant_of m) g = Some T \<longrightarrow> T \<noteq> '''' \<and> map_of (pg_goals d) g = Some T) \<and>
     (\<forall>g. map_of (mm_tenant_of m) g = None \<longrightarrow> mem_episodes g m = [] \<and> mem_summaries g m = [])"

definition conforms :: "pgmem \<Rightarrow> memory \<Rightarrow> bool" where
  "conforms d m \<longleftrightarrow> conf_episodes d m \<and> conf_summaries d m \<and> conf_knowledge d m \<and> conf_prefs d m \<and>
     conf_turns d m \<and> conf_owners d m"

text \<open>
  When the two answer alike: the database keeps the times given (whole microseconds, not the zero time) and compares
  texts by their bytes; a goal is written by the tenant the \<open>goals\<close> table names, or was before; a summary's range runs forward and its id is the
  next; two claims on one key are not made at the same instant; and an opening message has a title.
\<close>

definition kept :: "pg_env \<Rightarrow> time \<Rightarrow> bool" where
  "kept P t \<longleftrightarrow> t > 0 \<and> pe_keep P t = t"

definition writable :: "string \<Rightarrow> string \<Rightarrow> pgmem \<Rightarrow> memory \<Rightarrow> bool" where
  "writable T g d m \<longleftrightarrow> map_of (pg_goals d) g \<noteq> None \<and> (map_of (mm_tenant_of m) g = None \<longrightarrow> map_of (pg_goals d) g = Some T)"

definition titled :: "turn list \<Rightarrow> bool" where
  "titled ts \<longleftrightarrow> (case filter (\<lambda>t. tu_role t = TurnUser) ts of [] \<Rightarrow> True | t # _ \<Rightarrow> title_of (tu_body t) \<noteq> '''')"

fun conform_ok :: "pg_env \<Rightarrow> view_call \<Rightarrow> pgmem \<Rightarrow> memory \<Rightarrow> bool" where
  "conform_ok P (T, now, i, op) d m \<longleftrightarrow>
     T \<noteq> '''' \<and> no_nul T \<and> T \<in> set (pg_tenants d) \<and> (\<forall>s. pe_collate P s = s) \<and>
     (case op of
        OpEpisode e \<Rightarrow> kept P (ep_at e) \<and> ep_by e = 0 \<and> writable T (ep_goal e) d m
      | OpSummary s \<Rightarrow> kept P (sm_at s) \<and> sm_from s \<le> sm_to s \<and> i = mm_next_sum m + 1 \<and> writable T (sm_goal s) d m
      | OpKnowledge k \<Rightarrow> kept P (kn_at k) \<and> kn_superseded k = '''' \<and>
          \<not> (\<exists>r \<in> set (pg_knowledge_rows d). kn_tenant r = T \<and> kn_subject r = kn_subject k \<and> kn_key r = kn_key k \<and> kn_at r = kn_at k)
      | OpPreference p \<Rightarrow> kept P (pf_at p)
      | OpTurn t \<Rightarrow> kept P (nz now (tu_at t))
      | AskConversations \<Rightarrow> \<forall>(k, ts) \<in> set (mm_turns m). titled ts
      | _ \<Rightarrow> True)"

end
