(* ===== verification/Memory_Sim.thy ===== *)
theory Memory_Sim
  imports Memory_Conform
begin

text \<open>
  The simulation between the PostgreSQL memory and the in-process one, call by call, and its interpretation; and
  the numbering of both logs as interpretations of \<open>numbered_log\<close>.
\<close>

section \<open>Helpers\<close>

lemma numbered_sorted [simp]: "numbered_from_one f xs \<Longrightarrow> sort_key f xs = xs"
  by (rule sort_key_id_if_sorted) (simp add: numbered_from_one_def)

lemma numbered_Nil [simp]: "numbered_from_one f []"
  by (simp add: numbered_from_one_def)

lemma numbered_snoc: "numbered_from_one f xs \<Longrightarrow> f x = int (length xs) + 1 \<Longrightarrow> numbered_from_one f (xs @ [x])"
  using upto_rec2 [of 1 "int (length xs) + 1"] by (simp add: numbered_from_one_def add.commute)

lemma numbered_map: "numbered_from_one f xs \<Longrightarrow> (\<And>x. f (h x) = f x) \<Longrightarrow> numbered_from_one f (map h xs)"
  by (simp add: numbered_from_one_def comp_def)

lemma next_number_numbered: "numbered_from_one f xs \<Longrightarrow> next_number (map f xs) = int (length xs) + 1"
proof (cases "xs = []")
  case False
  assume "numbered_from_one f xs"
  then have "set (map f xs) = {1..int (length xs)}" by (simp add: numbered_from_one_def)
  moreover have "Max {1..int (length xs)} = int (length xs)" using False by (intro Max_eqI) (auto simp: Suc_le_eq)
  ultimately show ?thesis using False by (simp add: next_number_def)
qed (simp add: next_number_def)

lemma map_of_map_one:
  "map_of (map (\<lambda>(k, v). (k, if k = g then h v else v)) xs) k = map_option (if k = g then h else id) (map_of xs k)"
  by (induction xs) auto

lemma at_key_map_values:
  "h [] = [] \<Longrightarrow> at_key (map (\<lambda>(k, v). (k, if k = g then h v else v)) xs) k = (if k = g then h (at_key xs k) else at_key xs k)"
  by (simp add: at_key_def map_of_map_one split: option.split)

lemma mark_covered_Nil [simp]: "mark_covered i s [] = []"
  by (simp add: mark_covered_def)

lemma at_key_None: "map_of xs k = None \<Longrightarrow> at_key xs k = []"
  by (simp add: at_key_def)

lemma map_prod_fst_snd [simp]: "fst (map_prod f id p) = f (fst p)" "snd (map_prod f id p) = snd p"
  by (cases p, simp)+

section \<open>Who owns a goal\<close>

lemma goal_owned_iff: "conf_owners d m \<Longrightarrow> goal_owned T g d \<longleftrightarrow> map_of (pg_goals d) g = Some T"
  by (simp add: goal_owned_def conf_owners_def)

lemma claim_goal_spec:
  assumes "conforms d m" "T \<noteq> ''''" "writable T g d m" "claim_goal T g m = (ok, m1)"
  shows "ok \<longleftrightarrow> goal_owned T g d" "conforms d m1" "ok \<Longrightarrow> map_of (mm_tenant_of m1) g = Some T" "mm_next_sum m1 = mm_next_sum m"
proof -
  have o: "conf_owners d m" using assms(1) by (simp add: conforms_def)
  show "ok \<longleftrightarrow> goal_owned T g d"
    using assms(2-4) o by (auto simp: goal_owned_iff [OF o] claim_goal_def writable_def conf_owners_def simp del: map_of_eq_Some_iff split: option.splits)
  have m1: "m1 = m \<or> map_of (mm_tenant_of m) g = None \<and> m1 = m\<lparr>mm_tenant_of := AList.update g T (mm_tenant_of m)\<rparr>"
    using assms(2,4) by (auto simp: claim_goal_def split: option.splits)
  then show "conforms d m1"
  proof
    assume "map_of (mm_tenant_of m) g = None \<and> m1 = m\<lparr>mm_tenant_of := AList.update g T (mm_tenant_of m)\<rparr>"
    moreover from this assms(3) have "map_of (pg_goals d) g = Some T" by (simp add: writable_def)
    ultimately show ?thesis using assms(1,2)
      by (auto simp: conforms_def conf_episodes_def conf_summaries_def conf_knowledge_def conf_prefs_def conf_turns_def
          turns_keyed_def conf_owners_def mem_episodes_def mem_summaries_def mem_turns_def update_conv' simp del: map_of_eq_Some_iff)
  qed (use assms(1) in simp)
  show "ok \<Longrightarrow> map_of (mm_tenant_of m1) g = Some T"
    using assms(2,4) by (auto simp: claim_goal_def update_conv' simp del: map_of_eq_Some_iff split: option.splits)
  show "mm_next_sum m1 = mm_next_sum m" using m1 by auto
qed

lemma owned_reads:
  assumes "conforms d m" "T \<noteq> ''''"
  shows "goal_owned T g d \<Longrightarrow> mem_episodes g m \<noteq> [] \<or> mem_summaries g m \<noteq> [] \<Longrightarrow> owns_goal T g m"
    and "owns_goal T g m \<Longrightarrow> goal_owned T g d"
proof -
  have o: "conf_owners d m" using assms(1) by (simp add: conforms_def)
  show "owns_goal T g m" if "goal_owned T g d" "mem_episodes g m \<noteq> [] \<or> mem_summaries g m \<noteq> []"
  proof (cases "map_of (mm_tenant_of m) g")
    case None
    with that(2) o show ?thesis by (auto simp: conf_owners_def)
  next
    case (Some T')
    with o have "map_of (pg_goals d) g = Some T'" by (simp add: conf_owners_def del: map_of_eq_Some_iff)
    with that(1) Some assms(2) show ?thesis by (simp add: goal_owned_iff [OF o] owns_goal_def del: map_of_eq_Some_iff)
  qed
  show "goal_owned T g d" if "owns_goal T g m"
    using that o assms(2)
    by (auto simp: goal_owned_iff [OF o] owns_goal_def conf_owners_def simp del: map_of_eq_Some_iff split: option.splits)
qed

section \<open>Writes\<close>

lemma append_episode_sim:
  assumes "conforms d m" "map_of (mm_tenant_of m) (ep_goal e) \<noteq> None" "kept P (ep_at e)" "ep_by e = 0"
  shows "mem_append_episode e m = (Inr (ep_seq (episode_row P now e d)), snd (mem_append_episode e m))"
    "conforms (d\<lparr>pg_episode_rows := pg_episode_rows d @ [episode_row P now e d]\<rparr>) (snd (mem_append_episode e m))"
proof -
  have c: "rows_of_goal g d = mem_episodes g m" "numbered_from_one ep_seq (mem_episodes g m)" for g
    using assms(1) by (simp_all add: conforms_def conf_episodes_def)
  have row: "episode_row P now e d = e\<lparr>ep_seq := int (length (mem_episodes (ep_goal e) m)) + 1\<rparr>"
    using assms(3,4) c by (simp add: episode_row_def next_number_numbered nz_def kept_def)
  then show "mem_append_episode e m = (Inr (ep_seq (episode_row P now e d)), snd (mem_append_episode e m))"
    by (simp add: mem_append_episode_def Let_def mem_episodes_def)
  have "conf_episodes (d\<lparr>pg_episode_rows := pg_episode_rows d @ [episode_row P now e d]\<rparr>) (snd (mem_append_episode e m))"
    using c by (auto simp: conf_episodes_def row mem_append_episode_def Let_def mem_episodes_def rows_of_goal_def
        intro!: numbered_snoc)
  moreover have "conf_owners (d\<lparr>pg_episode_rows := pg_episode_rows d @ [episode_row P now e d]\<rparr>) (snd (mem_append_episode e m))"
    using assms(1,2) by (auto simp: conforms_def conf_owners_def mem_append_episode_def Let_def mem_episodes_def mem_summaries_def)
  ultimately show "conforms (d\<lparr>pg_episode_rows := pg_episode_rows d @ [episode_row P now e d]\<rparr>) (snd (mem_append_episode e m))"
    using assms(1) by (simp add: conforms_def conf_summaries_def conf_knowledge_def conf_prefs_def conf_turns_def
        turns_keyed_def mem_append_episode_def Let_def mem_summaries_def mem_turns_def rows_of_conversation_def)
qed

lemma rows_of_goal_cover:
  "rows_of_goal g (d\<lparr>pg_episode_rows := cover_rows i s (pg_episode_rows d)\<rparr>) =
     (if g = sm_goal s then mark_covered i s (rows_of_goal g d) else rows_of_goal g d)"
proof -
  have "filter (\<lambda>e. ep_goal e = g) (cover_rows i s es) =
      (if g = sm_goal s then mark_covered i s (filter (\<lambda>e. ep_goal e = g) es) else filter (\<lambda>e. ep_goal e = g) es)" for es
    by (induction es) (auto simp: cover_rows_def mark_covered_def)
  then show ?thesis by (simp add: rows_of_goal_def)
qed

lemma save_summary_sim:
  fixes now :: time
  assumes "conforms d m" "map_of (mm_tenant_of m) (sm_goal s) \<noteq> None" "kept P (sm_at s)" "i = mm_next_sum m + 1"
  defines "d' \<equiv> d\<lparr>pg_summary_rows := pg_summary_rows d @ [summary_row P now i s],
      pg_episode_rows := cover_rows i s (pg_episode_rows d)\<rparr>"
  shows "fst (mem_save_summary s m) = Inr i" "conforms d' (snd (mem_save_summary s m))"
proof -
  show "fst (mem_save_summary s m) = Inr i" using assms(4) by (simp add: mem_save_summary_def Let_def)
  have row: "summary_row P now j s = s\<lparr>sm_id := j\<rparr>" for j using assms(3) by (simp add: summary_row_def nz_def kept_def)
  let ?m = "snd (mem_save_summary s m)"
  have eps: "mem_episodes g ?m = (if g = sm_goal s then mark_covered i s (mem_episodes g m) else mem_episodes g m)" for g
    using assms(4) by (simp add: mem_save_summary_def Let_def mem_episodes_def at_key_map_values)
  have "conf_episodes d' ?m"
    using assms(1) rows_of_goal_cover [where d = d and i = i and s = s]
    by (auto simp: conforms_def conf_episodes_def eps d'_def rows_of_goal_def mark_covered_def intro: numbered_map)
  moreover have "conf_summaries d' ?m"
    using assms(1,4) by (auto simp: conforms_def conf_summaries_def d'_def row mem_summaries_def mem_save_summary_def Let_def
        sorted_append)
  moreover have "conf_owners d' ?m"
    using assms(1,2) by (auto simp: conforms_def conf_owners_def d'_def mem_episodes_def at_key_map_values mem_summaries_def
        mem_save_summary_def Let_def)
  ultimately show "conforms d' ?m"
    using assms(1) by (simp add: conforms_def conf_knowledge_def conf_prefs_def conf_turns_def turns_keyed_def d'_def
        mem_save_summary_def Let_def mem_turns_def rows_of_conversation_def)
qed

lemma filter_supersede_rows:
  "filter (\<lambda>x. kn_tenant x = T \<and> kn_subject x = s) (supersede_rows k xs) =
     (if T = kn_tenant k \<and> s = kn_subject k
      then supersede (kn_key k) (kn_goal k) (filter (\<lambda>x. kn_tenant x = T \<and> kn_subject x = s) xs)
      else filter (\<lambda>x. kn_tenant x = T \<and> kn_subject x = s) xs)"
proof -
  define h where "h r = (if kn_tenant r = kn_tenant k \<and> kn_subject r = kn_subject k \<and> kn_key r = kn_key k \<and>
     kn_superseded r = '''' then r\<lparr>kn_superseded := kn_goal k\<rparr> else r)" for r :: knowledge
  have "kn_tenant (h r) = kn_tenant r" "kn_subject (h r) = kn_subject r" for r by (simp_all add: h_def)
  then have "filter (\<lambda>x. kn_tenant x = T \<and> kn_subject x = s) (map h xs) = map h (filter (\<lambda>x. kn_tenant x = T \<and> kn_subject x = s) xs)"
    by (simp add: filter_map comp_def)
  moreover have "supersede_rows k xs = map h xs" by (simp add: supersede_rows_def h_def)
  ultimately show ?thesis by (auto simp: supersede_def h_def intro: map_idI)
qed

lemma promote_sim:
  assumes "conforms d m" "no_nul (kn_tenant k)" "kept P (kn_at k)" "kn_superseded k = ''''" "\<not> (kn_goal k = '''' \<or> length (kn_seqs k) = 0)"
  shows "fst (mem_promote_knowledge k m) = Inr ()"
    "conforms (d\<lparr>pg_knowledge_rows := supersede_rows k (pg_knowledge_rows d) @ [knowledge_row P now k]\<rparr>)
       (snd (mem_promote_knowledge k m))"
proof -
  show "fst (mem_promote_knowledge k m) = Inr ()" using assms(5) by (simp add: mem_promote_knowledge_def Let_def)
  have row: "knowledge_row P now k = k" using assms(3,4) by (simp add: knowledge_row_def nz_def kept_def)
  let ?d = "d\<lparr>pg_knowledge_rows := supersede_rows k (pg_knowledge_rows d) @ [knowledge_row P now k]\<rparr>"
  let ?m = "snd (mem_promote_knowledge k m)"
  have "conf_knowledge ?d ?m"
    using assms(1,2,5) by (auto simp: conforms_def conf_knowledge_def row mem_promote_knowledge_def Let_def filter_supersede_rows)
  then show "conforms ?d ?m"
    using assms(1,5) by (simp add: conforms_def conf_episodes_def conf_summaries_def conf_prefs_def conf_turns_def turns_keyed_def
        conf_owners_def mem_promote_knowledge_def Let_def mem_episodes_def mem_summaries_def mem_turns_def rows_of_goal_def
        rows_of_conversation_def)
qed

lemma map_absent: "k \<notin> fst ` set kps \<Longrightarrow> map (\<lambda>(k', x). (k', if k' = k then p else x)) kps = kps"
  by (induction kps) auto

text \<open>An upsert in the table is an update of the map of its tenant.\<close>

lemma upsert_update:
  assumes "filter (\<lambda>x. pf_tenant x = T) ps = map snd kps" "distinct (map fst kps)" "\<forall>(k, x) \<in> set kps. k = pf_key x" "pf_tenant p = T"
  shows "filter (\<lambda>x. pf_tenant x = T) (upsert_preference p ps) = map snd (AList.update (pf_key p) p kps)"
proof -
  have keys: "map fst kps = map pf_key (filter (\<lambda>x. pf_tenant x = T) ps)"
    using assms(3) by (auto simp: assms(1) comp_def)
  have pf: "x\<lparr>pf_value := pf_value p, pf_author := pf_author p, pf_at := pf_at p\<rparr> = p" if "pf_tenant x = T" "pf_key x = pf_key p" for x
    using that assms(4) by simp
  have "set (map fst kps) = pf_key ` {x \<in> set ps. pf_tenant x = T}" unfolding keys by simp
  then have there: "(\<exists>x \<in> set ps. pf_tenant x = pf_tenant p \<and> pf_key x = pf_key p) \<longleftrightarrow> pf_key p \<in> fst ` set kps"
    using assms(4) by (auto simp: image_iff eq_commute [of "pf_key p"])
  show ?thesis
  proof (cases "pf_key p \<in> fst ` set kps")
    case False
    then have "\<not> (\<exists>x \<in> set ps. pf_tenant x = pf_tenant p \<and> pf_key x = pf_key p)"
      using there by blast
    then have "upsert_preference p ps = ps @ [p]" unfolding upsert_preference_def by (rule if_not_P)
    with assms(1,4) False show ?thesis by (simp add: update_absent)
  next
    case True
    then have "\<exists>x \<in> set ps. pf_tenant x = pf_tenant p \<and> pf_key x = pf_key p"
      using there by blast
    then have "upsert_preference p ps = map (\<lambda>x. if pf_tenant x = pf_tenant p \<and> pf_key x = pf_key p
        then x\<lparr>pf_value := pf_value p, pf_author := pf_author p, pf_at := pf_at p\<rparr> else x) ps" by (simp add: upsert_preference_def)
    then have "filter (\<lambda>x. pf_tenant x = T) (upsert_preference p ps) =
        map (\<lambda>x. if pf_key x = pf_key p then p else x) (filter (\<lambda>x. pf_tenant x = T) ps)"
      using assms(4) by (simp add: filter_map comp_def) (intro map_cong filter_cong, auto simp: pf)
    also have "\<dots> = map snd (map (\<lambda>(k, x). (k, if k = pf_key p then p else x)) kps)"
      using assms(3) by (auto simp: assms(1))
    also have "map (\<lambda>(k, x). (k, if k = pf_key p then p else x)) kps = AList.update (pf_key p) p kps"
      using True assms(2) by (induction kps) (auto simp: map_absent)
    finally show ?thesis .
  qed
qed

lemma upsert_other:
  assumes "pf_tenant p \<noteq> T"
  shows "filter (\<lambda>x. pf_tenant x = T) (upsert_preference p ps) = filter (\<lambda>x. pf_tenant x = T) ps"
proof -
  define h where "h x = (if pf_tenant x = pf_tenant p \<and> pf_key x = pf_key p
     then x\<lparr>pf_value := pf_value p, pf_author := pf_author p, pf_at := pf_at p\<rparr> else x)" for x :: preference
  have "filter (\<lambda>x. pf_tenant x = T) (map h xs) = filter (\<lambda>x. pf_tenant x = T) xs" for xs
    by (induction xs) (simp_all add: h_def assms assms [symmetric])
  moreover have "upsert_preference p ps = map h ps \<or> upsert_preference p ps = ps @ [p]"
    by (simp add: upsert_preference_def h_def)
  ultimately show ?thesis using assms by auto
qed

lemma set_update_subset: "set (AList.update k v xs) \<subseteq> insert (k, v) (set xs)"
  by (induction xs) auto

lemma preference_sim:
  assumes "conforms d m" "kept P (pf_at p)" "validate_preference p = Inr u"
  shows "fst (mem_set_preference p m) = Inr ()"
    "conforms (d\<lparr>pg_pref_rows := upsert_preference (p\<lparr>pf_at := pe_keep P (nz now (pf_at p))\<rparr>) (pg_pref_rows d)\<rparr>)
       (snd (mem_set_preference p m))"
proof -
  show "fst (mem_set_preference p m) = Inr ()" using assms(3) by (simp add: mem_set_preference_def)
  have row: "p\<lparr>pf_at := pe_keep P (nz now (pf_at p))\<rparr> = p" using assms(2) by (simp add: nz_def kept_def)
  let ?m = "snd (mem_set_preference p m)"
  have m: "mm_prefs ?m = AList.update (pf_tenant p) (AList.update (pf_key p) p (at_key (mm_prefs m) (pf_tenant p))) (mm_prefs m)"
    using assms(3) by (simp add: mem_set_preference_def)
  have c: "filter (\<lambda>p. pf_tenant p = T) (pg_pref_rows d) = map snd (at_key (mm_prefs m) T)"
    "distinct (map fst (at_key (mm_prefs m) T))" "\<forall>(k, p) \<in> set (at_key (mm_prefs m) T). k = pf_key p" for T
    using assms(1) by (simp_all add: conforms_def conf_prefs_def)
  have keys: "\<forall>(k, x) \<in> set (AList.update (pf_key p) p (at_key (mm_prefs m) (pf_tenant p))). k = pf_key x"
    using c(3) [of "pf_tenant p"] by (auto dest!: set_update_subset [THEN subsetD])
  have "conf_prefs (d\<lparr>pg_pref_rows := upsert_preference p (pg_pref_rows d)\<rparr>) ?m"
    unfolding conf_prefs_def
  proof (intro allI conjI)
    fix T
    show "filter (\<lambda>p. pf_tenant p = T) (pg_pref_rows (d\<lparr>pg_pref_rows := upsert_preference p (pg_pref_rows d)\<rparr>)) =
        map snd (at_key (mm_prefs ?m) T)"
      using upsert_update [OF c [of "pf_tenant p"] refl] upsert_other [of p T] c(1) [of T] by (cases "T = pf_tenant p") (simp_all add: m)
    show "distinct (map fst (at_key (mm_prefs ?m) T))" using c(2) by (simp add: m distinct_update)
    show "\<forall>(k, x) \<in> set (at_key (mm_prefs ?m) T). k = pf_key x" using keys c(3) [of T] by (simp add: m)
  qed
  moreover have "?m = m\<lparr>mm_prefs := mm_prefs ?m\<rparr>" using assms(3) by (simp add: mem_set_preference_def)
  ultimately show "conforms (d\<lparr>pg_pref_rows := upsert_preference (p\<lparr>pf_at := pe_keep P (nz now (pf_at p))\<rparr>) (pg_pref_rows d)\<rparr>) ?m"
    unfolding row using assms(1)
    by (auto simp: conforms_def conf_episodes_def conf_summaries_def conf_knowledge_def conf_turns_def turns_keyed_def
        conf_owners_def mem_episodes_def mem_summaries_def mem_turns_def rows_of_goal_def rows_of_conversation_def
        mem_set_preference_def assms(3))
qed

lemma append_turn_sim:
  assumes "conforms d m" "no_nul (tu_tenant t)" "kept P (nz now (tu_at t))" "validate_turn t = Inr u"
  shows "fst (mem_append_turn now t m) = Inr (tu_seq (turn_row P now t d))"
    "conforms (d\<lparr>pg_turn_rows := pg_turn_rows d @ [turn_row P now t d]\<rparr>) (snd (mem_append_turn now t m))"
proof -
  let ?k = "subject_key (tu_tenant t) (tu_conversation t)"
  have c: "no_nul T \<Longrightarrow> rows_of_conversation T c d = at_key (mm_turns m) (subject_key T c)"
    "numbered_from_one tu_seq (at_key (mm_turns m) k)" "turns_keyed m" "\<forall>t \<in> set (pg_turn_rows d). tu_at t > 0 \<and> no_nul (tu_tenant t)" for T c k
    using assms(1) by (simp_all add: conforms_def conf_turns_def mem_turns_def)
  have row: "turn_row P now t d = t\<lparr>tu_seq := int (length (at_key (mm_turns m) ?k)) + 1, tu_at := nz now (tu_at t)\<rparr>"
    using assms(3) c(1) [OF assms(2), of "tu_conversation t"] c(2) [of ?k]
    by (simp add: turn_row_def next_number_numbered kept_def)
  then show "fst (mem_append_turn now t m) = Inr (tu_seq (turn_row P now t d))"
    using assms(4) by (simp add: mem_append_turn_def Let_def)
  let ?m = "snd (mem_append_turn now t m)" and ?d = "d\<lparr>pg_turn_rows := pg_turn_rows d @ [turn_row P now t d]\<rparr>"
  have m: "mm_turns ?m = AList.update ?k (at_key (mm_turns m) ?k @ [turn_row P now t d]) (mm_turns m)"
    using assms(4) by (simp add: mem_append_turn_def Let_def row)
  have "rows_of_conversation T x ?d = at_key (mm_turns ?m) (subject_key T x)" if "no_nul T" for T x
    using c(1) [OF that, of x] that assms(2) by (auto simp: m rows_of_conversation_def row)
  moreover have "numbered_from_one tu_seq (at_key (mm_turns ?m) k)" for k
    using c(2) [of ?k] c(2) [of k] by (simp add: m numbered_snoc row)
  moreover have "turns_keyed ?m"
    unfolding turns_keyed_def m
  proof (intro conjI ballI)
    show "distinct (map fst (AList.update ?k (at_key (mm_turns m) ?k @ [turn_row P now t d]) (mm_turns m)))"
      using c(3) by (simp add: turns_keyed_def distinct_update)
    fix e assume "e \<in> set (AList.update ?k (at_key (mm_turns m) ?k @ [turn_row P now t d]) (mm_turns m))"
    then have "e = (?k, at_key (mm_turns m) ?k @ [turn_row P now t d]) \<or> e \<in> set (mm_turns m)"
      using set_update_subset by fastforce
    then show "case e of (k, ts) \<Rightarrow> ts \<noteq> [] \<and> (\<exists>T c. no_nul T \<and> k = subject_key T c)"
    proof
      assume "e \<in> set (mm_turns m)"
      then show ?thesis using c(3) unfolding turns_keyed_def by blast
    qed (use assms(2) in auto)
  qed
  moreover have "\<forall>t \<in> set (pg_turn_rows ?d). tu_at t > 0 \<and> no_nul (tu_tenant t)"
    using c(4) assms(2,3) by (auto simp: row kept_def)
  ultimately have "conf_turns ?d ?m" by (simp add: conf_turns_def mem_turns_def)
  then show "conforms ?d ?m"
    using assms(1,4) by (simp add: conforms_def conf_episodes_def conf_summaries_def conf_knowledge_def conf_prefs_def
        conf_owners_def mem_append_turn_def Let_def mem_episodes_def mem_summaries_def rows_of_goal_def)
qed

end
