(* ===== verification/Memory_Listing.thy ===== *)
theory Memory_Listing
  imports Memory_Conform "HOL-Library.Multiset"
begin

text \<open>The listing of conversations: the loop of \<open>summarise\<close> against the aggregate of the SQL query.\<close>

section \<open>One thread\<close>

lemma summarise_from_simps:
  "cs_id (summarise_from ts s) = cs_id s" "cs_turns (summarise_from ts s) = cs_turns s"
  by (induction ts s rule: summarise_from.induct) (simp_all add: Let_def)

lemma summarise_from_last: "cs_last (summarise_from ts s) = Max (set (cs_last s # map tu_at ts))"
proof (induction ts s rule: summarise_from.induct)
  case (2 t ts s)
  have "Max (insert (cs_last s) (insert (tu_at t) A)) = Max (insert (max (cs_last s) (tu_at t)) A)" if "finite A" for A
    using that by (cases "A = {}") (simp_all add: max.assoc)
  then show ?case using "2.IH" by (simp add: Let_def after_time_def max_def)
qed simp

text \<open>The title: the first user message that leaves one.\<close>

fun first_title :: "turn list \<Rightarrow> string" where
  "first_title [] = ''''"
| "first_title (t # ts) = (if tu_role t = TurnUser \<and> title_of (tu_body t) \<noteq> '''' then title_of (tu_body t) else first_title ts)"

lemma summarise_from_title:
  "cs_title (summarise_from ts s) = (if cs_title s = '''' then first_title ts else cs_title s)"
  by (induction ts s rule: summarise_from.induct) (simp_all add: Let_def)

lemma title_of_Nil [simp]: "title_of '''' = ''''"
  by (simp add: title_of_def rune_count_def)

lemma first_title_titled:
  "titled ts \<Longrightarrow> first_title ts = title_of (case filter (\<lambda>t. tu_role t = TurnUser) ts of [] \<Rightarrow> '''' | t # _ \<Rightarrow> tu_body t)"
  by (induction ts) (auto simp: titled_def)

lemma sorted_filter_numbered: "numbered_from_one tu_seq ts \<Longrightarrow> sort_key tu_seq (filter Q ts) = filter Q ts"
  by (intro sort_key_id_if_sorted sorted_filter) (simp add: numbered_from_one_def)

lemma summarise_is_row:
  assumes "ts \<noteq> []" "\<forall>t \<in> set ts. tu_at t > 0" "titled ts" "numbered_from_one tu_seq ts" "rows_of_conversation T c d = ts"
  shows "summarise c ts = thread_row T c d"
proof -
  obtain t where "t \<in> set ts" using assms(1) by (cases ts) auto
  then have "0 \<le> Max (tu_at ` set ts)" using assms(2) by (intro order_trans [OF less_imp_le Max_ge]) auto
  then have "Max (insert 0 (tu_at ` set ts)) = Max (tu_at ` set ts)"
    using assms(1) by (subst Max_insert) auto
  then have last: "cs_last (summarise c ts) = Max (set (map tu_at ts))"
    by (simp add: summarise_def summarise_from_last)
  have title: "cs_title (summarise c ts) = title_of (opening_body ts)"
    by (simp add: summarise_def summarise_from_title first_title_titled [OF assms(3)] opening_body_def
        sorted_filter_numbered [OF assms(4)])
  have "cs_id (summarise c ts) = c" "cs_turns (summarise c ts) = int (length ts)"
    by (simp_all add: summarise_def summarise_from_simps)
  with last title show ?thesis by (intro conversation.equality) (simp_all add: thread_row_def Let_def assms(5))
qed

section \<open>The list\<close>

lemma conversations_agree:
  assumes "conf_turns d m" "no_nul T" "\<forall>(k, ts) \<in> set (mm_turns m). titled ts"
  shows "mem_conversations T m = rev (sort_key (\<lambda>c. (cs_last c, cs_id c)) (map (\<lambda>c. thread_row T c d)
           (remdups (map tu_conversation (filter (\<lambda>t. tu_tenant t = T) (pg_turn_rows d))))))"
proof -
  let ?K = "\<lambda>c. (cs_last c, cs_id c)" and ?p = "subject_key T ''''"
  define F where "F = filter (\<lambda>(k, ts). \<not> (\<not> has_prefix k ?p \<or> length ts = 0)) (mm_turns m)"
  define L1 where "L1 = map (\<lambda>(k, ts). summarise (drop (length ?p) k) ts) F"
  define L2 where "L2 = map (\<lambda>c. thread_row T c d) (remdups (map tu_conversation (filter (\<lambda>t. tu_tenant t = T) (pg_turn_rows d))))"
  have keyed: "distinct (map fst (mm_turns m))" "\<And>k ts. (k, ts) \<in> set (mm_turns m) \<Longrightarrow> ts \<noteq> [] \<and> (\<exists>T c. no_nul T \<and> k = subject_key T c)"
    using assms(1) by (auto simp: conf_turns_def turns_keyed_def)
  have rows: "rows_of_conversation T c d = at_key (mm_turns m) (subject_key T c)" for c
    using assms(1,2) by (simp add: conf_turns_def mem_turns_def)
  have F: "(k, ts) \<in> set F \<Longrightarrow> \<exists>c. k = subject_key T c \<and> (subject_key T c, ts) \<in> set (mm_turns m)" for k ts
    using keyed(2) assms(2) by (fastforce simp: F_def)
  have row: "summarise c ts = thread_row T c d" "rows_of_conversation T c d \<noteq> []" if "(subject_key T c, ts) \<in> set (mm_turns m)" for c ts
  proof -
    have r: "rows_of_conversation T c d = ts" using that keyed(1) by (simp add: rows at_key_def)
    show "rows_of_conversation T c d \<noteq> []" using keyed(2) [OF that] r by simp
    show "summarise c ts = thread_row T c d"
    proof (rule summarise_is_row [OF _ _ _ _ r])
      show "ts \<noteq> []" using keyed(2) [OF that] by simp
      show "\<forall>t \<in> set ts. tu_at t > 0" using assms(1) r by (auto simp: conf_turns_def rows_of_conversation_def)
      show "titled ts" using assms(3) that by auto
      show "numbered_from_one tu_seq ts" using assms(1) r by (metis conf_turns_def rows)
    qed
  qed
  have ids: "map cs_id L1 = map (\<lambda>(k, ts). drop (length ?p) k) F"
    by (auto simp: L1_def summarise_def summarise_from_simps)
  have "inj_on (\<lambda>(k, ts). drop (length ?p) k) (set F)"
  proof (rule inj_onI, clarify)
    fix k ts k' ts' assume a: "(k, ts) \<in> set F" "(k', ts') \<in> set F" "drop (length ?p) k = drop (length ?p) k'"
    with F obtain c where "k = subject_key T c" "k' = subject_key T c" by (metis drop_subject_key)
    moreover have "(k, ts) \<in> set (mm_turns m)" "(k', ts') \<in> set (mm_turns m)" using a by (auto simp: F_def)
    ultimately show "k = k' \<and> ts = ts'" using keyed(1) by (simp add: eq_key_imp_eq_value)
  qed
  moreover have "distinct F" using keyed(1) by (auto simp: F_def distinct_map)
  ultimately have d1: "distinct (map cs_id L1)" unfolding ids by (simp add: distinct_map)
  have d2: "distinct (map cs_id L2)" by (simp add: L2_def comp_def thread_row_def Let_def)
  have "set L1 = {thread_row T c d |c. rows_of_conversation T c d \<noteq> []}"
  proof (intro set_eqI iffI)
    fix x assume "x \<in> set L1"
    then obtain k ts where "(k, ts) \<in> set F" "x = summarise (drop (length ?p) k) ts" by (auto simp: L1_def)
    moreover from this(1) F obtain c where "k = subject_key T c" "(subject_key T c, ts) \<in> set (mm_turns m)" by blast
    ultimately have "x = thread_row T c d" "rows_of_conversation T c d \<noteq> []" using row [of c ts] by simp_all
    then show "x \<in> {thread_row T c d |c. rows_of_conversation T c d \<noteq> []}" by blast
  next
    fix x assume "x \<in> {thread_row T c d |c. rows_of_conversation T c d \<noteq> []}"
    then obtain c where x: "x = thread_row T c d" "at_key (mm_turns m) (subject_key T c) \<noteq> []" by (auto simp: rows)
    then obtain ts where ts: "(subject_key T c, ts) \<in> set (mm_turns m)" "ts \<noteq> []"
      by (auto simp: at_key_def dest: map_of_SomeD split: option.splits)
    then have "(subject_key T c, ts) \<in> set F" using assms(2) by (simp add: F_def)
    then have "summarise c ts \<in> set L1" by (force simp: L1_def)
    with row(1) [OF ts(1)] x(1) show "x \<in> set L1" by simp
  qed
  moreover have "set L2 = {thread_row T c d |c. rows_of_conversation T c d \<noteq> []}"
  proof -
    have "c \<in> set (map tu_conversation (filter (\<lambda>t. tu_tenant t = T) (pg_turn_rows d))) \<longleftrightarrow> rows_of_conversation T c d \<noteq> []" for c
      unfolding rows_of_conversation_def filter_empty_conv set_map set_filter by blast
    then show ?thesis unfolding L2_def set_map [of "\<lambda>c. thread_row T c d"] set_remdups by blast
  qed
  ultimately have "set L1 = set L2" by simp
  moreover have "distinct L1" "distinct L2" using d1 d2 by (simp_all add: distinct_map)
  ultimately have "mset L1 = mset L2" by (simp add: set_eq_iff_mset_eq_distinct)
  moreover have "inj_on ?K (set L1)" using d1 by (auto simp: distinct_map inj_on_def)
  ultimately have "sort_key ?K L1 = sort_key ?K L2" by (intro sort_key_inj_key_eq) simp_all
  moreover have "mem_conversations T m = rev (sort_key ?K L1)"
    by (simp add: mem_conversations_def sort_conversations_def L1_def F_def Let_def)
  ultimately show ?thesis unfolding L2_def by simp
qed

end
