(* ===== verification/Memory_Props.thy ===== *)
theory Memory_Props
  imports Memory_Sim Memory_Listing
begin

text \<open>
  The simulation assembled and interpreted, the numbering of both logs as interpretations of \<open>numbered_log\<close>, the
  isolation of the in-process views, and the properties of package \<open>internal/memory\<close> with their witnesses.
\<close>

section \<open>One call\<close>

lemma view_append_episode_sim:
  assumes "conforms d m" "conform_ok P (T, now, i, OpEpisode e) d m"
  shows "fst (pgview_append_episode P no_faults T now e d) = fst (view_append_episode T e m) \<and>
    conforms (snd (pgview_append_episode P no_faults T now e d)) (snd (view_append_episode T e m))"
proof -
  obtain ok m1 where c: "claim_goal T (ep_goal e) m = (ok, m1)" by (rule prod.exhaust)
  have ok: "T \<noteq> ''''" "kept P (ep_at e)" "ep_by e = 0" "writable T (ep_goal e) d m" using assms(2) by simp_all
  note s = claim_goal_spec [OF assms(1) ok(1,4) c]
  show ?thesis
  proof (cases ok)
    case False
    with s c ok(1) show ?thesis
      by (simp add: view_append_episode_def pgview_append_episode_def transaction_def sql_def goal_not_yours_def pg_not_yours_def)
  next
    case True
    with s(3) have "map_of (mm_tenant_of m1) (ep_goal e) \<noteq> None" by simp
    note a = append_episode_sim [OF s(2) this ok(2,3)]
    show ?thesis using True s(1) c ok(1) a(1) [where now = now] a(2) [where now = now]
      by (simp add: view_append_episode_def pgview_append_episode_def transaction_def sql_def) (metis fst_conv)
  qed
qed

lemma view_save_summary_sim:
  assumes "conforms d m" "conform_ok P (T, now, i, OpSummary s) d m"
  shows "fst (pgview_save_summary P no_faults T now i s d) = fst (view_save_summary T s m) \<and>
    conforms (snd (pgview_save_summary P no_faults T now i s d)) (snd (view_save_summary T s m))"
proof -
  obtain ok m1 where c: "claim_goal T (sm_goal s) m = (ok, m1)" by (rule prod.exhaust)
  have ok: "T \<noteq> ''''" "kept P (sm_at s)" "sm_from s \<le> sm_to s" "i = mm_next_sum m + 1" "writable T (sm_goal s) d m"
    using assms(2) by simp_all
  note sp = claim_goal_spec [OF assms(1) ok(1,5) c]
  show ?thesis
  proof (cases ok)
    case False
    with sp c ok(1) show ?thesis
      by (simp add: view_save_summary_def pgview_save_summary_def transaction_def sql_def goal_not_yours_def pg_not_yours_def)
  next
    case True
    with sp(3) have there: "map_of (mm_tenant_of m1) (sm_goal s) \<noteq> None" by simp
    have "i = mm_next_sum m1 + 1" using sp(4) ok(4) by simp
    note a = save_summary_sim [OF sp(2) there ok(2) this]
    have "map_of (pg_goals d) (sm_goal s) \<noteq> None" using ok(5) by (simp add: writable_def)
    then have ins: "insert_summary P now i s d = Inr (d\<lparr>pg_summary_rows := pg_summary_rows d @ [summary_row P now i s]\<rparr>)"
      using ok(3) by (simp add: insert_summary_def)
    show ?thesis using True sp(1) c ok(1) a(1) a(2) [where now = now]
      by (simp add: view_save_summary_def pgview_save_summary_def transaction_def sql_def ins)
  qed
qed

lemma supersede_rows_keys:
  "(\<exists>r \<in> set (supersede_rows k xs). Q (kn_tenant r) (kn_subject r) (kn_key r) (kn_at r)) \<longleftrightarrow>
   (\<exists>r \<in> set xs. Q (kn_tenant r) (kn_subject r) (kn_key r) (kn_at r))"
  by (induction xs) (simp_all add: supersede_rows_def)

lemma promote_view_sim:
  assumes "conforms d m" "conform_ok P (T, now, i, OpKnowledge k) d m"
  shows "fst (pgview_promote_knowledge P no_faults T now k d) = fst (view_promote_knowledge T k m) \<and>
    conforms (snd (pgview_promote_knowledge P no_faults T now k d)) (snd (view_promote_knowledge T k m))"
proof (cases "kn_goal k = '''' \<or> length (kn_seqs k) = 0")
  case True
  with assms(1) show ?thesis
    by (auto simp: pgview_promote_knowledge_def view_promote_knowledge_def pg_promote_knowledge_def mem_promote_knowledge_def no_evidence_def)
next
  case False
  let ?k = "k\<lparr>kn_tenant := T\<rparr>"
  have ok: "no_nul T" "kept P (kn_at k)" "kn_superseded k = ''''"
    "\<not> (\<exists>r \<in> set (pg_knowledge_rows d). kn_tenant r = T \<and> kn_subject r = kn_subject k \<and> kn_key r = kn_key k \<and> kn_at r = kn_at k)"
    using assms(2) by simp_all
  have row: "knowledge_row P now ?k = ?k" using ok by (simp add: knowledge_row_def nz_def kept_def)
  have "\<not> (\<exists>r \<in> set (supersede_rows ?k (pg_knowledge_rows d)). kn_tenant r = T \<and> kn_subject r = kn_subject k \<and>
      kn_key r = kn_key k \<and> kn_at r = kn_at k)"
    using ok(4) unfolding supersede_rows_keys [of _ _ "\<lambda>t s' x a. t = T \<and> s' = kn_subject k \<and> x = kn_key k \<and> a = kn_at k"] .
  then have ins: "insert_knowledge P now ?k (d\<lparr>pg_knowledge_rows := supersede_rows ?k (pg_knowledge_rows d)\<rparr>) =
      Inr (d\<lparr>pg_knowledge_rows := supersede_rows ?k (pg_knowledge_rows d) @ [knowledge_row P now ?k]\<rparr>)"
    by (simp add: insert_knowledge_def Let_def row)
  have "pgview_promote_knowledge P no_faults T now k d =
      (Inr (), d\<lparr>pg_knowledge_rows := supersede_rows ?k (pg_knowledge_rows d) @ [knowledge_row P now ?k]\<rparr>)"
    using False by (simp add: pgview_promote_knowledge_def pg_promote_knowledge_def transaction_def sql_def ins)
  with promote_sim(1) [OF assms(1), of ?k P] promote_sim(2) [OF assms(1), of ?k P now] ok(1-3) False show ?thesis
    by (simp add: view_promote_knowledge_def)
qed

lemma preference_view_sim:
  assumes "conforms d m" "conform_ok P (T, now, i, OpPreference p) d m"
  shows "fst (pgview_set_preference P no_faults T now p d) = fst (view_set_preference T p m) \<and>
    conforms (snd (pgview_set_preference P no_faults T now p d)) (snd (view_set_preference T p m))"
proof (cases "validate_preference (p\<lparr>pf_tenant := T\<rparr>)")
  case (Inl e)
  with assms(1) show ?thesis
    by (simp add: pgview_set_preference_def view_set_preference_def pg_set_preference_def mem_set_preference_def)
next
  case (Inr u)
  with preference_sim(1) [OF assms(1) _ Inr, of P] preference_sim(2) [OF assms(1) _ Inr, of P now] assms(2) show ?thesis
    by (simp add: pgview_set_preference_def view_set_preference_def pg_set_preference_def)
qed

lemma append_turn_view_sim:
  assumes "conforms d m" "conform_ok P (T, now, i, OpTurn t) d m"
  shows "fst (pgview_append_turn P no_faults T now t d) = fst (view_append_turn T now t m) \<and>
    conforms (snd (pgview_append_turn P no_faults T now t d)) (snd (view_append_turn T now t m))"
proof (cases "validate_turn (t\<lparr>tu_tenant := T\<rparr>)")
  case (Inl e)
  with assms show ?thesis
    by (simp add: pgview_append_turn_def view_append_turn_def pg_append_turn_def mem_append_turn_def)
next
  case (Inr u)
  with append_turn_sim [OF assms(1) _ _ Inr, of P now] assms(2) show ?thesis
    by (simp add: pgview_append_turn_def view_append_turn_def pg_append_turn_def transaction_def sql_def)
qed

text \<open>What the two views answer to a question.\<close>

lemma reads_sim:
  assumes "conforms d m" "T \<noteq> ''''" "no_nul T" "pe_collate P = (\<lambda>s. s)"
  shows "pgview_episodes no_faults T g d = Inr (view_episodes T g m)"
    "pgview_summaries no_faults T g d = Inr (view_summaries T g m)"
    "pgview_knowledge_for P no_faults T x s d = Inr (view_knowledge_for T x s m)"
    "pgview_preferences P no_faults T x d = Inr (view_preferences T x m)"
    "pgview_turns no_faults T x c d = Inr (view_turns T x c m)"
proof -
  note own = owned_reads [OF assms(1,2)]
  have e: "rows_of_goal g d = mem_episodes g m" "numbered_from_one ep_seq (mem_episodes g m)" for g
    using assms(1) by (simp_all add: conforms_def conf_episodes_def)
  show "pgview_episodes no_faults T g d = Inr (view_episodes T g m)"
    using own [of g] e [of g] by (cases "mem_episodes g m = []") (auto simp: pgview_episodes_def sql_def view_episodes_def)
  have s: "filter (\<lambda>s. sm_goal s = g) (pg_summary_rows d) = mem_summaries g m" "sorted (map sm_id (pg_summary_rows d))"
    using assms(1) by (simp_all add: conforms_def conf_summaries_def)
  have "sort_key sm_id (mem_summaries g m) = mem_summaries g m"
    using s by (metis sort_key_id_if_sorted sorted_filter)
  then show "pgview_summaries no_faults T g d = Inr (view_summaries T g m)"
    using own [of g] s(1) by (cases "mem_summaries g m = []") (auto simp: pgview_summaries_def sql_def view_summaries_def)
  have "filter (\<lambda>k. kn_tenant k = T \<and> kn_subject k = s \<and> kn_superseded k = '''') (pg_knowledge_rows d) =
      filter (\<lambda>k. kn_superseded k = '''') (at_key (mm_knowledge m) (subject_key T s))"
    using assms(1,3) by (simp add: conforms_def conf_knowledge_def flip: filter_filter)
  then show "pgview_knowledge_for P no_faults T x s d = Inr (view_knowledge_for T x s m)"
    by (simp add: pgview_knowledge_for_def pg_knowledge_for_def sql_def view_knowledge_for_def mem_knowledge_for_def assms(4))
  show "pgview_preferences P no_faults T x d = Inr (view_preferences T x m)"
    using assms(1) by (simp add: pgview_preferences_def pg_preferences_def sql_def view_preferences_def mem_preferences_def
        conforms_def conf_prefs_def assms(4))
  have "rows_of_conversation T c d = mem_turns T c m" "numbered_from_one tu_seq (mem_turns T c m)"
    using assms(1,3) by (simp_all add: conforms_def conf_turns_def mem_turns_def)
  then show "pgview_turns no_faults T x c d = Inr (view_turns T x c m)"
    by (simp add: pgview_turns_def pg_turns_def sql_def view_turns_def)
qed

lemma call_sim:
  assumes "conforms d m" "conform_ok P call d m"
  shows "fst (pg_do P no_faults call d) = fst (mem_do call m) \<and> conforms (snd (pg_do P no_faults call d)) (snd (mem_do call m))"
proof -
  obtain T now i op where call: "call = (T, now, i, op)" by (metis prod_cases4)
  have ok: "T \<noteq> ''''" "no_nul T" "pe_collate P = (\<lambda>s. s)" using assms(2) by (auto simp: call)
  note r = reads_sim [OF assms(1) ok]
  show ?thesis
  proof (cases op)
    case AskConversations
    have "pgview_conversations P no_faults T '''' d = Inr (view_conversations T '''' m)"
      using conversations_agree [of d m T] assms ok
      by (simp add: call AskConversations conforms_def pgview_conversations_def pg_conversations_def sql_def view_conversations_def)
    with assms(1) show ?thesis by (simp add: call AskConversations)
  qed (use view_append_episode_sim [OF assms(1)] view_save_summary_sim [OF assms(1)] promote_view_sim [OF assms(1)]
      preference_view_sim [OF assms(1)] append_turn_view_sim [OF assms(1)] assms r in \<open>auto simp: call simp del: conform_ok.simps\<close>)
qed

interpretation memory_conformance: simulation conforms "pg_do P no_faults" mem_do "conform_ok P" for P
  by unfold_locales (rule call_sim)

section \<open>Numbering\<close>

lemma transaction_snd: "snd (transaction f b c e1 e2 body d) = (case fst (transaction f b c e1 e2 body d) of Inl _ \<Rightarrow> d | Inr _ \<Rightarrow> snd (transaction f b c e1 e2 body d))"
  by (auto simp: transaction_def split: option.split sum.split prod.split)

lemma pg_append_episode_Inr:
  "pg_append_episode P f now e d = (Inr n, d') \<Longrightarrow>
     n = ep_seq (episode_row P now e d) \<and> d' = d\<lparr>pg_episode_rows := pg_episode_rows d @ [episode_row P now e d]\<rparr>"
  by (auto simp: pg_append_episode_def transaction_Inr split: if_splits)

lemma pg_append_turn_Inr:
  "pg_append_turn P f now t d = (Inr n, d') \<Longrightarrow>
     n = tu_seq (turn_row P now t d) \<and> d' = d\<lparr>pg_turn_rows := pg_turn_rows d @ [turn_row P now t d]\<rparr>"
  by (auto simp: pg_append_turn_def transaction_Inr split: sum.splits if_splits)

lemma pg_append_episode_Inl: "pg_append_episode P f now e d = (Inl err, d') \<Longrightarrow> d' = d"
  by (simp add: pg_append_episode_def transaction_Inl)

lemma pg_append_turn_Inl: "pg_append_turn P f now t d = (Inl err, d') \<Longrightarrow> d' = d"
  by (auto simp: pg_append_turn_def dest: transaction_Inl split: sum.splits)

lemma rows_of_goal_append:
  "rows_of_goal g (d\<lparr>pg_episode_rows := pg_episode_rows d @ [episode_row P now e d]\<rparr>) =
     (if g = ep_goal e then rows_of_goal g d @ [episode_row P now e d] else rows_of_goal g d)"
  by (simp add: rows_of_goal_def episode_row_def)

lemma rows_of_conversation_append:
  "rows_of_conversation T c (d\<lparr>pg_turn_rows := pg_turn_rows d @ [turn_row P now t d]\<rparr>) =
     (if T = tu_tenant t \<and> c = tu_conversation t then rows_of_conversation T c d @ [turn_row P now t d] else rows_of_conversation T c d)"
  by (simp add: rows_of_conversation_def turn_row_def)

lemma episode_row_number: "numbered_from_one ep_seq (rows_of_goal (ep_goal e) d) \<Longrightarrow>
    ep_seq (episode_row P now e d) = int (length (rows_of_goal (ep_goal e) d)) + 1"
  by (simp add: episode_row_def next_number_numbered)

lemma turn_row_number: "numbered_from_one tu_seq (rows_of_conversation (tu_tenant t) (tu_conversation t) d) \<Longrightarrow>
    tu_seq (turn_row P now t d) = int (length (rows_of_conversation (tu_tenant t) (tu_conversation t) d)) + 1"
  by (simp add: turn_row_def next_number_numbered)

interpretation pg_episode_log: numbered_log "\<lambda>(f, now, e). pg_append_episode P f now e" rows_of_goal "\<lambda>(f, now, e). ep_goal e"
    ep_seq "\<lambda>d. \<forall>g. numbered_from_one ep_seq (rows_of_goal g d)" for P
proof (unfold_locales, goal_cases)
  case (1 d g)
  then show ?case by (simp add: numbered_from_one_def)
next
  case (2 d call r d')
  obtain f now e where call: "call = (f, now, e)" by (metis prod_cases3)
  show ?case
  proof (cases r)
    case (Inl err)
    with 2 call show ?thesis by (auto dest: pg_append_episode_Inl)
  next
    case (Inr n)
    with 2 call have "d' = d\<lparr>pg_episode_rows := pg_episode_rows d @ [episode_row P now e d]\<rparr>"
      by (auto dest: pg_append_episode_Inr)
    with 2(1) show ?thesis by (auto simp: rows_of_goal_append episode_row_number intro!: numbered_snoc)
  qed
next
  case (3 d call n d' g)
  then show ?case
    by (auto simp: rows_of_goal_append episode_row_number dest!: pg_append_episode_Inr split: prod.splits)
next
  case (4 d call err d')
  then show ?case by (auto dest: pg_append_episode_Inl split: prod.splits)
qed

interpretation pg_turn_log: numbered_log "\<lambda>(f, now, t). pg_append_turn P f now t" "\<lambda>(T, c). rows_of_conversation T c"
    "\<lambda>(f, now, t). (tu_tenant t, tu_conversation t)" tu_seq
    "\<lambda>d. \<forall>T c. numbered_from_one tu_seq (rows_of_conversation T c d)" for P
proof (unfold_locales, goal_cases)
  case (1 d k)
  then show ?case by (auto simp: numbered_from_one_def split: prod.split)
next
  case (2 d call r d')
  obtain f now t where call: "call = (f, now, t)" by (metis prod_cases3)
  show ?case
  proof (cases r)
    case (Inl err)
    with 2 call show ?thesis by (auto dest: pg_append_turn_Inl)
  next
    case (Inr n)
    with 2 call have "d' = d\<lparr>pg_turn_rows := pg_turn_rows d @ [turn_row P now t d]\<rparr>"
      by (auto dest: pg_append_turn_Inr)
    with 2(1) show ?thesis by (auto simp: rows_of_conversation_append turn_row_number intro!: numbered_snoc)
  qed
next
  case (3 d call n d' k)
  then show ?case
    by (auto simp: rows_of_conversation_append turn_row_number dest!: pg_append_turn_Inr split: prod.splits)
next
  case (4 d call err d')
  then show ?case by (auto dest: pg_append_turn_Inl split: prod.splits)
qed

interpretation mem_episode_log: numbered_log mem_append_episode mem_episodes ep_goal ep_seq
    "\<lambda>m. \<forall>g. numbered_from_one ep_seq (mem_episodes g m)"
  by unfold_locales
    (auto simp: mem_append_episode_def mem_episodes_def Let_def numbered_from_one_def [symmetric] numbered_snoc)

text \<open>Whoever appends and in whatever order, and whichever statements fail, the numbers the database store hands out within
a goal, and within a conversation, follow one another without gap or repetition, and the stored entries carry exactly those numbers.\<close>

theorem numbers_without_gap:
  assumes "\<forall>g. numbered_from_one ep_seq (rows_of_goal g d)" "\<forall>T c. numbered_from_one tu_seq (rows_of_conversation T c d)"
    "run_all (\<lambda>(f, now, e). pg_append_episode P f now e) es d = (rs, d1)"
    "run_all (\<lambda>(f, now, t). pg_append_turn P f now t) ts d = (qs, d2)"
  shows "map ep_seq (rows_of_goal g d1) = map ep_seq (rows_of_goal g d) @ handed_out (\<lambda>(f, now, e). ep_goal e) g es rs
    \<and> numbered_from_one ep_seq (rows_of_goal g d1)
    \<and> map tu_seq (rows_of_conversation T c d2) = map tu_seq (rows_of_conversation T c d) @
        handed_out (\<lambda>(f, now, t). (tu_tenant t, tu_conversation t)) (T, c) ts qs
    \<and> numbered_from_one tu_seq (rows_of_conversation T c d2)"
proof (intro conjI)
  show "map ep_seq (rows_of_goal g d1) = map ep_seq (rows_of_goal g d) @ handed_out (\<lambda>(f, now, e). ep_goal e) g es rs"
    by (rule pg_episode_log.run_no_gap [OF assms(1,3)])
  show "numbered_from_one ep_seq (rows_of_goal g d1)"
    using pg_episode_log.run_numbers [OF assms(1,3)] by blast
  show "map tu_seq (rows_of_conversation T c d2) = map tu_seq (rows_of_conversation T c d) @
        handed_out (\<lambda>(f, now, t). (tu_tenant t, tu_conversation t)) (T, c) ts qs"
    using pg_turn_log.run_no_gap [OF assms(2,4), of "(T, c)"] by simp
  show "numbered_from_one tu_seq (rows_of_conversation T c d2)"
    using pg_turn_log.run_numbers [OF assms(2,4)] by blast
qed

definition sample_pg_env :: pg_env where
  "sample_pg_env = \<lparr>pe_keep = (\<lambda>t. t), pe_collate = (\<lambda>s. s)\<rparr>"

definition fresh_pg :: "(string \<times> string) list \<Rightarrow> string list \<Rightarrow> pgmem" where
  "fresh_pg goals tenants = \<lparr>pg_goals = goals, pg_tenants = tenants, pg_episode_rows = [], pg_summary_rows = [],
     pg_knowledge_rows = [], pg_pref_rows = [], pg_turn_rows = []\<rparr>"

definition sample_episode :: "episode_kind \<Rightarrow> episode" where
  "sample_episode k = \<lparr>ep_goal = ''g'', ep_seq = 0, ep_task = ''t'', ep_kind = k, ep_summary = ''s'', ep_detail = '''',
     ep_at = 5, ep_by = 0\<rparr>"

definition sample_turn :: "string \<Rightarrow> string \<Rightarrow> turn" where
  "sample_turn role body = \<lparr>tu_tenant = ''org'', tu_conversation = ''c'', tu_seq = 0, tu_role = role, tu_body = body,
     tu_kind = '''', tu_capability = '''', tu_decided = '''', tu_cost = 0, tu_at = 7\<rparr>"

text \<open>Two writers; the second statement of the first writer's second append fails.\<close>

definition sample_appends :: "(faults \<times> time \<times> episode) list" where
  "sample_appends = [(no_faults, 5, sample_episode EpisodeObservation), ((\<lambda>n. if n = 2 then Some ''lost'' else None), 5,
     sample_episode EpisodeDecision), (no_faults, 6, sample_episode EpisodeEffect)]"

theorem numbers_without_gap_witness:
  "\<exists>rs d1. run_all (\<lambda>(f, now, e). pg_append_episode sample_pg_env f now e) sample_appends (fresh_pg [(''g'', ''org'')] [''org'']) = (rs, d1)
    \<and> map isl rs = [False, True, False] \<and> map ep_seq (rows_of_goal ''g'' d1) = [1, 2]"
proof -
  let ?d = "fresh_pg [(''g'', ''org'')] [''org'']"
  let ?r = "run_all (\<lambda>(f, now, e). pg_append_episode sample_pg_env f now e) sample_appends ?d"
  have rs: "map isl (fst ?r) = [False, True, False]" "handed_out (\<lambda>(f, now, e). ep_goal e) ''g'' sample_appends (fst ?r) = [1, 2]"
    by code_simp+
  have n: "\<forall>g. numbered_from_one ep_seq (rows_of_goal g ?d)" "\<forall>T c. numbered_from_one tu_seq (rows_of_conversation T c ?d)"
    "rows_of_goal ''g'' ?d = []" by (simp_all add: fresh_pg_def rows_of_goal_def rows_of_conversation_def)
  have r: "?r = (fst ?r, snd ?r)" by simp
  have t: "run_all (\<lambda>(f, now, t). pg_append_turn sample_pg_env f now t) [] ?d = ([], ?d)" by simp
  from numbers_without_gap [OF n(1,2) r t, of "''g''"] have "map ep_seq (rows_of_goal ''g'' (snd ?r)) = [1, 2]"
    by (simp add: n(3) rs(2))
  with rs(1) show ?thesis by (intro exI [of _ "fst ?r"] exI [of _ "snd ?r"]) simp
qed

section \<open>Isolation of the views\<close>

fun is_question :: "view_op \<Rightarrow> bool" where
  "is_question (OpEpisode _) = False" | "is_question (OpSummary _) = False" | "is_question (OpKnowledge _) = False"
| "is_question (OpPreference _) = False" | "is_question (OpTurn _) = False" | "is_question _ = True"

lemma claim_goal_cases:
  "claim_goal T g m = (ok, m1) \<Longrightarrow> m1 = m \<or> T \<noteq> '''' \<and> map_of (mm_tenant_of m) g = None \<and> m1 = m\<lparr>mm_tenant_of := AList.update g T (mm_tenant_of m)\<rparr>"
  by (auto simp: claim_goal_def split: option.splits if_splits)

lemma claim_goal_ok: "claim_goal T g m = (True, m1) \<Longrightarrow> map_of (mm_tenant_of m1) g = Some T"
  by (auto simp: claim_goal_def update_conv' simp del: map_of_eq_Some_iff split: option.splits if_splits)

lemma owns_goal_claim: "T \<noteq> T' \<Longrightarrow> claim_goal T' g m = (ok, m1) \<Longrightarrow> owns_goal T h m1 = owns_goal T h m"
  by (drule claim_goal_cases) (auto simp: owns_goal_def update_conv' split: option.splits if_splits)

lemma filter_update_other:
  "\<not> Q k \<Longrightarrow> filter (\<lambda>(k, v). Q k \<and> R v) (AList.update k v xs) = filter (\<lambda>(k, v). Q k \<and> R v) xs"
  by (induction xs) auto

text \<open>What a tenant reads depends on its own goals, keys and conversations.\<close>

lemma same_reads:
  assumes "\<And>g. owns_goal T g m' = owns_goal T g m"
    "\<And>g. owns_goal T g m \<Longrightarrow> mem_episodes g m' = mem_episodes g m \<and> mem_summaries g m' = mem_summaries g m"
    "\<And>s. at_key (mm_knowledge m') (subject_key T s) = at_key (mm_knowledge m) (subject_key T s)"
    "at_key (mm_prefs m') T = at_key (mm_prefs m) T"
    "\<And>c. at_key (mm_turns m') (subject_key T c) = at_key (mm_turns m) (subject_key T c)"
    "filter (\<lambda>(k, ts). has_prefix k (subject_key T '''') \<and> ts \<noteq> []) (mm_turns m') =
     filter (\<lambda>(k, ts). has_prefix k (subject_key T '''') \<and> ts \<noteq> []) (mm_turns m)"
    "is_question q"
  shows "fst (mem_do (T, now, i, q) m') = fst (mem_do (T, now, i, q) m)"
  using assms
  by (cases q) (simp_all add: view_episodes_def view_summaries_def view_knowledge_for_def mem_knowledge_for_def
      view_preferences_def mem_preferences_def view_turns_def mem_turns_def view_conversations_def mem_conversations_def Let_def)

lemma other_tenants_call:
  assumes "no_nul T" "no_nul T'" "T \<noteq> T'" "is_question q"
  shows "fst (mem_do (T, now, i, q) (snd (mem_do (T', now', i', op) m))) = fst (mem_do (T, now, i, q) m)"
proof (cases op)
  case (OpEpisode e)
  obtain ok m1 where c: "claim_goal T' (ep_goal e) m = (ok, m1)" by (rule prod.exhaust)
  note o = owns_goal_claim [OF assms(3) c] and cc = claim_goal_cases [OF c]
  have g: "owns_goal T g m \<Longrightarrow> ok \<Longrightarrow> g \<noteq> ep_goal e" for g
    using claim_goal_ok [of T' "ep_goal e" m m1] c o [of g] assms(3) by (auto simp: owns_goal_def)
  show ?thesis
    by (rule same_reads [OF _ _ _ _ _ _ assms(4)])
      (use cc o g in \<open>auto simp: OpEpisode view_append_episode_def c mem_append_episode_def Let_def mem_episodes_def
         mem_summaries_def owns_goal_def split: if_splits\<close>)
next
  case (OpSummary s)
  obtain ok m1 where c: "claim_goal T' (sm_goal s) m = (ok, m1)" by (rule prod.exhaust)
  note o = owns_goal_claim [OF assms(3) c] and cc = claim_goal_cases [OF c]
  have g: "owns_goal T g m \<Longrightarrow> ok \<Longrightarrow> g \<noteq> sm_goal s" for g
    using claim_goal_ok [of T' "sm_goal s" m m1] c o [of g] assms(3) by (auto simp: owns_goal_def)
  show ?thesis
    by (rule same_reads [OF _ _ _ _ _ _ assms(4)])
      (use cc o g in \<open>auto simp: OpSummary view_save_summary_def c mem_save_summary_def Let_def mem_episodes_def
         mem_summaries_def owns_goal_def at_key_map_values split: if_splits\<close>)
next
  case (OpKnowledge k)
  show ?thesis
    by (rule same_reads [OF _ _ _ _ _ _ assms(4)])
      (use assms(1-3) in \<open>auto simp: OpKnowledge view_promote_knowledge_def mem_promote_knowledge_def Let_def mem_episodes_def
         mem_summaries_def owns_goal_def\<close>)
next
  case (OpPreference p)
  show ?thesis
    by (rule same_reads [OF _ _ _ _ _ _ assms(4)])
      (use assms(1-3) in \<open>auto simp: OpPreference view_set_preference_def mem_set_preference_def mem_episodes_def
         mem_summaries_def owns_goal_def split: sum.split\<close>)
next
  case (OpTurn t)
  have "\<not> has_prefix (subject_key T' (tu_conversation t)) (subject_key T '''')" using assms(1-3) by simp
  then show ?thesis
    by (intro same_reads [OF _ _ _ _ _ _ assms(4)])
      (use assms(1-3) in \<open>auto simp: OpTurn view_append_turn_def mem_append_turn_def Let_def mem_episodes_def
         mem_summaries_def owns_goal_def filter_update_other split: sum.split\<close>)
qed simp_all

text \<open>C14. The in-process memory shows a tenant nothing of another: whatever any other tenant writes, on whatever goal, subject, key or
conversation, every question of this tenant (its episodes, summaries, knowledge, preferences, turns and conversations) is answered as before.\<close>

theorem memory_views_isolated:
  assumes "no_nul T" "\<forall>(T', now', i', op) \<in> set calls. no_nul T' \<and> T' \<noteq> T" "is_question q"
  shows "fst (mem_do (T, now, i, q) (snd (run_all mem_do calls m))) = fst (mem_do (T, now, i, q) m)"
  using assms(2)
proof (induction calls arbitrary: m)
  case (Cons call calls)
  obtain T' now' i' op where call: "call = (T', now', i', op)" by (metis prod_cases4)
  with Cons.prems have T': "no_nul T'" "T \<noteq> T'" by auto
  show ?case using Cons.IH [of "snd (mem_do call m)"] Cons.prems other_tenants_call [OF assms(1) T' assms(3)]
    by (simp add: case_prod_beta call)
qed simp

theorem memory_views_isolated_witness:
  "fst (mem_do (''a'', 0, 0, AskEpisodes ''g'') (snd (run_all mem_do
     [(''b'', 1, 0, OpEpisode (sample_episode EpisodeFailure)), (''b'', 2, 0, OpTurn (sample_turn TurnUser ''hi''))]
     (snd (mem_do (''a'', 0, 0, OpEpisode (sample_episode EpisodeEffect)) no_memories)))))
   = GotEpisodes (Inr [(sample_episode EpisodeEffect)\<lparr>ep_seq := 1\<rparr>])"
proof -
  let ?m = "snd (mem_do (''a'', 0, 0, OpEpisode (sample_episode EpisodeEffect)) no_memories)"
  have "fst (mem_do (''a'', 0, 0, AskEpisodes ''g'') ?m) = GotEpisodes (Inr [(sample_episode EpisodeEffect)\<lparr>ep_seq := 1\<rparr>])"
    by (simp add: view_append_episode_def claim_goal_def no_memories_def mem_append_episode_def sample_episode_def
        view_episodes_def owns_goal_def mem_episodes_def at_key_def Let_def)
  moreover have "no_nul ''a''" "no_nul ''b''" by code_simp+
  ultimately show ?thesis
    by (subst memory_views_isolated) simp_all
qed

section \<open>The two stores agree\<close>

lemma fresh_conforms: "distinct (map fst goals) \<Longrightarrow> conforms (fresh_pg goals tenants) no_memories"
  by (simp add: conforms_def conf_episodes_def conf_summaries_def conf_knowledge_def conf_prefs_def conf_turns_def turns_keyed_def
      conf_owners_def fresh_pg_def no_memories_def rows_of_goal_def rows_of_conversation_def mem_episodes_def mem_summaries_def
      mem_turns_def)


definition sample_calls :: "view_call list" where
  "sample_calls = [(''org'', 9, 1, OpEpisode (sample_episode EpisodeObservation)),
     (''org'', 9, 1, OpTurn (sample_turn TurnUser ''hi'')), (''org'', 9, 1, AskEpisodes ''g''), (''org'', 9, 1, AskTurns ''c'')]"

lemma pg_do_tables: "pg_tenants (snd (pg_do P f call d)) = pg_tenants d"
proof -
  obtain T now i op where call: "call = (T, now, i, op)" by (metis prod_cases4)
  show ?thesis unfolding call
    by (cases op)
      (simp_all add: pgview_append_episode_def pgview_save_summary_def insert_summary_def pgview_promote_knowledge_def
        pg_promote_knowledge_def insert_knowledge_def pgview_set_preference_def pg_set_preference_def pgview_append_turn_def
        pg_append_turn_def transaction_def sql_def stmt_def Let_def split: option.split sum.split)
qed

lemma no_nul_org: "no_nul ''org''"
  by code_simp


section \<open>Promotion and compression\<close>

lemma cite_Inr: "cite g es = Inr seqs \<longleftrightarrow> (\<forall>e \<in> set es. ep_goal e = g \<and> ep_kind e \<in> {EpisodeObservation, EpisodeEffect}) \<and>
    seqs = map ep_seq es"
proof (induction es arbitrary: seqs)
  case (Cons e es)
  then show ?case by (cases "cite g es") auto
qed auto

text \<open>Knowledge is promoted exactly from evidence: there is at least one cited episode, all from one goal, each an observation or an
effect; the claim then cites that goal and exactly those episodes, in order, and both stores would accept it.\<close>

theorem promote_iff_evidence:
  "promote tenant subject key val es = Inr k \<longleftrightarrow>
     es \<noteq> [] \<and> (\<forall>e \<in> set es. ep_goal e = kn_goal k \<and> ep_kind e \<in> {EpisodeObservation, EpisodeEffect}) \<and>
     sorted (kn_seqs k) \<and> mset (kn_seqs k) = mset (map ep_seq es) \<and>
     k = \<lparr>kn_tenant = tenant, kn_subject = subject, kn_key = key, kn_value = val, kn_goal = kn_goal k, kn_seqs = kn_seqs k,
          kn_at = zero_time, kn_superseded = ''''\<rparr>"
proof (cases es)
  case Nil
  then show ?thesis by (simp add: promote_def)
next
  case (Cons e es')
  have s: "sorted ys \<and> mset ys = mset (map ep_seq es) \<longleftrightarrow> ys = sort (map ep_seq es)" for ys
    by (metis mset_sort properties_for_sort sorted_sort)
  show ?thesis
  proof
    assume "promote tenant subject key val es = Inr k"
    then obtain seqs where "cite (ep_goal e) es = Inr seqs" and k: "k = \<lparr>kn_tenant = tenant, kn_subject = subject, kn_key = key,
        kn_value = val, kn_goal = ep_goal e, kn_seqs = sort seqs, kn_at = zero_time, kn_superseded = ''''\<rparr>"
      by (auto simp: promote_def Cons simp del: cite.simps split: sum.splits)
    moreover from this(1) have "seqs = map ep_seq es" using cite_Inr by blast
    ultimately have "cite (ep_goal e) es = Inr (map ep_seq es)" "k = \<lparr>kn_tenant = tenant, kn_subject = subject, kn_key = key,
        kn_value = val, kn_goal = ep_goal e, kn_seqs = sort (map ep_seq es), kn_at = zero_time, kn_superseded = ''''\<rparr>" by simp_all
    then have "\<forall>x \<in> set es. ep_goal x = ep_goal e \<and> ep_kind x \<in> {EpisodeObservation, EpisodeEffect}"
      and "k = \<lparr>kn_tenant = tenant, kn_subject = subject, kn_key = key,
        kn_value = val, kn_goal = ep_goal e, kn_seqs = sort (map ep_seq es), kn_at = zero_time, kn_superseded = ''''\<rparr>"
      using cite_Inr by blast+
    then have "kn_goal k = ep_goal e" "sorted (kn_seqs k) \<and> mset (kn_seqs k) = mset (map ep_seq es)"
      "\<forall>x \<in> set es. ep_goal x = ep_goal e \<and> ep_kind x \<in> {EpisodeObservation, EpisodeEffect}"
      "k = \<lparr>kn_tenant = tenant, kn_subject = subject, kn_key = key, kn_value = val, kn_goal = kn_goal k, kn_seqs = kn_seqs k,
          kn_at = zero_time, kn_superseded = ''''\<rparr>"
      using s [of "kn_seqs k"] by (simp_all only: knowledge.simps)
    moreover have "es \<noteq> []" using Cons by simp
    ultimately show "es \<noteq> [] \<and> (\<forall>e \<in> set es. ep_goal e = kn_goal k \<and> ep_kind e \<in> {EpisodeObservation, EpisodeEffect}) \<and>
        sorted (kn_seqs k) \<and> mset (kn_seqs k) = mset (map ep_seq es) \<and>
        k = \<lparr>kn_tenant = tenant, kn_subject = subject, kn_key = key, kn_value = val, kn_goal = kn_goal k, kn_seqs = kn_seqs k,
          kn_at = zero_time, kn_superseded = ''''\<rparr>"
      by auto
  next
    assume r: "es \<noteq> [] \<and> (\<forall>e \<in> set es. ep_goal e = kn_goal k \<and> ep_kind e \<in> {EpisodeObservation, EpisodeEffect}) \<and>
        sorted (kn_seqs k) \<and> mset (kn_seqs k) = mset (map ep_seq es) \<and>
        k = \<lparr>kn_tenant = tenant, kn_subject = subject, kn_key = key, kn_value = val, kn_goal = kn_goal k, kn_seqs = kn_seqs k,
          kn_at = zero_time, kn_superseded = ''''\<rparr>"
    then have "ep_goal e = kn_goal k" using Cons by simp
    then have "cite (ep_goal e) es = Inr (map ep_seq es)" using r cite_Inr by simp
    moreover have "kn_seqs k = sort (map ep_seq es)" using r s by blast
    ultimately have "promote tenant subject key val es = Inr \<lparr>kn_tenant = tenant, kn_subject = subject, kn_key = key,
        kn_value = val, kn_goal = kn_goal k, kn_seqs = kn_seqs k, kn_at = zero_time, kn_superseded = ''''\<rparr>"
      using \<open>ep_goal e = kn_goal k\<close> by (simp add: promote_def Cons)
    with r show "promote tenant subject key val es = Inr k" by simp
  qed
qed

theorem promote_iff_evidence_witness:
  "\<exists>k. promote ''t'' ''s'' ''key'' ''v'' [(sample_episode EpisodeEffect)\<lparr>ep_seq := 4\<rparr>, (sample_episode EpisodeObservation)\<lparr>ep_seq := 2\<rparr>] = Inr k
     \<and> kn_goal k = ''g'' \<and> sorted (kn_seqs k) \<and> set (kn_seqs k) = {2, 4}"
proof -
  let ?es = "[(sample_episode EpisodeEffect)\<lparr>ep_seq := 4\<rparr>, (sample_episode EpisodeObservation)\<lparr>ep_seq := 2\<rparr>]"
  obtain k where k: "promote ''t'' ''s'' ''key'' ''v'' ?es = Inr k"
    by (simp add: promote_def sample_episode_def)
  from promote_iff_evidence [THEN iffD1, OF this] have "sorted (kn_seqs k)" "ep_goal (hd ?es) = kn_goal k" "mset (kn_seqs k) = mset [4, 2]"
    by simp_all
  moreover from this(3) have "set (kn_seqs k) = {2, 4}" by (metis insert_commute list.set(1,2) set_mset_mset)
  ultimately show ?thesis using k by (auto simp: sample_episode_def)
qed

lemma check_run_Some:
  "check_run g (Some p) es = Inr u \<longleftrightarrow> (\<forall>e \<in> set es. ep_goal e = g \<and> compressible e) \<and> map ep_seq es = [p + 1 .. p + int (length es)]"
proof (induction es arbitrary: p)
  case (Cons e es)
  have "[p + 1 .. p + int (length (e # es))] = (p + 1) # [p + 1 + 1 .. p + 1 + int (length es)]"
    using upto_rec1 [of "p + 1" "p + int (length (e # es))"] by (simp add: ac_simps)
  with Cons show ?case by auto
qed simp

lemma check_run_None:
  "es \<noteq> [] \<Longrightarrow> check_run g None es = Inr u \<longleftrightarrow> (\<forall>e \<in> set es. ep_goal e = g \<and> compressible e) \<and>
     map ep_seq es = [ep_seq (hd es) .. ep_seq (hd es) + int (length es) - 1]"
proof (cases es)
  case (Cons e es')
  have "[ep_seq e .. ep_seq e + int (length es)- 1] = ep_seq e # [ep_seq e + 1 .. ep_seq e + int (length es')]"
    using upto_rec1 [of "ep_seq e" "ep_seq e + int (length es) - 1"] Cons by simp
  with check_run_Some [of g "ep_seq e" es' u] show ?thesis by (auto simp: Cons)
qed simp

text \<open>C15. A summary covers what it says: compression succeeds exactly on a nonempty set of episodes of the goal that holds no failure and no
effect and whose numbers are, in any order and without repetition, all the numbers of one range; the summary names that range and counts its episodes.\<close>

theorem compress_covers:
  "compress gid es content now = Inr s \<longleftrightarrow>
     es \<noteq> [] \<and> (\<forall>e \<in> set es. ep_goal e = gid \<and> ep_kind e \<notin> {EpisodeFailure, EpisodeEffect}) \<and>
     distinct (map ep_seq es) \<and> ep_seq ` set es = {sm_from s .. sm_to s} \<and>
     s = \<lparr>sm_goal = gid, sm_id = 0, sm_from = sm_from s, sm_to = sm_to s, sm_content = content,
          sm_dropped = int (length es), sm_at = now\<rparr>"
proof (cases "es = []")
  case True
  then show ?thesis by (simp add: compress_def)
next
  case False
  define xs where "xs = sort_key ep_seq es"
  have "set xs = set es" by (simp add: xs_def)
  moreover from this False have "xs \<noteq> []" by force
  ultimately have xs: "xs \<noteq> []" "set xs = set es" "length xs = length es" "mset (map ep_seq xs) = mset (map ep_seq es)" "sorted (map ep_seq xs)"
    by (simp_all add: xs_def)
  have kinds: "compressible e \<longleftrightarrow> ep_kind e \<notin> {EpisodeFailure, EpisodeEffect}" for e
    by (cases "ep_kind e") (auto simp: compressible_def)
  have run: "compress gid es content now = Inr s \<longleftrightarrow> check_run gid None xs = Inr () \<and>
      s = \<lparr>sm_goal = gid, sm_id = 0, sm_from = ep_seq (hd xs), sm_to = ep_seq (last xs), sm_content = content,
           sm_dropped = int (length es), sm_at = now\<rparr>"
    using False xs(3) by (auto simp: compress_def xs_def Let_def split: sum.split)
  have dist: "distinct (map ep_seq xs) \<longleftrightarrow> distinct (map ep_seq es)" by (rule mset_eq_imp_distinct_iff [OF xs(4)])
  show ?thesis
  proof
    assume "compress gid es content now = Inr s"
    with run have c: "check_run gid None xs = Inr ()" and s: "s = \<lparr>sm_goal = gid, sm_id = 0, sm_from = ep_seq (hd xs),
        sm_to = ep_seq (last xs), sm_content = content, sm_dropped = int (length es), sm_at = now\<rparr>" by blast+
    from c xs(1) have m: "map ep_seq xs = [ep_seq (hd xs) .. ep_seq (hd xs) + int (length xs) - 1]"
      and ks: "\<forall>e \<in> set xs. ep_goal e = gid \<and> compressible e" by (simp_all add: check_run_None)
    have "ep_seq (last xs) = last [ep_seq (hd xs) .. ep_seq (hd xs) + int (length xs) - 1]"
      using m xs(1) by (metis last_map)
    also have "\<dots> = ep_seq (hd xs) + int (length xs) - 1"
      using upto_rec2 [of "ep_seq (hd xs)" "ep_seq (hd xs) + int (length xs) - 1"] xs(1) by (cases xs) simp_all
    finally have "map ep_seq xs = [sm_from s .. sm_to s]" using m s by simp
    then have "ep_seq ` set es = {sm_from s .. sm_to s}" "distinct (map ep_seq es)"
      using xs(2) dist by (metis set_map set_upto, metis distinct_upto)
    with False ks s xs(2) kinds show "es \<noteq> [] \<and> (\<forall>e \<in> set es. ep_goal e = gid \<and> ep_kind e \<notin> {EpisodeFailure, EpisodeEffect}) \<and>
        distinct (map ep_seq es) \<and> ep_seq ` set es = {sm_from s .. sm_to s} \<and>
        s = \<lparr>sm_goal = gid, sm_id = 0, sm_from = sm_from s, sm_to = sm_to s, sm_content = content,
          sm_dropped = int (length es), sm_at = now\<rparr>" by simp
  next
    assume r: "es \<noteq> [] \<and> (\<forall>e \<in> set es. ep_goal e = gid \<and> ep_kind e \<notin> {EpisodeFailure, EpisodeEffect}) \<and>
        distinct (map ep_seq es) \<and> ep_seq ` set es = {sm_from s .. sm_to s} \<and>
        s = \<lparr>sm_goal = gid, sm_id = 0, sm_from = sm_from s, sm_to = sm_to s, sm_content = content,
          sm_dropped = int (length es), sm_at = now\<rparr>"
    then have m: "map ep_seq xs = [sm_from s .. sm_to s]"
      using xs(2,5) dist by (intro sorted_distinct_set_unique) auto
    then have le: "sm_from s \<le> sm_to s" using xs(1) by (metis Nil_is_map_conv not_less upto_empty)
    have h: "ep_seq (hd xs) = sm_from s" using m xs(1) upto_rec1 [OF le] by (metis hd_map list.sel(1))
    have l: "ep_seq (last xs) = sm_to s" using m xs(1) upto_rec2 [OF le] by (metis last_map last_snoc)
    have "int (length xs) = sm_to s - sm_from s + 1"
      using arg_cong [OF m, of length] le by simp
    with m h have "map ep_seq xs = [ep_seq (hd xs) .. ep_seq (hd xs) + int (length xs) - 1]" by simp
    then have "check_run gid None xs = Inr ()" using r xs(1,2) kinds by (simp add: check_run_None)
    with run h l r show "compress gid es content now = Inr s" by simp
  qed
qed

theorem compress_covers_witness:
  "\<exists>s. compress ''g'' [(sample_episode EpisodeDecision)\<lparr>ep_seq := 8\<rparr>, (sample_episode EpisodeObservation)\<lparr>ep_seq := 7\<rparr>] ''c'' 9 = Inr s
     \<and> {sm_from s .. sm_to s} = {7, 8} \<and> sm_dropped s = 2"
proof -
  let ?es = "[(sample_episode EpisodeDecision)\<lparr>ep_seq := 8\<rparr>, (sample_episode EpisodeObservation)\<lparr>ep_seq := 7\<rparr>]"
  obtain s where s: "compress ''g'' ?es ''c'' 9 = Inr s"
    by (simp add: compress_def sample_episode_def compressible_def Let_def)
  from compress_covers [THEN iffD1, OF this] have "ep_seq ` set ?es = {sm_from s .. sm_to s}" "sm_dropped s = int (length ?es)"
    by (metis summary.select_convs(6))+
  with s show ?thesis by (auto simp: insert_commute)
qed

end
