(* ===== verification/Password.thy ===== *)
theory Password
  imports Gostrings
begin

text \<open>
  \<open>internal/auth/password.go\<close>: the encoded argon2id hash (its printing and its parsing, with the pieces
  of \<open>base64\<close>, \<open>fmt.Sscanf\<close>, \<open>strconv\<close> and \<open>time.Duration\<close> the file uses), \<open>HashPassword\<close> and
  \<open>VerifyPassword\<close>, the gate that bounds how many hashes run at once, and its configuration from the
  environment.

  \<open>argon2.IDKey\<close> is an argument (\<open>idkey\<close>); it may panic, which is an \<open>Inl\<close>.  So are the salt
  \<open>rand.Read\<close> delivers and \<open>time.ParseDuration\<close> (its fractions are computed in floating point).
  Where a goroutine waits, the argument \<open>moment\<close> says what it finds when the wait ends.
\<close>

section \<open>Base64 without padding\<close>

definition b64_alphabet :: string where
  "b64_alphabet = ''ABCDEFGHIJKLMNOPQRSTUVWXYZabcdefghijklmnopqrstuvwxyz0123456789+/''"

definition b64_char :: "nat \<Rightarrow> char" where
  "b64_char n = b64_alphabet ! n"

definition b64_index :: "char \<Rightarrow> nat option" where
  "b64_index c = map_of (zip b64_alphabet [0 ..< 64]) c"

text \<open>\<open>base64.RawStdEncoding.EncodeToString\<close>: three bytes to four characters; one or two left over to two or three.\<close>

fun b64_bytes :: "nat list \<Rightarrow> nat list" where
  "b64_bytes (a # b # c # xs) =
     (a div 4) # ((a mod 4) * 16 + b div 16) # ((b mod 16) * 4 + c div 64) # (c mod 64) # b64_bytes xs"
| "b64_bytes [a, b] = [a div 4, (a mod 4) * 16 + b div 16, (b mod 16) * 4]"
| "b64_bytes [a] = [a div 4, (a mod 4) * 16]"
| "b64_bytes [] = []"

definition b64_encode :: "string \<Rightarrow> string" where
  "b64_encode s = map b64_char (b64_bytes (map of_char s))"

text \<open>
  \<open>base64.RawStdEncoding.DecodeString\<close>: carriage returns and newlines are skipped, a character outside
  the alphabet or a single character left over is an error, and the low bits of an incomplete last
  group are ignored (the encoding is not \<open>Strict\<close>).
\<close>

fun b64_groups :: "nat list \<Rightarrow> nat list option" where
  "b64_groups (p # q # r # s # xs) =
     map_option (\<lambda>ys. (p * 4 + q div 16) # ((q mod 16) * 16 + r div 4) # ((r mod 4) * 64 + s) # ys) (b64_groups xs)"
| "b64_groups [p, q, r] = Some [p * 4 + q div 16, (q mod 16) * 16 + r div 4]"
| "b64_groups [p, q] = Some [p * 4 + q div 16]"
| "b64_groups [p] = None"
| "b64_groups [] = Some []"

definition newline_char :: "char \<Rightarrow> bool" where
  "newline_char c \<longleftrightarrow> c = char_of (10 :: nat) \<or> c = char_of (13 :: nat)"

definition b64_decode :: "string \<Rightarrow> string option" where
  "b64_decode s =
     (let cs = map b64_index (filter (\<lambda>c. \<not> newline_char c) s)
      in if None \<in> set cs then None else map_option (map char_of) (b64_groups (map the cs)))"

section \<open>Scanning and printing numbers\<close>

definition is_digit :: "char \<Rightarrow> bool" where
  "is_digit c \<longleftrightarrow> 48 \<le> (of_char c :: nat) \<and> (of_char c :: nat) \<le> 57"

definition digits_value :: "string \<Rightarrow> nat" where
  "digits_value s = foldl (\<lambda>n c. n * 10 + (of_char c - 48)) 0 s"

text \<open>\<open>strconv.Atoi\<close>: an optional sign and decimal digits, within the range of \<open>int\<close>.\<close>

definition atoi :: "string \<Rightarrow> int option" where
  "atoi s =
     (let neg = has_prefix s ''-''; ds = (if has_prefix s ''-'' \<or> has_prefix s ''+'' then tl s else s);
          n = (if neg then - int (digits_value ds) else int (digits_value ds))
      in if ds \<noteq> [] \<and> list_all is_digit ds \<and> in_int64 n then Some n else None)"

text \<open>
  \<open>fmt.Sscanf\<close>: a literal of the format, then a number.  Before a verb white space is skipped, but not a
  newline; what follows the last verb is not read.
\<close>

definition scan_literal :: "string \<Rightarrow> string \<Rightarrow> string option" where
  "scan_literal lit s = (if has_prefix s lit then Some (drop (length lit) s) else None)"

definition scan_skip_space :: "string \<Rightarrow> string option" where
  "scan_skip_space s =
     (let rs = rune_split s; spaces = takeWhile space_rune rs
      in if [char_of (10 :: nat)] \<in> set spaces then None else Some (concat (dropWhile space_rune rs)))"

definition scan_digits :: "string \<Rightarrow> (nat \<times> string) option" where
  "scan_digits s =
     (if takeWhile is_digit s = [] then None
      else Some (digits_value (takeWhile is_digit s), dropWhile is_digit s))"

text \<open>\<open>%d\<close> into an unsigned integer of \<open>w\<close> bits (\<open>scanUint\<close>): no sign.\<close>

definition scan_uint :: "nat \<Rightarrow> string \<Rightarrow> (nat \<times> string) option" where
  "scan_uint w s =
     (case scan_skip_space s of None \<Rightarrow> None
      | Some s' \<Rightarrow>
          (case scan_digits s' of None \<Rightarrow> None
           | Some (n, rest) \<Rightarrow> if n < 2 ^ w then Some (n, rest) else None))"

text \<open>\<open>%d\<close> into an \<open>int\<close> (\<open>scanInt\<close>): an optional sign.\<close>

definition scan_int :: "string \<Rightarrow> (int \<times> string) option" where
  "scan_int s =
     (case scan_skip_space s of None \<Rightarrow> None
      | Some s' \<Rightarrow>
          (case scan_digits (if has_prefix s' ''-'' \<or> has_prefix s' ''+'' then tl s' else s') of None \<Rightarrow> None
           | Some (n, rest) \<Rightarrow>
               let v = (if has_prefix s' ''-'' then - int n else int n)
               in if in_int64 v then Some (v, rest) else None))"

text \<open>\<open>Duration.String\<close>: hours, minutes and seconds, or the largest smaller unit, without trailing zeros.\<close>

definition fmt_frac :: "nat \<Rightarrow> nat \<Rightarrow> string" where
  "fmt_frac u prec =
     (let f = u mod 10 ^ prec
      in if f = 0 then '''' else ''.'' @ rev (dropWhile (\<lambda>c. c = CHR ''0'') (rev (pad_left prec (nat_digits f)))))"

definition duration_string :: "duration \<Rightarrow> string" where
  "duration_string d =
     (let u = nat \<bar>d\<bar>; s = u div 1000000000; m = s div 60; h = m div 60;
          body =
            (if u = 0 then ''0s''
             else if u < 1000 then nat_digits u @ ''ns''
             else if u < 1000000 then nat_digits (u div 1000) @ fmt_frac u 3 @ map char_of [0xC2, 0xB5 :: nat] @ ''s''
             else if u < 1000000000 then nat_digits (u div 1000000) @ fmt_frac u 6 @ ''ms''
             else (if h > 0 then nat_digits h @ ''h'' else '''') @
                  (if m > 0 then nat_digits (m mod 60) @ ''m'' else '''') @
                  nat_digits (s mod 60) @ fmt_frac u 9 @ ''s'')
      in if d < 0 then ''-'' @ body else body)"

section \<open>The encoded hash\<close>

record params =
  p_memory :: nat
  p_iterations :: nat
  p_parallelism :: nat
  p_salt_length :: nat
  p_key_length :: nat

definition default_params :: params where
  "default_params = \<lparr>p_memory = 64 * 1024, p_iterations = 3, p_parallelism = 2, p_salt_length = 16, p_key_length = 32\<rparr>"

definition min_password_length :: nat where "min_password_length = 12"

text \<open>\<open>argon2.Version\<close>, as the package documents it.\<close>

definition argon2_version :: int where "argon2_version = 0x13"

definition encode_hash :: "params \<Rightarrow> string \<Rightarrow> string \<Rightarrow> string" where
  "encode_hash p salt key =
     ''$argon2id$v='' @ itoa argon2_version @ ''$m='' @ nat_digits (p_memory p) @ '',t='' @ nat_digits (p_iterations p) @
     '',p='' @ nat_digits (p_parallelism p) @ ''$'' @ b64_encode salt @ ''$'' @ b64_encode key"

definition scan_version :: "string \<Rightarrow> int option" where
  "scan_version s =
     (case scan_literal ''v='' s of None \<Rightarrow> None | Some s1 \<Rightarrow> map_option fst (scan_int s1))"

definition scan_params :: "string \<Rightarrow> (nat \<times> nat \<times> nat) option" where
  "scan_params s =
     (case scan_literal ''m='' s of None \<Rightarrow> None | Some s1 \<Rightarrow>
     (case scan_uint 32 s1 of None \<Rightarrow> None | Some (m, s2) \<Rightarrow>
     (case scan_literal '',t='' s2 of None \<Rightarrow> None | Some s3 \<Rightarrow>
     (case scan_uint 32 s3 of None \<Rightarrow> None | Some (t, s4) \<Rightarrow>
     (case scan_literal '',p='' s4 of None \<Rightarrow> None | Some s5 \<Rightarrow>
     (case scan_uint 8 s5 of None \<Rightarrow> None | Some (p, _) \<Rightarrow> Some (m, t, p)))))))"

definition bad_hash :: go_error where
  "bad_hash = (ErrBadHash, ''auth: password hash is malformed'')"

text \<open>What \<open>VerifyPassword\<close> does before it takes a turn.\<close>

definition parse_hash :: "string \<Rightarrow> go_error + (nat \<times> nat \<times> nat) \<times> string \<times> string" where
  "parse_hash encoded =
     (let parts = split_char (CHR ''$'') encoded in
      if length parts \<noteq> 6 \<or> parts ! 1 \<noteq> ''argon2id'' then Inl bad_hash
      else if scan_version (parts ! 2) \<noteq> Some argon2_version then Inl bad_hash
      else (case scan_params (parts ! 3) of None \<Rightarrow> Inl bad_hash
            | Some p \<Rightarrow>
                (case b64_decode (parts ! 4) of None \<Rightarrow> Inl bad_hash
                 | Some salt \<Rightarrow>
                     (case b64_decode (parts ! 5) of None \<Rightarrow> Inl bad_hash
                      | Some want \<Rightarrow> Inr (p, salt, want)))))"

section \<open>The gate\<close>

text \<open>
  \<open>gate\<close> is a buffered channel: its capacity and the tokens in it.  \<open>SetConcurrency\<close> swaps the current
  gate while callers still hold turns of an earlier one, so all gates ever made are kept and a turn
  is the index of its gate (\<open>release\<close> closes over the gate).
\<close>

record gate =
  g_slots :: nat
  g_held :: nat

record pw_state =
  gates :: "gate list"
  current_gate :: "nat option"
  max_wait :: duration
  hashes_run :: nat

definition initial_pw :: pw_state where
  "initial_pw = \<lparr>gates = [], current_gate = None, max_wait = 3 * 1000000000, hashes_run = 0\<rparr>"

definition new_gate :: "int \<Rightarrow> gate" where
  "new_gate n = \<lparr>g_slots = nat n, g_held = 0\<rparr>"

definition default_concurrency :: "int \<Rightarrow> int" where
  "default_concurrency procs = max (procs div int (p_parallelism default_params)) 2"

definition install_gate :: "int \<Rightarrow> pw_state \<Rightarrow> pw_state" where
  "install_gate n st = st\<lparr>gates := gates st @ [new_gate n], current_gate := Some (length (gates st))\<rparr>"

definition gate_now :: "int \<Rightarrow> pw_state \<Rightarrow> nat \<times> pw_state" where
  "gate_now procs st =
     (case current_gate st of
        Some g \<Rightarrow> (g, st)
      | None \<Rightarrow> (length (gates st), install_gate (default_concurrency procs) st))"

definition set_concurrency :: "int \<Rightarrow> pw_state \<Rightarrow> go_error + pw_state" where
  "set_concurrency n st =
     (if n < 1 then Inl (Panic, ''auth: a concurrency below 1 would refuse every password check'')
      else Inr (install_gate n st))"

definition set_max_wait :: "duration \<Rightarrow> pw_state \<Rightarrow> go_error + pw_state" where
  "set_max_wait d st =
     (if d \<le> 0 then Inl (Panic, ''auth: a max wait of zero or less would shed every password check'')
      else Inr (st\<lparr>max_wait := d\<rparr>))"

definition concurrency :: "int \<Rightarrow> pw_state \<Rightarrow> nat \<times> pw_state" where
  "concurrency procs st = (let (g, st1) = gate_now procs st in (g_slots (gates st1 ! g), st1))"

text \<open>
  How a wait goes: the context was over before it began, the deadline passed (or the caller went away)
  while it waited, or a slot came free.  The state is the one found at that moment; with no free slot
  a \<open>Slot_free\<close> cannot happen, which is \<open>None\<close>.
\<close>

datatype moment = Already_over | Gave_up | Slot_free

definition busy :: "string \<Rightarrow> go_error" where
  "busy detail = (ErrBusy, ''auth: too many password checks are already running: '' @ detail)"

definition set_held :: "nat \<Rightarrow> nat \<Rightarrow> pw_state \<Rightarrow> pw_state" where
  "set_held g n st = st\<lparr>gates := (gates st)[g := (gates st ! g)\<lparr>g_held := n\<rparr>]\<rparr>"

definition acquire :: "int \<Rightarrow> moment \<Rightarrow> pw_state \<Rightarrow> ((go_error + nat) \<times> pw_state) option" where
  "acquire procs moment st =
     (let (g, st1) = gate_now procs st; slots = g_slots (gates st1 ! g); held = g_held (gates st1 ! g);
          wait = duration_string (max_wait st)
      in case moment of
           Already_over \<Rightarrow> Some (Inl (busy (''the request was no longer waiting after '' @ wait)), st1)
         | Gave_up \<Rightarrow> Some (Inl (busy (''waited '' @ wait @ '' for one of '' @ nat_digits slots @ '' slots'')), st1)
         | Slot_free \<Rightarrow>
             if held < slots
             then Some (Inr g, (set_held g (Suc held) st1)\<lparr>hashes_run := Suc (hashes_run st1)\<rparr>)
             else None)"

definition release_turn :: "nat \<Rightarrow> pw_state \<Rightarrow> pw_state" where
  "release_turn g st = set_held g (g_held (gates st ! g) - 1) st"

section \<open>Hashing and checking\<close>

text \<open>\<open>argon2.IDKey(password, salt, time, memory, threads, keyLen)\<close>.\<close>

type_synonym idkey_fn = "string \<Rightarrow> string \<Rightarrow> nat \<Rightarrow> nat \<Rightarrow> nat \<Rightarrow> nat \<Rightarrow> go_error + string"

definition weak_password :: go_error where
  "weak_password =
     (ErrWeakPassword, ''auth: password is too short: passwords must be at least '' @
        nat_digits min_password_length @ '' characters'')"

definition hash_key :: "idkey_fn \<Rightarrow> string + string \<Rightarrow> string \<Rightarrow> go_error + string" where
  "hash_key idkey rand password =
     (let p = default_params in
      case rand of
        Inl e \<Rightarrow> Inl (Opaque, ''auth: generating salt: '' @ e)
      | Inr salt \<Rightarrow>
          (case idkey password salt (p_iterations p) (p_memory p) (p_parallelism p) (p_key_length p) of
             Inl e \<Rightarrow> Inl e
           | Inr key \<Rightarrow> Inr (encode_hash p salt key)))"

definition hash_password ::
  "int \<Rightarrow> idkey_fn \<Rightarrow> string + string \<Rightarrow> moment \<Rightarrow> string \<Rightarrow> pw_state \<Rightarrow> ((go_error + string) \<times> pw_state) option" where
  "hash_password procs idkey rand moment password st =
     (if rune_count password < min_password_length then Some (Inl weak_password, st)
      else (case acquire procs moment st of
              None \<Rightarrow> None
            | Some (Inl e, st1) \<Rightarrow> Some (Inl e, st1)
            | Some (Inr g, st1) \<Rightarrow> Some (hash_key idkey rand password, release_turn g st1)))"

definition check_key :: "idkey_fn \<Rightarrow> string \<Rightarrow> nat \<times> nat \<times> nat \<Rightarrow> string \<Rightarrow> string \<Rightarrow> go_error + unit" where
  "check_key idkey password p salt want =
     (case p of (m, t, par) \<Rightarrow>
        (case idkey password salt t m par (length want mod 2 ^ 32) of
           Inl e \<Rightarrow> Inl e
         | Inr got \<Rightarrow> if got = want then Inr () else Inl (ErrWrongPassword, ''auth: password does not match'')))"

definition verify_password ::
  "int \<Rightarrow> idkey_fn \<Rightarrow> moment \<Rightarrow> string \<Rightarrow> string \<Rightarrow> pw_state \<Rightarrow> ((go_error + unit) \<times> pw_state) option" where
  "verify_password procs idkey moment password encoded st =
     (case parse_hash encoded of
        Inl e \<Rightarrow> Some (Inl e, st)
      | Inr (p, salt, want) \<Rightarrow>
          (case acquire procs moment st of
             None \<Rightarrow> None
           | Some (Inl e, st1) \<Rightarrow> Some (Inl e, st1)
           | Some (Inr g, st1) \<Rightarrow> Some (check_key idkey password p salt want, release_turn g st1)))"

section \<open>Configuration\<close>

text \<open>
  \<open>ConfigureFromEnv\<close>: \<open>env\<close> is \<open>os.Getenv\<close>, \<open>parse_duration\<close> is \<open>time.ParseDuration\<close>; the log lines are the
  first component of the result.
\<close>

definition env_concurrency :: string where "env_concurrency = ''HEROS_PASSWORD_CONCURRENCY''"
definition env_max_wait :: string where "env_max_wait = ''HEROS_PASSWORD_MAX_WAIT''"

definition bad_concurrency :: "int \<Rightarrow> string \<Rightarrow> go_error" where
  "bad_concurrency procs raw =
     (Opaque, env_concurrency @ '' is '' @ fmt_q raw @ '', which is not a whole number. It is how many password hashes may '' @
        ''run at once; leave it unset to use '' @ itoa (default_concurrency procs) @ '', derived from this machine's CPU count'')"

definition low_concurrency :: "int \<Rightarrow> go_error" where
  "low_concurrency n =
     (Opaque, env_concurrency @ '' is '' @ itoa n @ ''. At zero or below, every sign-in, invitation and password reset '' @
        ''in this deployment would be refused as 'server busy' while the server sat idle'')"

definition high_concurrency :: "int \<Rightarrow> int \<Rightarrow> string" where
  "high_concurrency procs n =
     ''WARN auth.concurrency.above_cpu '' @ env_concurrency @ ''='' @ itoa n @ '' '' @ em_dash @ '' that is '' @ itoa (wrap64 (n * 64)) @
     '' MiB of argon2id live at once (resident memory settles well above that), and beyond '' @ itoa (default_concurrency procs) @
     '' it adds no hashes per second on a machine with '' @ itoa procs @
     '' CPUs. Set it lower unless you know the memory is there''"

definition configure_concurrency :: "int \<Rightarrow> (string \<Rightarrow> string) \<Rightarrow> pw_state \<Rightarrow> string list \<times> (go_error + pw_state)" where
  "configure_concurrency procs env st =
     (let raw = trim_space (env env_concurrency) in
      if raw = '''' then ([], Inr st)
      else (case atoi raw of
              None \<Rightarrow> ([], Inl (bad_concurrency procs raw))
            | Some n \<Rightarrow>
                if n < 1 then ([], Inl (low_concurrency n))
                else (let warned = (if n > default_concurrency procs * 2 then [high_concurrency procs n] else [])
                      in (warned @ [''auth: password concurrency set to '' @ itoa n @ '' by '' @ env_concurrency],
                          set_concurrency n st))))"

definition configure_max_wait ::
  "(string \<Rightarrow> duration option) \<Rightarrow> (string \<Rightarrow> string) \<Rightarrow> pw_state \<Rightarrow> string list \<times> (go_error + pw_state)" where
  "configure_max_wait parse_duration env st =
     (let raw = trim_space (env env_max_wait) in
      if raw = '''' then ([], Inr st)
      else (case parse_duration raw of
              None \<Rightarrow> ([], Inl (Opaque, env_max_wait @ '' is '' @ fmt_q raw @
                 '', which is not a duration. Write it with a unit '' @ em_dash @ '' 3s, 1500ms, 1m''))
            | Some d \<Rightarrow>
                if d \<le> 0 then ([], Inl (Opaque, env_max_wait @ '' is '' @ duration_string d @
                 ''. At zero or below, no request would ever wait for a free slot, so '' @
                 ''every password check beyond the first few would be refused as 'server busy'' @ [CHR 0x27]))
                else (let warned = (if d > 30 * 1000000000 then [''WARN auth.maxwait.long '' @ env_max_wait @ ''='' @ duration_string d @
                            '' '' @ em_dash @ '' under load that many requests will sit holding connections rather than being shed, which is its own way to run out of resources''] else [])
                      in (warned @ [''auth: password max wait set to '' @ duration_string d @ '' by '' @ env_max_wait],
                          set_max_wait d st))))"

definition configure_from_env ::
  "int \<Rightarrow> (string \<Rightarrow> duration option) \<Rightarrow> (string \<Rightarrow> string) \<Rightarrow> pw_state \<Rightarrow> string list \<times> (go_error + unit) \<times> pw_state" where
  "configure_from_env procs parse_duration env st =
     (case configure_concurrency procs env st of
        (out, Inl e) \<Rightarrow> (out, Inl e, st)
      | (out, Inr st1) \<Rightarrow>
          (case configure_max_wait parse_duration env st1 of
             (out2, Inl e) \<Rightarrow> (out @ out2, Inl e, st1)
           | (out2, Inr st2) \<Rightarrow> (out @ out2, Inr (), st2)))"

section \<open>Many callers\<close>

text \<open>
  Steps of all the goroutines together: a caller takes a turn or is shed, one that holds a turn gives
  it back, an operator swaps the gate.  The list is the turns held, by gate.
\<close>

inductive pw_step :: "int \<Rightarrow> pw_state \<times> nat list \<Rightarrow> pw_state \<times> nat list \<Rightarrow> bool" for procs where
  enter: "acquire procs moment st = Some (Inr g, st') \<Longrightarrow> pw_step procs (st, hs) (st', g # hs)"
| shed: "acquire procs moment st = Some (Inl e, st') \<Longrightarrow> pw_step procs (st, hs) (st', hs)"
| leave: "g \<in> set hs \<Longrightarrow> pw_step procs (st, hs) (release_turn g st, remove1 g hs)"
| swap: "set_concurrency n st = Inr st' \<Longrightarrow> pw_step procs (st, hs) (st', hs)"
| rewait: "set_max_wait d st = Inr st' \<Longrightarrow> pw_step procs (st, hs) (st', hs)"

inductive pw_reachable :: "int \<Rightarrow> pw_state \<times> nat list \<Rightarrow> bool" for procs where
  start: "pw_reachable procs (initial_pw, [])"
| step: "pw_reachable procs s \<Longrightarrow> pw_step procs s s' \<Longrightarrow> pw_reachable procs s'"

end
