(* ===== verification/Password_Props.thy ===== *)
theory Password_Props
  imports Password
begin

text \<open>
  What is proved of \<open>internal/auth/password.go\<close>: the encoded hash is read back as it was written, whatever the
  parameters in it; a password is accepted exactly when its key is the stored one; a busy server
  is never reported as a wrong password; and no schedule of callers holds more turns of a gate than it has.
\<close>

section \<open>Base64 and numbers are read back\<close>

lemma b64_bytes_small: "\<forall>x \<in> set xs. x < 256 \<Longrightarrow> \<forall>y \<in> set (b64_bytes xs). y < 64"
  by (induction xs rule: b64_bytes.induct) auto

lemma high_bits: "(b::nat) < 256 \<Longrightarrow> ((a mod 4) * 16 + b div 16) div 16 = a mod 4"
  by simp

lemma b64_groups_bytes: "\<forall>x \<in> set xs. x < 256 \<Longrightarrow> b64_groups (b64_bytes xs) = Some xs"
proof (induction xs rule: b64_bytes.induct)
  case (1 a b c xs)
  then have "a < 256" "b < 256" "c < 256" by auto
  moreover have "((a mod 4) * 16 + b div 16) div 16 = a mod 4" "((a mod 4) * 16 + b div 16) mod 16 = b div 16"
    "((b mod 16) * 4 + c div 64) div 4 = b mod 16" "((b mod 16) * 4 + c div 64) mod 4 = c div 64"
    using \<open>b < 256\<close> \<open>c < 256\<close> by (simp_all add: div_mult2_eq)
  ultimately show ?case using 1 by simp
qed (auto simp: div_mult2_eq)

lemma b64_chars:
  "list_all (\<lambda>n. b64_index (b64_char n) = Some n \<and> \<not> newline_char (b64_char n) \<and> b64_char n \<noteq> CHR ''$'') [0 ..< 64]"
  by code_simp

lemma b64_char_facts:
  assumes "n < 64"
  shows "b64_index (b64_char n) = Some n" "\<not> newline_char (b64_char n)" "b64_char n \<noteq> CHR ''$''"
  using b64_chars assms by (auto simp: list_all_iff)

lemma b64_encode_bytes: "\<forall>y \<in> set (b64_bytes (map of_char s)). y < 64"
  by (rule b64_bytes_small) auto

theorem b64_decode_encode: "b64_decode (b64_encode s) = Some s"
proof -
  let ?ys = "b64_bytes (map of_char s)"
  have f: "filter (\<lambda>c. \<not> newline_char c) (b64_encode s) = b64_encode s"
    using b64_encode_bytes[of s] by (auto simp: b64_encode_def b64_char_facts intro!: filter_True)
  have m: "map b64_index (b64_encode s) = map Some ?ys"
    using b64_encode_bytes[of s] by (auto simp: b64_encode_def b64_char_facts)
  have "b64_groups ?ys = Some (map of_char s)" by (rule b64_groups_bytes) auto
  then show ?thesis unfolding b64_decode_def Let_def f m by (auto simp: comp_def)
qed

lemma b64_encode_no_dollar: "CHR ''$'' \<notin> set (b64_encode s)"
  using b64_encode_bytes[of s] b64_char_facts(3) by (auto simp: b64_encode_def) metis

lemma is_digit_digit_char: "d < 10 \<Longrightarrow> is_digit (digit_char d)"
  by (simp add: is_digit_def digit_char_def)

lemma nat_digits_digits: "c \<in> set (nat_digits n) \<Longrightarrow> is_digit c"
  by (induction n rule: nat_digits.induct) (subst (asm) nat_digits.simps, auto simp: is_digit_digit_char split: if_splits)

lemma nat_digits_nonempty [simp]: "nat_digits n \<noteq> []"
  by (subst nat_digits.simps) simp

lemma digits_value_nat_digits: "digits_value (nat_digits n) = n"
proof (induction n rule: nat_digits.induct)
  case (1 n)
  show ?case
    by (subst nat_digits.simps) (use 1 in \<open>auto simp: digits_value_def digit_char_def\<close>)
qed

lemma digit_not_dollar: "is_digit c \<Longrightarrow> c \<noteq> CHR ''$''"
  by (auto simp: is_digit_def)

text \<open>A number followed by something that is not a digit is scanned as that number.\<close>

definition no_digit_first :: "string \<Rightarrow> bool" where
  "no_digit_first s \<longleftrightarrow> (case s of [] \<Rightarrow> True | c # _ \<Rightarrow> \<not> is_digit c)"

lemma takeWhile_digits:
  assumes "no_digit_first rest"
  shows "takeWhile is_digit (nat_digits n @ rest) = nat_digits n" "dropWhile is_digit (nat_digits n @ rest) = rest"
proof -
  have "takeWhile is_digit rest = []" "dropWhile is_digit rest = rest"
    using assms by (auto simp: no_digit_first_def split: list.splits)
  then show "takeWhile is_digit (nat_digits n @ rest) = nat_digits n" "dropWhile is_digit (nat_digits n @ rest) = rest"
    by (auto simp: takeWhile_append2 dropWhile_append2 nat_digits_digits)
qed

lemma rune_split_digit:
  assumes "is_digit c"
  shows "rune_split (c # s) = [c] # rune_split s"
proof -
  have "rune_width (c # s) = 1" using assms by (auto simp: is_digit_def Let_def)
  then show ?thesis by (subst rune_split.simps) simp
qed

lemma space_rune_digit: "is_digit c \<Longrightarrow> \<not> space_rune [c]"
  by (auto simp: is_digit_def space_rune_def space_runes_def)

lemma scan_skip_space_digit: "is_digit c \<Longrightarrow> scan_skip_space (c # s) = Some (c # s)"
  by (simp add: scan_skip_space_def rune_split_digit space_rune_digit Let_def)

lemma scan_skip_space_nat: "scan_skip_space (nat_digits n @ rest) = Some (nat_digits n @ rest)"
  using scan_skip_space_digit nat_digits_digits[of _ n]
  by (cases "nat_digits n") auto

lemma scan_digits_nat: "no_digit_first rest \<Longrightarrow> scan_digits (nat_digits n @ rest) = Some (n, rest)"
  by (simp add: scan_digits_def takeWhile_digits digits_value_nat_digits)

lemma scan_uint_nat:
  "no_digit_first rest \<Longrightarrow> n < 2 ^ w \<Longrightarrow> scan_uint w (nat_digits n @ rest) = Some (n, rest)"
  by (simp add: scan_uint_def scan_skip_space_nat scan_digits_nat)

section \<open>The encoded hash is read back\<close>

lemma split_char_append: "sep \<notin> set a \<Longrightarrow> split_char sep (a @ sep # b) = a # split_char sep b"
  by (induction a) auto

lemma split_char_last: "sep \<notin> set a \<Longrightarrow> split_char sep a = [a]"
  by (induction a) auto

definition params_text :: "nat \<Rightarrow> nat \<Rightarrow> nat \<Rightarrow> string" where
  "params_text m t p = ''m='' @ nat_digits m @ '',t='' @ nat_digits t @ '',p='' @ nat_digits p"

lemma params_text_no_dollar: "CHR ''$'' \<notin> set (params_text m t p)"
  using digit_not_dollar nat_digits_digits by (auto simp: params_text_def)

lemma scan_literal_append [simp]: "scan_literal lit (lit @ s) = Some s"
  by (simp add: scan_literal_def has_prefix_def)

lemma scan_params_text:
  assumes "m < 2 ^ 32" "t < 2 ^ 32" "p < 2 ^ 8"
  shows "scan_params (params_text m t p) = Some (m, t, p)"
proof -
  have m: "scan_uint 32 (nat_digits m @ '',t='' @ s) = Some (m, '',t='' @ s)" for s
    by (rule scan_uint_nat) (use assms in \<open>simp_all add: no_digit_first_def is_digit_def\<close>)
  have t: "scan_uint 32 (nat_digits t @ '',p='' @ s) = Some (t, '',p='' @ s)" for s
    by (rule scan_uint_nat) (use assms in \<open>simp_all add: no_digit_first_def is_digit_def\<close>)
  have p: "scan_uint 8 (nat_digits p) = Some (p, [])"
    using scan_uint_nat[of "[]" p 8] assms by (simp add: no_digit_first_def)
  show ?thesis
    unfolding scan_params_def params_text_def scan_literal_append option.case m t p prod.case by simp
qed

lemma split_encoded:
  "split_char (CHR ''$'') (encode_hash p salt key) =
     [[], ''argon2id'', ''v='' @ itoa argon2_version, params_text (p_memory p) (p_iterations p) (p_parallelism p),
      b64_encode salt, b64_encode key]"
proof -
  let ?d = "CHR ''$''"
  have e: "encode_hash p salt key =
      [] @ ?d # ''argon2id'' @ ?d # (''v='' @ itoa argon2_version) @ ?d #
      params_text (p_memory p) (p_iterations p) (p_parallelism p) @ ?d # b64_encode salt @ ?d # b64_encode key"
    by (simp add: encode_hash_def params_text_def)
  have v: "?d \<notin> set (''v='' @ itoa argon2_version)" by code_simp
  have a: "?d \<notin> set ''argon2id''" by simp
  have n: "?d \<notin> set []" by simp
  show ?thesis unfolding e
    unfolding split_char_append[OF n] split_char_append[OF a] split_char_append[OF v]
      split_char_append[OF params_text_no_dollar] split_char_append[OF b64_encode_no_dollar]
      split_char_last[OF b64_encode_no_dollar] ..
qed

lemma scan_version_text: "scan_version (''v='' @ itoa argon2_version) = Some argon2_version"
  by code_simp

lemma parse_encoded:
  assumes "p_memory p < 2 ^ 32" "p_iterations p < 2 ^ 32" "p_parallelism p < 2 ^ 8"
  shows "parse_hash (encode_hash p salt key) = Inr ((p_memory p, p_iterations p, p_parallelism p), salt, key)"
  unfolding parse_hash_def split_encoded Let_def
  by (simp add: scan_version_text scan_params_text[OF assms] b64_decode_encode del: append.simps)
lemma parse_default:
  "parse_hash (encode_hash default_params salt key) = Inr ((65536, 3, 2), salt, key)"
  using parse_encoded[of default_params] by (simp add: default_params_def)

section \<open>Accounts of a turn\<close>

named_theorems gate_defs \<open>the definitions of the gate\<close>

lemmas [gate_defs] = acquire_def gate_now_def install_gate_def new_gate_def set_held_def release_turn_def
  set_concurrency_def set_max_wait_def Let_def

lemma default_concurrency_ge: "2 \<le> default_concurrency procs"
  by (simp add: default_concurrency_def)

definition gates_ok :: "pw_state \<Rightarrow> nat list \<Rightarrow> bool" where
  "gates_ok st hs \<longleftrightarrow>
     (\<forall>g. current_gate st = Some g \<longrightarrow> g < length (gates st)) \<and>
     set hs \<subseteq> {..< length (gates st)} \<and> 0 < max_wait st \<and> length hs \<le> hashes_run st \<and>
     (\<forall>i < length (gates st). g_held (gates st ! i) = count_list hs i \<and> count_list hs i \<le> g_slots (gates st ! i) \<and>
        0 < g_slots (gates st ! i))"

lemma count_list_outside: "set (hs :: nat list) \<subseteq> {..< n} \<Longrightarrow> count_list hs n = 0"
  by (subst count_list_0_iff) auto

lemma gates_ok_install: "gates_ok st hs \<Longrightarrow> 1 \<le> n \<Longrightarrow> gates_ok (install_gate n st) hs"
  by (auto simp: gates_ok_def install_gate_def new_gate_def nth_append less_Suc_eq count_list_outside)

lemma gates_ok_now: "gates_ok st hs \<Longrightarrow> gate_now procs st = (g, st1) \<Longrightarrow> gates_ok st1 hs \<and> g < length (gates st1)"
  using gates_ok_install[of st hs "default_concurrency procs"] default_concurrency_ge[of procs]
  by (auto simp: gate_now_def install_gate_def gates_ok_def split: option.splits)

lemma gates_ok_enter:
  assumes "gates_ok st hs" "acquire procs moment st = Some (Inr g, st')"
  shows "gates_ok st' (g # hs)"
proof -
  obtain g1 st1 where n: "gate_now procs st = (g1, st1)" by fastforce
  have ok: "gates_ok st1 hs" "g1 < length (gates st1)" using gates_ok_now[OF assms(1) n] by auto
  from assms(2) n have e: "g1 = g" "g_held (gates st1 ! g) < g_slots (gates st1 ! g)"
    "st' = (set_held g (Suc (g_held (gates st1 ! g))) st1)\<lparr>hashes_run := Suc (hashes_run st1)\<rparr>"
    by (auto simp: acquire_def Let_def split: moment.splits if_splits)
  show ?thesis
    using ok e unfolding gates_ok_def set_held_def by (auto simp: nth_list_update)
qed

lemma gates_ok_shed:
  assumes "gates_ok st hs" "acquire procs moment st = Some (Inl e, st')"
  shows "gates_ok st' hs"
proof -
  obtain g1 st1 where n: "gate_now procs st = (g1, st1)" by fastforce
  with assms(2) have "st' = st1" by (auto simp: acquire_def Let_def split: moment.splits if_splits)
  then show ?thesis using gates_ok_now[OF assms(1) n] by simp
qed

lemma count_list_remove1: "count_list (remove1 x xs) y = (if x = y then count_list xs y - 1 else count_list xs y)"
proof (induction xs)
  case (Cons a xs)
  have "count_list xs a = 0" if "remove1 a xs = xs" "a \<notin> set xs" using that by (simp add: count_list_0_iff)
  with Cons show ?case by auto
qed simp

lemma gates_ok_release: "gates_ok st hs \<Longrightarrow> g \<in> set hs \<Longrightarrow> gates_ok (release_turn g st) (remove1 g hs)"
  unfolding gates_ok_def release_turn_def set_held_def
  by (auto simp: nth_list_update count_list_remove1 length_remove1 dest: set_remove1_subset[THEN subsetD])

lemma gates_ok_reachable: "pw_reachable procs s \<Longrightarrow> gates_ok (fst s) (snd s)"
proof (induction rule: pw_reachable.induct)
  case start
  show ?case by (simp add: gates_ok_def initial_pw_def)
next
  case (step s s')
  from step(2) step(3) show ?case
    by (cases rule: pw_step.cases)
      (auto intro: gates_ok_enter gates_ok_shed gates_ok_release gates_ok_install
        simp: set_concurrency_def set_max_wait_def split: if_splits, auto simp: gates_ok_def)
qed

section \<open>Properties\<close>

text \<open>Whatever the cost parameters encoded into a stored hash (within the widths of the fields), and whatever
  the salt and the key, \<open>VerifyPassword\<close> reads back exactly the parameters, the salt and the key that
  were written: raising the defaults later does not invalidate a hash already stored.\<close>

theorem hash_read_back:
  assumes "p_memory p < 2 ^ 32" "p_iterations p < 2 ^ 32" "p_parallelism p < 2 ^ 8"
  shows "parse_hash (encode_hash p salt key) = Inr ((p_memory p, p_iterations p, p_parallelism p), salt, key)"
  using parse_encoded[OF assms] .

theorem hash_read_back_witness:
  "parse_hash (encode_hash \<lparr>p_memory = 19456, p_iterations = 2, p_parallelism = 1, p_salt_length = 1, p_key_length = 2\<rparr>
      ''s'' ''ke'') = Inr ((19456, 2, 1), ''s'', ''ke'')"
  using hash_read_back[of "\<lparr>p_memory = 19456, p_iterations = 2, p_parallelism = 1, p_salt_length = 1, p_key_length = 2\<rparr>" "''s''" "''ke''"]
  by simp

text \<open>C22. A hash that \<open>HashPassword\<close> returned is accepted by \<open>VerifyPassword\<close> for a password exactly when argon2id
  derives the same key from that password and the same salt, in particular for the password itself; otherwise the
  answer is \<open>ErrWrongPassword\<close> (or argon2's own panic), at any later state of the gate at which a slot comes free.\<close>

theorem password_roundtrip:
  assumes key_length: "\<And>pw s k. idkey pw s 3 65536 2 32 = Inr k \<Longrightarrow> length k = 32"
    and hashed: "hash_password procs idkey rand moment pw st = Some (Inr h, st')"
    and checked: "verify_password procs' idkey Slot_free pw' h st2 = Some (r, st3)"
  shows "\<exists>salt key. rand = Inr salt \<and> idkey pw salt 3 65536 2 32 = Inr key \<and>
     r = (case idkey pw' salt 3 65536 2 32 of Inl e \<Rightarrow> Inl e
          | Inr key' \<Rightarrow> if key' = key then Inr () else Inl (ErrWrongPassword, ''auth: password does not match''))"
proof -
  from hashed have "hash_key idkey rand pw = Inr h"
    by (auto simp: hash_password_def split: if_splits option.splits sum.splits)
  then obtain salt key where k: "rand = Inr salt" "idkey pw salt 3 65536 2 32 = Inr key" "h = encode_hash default_params salt key"
    by (auto simp: hash_key_def default_params_def Let_def split: sum.splits)
  have "r = check_key idkey pw' (65536, 3, 2) salt key"
    using checked by (auto simp: k verify_password_def parse_default acquire_def Let_def split: prod.splits if_splits)
  with key_length[OF k(2)] k show ?thesis by (auto simp: check_key_def)
qed


section \<open>Witnesses\<close>

definition toy_key :: idkey_fn where
  "toy_key pw s t m p n = Inr (take n (pw @ s @ replicate n CHR ''0''))"

definition toy_hash :: string where
  "toy_hash = encode_hash default_params ''salt'' (''correct horse'' @ ''salt'' @ replicate 15 CHR ''0'')"

lemma toy_acquire: "acquire 8 Slot_free initial_pw =
   Some (Inr 0, \<lparr>gates = [\<lparr>g_slots = 4, g_held = 1\<rparr>], current_gate = Some 0, max_wait = 3000000000, hashes_run = 1\<rparr>)"
  by (simp add: gate_defs initial_pw_def default_concurrency_def default_params_def)

lemma toy_hashed: "\<exists>st. hash_password 8 toy_key (Inr ''salt'') Slot_free ''correct horse'' initial_pw = Some (Inr toy_hash, st)"
proof -
  have "rune_count ''correct horse'' = 13" by code_simp
  moreover have "hash_key toy_key (Inr ''salt'') ''correct horse'' = Inr toy_hash"
    by (simp add: hash_key_def toy_key_def toy_hash_def default_params_def Let_def)
  ultimately show ?thesis by (simp add: hash_password_def min_password_length_def toy_acquire)
qed

lemma toy_checked:
  "\<exists>st. verify_password 8 toy_key Slot_free ''wrong horse'' toy_hash initial_pw =
     Some (Inl (ErrWrongPassword, ''auth: password does not match''), st)"
  by (simp add: verify_password_def toy_hash_def parse_default toy_acquire check_key_def toy_key_def)

theorem password_roundtrip_witness:
  "\<exists>r st. verify_password 8 toy_key Slot_free ''wrong horse'' toy_hash initial_pw = Some (r, st) \<and>
     (\<exists>salt key. Inr ''salt'' = (Inr salt :: string + string) \<and> toy_key ''correct horse'' salt 3 65536 2 32 = Inr key \<and>
       r = (case toy_key ''wrong horse'' salt 3 65536 2 32 of Inl e \<Rightarrow> Inl e
          | Inr key' \<Rightarrow> if key' = key then Inr () else Inl (ErrWrongPassword, ''auth: password does not match'')))"
proof -
  obtain st where h: "hash_password 8 toy_key (Inr ''salt'') Slot_free ''correct horse'' initial_pw = Some (Inr toy_hash, st)"
    using toy_hashed by blast
  obtain st3 where v: "verify_password 8 toy_key Slot_free ''wrong horse'' toy_hash initial_pw =
     Some (Inl (ErrWrongPassword, ''auth: password does not match''), st3)" using toy_checked by blast
  have l: "\<And>pw s k. toy_key pw s 3 65536 2 32 = Inr k \<Longrightarrow> length k = 32" by (auto simp: toy_key_def)
  show ?thesis
    by (rule exI, rule exI, rule conjI[OF v], rule password_roundtrip[where idkey = toy_key, OF l h v])
qed


section \<open>Shedding\<close>

text \<open>Overload is never reported as a wrong password: a caller that is shed gets \<open>ErrBusy\<close>, and no hash was run.\<close>

lemma shed_is_busy:
  "verify_password procs idkey moment pw h st = Some (Inl e, st') \<Longrightarrow> moment \<noteq> Slot_free \<Longrightarrow>
      parse_hash h = Inr x \<Longrightarrow> errors_is e ErrBusy \<and> hashes_run st' = hashes_run st"
  by (auto simp: verify_password_def gate_defs busy_def split: option.splits prod.splits moment.splits sum.splits)

end
