(* ===== verification/Store_PG.thy ===== *)
theory Store_PG
  imports Store Sql "HOL-Library.Product_Lexorder"
begin

text \<open>
  Package \<open>internal/store\<close>, the durable store: \<open>postgres.go\<close> and its view bound to one tenant, \<open>scoped_pg.go\<close>, on the
  tables \<open>goals\<close>, \<open>tasks\<close> and \<open>checkpoints\<close> of the migrations \<open>0001\<close>, \<open>0003\<close> and \<open>0004\<close>.

  A statement is one atomic step on the tables and may fail (\<open>faults\<close>, numbered as the code runs them); what a
  driver refuses beyond the constraints written out here (a text with a NUL byte, an \<open>INTEGER\<close> column out of range) is such a
  fault.  A \<open>JSONB\<close> column holds the value that was marshalled into it.  A nullable time is the zero time where the code
  reads it so (\<open>last_checkpoint\<close>), and an option where SQL compares it (\<open>lease_expiry\<close>).
\<close>

section \<open>Tables\<close>

record task_row =
  r_task :: task
  r_expiry :: "time option"

record store_db =
  goal_rows :: "goal list"
  task_rows :: "task_row list"
  checkpoint_rows :: "checkpoint list"

definition unix_epoch :: time where "unix_epoch = 62135596800 * 1000000000"

definition nz_epoch :: "time \<Rightarrow> time" where
  "nz_epoch t = (if t = zero_time then unix_epoch else t)"

definition null_time :: "pg_env \<Rightarrow> time \<Rightarrow> time" where
  "null_time P t = (if t = zero_time then zero_time else pe_keep P t)"

text \<open>An \<open>UPDATE tasks SET ... WHERE ...\<close>, with \<open>RowsAffected\<close>.\<close>

definition update_where :: "(task_row \<Rightarrow> bool) \<Rightarrow> (task_row \<Rightarrow> task_row) \<Rightarrow> store_db \<Rightarrow> nat \<times> store_db" where
  "update_where Q h d =
     (length (filter Q (task_rows d)), d\<lparr>task_rows := map (\<lambda>r. if Q r then h r else r) (task_rows d)\<rparr>)"

definition is_task :: "string \<Rightarrow> task_id \<Rightarrow> task_row \<Rightarrow> bool" where
  "is_task gid i r \<longleftrightarrow> t_goal (r_task r) = gid \<and> t_id (r_task r) = i"

text \<open>What \<open>Scan\<close> makes of a row: a \<open>NULL\<close> expiry is the zero time.\<close>

definition scan_task :: "task_row \<Rightarrow> task" where
  "scan_task r = (r_task r)\<lparr>lease_expiry := (case r_expiry r of None \<Rightarrow> zero_time | Some e \<Rightarrow> e)\<rparr>"

section \<open>Goals\<close>

definition goal_row_of :: "string \<Rightarrow> store_db \<Rightarrow> goal option" where
  "goal_row_of gid d = List.find (\<lambda>g. g_id g = gid) (goal_rows d)"

definition goal_row :: "pg_env \<Rightarrow> goal \<Rightarrow> goal" where
  "goal_row P g = g\<lparr>g_created := pe_keep P (nz_epoch (g_created g)), g_updated := pe_keep P (nz_epoch (g_updated g)),
     g_last_checkpoint := null_time P (g_last_checkpoint g)\<rparr>"

definition refusal_has_cause :: "goal \<Rightarrow> bool" where
  "refusal_has_cause g \<longleftrightarrow> g_state g \<noteq> GoalRefused \<or> g_refusal g \<noteq> None"

definition insert_goal :: "pg_env \<Rightarrow> goal \<Rightarrow> store_db \<Rightarrow> string + store_db" where
  "insert_goal P g d =
     (if \<not> refusal_has_cause g then Inl (check_failed ''goals_refusal_has_cause'')
      else if goal_row_of (g_id g) d \<noteq> None then Inl (duplicate_key ''goals_pkey'')
      else Inr (d\<lparr>goal_rows := goal_rows d @ [goal_row P g]\<rparr>))"

definition pg_create_goal :: "pg_env \<Rightarrow> faults \<Rightarrow> goal \<Rightarrow> store_db \<Rightarrow> (go_error + unit) \<times> store_db" where
  "pg_create_goal P f g d =
     (case stmt f 0 (insert_goal P g d) of
        Inl msg \<Rightarrow> (Inl (wrapped (''store: create goal '' @ fmt_q (g_id g)) msg), d)
      | Inr d' \<Rightarrow> (Inr (), d'))"

text \<open>\<open>QueryRow\<close> on the goals: no row is \<open>ErrGoalNotFound\<close>, another error is returned as it is.\<close>

definition one_goal :: "faults \<Rightarrow> string \<Rightarrow> goal option \<Rightarrow> go_error + goal" where
  "one_goal f gid r =
     (case stmt f 0 (Inr r) of
        Inl msg \<Rightarrow> Inl (Opaque, msg) | Inr None \<Rightarrow> Inl (goal_not_found gid) | Inr (Some g) \<Rightarrow> Inr g)"

definition pg_load_goal :: "faults \<Rightarrow> string \<Rightarrow> store_db \<Rightarrow> go_error + goal" where
  "pg_load_goal f gid d = one_goal f gid (goal_row_of gid d)"

text \<open>The update writes every column but \<open>id\<close> and \<open>created_at\<close>.\<close>

definition update_goal :: "pg_env \<Rightarrow> goal \<Rightarrow> store_db \<Rightarrow> string + nat \<times> store_db" where
  "update_goal P g d =
     (if goal_row_of (g_id g) d \<noteq> None \<and> \<not> refusal_has_cause g then Inl (check_failed ''goals_refusal_has_cause'')
      else Inr (length (filter (\<lambda>x. g_id x = g_id g) (goal_rows d)),
                d\<lparr>goal_rows := map (\<lambda>x. if g_id x = g_id g then (goal_row P g)\<lparr>g_created := g_created x\<rparr> else x) (goal_rows d)\<rparr>))"

definition pg_save_goal :: "pg_env \<Rightarrow> faults \<Rightarrow> goal \<Rightarrow> store_db \<Rightarrow> (go_error + unit) \<times> store_db" where
  "pg_save_goal P f g d =
     (let words = ''store: save goal '' @ fmt_q (g_id g) in
      transaction f 0 3 (wrapped words) (wrapped words)
        (\<lambda>d. sql words (stmt f 1 (Inr (goal_row_of (g_id g) d))) (\<lambda>current.
           case current of None \<Rightarrow> Inl (goal_not_found (g_id g))
           | Some cur \<Rightarrow>
               (case refuse_terminal_overwrite (g_state cur) g of Inl e \<Rightarrow> Inl e
                | Inr _ \<Rightarrow> sql words (stmt f 2 (update_goal P g d))
                    (\<lambda>(n, d'). if n = 0 then Inl (goal_not_found (g_id g)) else Inr ((), d'))))) d)"

definition pg_list_goals :: "pg_env \<Rightarrow> faults \<Rightarrow> goal_state option \<Rightarrow> store_db \<Rightarrow> go_error + goal list" where
  "pg_list_goals P f st d =
     sql ''store: list goals''
       (stmt f 0 (Inr (sort_key (\<lambda>g. pe_collate P (g_id g)) (filter (\<lambda>g. st = None \<or> st = Some (g_state g)) (goal_rows d)))))
       (rows_err f 1)"

text \<open>\<open>ORDER BY created_at DESC, id DESC LIMIT 1\<close>; an empty tenant is every tenant.\<close>

definition newest :: "pg_env \<Rightarrow> goal list \<Rightarrow> goal option" where
  "newest P gs = (case rev (sort_key (\<lambda>g. (g_created g, pe_collate P (g_id g))) gs) of [] \<Rightarrow> None | g # _ \<Rightarrow> Some g)"

definition pg_latest_goal :: "pg_env \<Rightarrow> faults \<Rightarrow> string \<Rightarrow> store_db \<Rightarrow> go_error + goal option" where
  "pg_latest_goal P f tenant d =
     sql ''store: latest goal''
       (stmt f 0 (Inr (newest P (filter (\<lambda>g. tenant = '''' \<or> g_tenant g = tenant) (goal_rows d))))) Inr"

section \<open>Graphs\<close>

definition new_task_row :: "pg_env \<Rightarrow> string \<Rightarrow> task \<Rightarrow> task_row" where
  "new_task_row P gid t =
     \<lparr>r_task = t\<lparr>t_goal := gid, approved := False, leased_by := '''', lease_expiry := zero_time,
        t_created := pe_keep P (nz_epoch (t_created t)), t_updated := pe_keep P (nz_epoch (t_updated t))\<rparr>,
      r_expiry = None\<rparr>"

text \<open>\<open>INSERT ... ON CONFLICT (goal_id, id) DO UPDATE\<close>: an existing row keeps everything but its structure.\<close>

definition restructured :: "pg_env \<Rightarrow> task \<Rightarrow> task_row \<Rightarrow> task_row" where
  "restructured P t r = r\<lparr>r_task := (r_task r)\<lparr>t_kind := t_kind t, depends_on := depends_on t, contributes := contributes t,
     t_updated := pe_keep P (nz_epoch (t_updated t))\<rparr>\<rparr>"

definition upsert_task :: "pg_env \<Rightarrow> string \<Rightarrow> task \<Rightarrow> store_db \<Rightarrow> string + store_db" where
  "upsert_task P gid t d =
     (if \<exists>r \<in> set (task_rows d). is_task gid (t_id t) r
      then Inr (snd (update_where (is_task gid (t_id t)) (restructured P t) d))
      else if idempotency_key t \<noteq> '''' \<and>
              (\<exists>r \<in> set (task_rows d). t_goal (r_task r) = gid \<and> idempotency_key (r_task r) = idempotency_key t)
      then Inl (duplicate_key ''tasks_idempotency'')
      else if goal_row_of gid d = None then Inl (foreign_key_failed ''tasks_goal_id_fkey'')
      else Inr (d\<lparr>task_rows := task_rows d @ [new_task_row P gid t]\<rparr>))"

fun upsert_tasks :: "pg_env \<Rightarrow> faults \<Rightarrow> nat \<Rightarrow> string \<Rightarrow> task list \<Rightarrow> store_db \<Rightarrow> go_error + store_db" where
  "upsert_tasks P f k gid [] d = Inr d"
| "upsert_tasks P f k gid (t # ts) d =
     (case require_idempotency t of Inl e \<Rightarrow> Inl e
      | Inr _ \<Rightarrow>
          sql (''store: save task '' @ fmt_q (t_id t)) (stmt f k (upsert_task P gid t d)) (upsert_tasks P f (Suc k) gid ts))"

text \<open>The tasks of the Go map in the order of the list.  The commit error is returned as it is.\<close>

definition pg_save_dag :: "pg_env \<Rightarrow> faults \<Rightarrow> dag \<Rightarrow> store_db \<Rightarrow> (go_error + unit) \<times> store_db" where
  "pg_save_dag P f g d =
     transaction f 0 (Suc (length (dag_tasks g))) (wrapped ''store: save dag'') (Pair Opaque)
       (\<lambda>d. map_sum id (Pair ()) (upsert_tasks P f 1 (dag_goal g) (map snd (dag_tasks g)) d)) d"

definition rows_of_dag :: "string \<Rightarrow> store_db \<Rightarrow> task_row list" where
  "rows_of_dag gid d = filter (\<lambda>r. t_goal (r_task r) = gid) (task_rows d)"

definition pg_load_dag :: "pg_env \<Rightarrow> faults \<Rightarrow> string \<Rightarrow> store_db \<Rightarrow> go_error + dag" where
  "pg_load_dag P f gid d =
     sql ''store: load dag''
       (stmt f 0 (Inr (map scan_task (sort_key (\<lambda>r. pe_collate P (t_id (r_task r))) (rows_of_dag gid d)))))
       (\<lambda>ts. case rows_err f 1 ts of Inl e \<Rightarrow> Inl e
          | Inr ts \<Rightarrow> if length ts = 0 then Inl (no_dag gid) else new_dag gid ts)"

section \<open>Leases\<close>

text \<open>The rows a \<open>JOIN\<close> of the dependencies finds: an id without a row is not among them.\<close>

definition joined :: "string \<Rightarrow> task_id list \<Rightarrow> store_db \<Rightarrow> task list" where
  "joined gid deps d = map r_task (filter (\<lambda>r. t_id (r_task r) \<in> set deps) (rows_of_dag gid d))"

definition row_claimable :: "string \<Rightarrow> time \<Rightarrow> store_db \<Rightarrow> task_row \<Rightarrow> bool" where
  "row_claimable gid now d r \<longleftrightarrow>
     (let t = r_task r; s = t_state t in
      (s = Pending \<or> s = Ready \<or>
        s = Running \<and> (case r_expiry r of None \<Rightarrow> True | Some e \<Rightarrow> \<not> after_time e now)) \<and>
      list_all (\<lambda>x. t_state x = Succeeded) (joined gid (depends_on t) d) \<and>
      list_all (\<lambda>x. terminal (t_state x)) (joined gid (contributes t) d))"

definition lease_row :: "string \<Rightarrow> time \<Rightarrow> time \<Rightarrow> task_row \<Rightarrow> task_row" where
  "lease_row worker until now r =
     r\<lparr>r_task := (r_task r)\<lparr>t_state := Running, leased_by := worker, attempt := attempt (r_task r) + 1, t_updated := now\<rparr>,
       r_expiry := Some until\<rparr>"

text \<open>
  The one statement of \<open>Claim\<close>.  \<open>locked\<close> are the rows other transactions hold at this moment, which
  \<open>FOR UPDATE OF t SKIP LOCKED\<close> passes over.
\<close>

definition claim_statement :: "pg_env \<Rightarrow> (task_id \<Rightarrow> bool) \<Rightarrow> string \<Rightarrow> string \<Rightarrow> time \<Rightarrow> time \<Rightarrow> store_db \<Rightarrow>
    string + task option \<times> store_db" where
  "claim_statement P locked gid worker until now d =
     (if (case goal_row_of gid d of None \<Rightarrow> True | Some g \<Rightarrow> g_state g \<noteq> GoalRunning) then Inr (None, d)
      else (case sort_key (\<lambda>r. pe_collate P (t_id (r_task r)))
                   (filter (\<lambda>r. row_claimable gid now d r \<and> \<not> locked (t_id (r_task r))) (rows_of_dag gid d)) of
              [] \<Rightarrow> Inr (None, d)
            | r # _ \<Rightarrow>
                if worker = '''' then Inl (check_failed ''tasks_lease_is_whole'')
                else Inr (Some (scan_task (lease_row worker until now r)),
                          snd (update_where (is_task gid (t_id (r_task r))) (lease_row worker until now) d))))"

definition pg_claim :: "pg_env \<Rightarrow> faults \<Rightarrow> (task_id \<Rightarrow> bool) \<Rightarrow> string \<Rightarrow> string \<Rightarrow> duration \<Rightarrow> time \<Rightarrow> store_db \<Rightarrow>
    (go_error + task) \<times> store_db" where
  "pg_claim P f locked gid worker lease now d =
     (case stmt f 0 (claim_statement P locked gid worker (pe_keep P (now + lease)) (pe_keep P now) d) of
        Inl msg \<Rightarrow> (Inl (wrapped ''store: claim'' msg), d)
      | Inr (None, d') \<Rightarrow> (Inl (ErrNoWork, ''store: no claimable task''), d')
      | Inr (Some t, d') \<Rightarrow> (Inr t, d'))"

text \<open>\<open>heldClause\<close>: \<open>leased_by = $3 AND lease_expiry > $4\<close>, which no \<open>NULL\<close> expiry meets.\<close>

definition held_clause :: "string \<Rightarrow> task_id \<Rightarrow> string \<Rightarrow> time \<Rightarrow> task_row \<Rightarrow> bool" where
  "held_clause gid i worker now r \<longleftrightarrow> is_task gid i r \<and> leased_by (r_task r) = worker \<and>
     (case r_expiry r of None \<Rightarrow> False | Some e \<Rightarrow> after_time e now)"

definition affected_or_lease_lost :: "string \<Rightarrow> task_id \<Rightarrow> string + nat \<times> store_db \<Rightarrow> store_db \<Rightarrow> (go_error + unit) \<times> store_db" where
  "affected_or_lease_lost op i res d =
     (case res of
        Inl msg \<Rightarrow> (Inl (wrapped (''store: '' @ op @ '' '' @ fmt_q i) msg), d)
      | Inr (n, d') \<Rightarrow>
          if n = 0 then (Inl (ErrLeaseLost, ''store: lease is no longer held by this worker: '' @ fmt_q i @
                                '' (lease expired or held by another worker)''), d')
          else (Inr (), d'))"

definition renew_row :: "time \<Rightarrow> time \<Rightarrow> task_row \<Rightarrow> task_row" where
  "renew_row until now r = r\<lparr>r_task := (r_task r)\<lparr>t_updated := now\<rparr>, r_expiry := Some until\<rparr>"

definition pg_renew :: "pg_env \<Rightarrow> faults \<Rightarrow> string \<Rightarrow> task_id \<Rightarrow> string \<Rightarrow> duration \<Rightarrow> time \<Rightarrow> store_db \<Rightarrow> (go_error + unit) \<times> store_db" where
  "pg_renew P f gid i worker lease now d =
     affected_or_lease_lost ''renew'' i
       (stmt f 0 (Inr (update_where (held_clause gid i worker (pe_keep P now)) (renew_row (pe_keep P (now + lease)) (pe_keep P now)) d))) d"

text \<open>One pass of \<open>propagateFailure\<close>, every row judged on the table as the statement found it, and the loop over passes.\<close>

definition doomed_row :: "string \<Rightarrow> store_db \<Rightarrow> task_row \<Rightarrow> bool" where
  "doomed_row gid d r \<longleftrightarrow> t_goal (r_task r) = gid \<and> \<not> terminal (t_state (r_task r)) \<and>
     list_ex (\<lambda>x. failed_dep (t_state x)) (joined gid (depends_on (r_task r)) d)"

definition block_row :: "time \<Rightarrow> task_row \<Rightarrow> task_row" where
  "block_row now r = r\<lparr>r_task := (r_task r)\<lparr>t_state := Blocked, t_updated := now,
     t_failure := ''a dependency failed, was blocked, or was cancelled''\<rparr>\<rparr>"

definition block_statement :: "string \<Rightarrow> time \<Rightarrow> store_db \<Rightarrow> nat \<times> store_db" where
  "block_statement gid now d = update_where (doomed_row gid d) (block_row now) d"

definition open_rows :: "store_db \<Rightarrow> nat" where
  "open_rows d = length (filter (\<lambda>r. \<not> terminal (t_state (r_task r))) (task_rows d))"

lemma block_map_count:
  assumes "\<And>r. Q r \<Longrightarrow> \<not> terminal (t_state (r_task r))"
  shows "length (filter (\<lambda>r. \<not> terminal (t_state (r_task r))) rs) =
     length (filter Q rs) + length (filter (\<lambda>r. \<not> terminal (t_state (r_task r))) (map (\<lambda>r. if Q r then block_row now r else r) rs))"
  using assms by (induction rs) (auto simp: block_row_def)

lemma block_statement_count:
  "block_statement gid now d = (n, d') \<Longrightarrow> open_rows d = n + open_rows d'"
proof -
  have "\<not> terminal (t_state (r_task r))" if "doomed_row gid d r" for r using that by (simp add: doomed_row_def)
  note count = block_map_count [OF this, of _ "task_rows d" now]
  assume "block_statement gid now d = (n, d')"
  then show ?thesis using count by (auto simp: block_statement_def update_where_def open_rows_def simp del: filter_map)
qed

function pg_propagate :: "faults \<Rightarrow> nat \<Rightarrow> string \<Rightarrow> time \<Rightarrow> store_db \<Rightarrow> (go_error + unit) \<times> store_db" where
  "pg_propagate f k gid now d =
     (case stmt f k (Inr (block_statement gid now d)) of
        Inl msg \<Rightarrow> (Inl (wrapped ''store: propagate failure'' msg), d)
      | Inr (n, d') \<Rightarrow> if n = 0 then (Inr (), d') else pg_propagate f (Suc k) gid now d')"
  by pat_completeness auto
termination
  by (relation "measure (\<lambda>(f, k, gid, now, d). open_rows d)")
     (auto simp: stmt_def dest: block_statement_count split: option.splits)

declare pg_propagate.simps [simp del]

definition complete_row :: "task_state \<Rightarrow> string \<Rightarrow> string \<Rightarrow> time \<Rightarrow> task_row \<Rightarrow> task_row" where
  "complete_row next result failure now r =
     r\<lparr>r_task := (r_task r)\<lparr>t_state := next, t_result := result, t_failure := failure, leased_by := '''', t_updated := now\<rparr>,
       r_expiry := None\<rparr>"

text \<open>The update and the propagation are separate statements outside any transaction.\<close>

definition pg_complete :: "pg_env \<Rightarrow> faults \<Rightarrow> string \<Rightarrow> task_id \<Rightarrow> string \<Rightarrow> task_state \<Rightarrow> string \<Rightarrow> string \<Rightarrow> time \<Rightarrow> store_db \<Rightarrow>
    (go_error + unit) \<times> store_db" where
  "pg_complete P f gid i worker next result failure now d =
     (case affected_or_lease_lost ''complete'' i
             (stmt f 0 (Inr (update_where (held_clause gid i worker (pe_keep P now))
                               (complete_row next result failure (pe_keep P now)) d))) d of
        (Inl e, d') \<Rightarrow> (Inl e, d')
      | (Inr _, d') \<Rightarrow> if next = Failed then pg_propagate f 1 gid (pe_keep P now) d' else (Inr (), d'))"

definition release_row :: "time \<Rightarrow> task_row \<Rightarrow> task_row" where
  "release_row now r =
     r\<lparr>r_task := (r_task r)\<lparr>t_state := Ready, leased_by := '''', t_updated := now\<rparr>, r_expiry := None\<rparr>"

definition pg_release :: "pg_env \<Rightarrow> faults \<Rightarrow> string \<Rightarrow> task_id \<Rightarrow> string \<Rightarrow> time \<Rightarrow> store_db \<Rightarrow> (go_error + unit) \<times> store_db" where
  "pg_release P f gid i worker now d =
     affected_or_lease_lost ''release'' i
       (stmt f 0 (Inr (update_where (held_clause gid i worker (pe_keep P now)) (release_row (pe_keep P now)) d))) d"

section \<open>Decisions and cancellation\<close>

definition decide_row :: "bool \<Rightarrow> time \<Rightarrow> task_row \<Rightarrow> task_row" where
  "decide_row approve now r =
     r\<lparr>r_task := (r_task r)\<lparr>t_state := (if approve then Ready else Cancelled), t_failure := (if approve then '''' else ''declined''),
        approved := approve, t_updated := now\<rparr>\<rparr>"

definition pg_decide :: "pg_env \<Rightarrow> faults \<Rightarrow> string \<Rightarrow> task_id \<Rightarrow> bool \<Rightarrow> time \<Rightarrow> store_db \<Rightarrow> (go_error + unit) \<times> store_db" where
  "pg_decide P f gid i approve now d =
     (case stmt f 0 (Inr (update_where (\<lambda>r. is_task gid i r \<and> t_state (r_task r) = AwaitingApproval)
             (decide_row approve (pe_keep P now)) d)) of
        Inl msg \<Rightarrow> (Inl (wrapped (''store: decide '' @ fmt_q i) msg), d)
      | Inr (n, d') \<Rightarrow>
          if n = 0 then (Inl (ErrNotClaimable, ''store: task is not claimable: '' @ fmt_q i @ '' is not awaiting approval''), d')
          else if \<not> approve then pg_propagate f 1 gid (pe_keep P now) d'
          else (Inr (), d'))"

text \<open>\<open>NOT (leased_by IS NOT NULL AND leased_by <> '' AND lease_expiry IS NOT NULL AND lease_expiry > $2)\<close> and not terminal.\<close>

definition row_cancellable :: "string \<Rightarrow> time \<Rightarrow> task_row \<Rightarrow> bool" where
  "row_cancellable gid now r \<longleftrightarrow> t_goal (r_task r) = gid \<and> \<not> terminal (t_state (r_task r)) \<and>
     \<not> (leased_by (r_task r) \<noteq> '''' \<and> (case r_expiry r of None \<Rightarrow> False | Some e \<Rightarrow> after_time e now))"

definition cancel_row :: "time \<Rightarrow> task_row \<Rightarrow> task_row" where
  "cancel_row now r = r\<lparr>r_task := (r_task r)\<lparr>t_state := Cancelled, t_updated := now\<rparr>\<rparr>"

text \<open>The new state and time are written by \<open>Goal.Cancel\<close> into a goal that has only its state.\<close>

definition set_goal_state :: "string \<Rightarrow> goal_state \<Rightarrow> time \<Rightarrow> store_db \<Rightarrow> store_db" where
  "set_goal_state gid st now d =
     d\<lparr>goal_rows := map (\<lambda>g. if g_id g = gid then g\<lparr>g_state := st, g_updated := now\<rparr> else g) (goal_rows d)\<rparr>"

definition pg_cancel :: "pg_env \<Rightarrow> faults \<Rightarrow> string \<Rightarrow> time \<Rightarrow> store_db \<Rightarrow> (go_error + int) \<times> store_db" where
  "pg_cancel P f gid now d =
     (let words = ''store: cancel '' @ fmt_q gid in
      transaction f 0 4 (wrapped words) (wrapped words)
        (\<lambda>d. sql words (stmt f 1 (Inr (goal_row_of gid d))) (\<lambda>current.
           case current of None \<Rightarrow> Inl (goal_not_found gid)
           | Some g \<Rightarrow>
               (case cancel_goal g now of Inl e \<Rightarrow> Inl e
                | Inr g' \<Rightarrow>
                    sql words (stmt f 2 (Inr (set_goal_state gid (g_state g') (pe_keep P now) d))) (\<lambda>d1.
                    sql words (stmt f 3 (Inr (update_where (row_cancellable gid (pe_keep P now)) (cancel_row (pe_keep P now)) d1)))
                      (\<lambda>(n, d2). Inr (int n, d2)))))) d)"

section \<open>Checkpoints\<close>

text \<open>\<open>INSERT ... ON CONFLICT (goal_id, iteration) DO UPDATE\<close>; the spend of a checkpoint is not stored.\<close>

definition upsert_checkpoint :: "pg_env \<Rightarrow> checkpoint \<Rightarrow> store_db \<Rightarrow> string + store_db" where
  "upsert_checkpoint P cp d =
     (let row = cp\<lparr>cp_spend := '''', cp_at := pe_keep P (nz_epoch (cp_at cp))\<rparr>;
          same = (\<lambda>c. cp_goal c = cp_goal cp \<and> cp_iteration c = cp_iteration cp)
      in if \<exists>c \<in> set (checkpoint_rows d). same c
         then Inr (d\<lparr>checkpoint_rows := map (\<lambda>c. if same c then row else c) (checkpoint_rows d)\<rparr>)
         else if goal_row_of (cp_goal cp) d = None then Inl (foreign_key_failed ''checkpoints_goal_id_fkey'')
         else Inr (d\<lparr>checkpoint_rows := checkpoint_rows d @ [row]\<rparr>))"

definition pg_checkpoint :: "pg_env \<Rightarrow> faults \<Rightarrow> checkpoint \<Rightarrow> store_db \<Rightarrow> (go_error + unit) \<times> store_db" where
  "pg_checkpoint P f cp d =
     (case stmt f 0 (upsert_checkpoint P cp d) of
        Inl msg \<Rightarrow> (Inl (wrapped ''store: checkpoint'' msg), d)
      | Inr d' \<Rightarrow> (Inr (), d'))"

definition pg_latest_checkpoint :: "faults \<Rightarrow> string \<Rightarrow> store_db \<Rightarrow> go_error + checkpoint option" where
  "pg_latest_checkpoint f gid d =
     sql ''store: latest checkpoint''
       (stmt f 0 (Inr (case rev (sort_key cp_iteration (filter (\<lambda>c. cp_goal c = gid) (checkpoint_rows d))) of
                         [] \<Rightarrow> None | c # _ \<Rightarrow> Some c))) Inr"

section \<open>The view of one tenant\<close>

definition db_owns :: "string \<Rightarrow> string \<Rightarrow> store_db \<Rightarrow> bool" where
  "db_owns tenant gid d \<longleftrightarrow> (\<exists>g \<in> set (goal_rows d). g_id g = gid \<and> g_tenant g = tenant)"

definition db_guard :: "string \<Rightarrow> faults \<Rightarrow> string \<Rightarrow> string \<Rightarrow> store_db \<Rightarrow> go_error + unit" where
  "db_guard words f tenant gid d =
     sql words (stmt f 0 (Inr (db_owns tenant gid d))) (\<lambda>owned. if \<not> owned then Inl (goal_not_found gid) else Inr ())"

text \<open>The guard is the first statement; the operation behind it runs the next ones.\<close>

definition db_guarded :: "faults \<Rightarrow> string \<Rightarrow> string \<Rightarrow> (faults \<Rightarrow> store_db \<Rightarrow> (go_error + 'a) \<times> store_db) \<Rightarrow> store_db \<Rightarrow>
    (go_error + 'a) \<times> store_db" where
  "db_guarded f tenant gid op d =
     (case db_guard ''store'' f tenant gid d of Inl e \<Rightarrow> (Inl e, d) | Inr _ \<Rightarrow> op (\<lambda>k. f (Suc k)) d)"

definition pgs_create_goal :: "pg_env \<Rightarrow> faults \<Rightarrow> string \<Rightarrow> goal \<Rightarrow> store_db \<Rightarrow> (go_error + unit) \<times> store_db" where
  "pgs_create_goal P f tenant g d =
     (if tenant = '''' then (Inl (Opaque, ''store: refusing to create a goal with no tenant''), d)
      else pg_create_goal P f (g\<lparr>g_tenant := tenant\<rparr>) d)"

definition pgs_load_goal :: "faults \<Rightarrow> string \<Rightarrow> string \<Rightarrow> store_db \<Rightarrow> go_error + goal" where
  "pgs_load_goal f tenant gid d =
     one_goal f gid (List.find (\<lambda>g. g_id g = gid \<and> g_tenant g = tenant) (goal_rows d))"

definition pgs_save_goal :: "pg_env \<Rightarrow> faults \<Rightarrow> string \<Rightarrow> goal \<Rightarrow> store_db \<Rightarrow> (go_error + unit) \<times> store_db" where
  "pgs_save_goal P f tenant g =
     db_guarded f tenant (g_id g) (\<lambda>f. pg_save_goal P f (g\<lparr>g_tenant := tenant\<rparr>))"

definition pgs_list_goals :: "pg_env \<Rightarrow> faults \<Rightarrow> string \<Rightarrow> goal_state option \<Rightarrow> store_db \<Rightarrow> go_error + goal list" where
  "pgs_list_goals P f tenant st d =
     sql ''store: list goals''
       (stmt f 0 (Inr (sort_key (\<lambda>g. pe_collate P (g_id g))
          (filter (\<lambda>g. g_tenant g = tenant \<and> (st = None \<or> st = Some (g_state g))) (goal_rows d)))))
       (rows_err f 1)"

definition pgs_latest_goal :: "pg_env \<Rightarrow> faults \<Rightarrow> string \<Rightarrow> string \<Rightarrow> store_db \<Rightarrow> go_error + goal option" where
  "pgs_latest_goal P f tenant asked d = pg_latest_goal P f tenant d"

definition pgs_save_dag :: "pg_env \<Rightarrow> faults \<Rightarrow> string \<Rightarrow> dag \<Rightarrow> store_db \<Rightarrow> (go_error + unit) \<times> store_db" where
  "pgs_save_dag P f tenant g = db_guarded f tenant (dag_goal g) (\<lambda>f. pg_save_dag P f g)"

text \<open>Any error of the guard, a failed query included, becomes \<open>ErrGoalNotFound\<close> here.\<close>

definition pgs_load_dag :: "pg_env \<Rightarrow> faults \<Rightarrow> string \<Rightarrow> string \<Rightarrow> store_db \<Rightarrow> go_error + dag" where
  "pgs_load_dag P f tenant gid d =
     (case db_guard ''store'' f tenant gid d of
        Inl _ \<Rightarrow> Inl (no_dag gid) | Inr _ \<Rightarrow> pg_load_dag P (\<lambda>k. f (Suc k)) gid d)"

definition pgs_claim :: "pg_env \<Rightarrow> faults \<Rightarrow> (task_id \<Rightarrow> bool) \<Rightarrow> string \<Rightarrow> string \<Rightarrow> string \<Rightarrow> duration \<Rightarrow> time \<Rightarrow> store_db \<Rightarrow>
    (go_error + task) \<times> store_db" where
  "pgs_claim P f locked tenant gid worker lease now d =
     (case db_guard ''store: claim'' f tenant gid d of
        Inl e \<Rightarrow> (Inl e, d) | Inr _ \<Rightarrow> pg_claim P (\<lambda>k. f (Suc k)) locked gid worker lease now d)"

definition pgs_renew where
  "pgs_renew P f tenant gid i worker lease now = db_guarded f tenant gid (\<lambda>f. pg_renew P f gid i worker lease now)"

definition pgs_complete where
  "pgs_complete P f tenant gid i worker next result failure now =
     db_guarded f tenant gid (\<lambda>f. pg_complete P f gid i worker next result failure now)"

definition pgs_release where
  "pgs_release P f tenant gid i worker now = db_guarded f tenant gid (\<lambda>f. pg_release P f gid i worker now)"

definition pgs_decide where
  "pgs_decide P f tenant gid i approve now = db_guarded f tenant gid (\<lambda>f. pg_decide P f gid i approve now)"

definition pgs_cancel where
  "pgs_cancel P f tenant gid now = db_guarded f tenant gid (\<lambda>f. pg_cancel P f gid now)"

definition pgs_checkpoint where
  "pgs_checkpoint P f tenant cp = db_guarded f tenant (cp_goal cp) (\<lambda>f. pg_checkpoint P f cp)"

text \<open>Any error of the guard is reported as no checkpoint.\<close>

definition pgs_latest_checkpoint :: "faults \<Rightarrow> string \<Rightarrow> string \<Rightarrow> store_db \<Rightarrow> go_error + checkpoint option" where
  "pgs_latest_checkpoint f tenant gid d =
     (case db_guard ''store'' f tenant gid d of
        Inl _ \<Rightarrow> Inr None | Inr _ \<Rightarrow> pg_latest_checkpoint (\<lambda>k. f (Suc k)) gid d)"

end
