(* ===== verification/Store_Rows.thy ===== *)
theory Store_Rows
  imports Store_PG Scoped Interfaces
begin

text \<open>
  The tasks table read row by row: the primary key finds at most one row, an \<open>UPDATE\<close> acts on each row by itself, the
  joins of the claim and of the failure propagation look at the rows of the dependencies, and the
  propagation loop blocks exactly the open rows downstream of a failure.
\<close>

named_theorems row_simps \<open>the fields of a row after the updates of the store\<close>

definition row_key :: "task_row \<Rightarrow> string \<times> task_id" where
  "row_key r = (t_goal (r_task r), t_id (r_task r))"

definition keys_unique :: "store_db \<Rightarrow> bool" where
  "keys_unique d \<longleftrightarrow> distinct (map row_key (task_rows d))"

definition row_at :: "string \<Rightarrow> task_id \<Rightarrow> store_db \<Rightarrow> task_row option" where
  "row_at gid i d = List.find (is_task gid i) (task_rows d)"

lemma is_task_key: "is_task gid i r \<longleftrightarrow> row_key r = (gid, i)"
  by (simp add: is_task_def row_key_def)

lemma find_key:
  "distinct (map key xs) \<Longrightarrow> List.find (\<lambda>x. key x = k) xs = Some x \<longleftrightarrow> x \<in> set xs \<and> key x = k"
  by (induction xs) (auto simp: image_iff)

lemma find_none: "List.find Q xs = None \<longleftrightarrow> (\<forall>x \<in> set xs. \<not> Q x)"
  by (induction xs) auto

lemma find_map_same: "(\<And>x. Q (h x) = Q x) \<Longrightarrow> List.find Q (map h xs) = map_option h (List.find Q xs)"
  by (induction xs) auto

lemma find_append: "List.find Q (xs @ ys) = (case List.find Q xs of None \<Rightarrow> List.find Q ys | Some x \<Rightarrow> Some x)"
  by (induction xs) auto

lemma row_at_Some: "keys_unique d \<Longrightarrow> row_at gid i d = Some r \<longleftrightarrow> r \<in> set (task_rows d) \<and> is_task gid i r"
  unfolding keys_unique_def row_at_def is_task_key [abs_def] by (rule find_key)

lemma row_at_is: "row_at gid i d = Some r \<Longrightarrow> is_task gid i r \<and> r \<in> set (task_rows d)"
  unfolding row_at_def by (simp add: find_Some_iff) (metis nth_mem)

lemma row_at_None: "row_at gid i d = None \<longleftrightarrow> (\<forall>r \<in> set (task_rows d). \<not> is_task gid i r)"
  by (simp add: row_at_def find_none)

lemma row_of_dag: "keys_unique d \<Longrightarrow> r \<in> set (rows_of_dag gid d) \<longleftrightarrow> row_at gid (t_id (r_task r)) d = Some r"
  by (auto simp: row_at_Some rows_of_dag_def is_task_def)

section \<open>Updates\<close>

lemma row_at_update:
  assumes "\<And>r. row_key (h r) = row_key r"
  shows "row_at gid i (snd (update_where Q h d)) = map_option (\<lambda>r. if Q r then h r else r) (row_at gid i d)"
  unfolding row_at_def update_where_def by (simp add: find_map_same is_task_key assms)

lemma keys_unique_update:
  assumes "\<And>r. row_key (h r) = row_key r"
  shows "keys_unique (snd (update_where Q h d)) \<longleftrightarrow> keys_unique d"
proof -
  have "row_key \<circ> (\<lambda>r. if Q r then h r else r) = row_key" using assms by (simp add: fun_eq_iff)
  then show ?thesis by (simp add: keys_unique_def update_where_def)
qed

lemma update_where_rest [simp]:
  "goal_rows (snd (update_where Q h d)) = goal_rows d" "checkpoint_rows (snd (update_where Q h d)) = checkpoint_rows d"
  by (simp_all add: update_where_def)

lemma update_none: "fst (update_where Q h d) = 0 \<Longrightarrow> snd (update_where Q h d) = d"
  by (simp add: update_where_def filter_empty_conv map_idI)

lemma update_one:
  assumes "keys_unique d" "\<And>r. Q r \<Longrightarrow> is_task gid i r"
  shows "fst (update_where Q h d) = 0 \<longleftrightarrow> (\<forall>r. row_at gid i d = Some r \<longrightarrow> \<not> Q r)"
  using assms by (auto simp: update_where_def filter_empty_conv row_at_Some)

lemma row_keys [row_simps]:
  "row_key (lease_row w u n r) = row_key r" "row_key (renew_row u n r) = row_key r" "row_key (block_row n r) = row_key r"
  "row_key (complete_row nx res fl n r) = row_key r" "row_key (release_row n r) = row_key r"
  "row_key (decide_row b n r) = row_key r" "row_key (cancel_row n r) = row_key r" "row_key (restructured P t r) = row_key r"
  by (simp_all add: row_key_def lease_row_def renew_row_def block_row_def complete_row_def release_row_def decide_row_def
      cancel_row_def restructured_def)

lemmas row_update = row_at_update [OF row_keys(1)] row_at_update [OF row_keys(2)] row_at_update [OF row_keys(3)]
  row_at_update [OF row_keys(4)] row_at_update [OF row_keys(5)] row_at_update [OF row_keys(6)]
  row_at_update [OF row_keys(7)] row_at_update [OF row_keys(8)]

lemmas keys_update = keys_unique_update [OF row_keys(1)] keys_unique_update [OF row_keys(2)] keys_unique_update [OF row_keys(3)]
  keys_unique_update [OF row_keys(4)] keys_unique_update [OF row_keys(5)] keys_unique_update [OF row_keys(6)]
  keys_unique_update [OF row_keys(7)] keys_unique_update [OF row_keys(8)]

section \<open>Joins\<close>

lemma joined_all:
  assumes "keys_unique d"
  shows "list_all Q (joined gid deps d) \<longleftrightarrow> (\<forall>x \<in> set deps. \<forall>r. row_at gid x d = Some r \<longrightarrow> Q (r_task r))"
  using assms by (auto simp: joined_def list_all_iff row_at_Some rows_of_dag_def is_task_def)

lemma joined_ex:
  assumes "keys_unique d"
  shows "list_ex Q (joined gid deps d) \<longleftrightarrow> (\<exists>x \<in> set deps. \<exists>r. row_at gid x d = Some r \<and> Q (r_task r))"
  using assms by (auto simp: joined_def list_ex_iff row_at_Some rows_of_dag_def is_task_def)

text \<open>The rows of one goal as a graph.\<close>

definition graph_of :: "string \<Rightarrow> store_db \<Rightarrow> tasks" where
  "graph_of gid d = map (\<lambda>r. (t_id (r_task r), scan_task r)) (rows_of_dag gid d)"

lemma map_of_graph: "map_of (graph_of gid d) i = map_option scan_task (row_at gid i d)"
proof -
  have "map_of (map (\<lambda>r. (t_id (r_task r), scan_task r)) (filter (\<lambda>r. t_goal (r_task r) = gid) rs)) i =
      map_option scan_task (List.find (is_task gid i) rs)" for rs
    by (induction rs) (auto simp: is_task_def)
  then show ?thesis by (simp add: graph_of_def rows_of_dag_def row_at_def)
qed

lemma scan_task_simps [simp]:
  "t_state (scan_task r) = t_state (r_task r)" "depends_on (scan_task r) = depends_on (r_task r)"
  "contributes (scan_task r) = contributes (r_task r)" "leased_by (scan_task r) = leased_by (r_task r)"
  "t_id (scan_task r) = t_id (r_task r)" "t_goal (scan_task r) = t_goal (r_task r)"
  "idempotency_key (scan_task r) = idempotency_key (r_task r)"
  by (simp_all add: scan_task_def)

section \<open>Failure propagation\<close>

lemma doomed_row_iff:
  assumes "keys_unique d" "row_at gid i d = Some r"
  shows "doomed_row gid d r \<longleftrightarrow> \<not> terminal (t_state (r_task r)) \<and>
     (\<exists>x \<in> set (depends_on (r_task r)). \<exists>u. row_at gid x d = Some u \<and> failed_dep (t_state (r_task u)))"
  using row_at_is [OF assms(2)] by (auto simp: doomed_row_def joined_ex [OF assms(1)] is_task_def)

lemma doomed_row_doomed:
  "keys_unique d \<Longrightarrow> row_at gid i d = Some r \<Longrightarrow> doomed_row gid d r \<Longrightarrow> doomed (graph_of gid d) i"
  by (auto simp: doomed_row_iff map_of_graph intro!: doomed.downstream [of _ i "scan_task r"] intro: doomed.failed)

lemma block_row_simps [simp]:
  "t_state (r_task (block_row now r)) = Blocked" "depends_on (r_task (block_row now r)) = depends_on (r_task r)"
  by (simp_all add: block_row_def)

lemma doomed_block_statement:
  assumes "keys_unique d"
  shows "doomed (graph_of gid (snd (block_statement gid now d))) i \<longleftrightarrow> doomed (graph_of gid d) i" (is "doomed (graph_of gid ?d) i \<longleftrightarrow> _")
proof -
  have at: "row_at gid j ?d = map_option (\<lambda>r. if doomed_row gid d r then block_row now r else r) (row_at gid j d)" for j
    by (simp add: block_statement_def row_update)
  show ?thesis
  proof
    assume "doomed (graph_of gid ?d) i"
    then show "doomed (graph_of gid d) i"
    proof (induction rule: doomed.induct)
      case (failed j u)
      then obtain r where r: "row_at gid j d = Some r" "u = scan_task (if doomed_row gid d r then block_row now r else r)"
        by (auto simp: map_of_graph at)
      show ?case
      proof (cases "doomed_row gid d r")
        case True
        with doomed_row_doomed [OF assms r(1)] show ?thesis by simp
      next
        case False
        with r failed show ?thesis by (auto simp: map_of_graph intro: doomed.failed)
      qed
    next
      case (downstream j u x)
      then obtain r where r: "row_at gid j d = Some r" "u = scan_task (if doomed_row gid d r then block_row now r else r)"
        by (auto simp: map_of_graph at)
      with downstream(2) have u: "u = scan_task r" by (auto split: if_splits)
      have "map_of (graph_of gid d) j = Some u" using r(1) u by (simp add: map_of_graph)
      from doomed.downstream [OF this downstream(2,3,5)] show ?case .
    qed
  next
    assume "doomed (graph_of gid d) i"
    then show "doomed (graph_of gid ?d) i"
    proof (induction rule: doomed.induct)
      case (failed j u)
      then obtain r where r: "row_at gid j d = Some r" "u = scan_task r" by (auto simp: map_of_graph)
      with failed(2) have "\<not> doomed_row gid d r" by (auto simp: doomed_row_def dest: failed_dep_terminal)
      with r failed show ?case by (auto simp: map_of_graph at intro: doomed.failed)
    next
      case (downstream j u x)
      then obtain r where r: "row_at gid j d = Some r" "u = scan_task r" by (auto simp: map_of_graph)
      show ?case
      proof (cases "doomed_row gid d r")
        case True
        with r show ?thesis by (auto simp: map_of_graph at failed_dep_def intro!: doomed.failed [of _ j "scan_task (block_row now r)"])
      next
        case False
        with r downstream show ?thesis by (auto simp: map_of_graph at intro: doomed.downstream)
      qed
    qed
  qed
qed

text \<open>When a pass changes nothing, every doomed row has failed, was blocked or was cancelled.\<close>

lemma no_doomed_row:
  assumes "keys_unique d" "\<And>r. r \<in> set (task_rows d) \<Longrightarrow> \<not> doomed_row gid d r"
  shows "doomed (graph_of gid d) i \<Longrightarrow> \<exists>r. row_at gid i d = Some r \<and> failed_dep (t_state (r_task r))"
proof (induction rule: doomed.induct)
  case (downstream j u x)
  then obtain r where r: "row_at gid j d = Some r" "u = scan_task r" by (auto simp: map_of_graph)
  with downstream have "doomed_row gid d r" by (auto simp: doomed_row_iff [OF assms(1) r(1)])
  with assms(2) row_at_is [OF r(1)] show ?case by blast
qed (auto simp: map_of_graph)

lemma pg_propagate_spec:
  assumes "keys_unique d"
  shows "\<exists>d'. pg_propagate no_faults k gid now d = (Inr (), d') \<and> goal_rows d' = goal_rows d \<and>
     checkpoint_rows d' = checkpoint_rows d \<and> keys_unique d' \<and>
     (\<forall>g i. row_at g i d' = map_option (\<lambda>r. if g = gid \<and> \<not> terminal (t_state (r_task r)) \<and> doomed (graph_of gid d) i
        then block_row now r else r) (row_at g i d))"
  using assms
proof (induction "no_faults" k gid now d rule: pg_propagate.induct)
  case (1 k gid now d)
  obtain n d1 where s: "block_statement gid now d = (n, d1)" by fastforce
  have d1: "d1 = snd (update_where (doomed_row gid d) (block_row now) d)" "n = fst (update_where (doomed_row gid d) (block_row now) d)"
    using s by (simp_all add: block_statement_def)
  show ?case
  proof (cases "n = 0")
    case True
    then have "d1 = d" using update_none d1 by metis
    have none: "\<not> doomed_row gid d r" if "r \<in> set (task_rows d)" for r
      using True d1(2) that by (auto simp: update_where_def filter_empty_conv)
    have "map_option (\<lambda>r. if g = gid \<and> \<not> terminal (t_state (r_task r)) \<and> doomed (graph_of gid d) i then block_row now r else r)
        (row_at g i d) = row_at g i d" for g i
      using no_doomed_row [OF 1(2) none, of i] by (cases "row_at g i d") (auto dest: failed_dep_terminal)
    with 1(2) s True \<open>d1 = d\<close> show ?thesis by (subst pg_propagate.simps) simp
  next
    case False
    have uniq: "keys_unique d1" using 1(2) by (simp add: d1 keys_update)
    from "1.hyps" [of "(n, d1)" n d1] s False uniq
    obtain d' where d': "pg_propagate no_faults (Suc k) gid now d1 = (Inr (), d')" "goal_rows d' = goal_rows d1"
      "checkpoint_rows d' = checkpoint_rows d1" "keys_unique d'"
      "\<And>g i. row_at g i d' = map_option (\<lambda>r. if g = gid \<and> \<not> terminal (t_state (r_task r)) \<and> doomed (graph_of gid d1) i
        then block_row now r else r) (row_at g i d1)" by auto
    have dm: "doomed (graph_of gid d1) i \<longleftrightarrow> doomed (graph_of gid d) i" for i
      using doomed_block_statement [OF 1(2), of gid now i] s by simp
    have at: "row_at g i d1 = map_option (\<lambda>r. if doomed_row gid d r then block_row now r else r) (row_at g i d)" for g i
      by (simp add: d1(1) row_update)
    have row: "row_at g i d' = map_option (\<lambda>r. if g = gid \<and> \<not> terminal (t_state (r_task r)) \<and> doomed (graph_of gid d) i
        then block_row now r else r) (row_at g i d)" for g i
    proof (cases "row_at g i d")
      case (Some r)
      have "doomed_row gid d r \<Longrightarrow> g = gid \<and> \<not> terminal (t_state (r_task r)) \<and> doomed (graph_of gid d) i"
        using row_at_is [OF Some] doomed_row_doomed [OF 1(2), of gid i r] Some by (auto simp: doomed_row_def is_task_def)
      then show ?thesis unfolding d'(5) at dm Some by auto
    qed (simp add: d' at)
    have rest: "goal_rows d1 = goal_rows d" "checkpoint_rows d1 = checkpoint_rows d" by (simp_all add: d1(1))
    show ?thesis using d'(1-4) row rest s False by (subst pg_propagate.simps) simp
  qed
qed

end
