(* ===== verification/Store_Mirror.thy ===== *)
theory Store_Mirror
  imports Store_Rows
begin

text \<open>
  The PostgreSQL goal store against the in-process one, through their tenant views: the relation \<open>mirrors\<close> between
  tables and maps, and the calls of a view.  Two columns are left out of the comparison of a task: \<open>updated_at\<close>, which only PostgreSQL
  writes when it blocks a task, and the failure text of a task that has neither succeeded nor failed, which the two
  stores word (and keep) differently.
\<close>

section \<open>The relation\<close>

definition plain :: "task \<Rightarrow> task" where
  "plain t = t\<lparr>t_updated := zero_time,
     t_failure := (if t_state t = Succeeded \<or> t_state t = Failed then t_failure t else '''')\<rparr>"

definition task_at :: "string \<Rightarrow> task_id \<Rightarrow> mem \<Rightarrow> task option" where
  "task_at gid i m = (case tasks_of m gid of None \<Rightarrow> None | Some ts \<Rightarrow> map_of ts i)"

definition same_goals :: "store_db \<Rightarrow> mem \<Rightarrow> bool" where
  "same_goals d m \<longleftrightarrow> distinct (map g_id (goal_rows d)) \<and> (\<forall>gid. goal_row_of gid d = map_of (goals m) gid) \<and> keyed m"

definition lease_whole :: "task_row \<Rightarrow> bool" where
  "lease_whole r \<longleftrightarrow> (r_expiry r = None \<longleftrightarrow> leased_by (r_task r) = '''')"

definition same_tasks :: "store_db \<Rightarrow> mem \<Rightarrow> bool" where
  "same_tasks d m \<longleftrightarrow> keys_unique d \<and>
     (\<forall>gid i. map_option (\<lambda>r. plain (scan_task r)) (row_at gid i d) = map_option plain (task_at gid i m)) \<and>
     (\<forall>gid i r. row_at gid i d = Some r \<longrightarrow> lease_whole r) \<and> (\<forall>gid. tasks_of m gid \<noteq> Some [])"

definition same_checkpoints :: "store_db \<Rightarrow> mem \<Rightarrow> bool" where
  "same_checkpoints d m \<longleftrightarrow> distinct (map (\<lambda>c. (cp_goal c, cp_iteration c)) (checkpoint_rows d)) \<and>
     (\<forall>gid. pg_latest_checkpoint no_faults gid d = Inr (latest_checkpoint gid m))"

definition mirrors :: "store_db \<Rightarrow> mem \<Rightarrow> bool" where
  "mirrors d m \<longleftrightarrow> same_goals d m \<and> same_tasks d m \<and> same_checkpoints d m \<and> mem_sound m"

section \<open>Calls of a view\<close>

datatype store_call =
  Write store_op | ReadGoal string | ReadGoals "goal_state option" | ReadDag string | ReadCheckpoint string

text \<open>An answer as far as the two are compared: an error by its sentinel, a task up to \<open>plain\<close>, a graph by id.\<close>

datatype seen =
    SeenUnit "sentinel + unit" | SeenTask "sentinel + task" | SeenCount "sentinel + int"
  | SeenGoal "sentinel + goal" | SeenGoals "sentinel + goal list" | SeenDag "sentinel + (task_id \<Rightarrow> task option)"
  | SeenCheckpoint "sentinel + checkpoint option"

fun seen_of :: "op_result \<Rightarrow> seen" where
  "seen_of (RUnit r) = SeenUnit (map_sum fst id r)"
| "seen_of (RTask r) = SeenTask (map_sum fst plain r)"
| "seen_of (RCount (n, e)) = SeenCount (case e of None \<Rightarrow> Inr n | Some e \<Rightarrow> Inl (fst e))"

definition seen_dag :: "go_error + dag \<Rightarrow> seen" where
  "seen_dag r = SeenDag (map_sum fst (\<lambda>g i. map_option plain (map_of (dag_tasks g) i)) r)"

fun mem_call :: "string \<times> store_call \<Rightarrow> mem \<Rightarrow> seen \<times> mem" where
  "mem_call (T, Write op) m = map_prod seen_of id (scoped_op T op m)"
| "mem_call (T, ReadGoal gid) m = (SeenGoal (map_sum fst id (scoped_load_goal T gid m)), m)"
| "mem_call (T, ReadGoals st) m = (SeenGoals (Inr (scoped_list_goals T st m)), m)"
| "mem_call (T, ReadDag gid) m = (seen_dag (scoped_load_dag T gid m), m)"
| "mem_call (T, ReadCheckpoint gid) m = (SeenCheckpoint (Inr (scoped_latest_checkpoint T gid m)), m)"

fun pg_write :: "pg_env \<Rightarrow> faults \<Rightarrow> (task_id \<Rightarrow> bool) \<Rightarrow> string \<Rightarrow> store_op \<Rightarrow> store_db \<Rightarrow> op_result \<times> store_db" where
  "pg_write P f locked T (OpCreateGoal g) d = map_prod RUnit id (pgs_create_goal P f T g d)"
| "pg_write P f locked T (OpSaveGoal g) d = map_prod RUnit id (pgs_save_goal P f T g d)"
| "pg_write P f locked T (OpSaveDag g) d = map_prod RUnit id (pgs_save_dag P f T g d)"
| "pg_write P f locked T (OpClaim gid w l now) d = map_prod RTask id (pgs_claim P f locked T gid w l now d)"
| "pg_write P f locked T (OpRenew gid i w l now) d = map_prod RUnit id (pgs_renew P f T gid i w l now d)"
| "pg_write P f locked T (OpComplete gid i w nx res fl now) d = map_prod RUnit id (pgs_complete P f T gid i w nx res fl now d)"
| "pg_write P f locked T (OpRelease gid i w now) d = map_prod RUnit id (pgs_release P f T gid i w now d)"
| "pg_write P f locked T (OpDecide gid i ok now) d = map_prod RUnit id (pgs_decide P f T gid i ok now d)"
| "pg_write P f locked T (OpCancel gid now) d =
     map_prod (\<lambda>r. RCount (case r of Inl e \<Rightarrow> (0, Some e) | Inr n \<Rightarrow> (n, None))) id (pgs_cancel P f T gid now d)"
| "pg_write P f locked T (OpCheckpoint cp) d = map_prod RUnit id (pgs_checkpoint P f T cp d)"

fun pg_call :: "pg_env \<Rightarrow> faults \<Rightarrow> (task_id \<Rightarrow> bool) \<Rightarrow> string \<times> store_call \<Rightarrow> store_db \<Rightarrow> seen \<times> store_db" where
  "pg_call P f locked (T, Write op) d = map_prod seen_of id (pg_write P f locked T op d)"
| "pg_call P f locked (T, ReadGoal gid) d = (SeenGoal (map_sum fst id (pgs_load_goal f T gid d)), d)"
| "pg_call P f locked (T, ReadGoals st) d = (SeenGoals (map_sum fst id (pgs_list_goals P f T st d)), d)"
| "pg_call P f locked (T, ReadDag gid) d = (seen_dag (pgs_load_dag P f T gid d), d)"
| "pg_call P f locked (T, ReadCheckpoint gid) d = (SeenCheckpoint (map_sum fst id (pgs_latest_checkpoint f T gid d)), d)"

section \<open>When they answer alike\<close>

definition keeps_time :: "pg_env \<Rightarrow> time \<Rightarrow> bool" where
  "keeps_time P t \<longleftrightarrow> 0 < t \<and> pe_keep P t = t"

definition storable_goal :: "pg_env \<Rightarrow> goal \<Rightarrow> bool" where
  "storable_goal P g \<longleftrightarrow> keeps_time P (g_created g) \<and> keeps_time P (g_updated g) \<and>
     (g_last_checkpoint g = zero_time \<or> keeps_time P (g_last_checkpoint g)) \<and> refusal_has_cause g"

definition storable_dag :: "pg_env \<Rightarrow> dag \<Rightarrow> mem \<Rightarrow> bool" where
  "storable_dag P g m \<longleftrightarrow> dag_tasks g \<noteq> [] \<and>
     distinct (filter (\<lambda>k. k \<noteq> '''') (map (\<lambda>(_, t). idempotency_key t) (dag_tasks g))) \<and>
     (\<forall>(i, t) \<in> set (dag_tasks g). require_idempotency t = Inr () \<and>
        (task_at (dag_goal g) i m = None \<longrightarrow> t_goal t = dag_goal g \<and> \<not> approved t \<and> leased_by t = '''' \<and>
           lease_expiry t = zero_time \<and> keeps_time P (t_created t)))"

definition known :: "string \<Rightarrow> string \<Rightarrow> task_id \<Rightarrow> mem \<Rightarrow> bool" where
  "known T gid i m \<longleftrightarrow> (owns T gid m \<longrightarrow> task_at gid i m \<noteq> None)"

text \<open>A move the table of transitions allows, from the state of a task the worker holds.\<close>

definition held_move :: "string \<Rightarrow> task_id \<Rightarrow> string \<Rightarrow> task_state \<Rightarrow> time \<Rightarrow> mem \<Rightarrow> bool" where
  "held_move gid i w next now m \<longleftrightarrow>
     (case held gid i w now m of Inl _ \<Rightarrow> True | Inr t \<Rightarrow> can_transition_to (t_state t) next)"

fun write_ok :: "pg_env \<Rightarrow> string \<Rightarrow> store_op \<Rightarrow> mem \<Rightarrow> bool" where
  "write_ok P T (OpCreateGoal g) m \<longleftrightarrow> storable_goal P g"
| "write_ok P T (OpSaveGoal g) m \<longleftrightarrow> storable_goal P g \<and> (owns T (g_id g) m \<longrightarrow> map_option g_created (map_of (goals m) (g_id g)) = Some (g_created g))"
| "write_ok P T (OpSaveDag g) m \<longleftrightarrow> storable_dag P g m"
| "write_ok P T (OpClaim gid w l now) m \<longleftrightarrow> keeps_time P now \<and> keeps_time P (now + l) \<and> (owns T gid m \<longrightarrow> tasks_of m gid \<noteq> None)"
| "write_ok P T (OpRenew gid i w l now) m \<longleftrightarrow> keeps_time P now \<and> keeps_time P (now + l) \<and> known T gid i m"
| "write_ok P T (OpComplete gid i w nx res fl now) m \<longleftrightarrow> keeps_time P now \<and> known T gid i m \<and> held_move gid i w nx now m"
| "write_ok P T (OpRelease gid i w now) m \<longleftrightarrow> keeps_time P now \<and> known T gid i m \<and> held_move gid i w Ready now m"
| "write_ok P T (OpDecide gid i ok now) m \<longleftrightarrow> keeps_time P now \<and> known T gid i m"
| "write_ok P T (OpCancel gid now) m \<longleftrightarrow> keeps_time P now"
| "write_ok P T (OpCheckpoint cp) m \<longleftrightarrow> cp_spend cp = '''' \<and> keeps_time P (cp_at cp) \<and>
     (case latest_checkpoint (cp_goal cp) m of None \<Rightarrow> True | Some c \<Rightarrow> cp_iteration c \<le> cp_iteration cp)"

text \<open>
  The database compares texts by their bytes; a call is one the callers make (\<open>op_ok\<close>: workers have names, a graph is new or
  the stored one extended); times are whole microseconds after the zero time; a task that is named exists; a worker makes legal moves; a goal
  keeps its creation time; checkpoints advance.
\<close>

fun call_ok :: "pg_env \<Rightarrow> string \<times> store_call \<Rightarrow> store_db \<Rightarrow> mem \<Rightarrow> bool" where
  "call_ok P (T, Write op) d m \<longleftrightarrow> T \<noteq> '''' \<and> (\<forall>s. pe_collate P s = s) \<and> op_ok m op \<and> write_ok P T op m"
| "call_ok P (T, ReadDag gid) d m \<longleftrightarrow> (\<forall>s. pe_collate P s = s)"
| "call_ok P (T, ReadGoals st) d m \<longleftrightarrow> (\<forall>s. pe_collate P s = s)"
| "call_ok P (T, _) d m \<longleftrightarrow> True"

section \<open>Reading the relation\<close>

lemma plain_simps [simp]:
  "t_state (plain t) = t_state t" "t_id (plain t) = t_id t" "t_goal (plain t) = t_goal t" "t_kind (plain t) = t_kind t"
  "depends_on (plain t) = depends_on t" "contributes (plain t) = contributes t" "attempt (plain t) = attempt t"
  "spawn_depth (plain t) = spawn_depth t" "idempotency_key (plain t) = idempotency_key t" "approved (plain t) = approved t"
  "t_result (plain t) = t_result t" "leased_by (plain t) = leased_by t" "lease_expiry (plain t) = lease_expiry t"
  "t_created (plain t) = t_created t"
  by (simp_all add: plain_def)

lemma plain_eqD:
  assumes "plain t = plain u"
  shows "t_state t = t_state u" "t_id t = t_id u" "t_goal t = t_goal u" "t_kind t = t_kind u"
  "depends_on t = depends_on u" "contributes t = contributes u" "attempt t = attempt u"
  "spawn_depth t = spawn_depth u" "idempotency_key t = idempotency_key u" "approved t = approved u"
  "t_result t = t_result u" "leased_by t = leased_by u" "lease_expiry t = lease_expiry u" "t_created t = t_created u"
  using assms by (metis plain_simps)+

text \<open>A row and the task it mirrors.\<close>

definition twin :: "task_row \<Rightarrow> task \<Rightarrow> bool" where
  "twin r t \<longleftrightarrow> plain (scan_task r) = plain t \<and> lease_whole r"

lemma twinD:
  assumes "twin r t"
  shows "t_state (r_task r) = t_state t" "t_id (r_task r) = t_id t" "t_goal (r_task r) = t_goal t"
    "depends_on (r_task r) = depends_on t" "contributes (r_task r) = contributes t" "attempt (r_task r) = attempt t"
    "leased_by (r_task r) = leased_by t" "idempotency_key (r_task r) = idempotency_key t" "t_kind (r_task r) = t_kind t"
    "lease_expiry t = (case r_expiry r of None \<Rightarrow> zero_time | Some e \<Rightarrow> e)" "r_expiry r = None \<longleftrightarrow> leased_by t = ''''"
  using plain_eqD [OF conjunct1 [OF assms [unfolded twin_def]]] assms by (simp_all add: scan_task_def twin_def lease_whole_def)

lemma same_tasks_twin:
  assumes "same_tasks d m"
  shows "row_at gid i d = Some r \<Longrightarrow> \<exists>t. task_at gid i m = Some t \<and> twin r t"
    and "task_at gid i m = Some t \<Longrightarrow> \<exists>r. row_at gid i d = Some r \<and> twin r t"
    and "row_at gid i d = None \<longleftrightarrow> task_at gid i m = None"
proof -
  have eq: "map_option (\<lambda>r. plain (scan_task r)) (row_at gid i d) = map_option plain (task_at gid i m)"
    and w: "row_at gid i d = Some r \<Longrightarrow> lease_whole r" for r using assms by (auto simp: same_tasks_def)
  from eq w show "row_at gid i d = Some r \<Longrightarrow> \<exists>t. task_at gid i m = Some t \<and> twin r t"
    by (cases "task_at gid i m") (auto simp: twin_def)
  from eq w show "task_at gid i m = Some t \<Longrightarrow> \<exists>r. row_at gid i d = Some r \<and> twin r t"
    by (cases "row_at gid i d") (auto simp: twin_def)
  from eq show "row_at gid i d = None \<longleftrightarrow> task_at gid i m = None"
    by (cases "task_at gid i m"; cases "row_at gid i d") auto
qed

text \<open>A pointwise change on both sides keeps the relation.\<close>

lemma same_tasks_step:
  assumes "same_tasks d m" "keys_unique d'"
    and row: "\<And>g j. row_at g j d' = map_option (h g j) (row_at g j d)"
    and tsk: "\<And>g j. task_at g j m' = map_option (k g j) (task_at g j m)"
    and same: "\<And>g j r t. row_at g j d = Some r \<Longrightarrow> task_at g j m = Some t \<Longrightarrow> twin r t \<Longrightarrow> twin (h g j r) (k g j t)"
    and ne: "\<And>g. tasks_of m' g \<noteq> Some []"
  shows "same_tasks d' m'"
  unfolding same_tasks_def
proof (intro conjI allI impI)
  fix g j
  show "map_option (\<lambda>r. plain (scan_task r)) (row_at g j d') = map_option plain (task_at g j m')"
  proof (cases "row_at g j d")
    case None
    with same_tasks_twin(3) [OF assms(1)] show ?thesis by (simp add: row tsk)
  next
    case (Some r)
    from same_tasks_twin(1) [OF assms(1) Some] obtain t where t: "task_at g j m = Some t" "twin r t" by blast
    from same [OF Some t] t Some show ?thesis by (simp add: row tsk twin_def)
  qed
  fix r assume "row_at g j d' = Some r"
  then obtain r0 where r0: "row_at g j d = Some r0" "r = h g j r0" by (auto simp: row)
  from same_tasks_twin(1) [OF assms(1) r0(1)] obtain t where t: "task_at g j m = Some t" "twin r0 t" by blast
  from same [OF r0(1) t] show "lease_whole r" by (simp add: r0 twin_def)
qed (use assms ne in auto)

end
