(* ===== verification/Store_Sim.thy ===== *)
theory Store_Sim
  imports Store_Mirror
begin

text \<open>
  The simulation between the PostgreSQL goal store and the in-process one, first the operations on tasks.
\<close>

section \<open>Reads after writes\<close>

lemma task_at_put_task:
  "task_at gid i m = Some t \<Longrightarrow>
     task_at g j (put_task gid i t' m) = map_option (\<lambda>t. if g = gid \<and> j = i then t' else t) (task_at g j m)"
  by (cases "task_at g j m") (auto simp: task_at_def store_simps split: option.splits if_splits)

lemma task_at_put_tasks:
  "tasks_of m gid = Some ts \<Longrightarrow> task_at g j (put_tasks gid ts' m) = (if g = gid then map_of ts' j else task_at g j m)"
  by (auto simp: task_at_def store_simps split: option.splits)

lemma task_at_tasks: "task_at gid i m = Some t \<longleftrightarrow> (\<exists>ts. tasks_of m gid = Some ts \<and> map_of ts i = Some t)"
  by (auto simp: task_at_def split: option.splits)

lemma put_task_nonempty: "tasks_of m g \<noteq> Some [] \<Longrightarrow> tasks_of (put_task gid i t m) g \<noteq> Some []"
  by (auto simp: store_simps)

lemma same_goals_rest: "same_goals d m \<Longrightarrow> goal_rows d' = goal_rows d \<Longrightarrow> goals m' = goals m \<Longrightarrow> same_goals d' m'"
  by (simp add: same_goals_def goal_row_of_def keyed_def)

lemma same_checkpoints_rest:
  "same_checkpoints d m \<Longrightarrow> checkpoint_rows d' = checkpoint_rows d \<Longrightarrow> checkpoints m' = checkpoints m \<Longrightarrow> same_checkpoints d' m'"
  by (simp add: same_checkpoints_def pg_latest_checkpoint_def latest_checkpoint_def checkpoints_of_def)

text \<open>One task written on both sides.\<close>

lemma mirrors_put:
  assumes "mirrors d m" "row_at gid i d = Some r" "task_at gid i m = Some t"
    and row: "\<And>g j. row_at g j d' = map_option (\<lambda>r. if g = gid \<and> j = i then h r else r) (row_at g j d)"
    and rest: "keys_unique d'" "goal_rows d' = goal_rows d" "checkpoint_rows d' = checkpoint_rows d"
    and same: "twin (h r) t'" and sound: "mem_sound (put_task gid i t' m)"
  shows "mirrors d' (put_task gid i t' m)"
  unfolding mirrors_def
proof (intro conjI)
  from assms(1) have m: "same_goals d m" "same_tasks d m" "same_checkpoints d m" by (auto simp: mirrors_def)
  show "same_goals d' (put_task gid i t' m)" using m(1) rest(2) by (rule same_goals_rest) (simp_all add: store_simps)
  show "same_checkpoints d' (put_task gid i t' m)" using m(3) rest(3) by (rule same_checkpoints_rest) (simp add: store_simps)
  show "same_tasks d' (put_task gid i t' m)"
  proof (rule same_tasks_step [OF m(2) rest(1)])
    show "row_at g j d' = map_option (\<lambda>r. if g = gid \<and> j = i then h r else r) (row_at g j d)" for g j by (rule row)
    show "task_at g j (put_task gid i t' m) = map_option (\<lambda>t. if g = gid \<and> j = i then t' else t) (task_at g j m)" for g j
      by (rule task_at_put_task [OF assms(3)])
    show "twin (if g = gid \<and> j = i then h ra else ra) (if g = gid \<and> j = i then t' else u)"
      if "row_at g j d = Some ra" "twin ra u" for g j ra u using that same assms(2) by auto
    show "tasks_of (put_task gid i t' m) g \<noteq> Some []" for g
      by (rule put_task_nonempty) (use m(2) in \<open>simp add: same_tasks_def\<close>)
  qed
qed (rule sound)

section \<open>Leases\<close>

lemma held_twin:
  assumes "task_at gid i m = Some t" "row_at gid i d = Some r" "twin r t" "w \<noteq> ''''"
  shows "held_clause gid i w now r \<longleftrightarrow> held gid i w now m = Inr t"
    and "\<not> held_clause gid i w now r \<Longrightarrow> \<exists>e. held gid i w now m = Inl e \<and> errors_is e ErrLeaseLost"
proof -
  obtain ts where ts: "tasks_of m gid = Some ts" "map_of ts i = Some t" using assms(1) by (auto simp: task_at_tasks)
  have iff: "held_clause gid i w now r \<longleftrightarrow> leased_by t = w \<and> after_time (lease_expiry t) now"
    using row_at_is [OF assms(2)] twinD(7,10,11) [OF assms(3)] assms(4) by (auto simp: held_clause_def split: option.splits)
  with ts show "held_clause gid i w now r \<longleftrightarrow> held gid i w now m = Inr t" by (auto simp: held_Inr)
  from iff ts show "\<not> held_clause gid i w now r \<Longrightarrow> \<exists>e. held gid i w now m = Inl e \<and> errors_is e ErrLeaseLost"
    by (auto simp: held_def)
qed

text \<open>An update behind \<open>heldClause\<close>.\<close>

lemma held_update:
  fixes now :: time and op :: string
  assumes "mirrors d m" "w \<noteq> ''''" "task_at gid i m = Some t" and key: "\<And>r. row_key (h r) = row_key r"
  defines "res \<equiv> affected_or_lease_lost op i (Inr (update_where (held_clause gid i w now) h d)) d"
  shows "(\<exists>e e'. held gid i w now m = Inl e \<and> errors_is e ErrLeaseLost \<and> res = (Inl e', d) \<and> errors_is e' ErrLeaseLost) \<or>
    (\<exists>d' r. held gid i w now m = Inr t \<and> res = (Inr (), d') \<and> row_at gid i d = Some r \<and> twin r t \<and> keys_unique d' \<and>
       goal_rows d' = goal_rows d \<and> checkpoint_rows d' = checkpoint_rows d \<and>
       (\<forall>g j. row_at g j d' = map_option (\<lambda>r. if g = gid \<and> j = i then h r else r) (row_at g j d)))"
proof -
  from assms(1) have s: "same_tasks d m" and u: "keys_unique d" by (auto simp: mirrors_def same_tasks_def)
  obtain r where r: "row_at gid i d = Some r" "twin r t" using same_tasks_twin(2) [OF s assms(3)] by blast
  have only: "held_clause gid i w now x \<Longrightarrow> is_task gid i x" for x by (simp add: held_clause_def)
  let ?u = "update_where (held_clause gid i w now) h d"
  have zero: "fst ?u = 0 \<longleftrightarrow> \<not> held_clause gid i w now r"
    using update_one [OF u only] r(1) by simp
  show ?thesis
  proof (cases "held_clause gid i w now r")
    case False
    with zero update_none have "fst ?u = 0" "snd ?u = d" by blast+
    with held_twin(2) [OF assms(3) r assms(2) False] show ?thesis
      unfolding res_def by (cases ?u) (auto simp: affected_or_lease_lost_def)
  next
    case True
    have at: "row_at g j (snd ?u) = map_option (\<lambda>r. if g = gid \<and> j = i then h r else r) (row_at g j d)" for g j
    proof (cases "row_at g j d")
      case (Some x)
      have "held_clause gid i w now x \<longleftrightarrow> g = gid \<and> j = i"
        using row_at_is [OF Some] only [of x] Some True r(1) by (auto simp: is_task_def)
      with Some show ?thesis by (simp add: row_at_update [OF key])
    qed (simp add: row_at_update [OF key])
    have "res = (Inr (), snd ?u)" using True zero unfolding res_def by (cases ?u) (auto simp: affected_or_lease_lost_def)
    moreover have "held gid i w now m = Inr t" using held_twin(1) [OF assms(3) r assms(2)] True by simp
    moreover have "keys_unique (snd ?u)" using u key by (simp add: keys_unique_update)
    ultimately show ?thesis using r at by (intro disjI2 exI [of _ "snd ?u"] exI [of _ r]) simp
  qed
qed

section \<open>Failure propagation\<close>

lemma doomed_cong_le:
  assumes "\<And>i. map_option (\<lambda>t. (t_state t, depends_on t)) (map_of ts i) = map_option (\<lambda>t. (t_state t, depends_on t)) (map_of us i)"
  shows "doomed ts i \<Longrightarrow> doomed us i"
proof (induction rule: doomed.induct)
  case (failed i t)
  with assms [of i] obtain u where "map_of us i = Some u" "t_state u = t_state t" by (cases "map_of us i") auto
  with failed show ?case by (auto intro: doomed.failed)
next
  case (downstream i t x)
  with assms [of i] obtain u where "map_of us i = Some u" "t_state u = t_state t" "depends_on u = depends_on t"
    by (cases "map_of us i") auto
  with downstream show ?case by (auto intro: doomed.downstream)
qed

lemma doomed_cong:
  assumes "\<And>i. map_option (\<lambda>t. (t_state t, depends_on t)) (map_of ts i) = map_option (\<lambda>t. (t_state t, depends_on t)) (map_of us i)"
  shows "doomed ts i \<longleftrightarrow> doomed us i"
  using doomed_cong_le [of ts us] doomed_cong_le [of us ts] assms by metis

lemma doomed_graph:
  assumes "same_tasks d m" "tasks_of m gid = Some ts"
  shows "doomed (graph_of gid d) i \<longleftrightarrow> doomed ts i"
proof (rule doomed_cong)
  fix j
  have "map_of ts j = task_at gid j m" using assms(2) by (simp add: task_at_def)
  then show "map_option (\<lambda>t. (t_state t, depends_on t)) (map_of (graph_of gid d) j) =
      map_option (\<lambda>t. (t_state t, depends_on t)) (map_of ts j)"
    using same_tasks_twin [OF assms(1), of gid j]
    by (cases "row_at gid j d") (auto simp: map_of_graph dest: twinD(1,4))
qed

lemma twin_block: "twin r t \<Longrightarrow> twin (block_row now r) (block_on t dep ds)"
proof -
  have "plain (scan_task (block_row now r)) = (plain (scan_task r))\<lparr>t_state := Blocked, t_failure := ''''\<rparr>"
    "plain (block_on t dep ds) = (plain t)\<lparr>t_state := Blocked, t_failure := ''''\<rparr>"
    by (simp_all add: plain_def scan_task_def block_row_def block_on_def)
  then show "twin r t \<Longrightarrow> ?thesis" by (simp add: twin_def lease_whole_def block_row_def)
qed

lemma mirrors_propagate:
  assumes "mirrors d m" "tasks_of m gid = Some ts"
  shows "\<exists>d' ts'. pg_propagate no_faults k gid now d = (Inr (), d') \<and>
    propagate_in gid m = (Inr (), put_tasks gid ts' m) \<and> mirrors d' (put_tasks gid ts' m)"
proof -
  from assms(1) have s: "same_goals d m" "same_tasks d m" "same_checkpoints d m" "mem_sound m" "keys_unique d"
    by (auto simp: mirrors_def same_tasks_def)
  obtain n ts' where p: "propagate_failure ts = Some (n, ts')" "propagate_in gid m = (Inr (), put_tasks gid ts' m)"
    "keeps m (put_tasks gid ts' m)" by (rule propagate_in_keeps [OF s(4) assms(2)])
  obtain d' where d': "pg_propagate no_faults k gid now d = (Inr (), d')" "goal_rows d' = goal_rows d"
    "checkpoint_rows d' = checkpoint_rows d" "keys_unique d'"
    "\<And>g i. row_at g i d' = map_option (\<lambda>r. if g = gid \<and> \<not> terminal (t_state (r_task r)) \<and> doomed (graph_of gid d) i
        then block_row now r else r) (row_at g i d)" using pg_propagate_spec [OF s(5)] by blast
  let ?k = "\<lambda>g i t. if g = gid \<and> \<not> terminal (t_state t) \<and> doomed ts i then the (map_of ts' i) else t"
  have tm: "task_at gid i m = map_of ts i" for i using assms(2) by (simp add: task_at_def)
  have at: "task_at g i (put_tasks gid ts' m) = map_option (?k g i) (task_at g i m)" for g i
  proof (cases "g = gid")
    case True
    show ?thesis
    proof (cases "map_of ts i")
      case None
      then have "map_of ts' i = None" using propagate_spec(1) [OF p(1)] by (metis map_of_eq_None_iff only_blocks_def list.set_map)
      with None True tm show ?thesis by (simp add: task_at_put_tasks [OF assms(2)])
    next
      case (Some t)
      have "map_of ts' i = Some (?k g i t)"
      proof (cases "\<not> terminal (t_state t) \<and> doomed ts i")
        case True
        with propagate_spec(4) [OF p(1) Some] \<open>g = gid\<close> show ?thesis by auto
      next
        case False
        then have "map_of ts' i = Some t" using only_blocksD [OF propagate_spec(1) [OF p(1)] Some] by blast
        with False show ?thesis by auto
      qed
      with Some True tm show ?thesis by (simp add: task_at_put_tasks [OF assms(2)])
    qed
  qed (simp add: task_at_put_tasks [OF assms(2)] map_option.id [unfolded id_def])
  have "same_tasks d' (put_tasks gid ts' m)"
  proof (rule same_tasks_step [OF s(2) d'(4) d'(5) at])
    fix g i r t assume rt: "row_at g i d = Some r" "task_at g i m = Some t" "twin r t"
    note dg = doomed_graph [OF s(2) assms(2)]
    show "twin (if g = gid \<and> \<not> terminal (t_state (r_task r)) \<and> doomed (graph_of gid d) i then block_row now r else r) (?k g i t)"
    proof (cases "g = gid \<and> \<not> terminal (t_state t) \<and> doomed ts i")
      case True
      then have t: "map_of ts i = Some t" using rt(2) assms(2) by (simp add: task_at_def)
      obtain dep ds where "map_of ts' i = Some (block_on t dep ds)"
        using only_blocksD [OF propagate_spec(1) [OF p(1)] t] propagate_spec(4) [OF p(1) t] True by force
      with True twinD(1) [OF rt(3)] twin_block [OF rt(3)] show ?thesis by (simp add: dg)
    qed (use rt(3) twinD(1) [OF rt(3)] dg in auto)
  next
    show "tasks_of (put_tasks gid ts' m) g \<noteq> Some []" for g
    proof -
      have "ts \<noteq> []" using assms(2) s(2) by (auto simp: same_tasks_def)
      then have "ts' \<noteq> []" using propagate_spec(1) [OF p(1)] by (auto simp: only_blocks_def)
      with s(2) show ?thesis by (auto simp: store_simps same_tasks_def)
    qed
  qed
  with d' p s same_goals_rest [OF s(1) d'(2)] same_checkpoints_rest [OF s(3) d'(3)] show ?thesis
    by (intro exI [of _ d'] exI [of _ ts']) (simp add: mirrors_def keeps_def store_simps)
qed

section \<open>Operations of a lease holder\<close>

text \<open>The same answer up to the error's words, and related states.\<close>

definition agrees :: "(go_error + 'a) \<times> store_db \<Rightarrow> (go_error + 'a) \<times> mem \<Rightarrow> bool" where
  "agrees x y \<longleftrightarrow> map_sum fst id (fst x) = map_sum fst id (fst y) \<and> mirrors (snd x) (snd y)"

lemma twin_renew:
  "twin r t \<Longrightarrow> leased_by t \<noteq> '''' \<Longrightarrow> twin (renew_row until now r) (t\<lparr>lease_expiry := until, t_updated := now\<rparr>)"
proof -
  assume tw: "twin r t" "leased_by t \<noteq> ''''"
  have "plain (scan_task (renew_row until now r)) = (plain (scan_task r))\<lparr>lease_expiry := until\<rparr>"
    "plain (t\<lparr>lease_expiry := until, t_updated := now\<rparr>) = (plain t)\<lparr>lease_expiry := until\<rparr>"
    by (simp_all add: plain_def scan_task_def renew_row_def)
  with tw twinD(7) [OF tw(1)] show ?thesis by (simp add: twin_def lease_whole_def renew_row_def)
qed

lemma twin_complete:
  "twin r t \<Longrightarrow> twin (complete_row nx res fl now r)
     (t\<lparr>t_state := nx, t_updated := now, t_result := res, t_failure := fl, leased_by := '''', lease_expiry := zero_time\<rparr>)"
proof -
  let ?up = "\<lambda>u. u\<lparr>t_state := nx, t_result := res, leased_by := '''', lease_expiry := zero_time,
      t_failure := (if nx = Succeeded \<or> nx = Failed then fl else '''')\<rparr>"
  have "plain (scan_task (complete_row nx res fl now r)) = ?up (plain (scan_task r))"
    "plain (t\<lparr>t_state := nx, t_updated := now, t_result := res, t_failure := fl, leased_by := '''', lease_expiry := zero_time\<rparr>) = ?up (plain t)"
    by (simp_all add: plain_def scan_task_def complete_row_def)
  then show "twin r t \<Longrightarrow> ?thesis" by (simp add: twin_def lease_whole_def complete_row_def)
qed

lemma twin_release:
  "twin r t \<Longrightarrow> twin (release_row now r) (t\<lparr>t_state := Ready, t_updated := now, leased_by := '''', lease_expiry := zero_time\<rparr>)"
proof -
  let ?up = "\<lambda>u. u\<lparr>t_state := Ready, leased_by := '''', lease_expiry := zero_time, t_failure := ''''\<rparr>"
  have "plain (scan_task (release_row now r)) = ?up (plain (scan_task r))"
    "plain (t\<lparr>t_state := Ready, t_updated := now, leased_by := '''', lease_expiry := zero_time\<rparr>) = ?up (plain t)"
    by (simp_all add: plain_def scan_task_def release_row_def)
  then show "twin r t \<Longrightarrow> ?thesis" by (simp add: twin_def lease_whole_def release_row_def)
qed

lemma errors_is_fst: "errors_is e s \<Longrightarrow> fst e = s"
  by (simp add: errors_is_def)

lemma renew_sim:
  assumes "mirrors d m" "w \<noteq> ''''" "task_at gid i m = Some t" "keeps_time P now" "keeps_time P (now + l)"
  shows "agrees (pg_renew P no_faults gid i w l now d) (renew gid i w l now m)"
proof -
  have keep: "pe_keep P now = now" "pe_keep P (now + l) = now + l" using assms(4,5) by (simp_all add: keeps_time_def)
  from held_update [where h = "renew_row (now + l) now" and op = "''renew''" and now = now, OF assms(1,2,3) row_keys(2)]
  show ?thesis
  proof (elim disjE exE conjE)
    fix e e' assume "held gid i w now m = Inl e" "errors_is e ErrLeaseLost" "errors_is e' ErrLeaseLost"
      "affected_or_lease_lost ''renew'' i (Inr (update_where (held_clause gid i w now) (renew_row (now + l) now) d)) d = (Inl e', d)"
    with assms(1) show ?thesis by (simp add: agrees_def pg_renew_def keep renew_def errors_is_def)
  next
    fix d' r assume h: "held gid i w now m = Inr t" and r: "row_at gid i d = Some r" "twin r t"
      and res: "affected_or_lease_lost ''renew'' i (Inr (update_where (held_clause gid i w now) (renew_row (now + l) now) d)) d = (Inr (), d')"
      and rest: "keys_unique d'" "goal_rows d' = goal_rows d" "checkpoint_rows d' = checkpoint_rows d"
      and at: "\<forall>g j. row_at g j d' = map_option (\<lambda>r. if g = gid \<and> j = i then renew_row (now + l) now r else r) (row_at g j d)"
    let ?t = "t\<lparr>lease_expiry := now + l, t_updated := now\<rparr>"
    have "mem_sound m" using assms(1) by (simp add: mirrors_def)
    then have sound: "mem_sound (put_task gid i ?t m)"
      using renew_keeps [of gid i w l now m "Inr ()" "put_task gid i ?t m"] h by (simp add: renew_def keeps_def)
    have "leased_by t \<noteq> ''''" using h assms(2) by (auto simp: held_Inr)
    then have "mirrors d' (put_task gid i ?t m)"
      using mirrors_put [OF assms(1) r(1) assms(3), of d' "renew_row (now + l) now" ?t] at rest twin_renew [OF r(2)] sound by simp
    with h res show ?thesis by (simp add: agrees_def pg_renew_def keep renew_def)
  qed
qed

lemma complete_sim:
  assumes "mirrors d m" "w \<noteq> ''''" "task_at gid i m = Some t" "keeps_time P now" "held_move gid i w nx now m"
  shows "agrees (pg_complete P no_faults gid i w nx res fl now d) (complete gid i w nx res fl now m)"
proof -
  have keep: "pe_keep P now = now" using assms(4) by (simp add: keeps_time_def)
  from held_update [where h = "complete_row nx res fl now" and op = "''complete''" and now = now, OF assms(1,2,3) row_keys(4)]
  show ?thesis
  proof (elim disjE exE conjE)
    fix e e' assume "held gid i w now m = Inl e" "errors_is e ErrLeaseLost" "errors_is e' ErrLeaseLost"
      "affected_or_lease_lost ''complete'' i (Inr (update_where (held_clause gid i w now) (complete_row nx res fl now) d)) d = (Inl e', d)"
    with assms(1) show ?thesis by (simp add: agrees_def pg_complete_def keep complete_def errors_is_def)
  next
    fix d' r assume h: "held gid i w now m = Inr t" and r: "row_at gid i d = Some r" "twin r t"
      and upd: "affected_or_lease_lost ''complete'' i (Inr (update_where (held_clause gid i w now) (complete_row nx res fl now) d)) d = (Inr (), d')"
      and rest: "keys_unique d'" "goal_rows d' = goal_rows d" "checkpoint_rows d' = checkpoint_rows d"
      and at: "\<forall>g j. row_at g j d' = map_option (\<lambda>r. if g = gid \<and> j = i then complete_row nx res fl now r else r) (row_at g j d)"
    let ?t = "t\<lparr>t_state := nx, t_updated := now, t_result := res, t_failure := fl, leased_by := '''', lease_expiry := zero_time\<rparr>"
    let ?u = "t\<lparr>t_state := nx, t_updated := now\<rparr>"
    have tr: "transition t nx now = Inr ?u" using assms(5) h by (simp add: held_move_def transition_def)
    have "mem_sound m" using assms(1) by (simp add: mirrors_def)
    then have sound: "mem_sound (put_task gid i ?t m)"
      using held_write_keeps [OF _ h assms(2) tr, of ?t] by (simp add: same_task_def keeps_def)
    have mir: "mirrors d' (put_task gid i ?t m)"
      using mirrors_put [OF assms(1) r(1) assms(3), of d' "complete_row nx res fl now" ?t] at rest twin_complete [OF r(2)] sound by simp
    show ?thesis
    proof (cases "nx = Failed")
      case True
      obtain ts where "tasks_of m gid = Some ts" using assms(3) by (auto simp: task_at_tasks)
      then have "tasks_of (put_task gid i ?t m) gid = Some (AList.update i ?t ts)" by (simp add: store_simps)
      from mirrors_propagate [OF mir this, of 1 now] obtain d2 ts' where
        "pg_propagate no_faults 1 gid now d' = (Inr (), d2)"
        "propagate_in gid (put_task gid i ?t m) = (Inr (), put_tasks gid ts' (put_task gid i ?t m))"
        "mirrors d2 (put_tasks gid ts' (put_task gid i ?t m))" by blast
      with True h upd tr show ?thesis by (simp add: agrees_def pg_complete_def keep complete_def Let_def)
    qed (use h upd tr mir in \<open>simp add: agrees_def pg_complete_def keep complete_def Let_def\<close>)
  qed
qed

lemma release_sim:
  assumes "mirrors d m" "w \<noteq> ''''" "task_at gid i m = Some t" "keeps_time P now" "held_move gid i w Ready now m"
  shows "agrees (pg_release P no_faults gid i w now d) (release gid i w now m)"
proof -
  have keep: "pe_keep P now = now" using assms(4) by (simp add: keeps_time_def)
  from held_update [where h = "release_row now" and op = "''release''" and now = now, OF assms(1,2,3) row_keys(5)]
  show ?thesis
  proof (elim disjE exE conjE)
    fix e e' assume "held gid i w now m = Inl e" "errors_is e ErrLeaseLost" "errors_is e' ErrLeaseLost"
      "affected_or_lease_lost ''release'' i (Inr (update_where (held_clause gid i w now) (release_row now) d)) d = (Inl e', d)"
    with assms(1) show ?thesis by (simp add: agrees_def pg_release_def keep release_def errors_is_def)
  next
    fix d' r assume h: "held gid i w now m = Inr t" and r: "row_at gid i d = Some r" "twin r t"
      and upd: "affected_or_lease_lost ''release'' i (Inr (update_where (held_clause gid i w now) (release_row now) d)) d = (Inr (), d')"
      and rest: "keys_unique d'" "goal_rows d' = goal_rows d" "checkpoint_rows d' = checkpoint_rows d"
      and at: "\<forall>g j. row_at g j d' = map_option (\<lambda>r. if g = gid \<and> j = i then release_row now r else r) (row_at g j d)"
    let ?u = "t\<lparr>t_state := Ready, t_updated := now\<rparr>"
    let ?t = "?u\<lparr>leased_by := '''', lease_expiry := zero_time\<rparr>"
    have tr: "transition t Ready now = Inr ?u" using assms(5) h by (simp add: held_move_def transition_def)
    have "mem_sound m" using assms(1) by (simp add: mirrors_def)
    then have sound: "mem_sound (put_task gid i ?t m)"
      using held_write_keeps [OF _ h assms(2) tr, of ?t] by (simp add: same_task_def keeps_def)
    have "mirrors d' (put_task gid i ?t m)"
      using mirrors_put [OF assms(1) r(1) assms(3), of d' "release_row now" ?t] at rest twin_release [OF r(2)] sound by simp
    with h upd tr show ?thesis by (simp add: agrees_def pg_release_def keep release_def)
  qed
qed

section \<open>Decisions\<close>

lemma twin_decide:
  "twin r t \<Longrightarrow> twin (decide_row ok now r) (t\<lparr>t_state := (if ok then Ready else Cancelled), t_updated := now, approved := ok, t_failure := fl\<rparr>)"
proof -
  let ?up = "\<lambda>u. u\<lparr>t_state := (if ok then Ready else Cancelled), approved := ok, t_failure := ''''\<rparr>"
  have "plain (scan_task (decide_row ok now r)) = ?up (plain (scan_task r))"
    "plain (t\<lparr>t_state := (if ok then Ready else Cancelled), t_updated := now, approved := ok, t_failure := fl\<rparr>) = ?up (plain t)"
    by (simp_all add: plain_def scan_task_def decide_row_def)
  then show "twin r t \<Longrightarrow> ?thesis" by (simp add: twin_def lease_whole_def decide_row_def)
qed

lemma decide_sim:
  assumes "mirrors d m" "task_at gid i m = Some t" "keeps_time P now"
  shows "agrees (pg_decide P no_faults gid i ok now d) (decide gid i ok now m)"
proof -
  have keep: "pe_keep P now = now" using assms(3) by (simp add: keeps_time_def)
  from assms(1) have s: "same_tasks d m" "mem_sound m" and u: "keys_unique d" by (auto simp: mirrors_def same_tasks_def)
  obtain ts where ts: "tasks_of m gid = Some ts" "map_of ts i = Some t" using assms(2) by (auto simp: task_at_tasks)
  obtain r where r: "row_at gid i d = Some r" "twin r t" using same_tasks_twin(2) [OF s(1) assms(2)] by blast
  let ?Q = "\<lambda>r. is_task gid i r \<and> t_state (r_task r) = AwaitingApproval"
  let ?w = "update_where ?Q (decide_row ok now) d"
  have zero: "fst ?w = 0 \<longleftrightarrow> t_state t \<noteq> AwaitingApproval"
    using update_one [OF u, of ?Q gid i "decide_row ok now"] r(1) row_at_is [OF r(1)] twinD(1) [OF r(2)] by auto
  show ?thesis
  proof (cases "t_state t = AwaitingApproval")
    case False
    with zero update_none [of ?Q "decide_row ok now" d] have "fst ?w = 0" "snd ?w = d" by auto
    with False ts assms(1) show ?thesis
      by (cases ?w) (simp add: agrees_def pg_decide_def keep decide_def)
  next
    case True
    let ?t = "\<lambda>fl. t\<lparr>t_state := (if ok then Ready else Cancelled), t_updated := now, approved := ok, t_failure := fl\<rparr>"
    have row: "row_at g j (snd ?w) = map_option (\<lambda>r. if g = gid \<and> j = i then decide_row ok now r else r) (row_at g j d)" for g j
    proof (cases "row_at g j d")
      case (Some x)
      have "?Q x \<longleftrightarrow> g = gid \<and> j = i"
        using row_at_is [OF Some] Some True r(1) twinD(1) [OF r(2)] by (auto simp: is_task_def)
      with Some show ?thesis by (simp add: row_update)
    qed (simp add: row_update)
    have tr: "transition t (if ok then Ready else Cancelled) now = Inr (t\<lparr>t_state := (if ok then Ready else Cancelled), t_updated := now\<rparr>)"
      using True by (simp add: transition_def can_transition_to_def)
    have sound: "mem_sound (put_task gid i (?t fl) m)" for fl
    proof -
      have "keeps m (put_task gid i (?t fl) m)"
      proof (rule put_task_keeps [OF s(2) ts])
        show "moves (t_state t) (t_state (?t fl))" using True by (auto simp: can_transition_to_def intro: moves_one)
      qed (use True soundD [OF mem_soundD [OF s(2) ts(1)] ts(2)] in
          \<open>auto simp: same_task_def active_def sound_task_def lease_clean_def\<close>)
      then show ?thesis by (simp add: keeps_def)
    qed
    have mir: "mirrors (snd ?w) (put_task gid i (?t fl) m)" for fl
      by (rule mirrors_put [OF assms(1) r(1) assms(2) row])
        (simp_all add: keys_update u twin_decide [OF r(2)] sound)
    have pos: "fst ?w \<noteq> 0" using zero True by simp
    show ?thesis
    proof (cases ok)
      case ok: True
      have eq: "t\<lparr>t_state := Ready, t_updated := now, approved := True\<rparr> = ?t (t_failure t)" using ok by simp
      have "mirrors (snd ?w) (put_task gid i (t\<lparr>t_state := Ready, t_updated := now, approved := True\<rparr>) m)"
        unfolding eq by (rule mir)
      with True ok ts pos tr show ?thesis
        by (cases ?w) (simp add: agrees_def pg_decide_def keep decide_def)
    next
      case no: False
      have ts2: "tasks_of (put_task gid i (?t ''declined'') m) gid = Some (AList.update i (?t ''declined'') ts)"
        using ts by (simp add: store_simps)
      from mirrors_propagate [OF mir ts2, of 1 now] obtain d2 ts' where
        "pg_propagate no_faults 1 gid now (snd ?w) = (Inr (), d2)"
        "propagate_in gid (put_task gid i (?t ''declined'') m) = (Inr (), put_tasks gid ts' (put_task gid i (?t ''declined'') m))"
        "mirrors d2 (put_tasks gid ts' (put_task gid i (?t ''declined'') m))" by blast
      with True no ts pos tr show ?thesis
        by (cases ?w) (simp add: agrees_def pg_decide_def keep decide_def)
    qed
  qed
qed

section \<open>Claims\<close>

text \<open>Both stores take the claimable task with the least id.\<close>

lemma map_filter_ids: "(\<And>x. x \<in> set xs \<Longrightarrow> \<exists>v. f x = Some v \<and> key v = x) \<Longrightarrow> map key (List.map_filter f xs) = xs"
proof (induction xs)
  case (Cons x xs)
  from Cons.prems [of x] obtain v where "f x = Some v" "key v = x" by auto
  with Cons show ?case by (simp add: List.map_filter_simps)
qed (simp add: List.map_filter_simps)

lemma ordered_tasks_sorted: "graph_wf ts \<Longrightarrow> sorted (map t_id (filter Q (ordered_tasks ts)))"
proof -
  assume wf: "graph_wf ts"
  have "\<exists>v. map_of ts x = Some v \<and> t_id v = x" if "x \<in> set (sorted_keys ts)" for x
    using that key_map_of_Some [of x ts] graph_wfD(4) [OF wf, of x] by (auto simp: image_iff)
  then have "map t_id (ordered_tasks ts) = sorted_keys ts"
    unfolding ordered_tasks_def sorted_values_def by (intro map_filter_ids) blast
  then have "sorted (map t_id (ordered_tasks ts))" by (simp add: sorted_keys_def)
  then show ?thesis by (rule sorted_filter)
qed

lemma sorted_hd_least: "sorted (map f (x # xs)) \<Longrightarrow> y \<in> set (x # xs) \<Longrightarrow> f x \<le> f y"
  by auto

lemma claim_eval:
  assumes "mem_sound m" "map_of (goals m) gid = Some g" "goal_claimable g" "tasks_of m gid = Some ts"
  shows "claim gid w l now m = (case filter (takeable now ts) (ordered_tasks ts) of
     [] \<Rightarrow> (Inl (ErrNoWork, ''store: no claimable task''), m)
   | t # _ \<Rightarrow> (Inr (take_lease w l now (t\<lparr>t_state := Running, t_updated := now\<rparr>)),
       put_task gid (t_id t) (take_lease w l now (t\<lparr>t_state := Running, t_updated := now\<rparr>)) m))"
proof -
  have cs: "claimable_set now ts = Some (filter (takeable now ts) (ordered_tasks ts))"
    by (rule claimable_set_closed) (use graph_wfD(2) [OF sound_wf [OF mem_soundD [OF assms(1,4)]]] in simp)
  show ?thesis
  proof (cases "filter (takeable now ts) (ordered_tasks ts)")
    case (Cons t rest)
    then have "takeable now ts t" by (metis filter_eq_ConsD)
    with cs Cons assms show ?thesis by (simp add: claim_def claim_moves_takeable Let_def put_task_def)
  qed (use cs assms in \<open>simp add: claim_def\<close>)
qed

lemma row_claimable_takeable:
  assumes "same_tasks d m" "tasks_of m gid = Some ts" "sound ts" "row_at gid i d = Some r" "map_of ts i = Some t" "twin r t" "0 < now"
  shows "row_claimable gid now d r \<longleftrightarrow> takeable now ts t"
proof -
  have u: "keys_unique d" using assms(1) by (simp add: same_tasks_def)
  have at: "task_at gid x m = map_of ts x" for x using assms(2) by (simp add: task_at_def)
  have closed: "\<exists>v. map_of ts x = Some v" if "x \<in> set (edges t)" for x
    using refs_closed_lookup [OF graph_wfD(2) [OF sound_wf [OF assms(3)]] assms(5) that] .
  have dep: "(\<forall>v. row_at gid x d = Some v \<longrightarrow> Q (t_state (r_task v))) \<longleftrightarrow> (\<exists>v. map_of ts x = Some v \<and> Q (t_state v))"
    if x: "x \<in> set (edges t)" for x Q
  proof -
    obtain v where v: "map_of ts x = Some v" using closed [OF x] by blast
    with same_tasks_twin(2) [OF assms(1), of gid x v] at obtain q where "row_at gid x d = Some q" "twin q v" by auto
    with v twinD(1) show ?thesis by force
  qed
  have deps: "list_all (\<lambda>x. t_state x = Succeeded) (joined gid (depends_on (r_task r)) d) \<and>
      list_all (\<lambda>x. terminal (t_state x)) (joined gid (contributes (r_task r)) d) \<longleftrightarrow> deps_ok ts t"
    unfolding joined_all [OF u] deps_ok_def twinD(4,5) [OF assms(6)]
    using dep [of _ "\<lambda>s. s = Succeeded"] dep [of _ terminal] by (simp add: edges_alt)
  have lease: "(case r_expiry r of None \<Rightarrow> True | Some e \<Rightarrow> \<not> after_time e now) \<longleftrightarrow> \<not> after_time (lease_expiry t) now"
    using twinD(10) [OF assms(6)] assms(7) by (auto simp: after_time_def split: option.splits)
  show ?thesis
    using deps twinD(1) [OF assms(6)] by (auto simp: row_claimable_def Let_def takeable_def lease)
qed

lemma twin_lease:
  "twin r t \<Longrightarrow> w \<noteq> '''' \<Longrightarrow>
     twin (lease_row w (now + l) now r) (take_lease w l now (t\<lparr>t_state := Running, t_updated := now\<rparr>))"
proof -
  assume tw: "twin r t" "w \<noteq> ''''"
  let ?up = "\<lambda>a u. u\<lparr>t_state := Running, leased_by := w, lease_expiry := now + l, attempt := a, t_failure := ''''\<rparr>"
  have "plain (scan_task (lease_row w (now + l) now r)) = ?up (attempt (r_task r) + 1) (plain (scan_task r))"
    "plain (take_lease w l now (t\<lparr>t_state := Running, t_updated := now\<rparr>)) = ?up (attempt t + 1) (plain t)"
    by (simp_all add: plain_def scan_task_def lease_row_def take_lease_def)
  with tw twinD(6) [OF tw(1)] show ?thesis by (simp add: twin_def lease_whole_def lease_row_def)
qed

lemma claim_sim:
  assumes "mirrors d m" "w \<noteq> ''''" "tasks_of m gid = Some ts" "map_of (goals m) gid = Some g"
    "keeps_time P now" "keeps_time P (now + l)" "\<And>s. pe_collate P s = s"
  shows "map_sum fst plain (fst (pg_claim P no_faults (\<lambda>_. False) gid w l now d)) = map_sum fst plain (fst (claim gid w l now m)) \<and>
    mirrors (snd (pg_claim P no_faults (\<lambda>_. False) gid w l now d)) (snd (claim gid w l now m))"
proof -
  have keep: "pe_keep P now = now" "pe_keep P (now + l) = now + l" "0 < now" using assms(5,6) by (simp_all add: keeps_time_def)
  from assms(1) have s: "same_tasks d m" "mem_sound m" and u: "keys_unique d" by (auto simp: mirrors_def same_tasks_def)
  have sound: "sound ts" by (rule mem_soundD [OF s(2) assms(3)])
  have row: "goal_row_of gid d = Some g" using assms(1,4) by (simp add: mirrors_def same_goals_def)
  have at: "task_at gid x m = map_of ts x" for x using assms(3) by (simp add: task_at_def)
  let ?rs = "sort_key (\<lambda>r. t_id (r_task r)) (filter (row_claimable gid now d) (rows_of_dag gid d))"
  let ?ts = "filter (takeable now ts) (ordered_tasks ts)"
  show ?thesis
  proof (cases "g_state g = GoalRunning")
    case False
    then have "claim gid w l now m = (Inl (ErrNoWork, ''store: no claimable task: goal is '' @ goal_state_name (g_state g)), m)"
      using assms(4) by (simp add: claim_def goal_claimable_def)
    with False row assms(1) show ?thesis by (simp add: pg_claim_def claim_statement_def)
  next
    case True
    have pg: "pg_claim P no_faults (\<lambda>_. False) gid w l now d =
        (case ?rs of [] \<Rightarrow> (Inl (ErrNoWork, ''store: no claimable task''), d)
         | r # _ \<Rightarrow> (Inr (scan_task (lease_row w (now + l) now r)),
             snd (update_where (is_task gid (t_id (r_task r))) (lease_row w (now + l) now) d)))"
      using True row assms(2,7) by (simp add: pg_claim_def claim_statement_def keep split: list.split)
    have mem: "claim gid w l now m = (case ?ts of
        [] \<Rightarrow> (Inl (ErrNoWork, ''store: no claimable task''), m)
      | t # _ \<Rightarrow> (Inr (take_lease w l now (t\<lparr>t_state := Running, t_updated := now\<rparr>)),
         put_task gid (t_id t) (take_lease w l now (t\<lparr>t_state := Running, t_updated := now\<rparr>)) m))"
      using claim_eval [OF s(2) assms(4) _ assms(3)] True by (simp add: goal_claimable_def)
    have rows: "r \<in> set ?rs \<longleftrightarrow> row_at gid (t_id (r_task r)) d = Some r \<and> row_claimable gid now d r" for r
      using row_of_dag [OF u] by auto
    have tasks: "t \<in> set ?ts \<longleftrightarrow> map_of ts (t_id t) = Some t \<and> takeable now ts t" for t
      using graph_wfD(4) [OF sound_wf [OF sound]] by (auto simp: ordered_tasks_lookup)
    have to_task: "\<exists>t \<in> set ?ts. t_id t = t_id (r_task r) \<and> twin r t" if r: "r \<in> set ?rs" for r
    proof -
      from r rows have ra: "row_at gid (t_id (r_task r)) d = Some r" "row_claimable gid now d r" by blast+
      from same_tasks_twin(1) [OF s(1) ra(1)] at obtain t where t: "map_of ts (t_id (r_task r)) = Some t" "twin r t" by auto
      with ra row_claimable_takeable [OF s(1) assms(3) sound ra(1) t keep(3)] twinD(2) [OF t(2)] tasks show ?thesis by metis
    qed
    have to_row: "\<exists>r \<in> set ?rs. t_id (r_task r) = t_id t \<and> twin r t" if t: "t \<in> set ?ts" for t
    proof -
      from t tasks have ta: "map_of ts (t_id t) = Some t" "takeable now ts t" by blast+
      from same_tasks_twin(2) [OF s(1), of gid "t_id t" t] at ta obtain r where r: "row_at gid (t_id t) d = Some r" "twin r t" by auto
      with ta row_claimable_takeable [OF s(1) assms(3) sound r(1) ta(1) r(2) keep(3)] twinD(2) [OF r(2)] rows show ?thesis by metis
    qed
    show ?thesis
    proof (cases ?rs)
      case Nil
      then have "?ts = []" using to_row by (metis empty_iff hd_in_set list.set(1))
      then show ?thesis unfolding pg mem Nil using assms(1) by simp
    next
      case (Cons r rs)
      then have rin: "r \<in> set ?rs" by (metis list.set_intros(1))
      from to_task [OF this] obtain t0 where "t0 \<in> set ?ts" by blast
      then obtain t tl where ts: "?ts = t # tl" by (metis empty_iff list.exhaust list.set(1))
      then have tin: "t \<in> set ?ts" by (metis list.set_intros(1))
      have sr: "sorted (map (\<lambda>r. t_id (r_task r)) ?rs)" by simp
      have st: "sorted (map t_id ?ts)" by (rule ordered_tasks_sorted [OF sound_wf [OF sound]])
      obtain t1 where t1: "t1 \<in> set ?ts" "t_id t1 = t_id (r_task r)" "twin r t1" using to_task [OF rin] by blast
      obtain r1 where r1: "r1 \<in> set ?rs" "t_id (r_task r1) = t_id t" using to_row [OF tin] by blast
      have "t_id t \<le> t_id (r_task r)" using sorted_hd_least [of t_id t tl t1] st t1 unfolding ts by simp
      moreover have "t_id (r_task r) \<le> t_id t"
        using sorted_hd_least [of "\<lambda>r. t_id (r_task r)" r rs r1] sr r1 unfolding Cons by simp
      ultimately have id: "t_id t = t_id (r_task r)" by simp
      with t1(1,2) tin tasks have "t1 = t" by (metis option.inject)
      with t1 have tw: "twin r t" by simp
      let ?t = "take_lease w l now (t\<lparr>t_state := Running, t_updated := now\<rparr>)"
      let ?d = "snd (update_where (is_task gid (t_id (r_task r))) (lease_row w (now + l) now) d)"
      have ra: "row_at gid (t_id (r_task r)) d = Some r" using rin rows by blast
      have ta: "task_at gid (t_id (r_task r)) m = Some t" using tin tasks id at by metis
      have claim: "claim gid w l now m = (Inr ?t, put_task gid (t_id t) ?t m)" unfolding mem ts by simp
      then have "keeps m (put_task gid (t_id t) ?t m)" using claim_keeps s(2) by blast
      then have sound': "mem_sound (put_task gid (t_id (r_task r)) ?t m)" by (simp add: keeps_def id)
      have "mirrors ?d (put_task gid (t_id (r_task r)) ?t m)"
      proof (rule mirrors_put [OF assms(1) ra ta, of ?d "lease_row w (now + l) now"])
        show "row_at g j ?d = map_option (\<lambda>x. if g = gid \<and> j = t_id (r_task r) then lease_row w (now + l) now x else x) (row_at g j d)"
          for g j
        proof (cases "row_at g j d")
          case (Some x)
          have "is_task gid (t_id (r_task r)) x \<longleftrightarrow> g = gid \<and> j = t_id (r_task r)"
            using row_at_is [OF Some] by (auto simp: is_task_def)
          with Some show ?thesis by (simp add: row_update)
        qed (simp add: row_update)
      qed (simp_all add: keys_update u twin_lease [OF tw assms(2)] sound')
      moreover have "plain (scan_task (lease_row w (now + l) now r)) = plain ?t"
        using twin_lease [OF tw assms(2)] by (simp add: twin_def)
      ultimately show ?thesis unfolding pg claim Cons by (simp add: id)
    qed
  qed
qed

section \<open>Cancellation\<close>

lemma twin_cancel:
  assumes "twin r t" "t_goal (r_task r) = gid"
  shows "row_cancellable gid now r \<longleftrightarrow> cancellable t now"
    and "twin (if row_cancellable gid now r then cancel_row now r else r) (cancel_task now t)"
proof -
  show iff: "row_cancellable gid now r \<longleftrightarrow> cancellable t now"
    using twinD(1,7,10,11) [OF assms(1)] assms(2) by (auto simp: row_cancellable_def cancellable_def split: option.splits)
  let ?up = "\<lambda>u. u\<lparr>t_state := Cancelled, t_failure := ''''\<rparr>"
  have "plain (scan_task (cancel_row now r)) = ?up (plain (scan_task r))"
    "plain (t\<lparr>t_state := Cancelled, t_updated := now\<rparr>) = ?up (plain t)"
    by (simp_all add: plain_def scan_task_def cancel_row_def)
  with assms iff show "twin (if row_cancellable gid now r then cancel_row now r else r) (cancel_task now t)"
    by (simp add: twin_def lease_whole_def cancel_row_def cancel_task_def)
qed

lemma goal_row_map:
  "(\<And>g. g_id (h g) = g_id g) \<Longrightarrow> goal_row_of gid (d\<lparr>goal_rows := map h (goal_rows d)\<rparr>) = map_option h (goal_row_of gid d)"
  by (simp add: goal_row_of_def find_map_same)

text \<open>The number of rows an update changes is the number of tasks the loop cancels.\<close>

lemma count_bij:
  assumes "distinct (map f xs)" "distinct (map g ys)"
    and "\<And>k. (\<exists>x \<in> set xs. f x = k \<and> Q x) \<longleftrightarrow> (\<exists>y \<in> set ys. g y = k \<and> R y)"
  shows "length (filter Q xs) = length (filter R ys)"
proof -
  have "set (map f (filter Q xs)) = set (map g (filter R ys))"
  proof (rule set_eqI)
    fix k
    have "k \<in> set (map f (filter Q xs)) \<longleftrightarrow> (\<exists>x \<in> set xs. f x = k \<and> Q x)" by auto
    also have "\<dots> \<longleftrightarrow> k \<in> set (map g (filter R ys))" unfolding assms(3) by auto
    finally show "k \<in> set (map f (filter Q xs)) \<longleftrightarrow> k \<in> set (map g (filter R ys))" .
  qed
  moreover have "distinct (map f (filter Q xs))" "distinct (map g (filter R ys))" using assms(1,2) by simp_all
  ultimately show ?thesis by (metis distinct_card length_map)
qed

lemma keyed_update: "keyed m \<Longrightarrow> g_id g = gid \<Longrightarrow> keyed (m\<lparr>goals := AList.update gid g (goals m)\<rparr>)"
proof -
  assume k: "keyed m" "g_id g = gid"
  then have "distinct (map fst (AList.update gid g (goals m)))" by (simp add: keyed_def)
  moreover have "g_id h = j" if "(j, h) \<in> set (AList.update gid g (goals m))" for j h
  proof -
    have "map_of (AList.update gid g (goals m)) j = Some h" using calculation that by (rule map_of_is_SomeI)
    then show ?thesis using k by (auto simp: keyed_def split: if_splits dest: map_of_SomeD)
  qed
  ultimately show ?thesis by (auto simp: keyed_def)
qed

lemma same_goals_state:
  assumes "same_goals d m" "map_of (goals m) gid = Some g"
  shows "same_goals (set_goal_state gid st now d) (m\<lparr>goals := AList.update gid (g\<lparr>g_state := st, g_updated := now\<rparr>) (goals m)\<rparr>)"
proof -
  let ?h = "\<lambda>g :: goal. if g_id g = gid then g\<lparr>g_state := st, g_updated := now\<rparr> else g"
  have k: "g_id (?h x) = g_id x" for x by simp
  have "g_id \<circ> ?h = g_id" by (simp add: fun_eq_iff)
  then have "distinct (map g_id (map ?h (goal_rows d)))"
    using assms(1) unfolding map_map by (simp only: same_goals_def)
  moreover have key: "g_id x = j" if "map_of (goals m) j = Some x" for j x
    using assms(1) map_of_SomeD [OF that] by (auto simp: same_goals_def keyed_def)
  moreover have "map_option ?h (map_of (goals m) j) = ((map_of (goals m))(gid \<mapsto> ?h g)) j" for j
    by (cases "j = gid"; cases "map_of (goals m) j") (use key assms(2) in auto)
  moreover have "g_id g = gid" by (rule key [OF assms(2)])
  ultimately show ?thesis
    using assms(1) keyed_update [of m "g\<lparr>g_state := st, g_updated := now\<rparr>" gid]
    unfolding same_goals_def set_goal_state_def goal_row_map [OF k] by simp
qed

lemma cancel_sim:
  assumes "mirrors d m" "map_of (goals m) gid = Some g" "keeps_time P now"
  shows "(case fst (pg_cancel P no_faults gid now d) of Inl e \<Rightarrow> Inl (fst e) | Inr n \<Rightarrow> Inr n) =
      (case fst (cancel gid now m) of (n, None) \<Rightarrow> Inr n | (n, Some e) \<Rightarrow> Inl (fst e)) \<and>
    mirrors (snd (pg_cancel P no_faults gid now d)) (snd (cancel gid now m))"
proof -
  have keep: "pe_keep P now = now" using assms(3) by (simp add: keeps_time_def)
  from assms(1) have s: "same_goals d m" "same_tasks d m" "same_checkpoints d m" "mem_sound m" and u: "keys_unique d"
    by (auto simp: mirrors_def same_tasks_def)
  have row: "goal_row_of gid d = Some g" using s(1) assms(2) by (simp add: same_goals_def)
  show ?thesis
  proof (cases "goal_terminal (g_state g)")
    case True
    with row assms(1,2) show ?thesis
      by (simp add: pg_cancel_def cancel_def cancel_goal_def transaction_def sql_def Let_def)
  next
    case False
    let ?g = "g\<lparr>g_state := GoalCancelled, g_updated := now\<rparr>"
    let ?m1 = "m\<lparr>goals := AList.update gid ?g (goals m)\<rparr>"
    let ?d1 = "set_goal_state gid GoalCancelled now d"
    let ?w = "update_where (row_cancellable gid now) (cancel_row now) ?d1"
    have pg: "pg_cancel P no_faults gid now d = (Inr (int (fst ?w)), snd ?w)"
      using False row by (cases ?w) (simp add: pg_cancel_def cancel_goal_def transaction_def sql_def Let_def keep)
    have tr1: "task_rows ?d1 = task_rows d" by (simp add: set_goal_state_def)
    have at1: "row_at h j ?d1 = row_at h j d" for h j by (simp add: row_at_def tr1)
    have u1: "keys_unique ?d1" using u by (simp add: keys_unique_def tr1)
    have at: "row_at h j (snd ?w) = map_option (\<lambda>r. if row_cancellable gid now r then cancel_row now r else r) (row_at h j d)" for h j
      by (simp add: row_update at1)
    let ?m2 = "snd (cancel gid now m)"
    have mem: "cancel gid now m = (case tasks_of m gid of None \<Rightarrow> ((0, None), ?m1)
        | Some ts \<Rightarrow> ((int (length (filter (\<lambda>(_, t). cancellable t now) ts)), None),
            put_tasks gid (map (\<lambda>(i, t). (i, cancel_task now t)) ts) ?m1))"
      using False assms(2) by (simp add: cancel_def cancel_goal_def Let_def store_simps cancel_tasks_eq split: option.split)
    have tat: "task_at h j ?m2 = map_option (if h = gid then cancel_task now else id) (task_at h j m)" for h j
      by (cases "tasks_of m gid")
        (auto simp: mem task_at_def store_simps map_of_cancel option.map_id split: option.split)
    have cnt: "int (fst ?w) = fst (fst (cancel gid now m))"
    proof (cases "tasks_of m gid")
      case None
      then have "row_at gid j d = None" for j using same_tasks_twin(3) [OF s(2), of gid j] by (simp add: task_at_def)
      then have "\<forall>r \<in> set (task_rows d). t_goal (r_task r) \<noteq> gid" by (auto simp: row_at_None is_task_def)
      then have "filter (row_cancellable gid now) (task_rows ?d1) = []" by (auto simp: filter_empty_conv row_cancellable_def tr1)
      then show ?thesis by (simp add: update_where_def mem None)
    next
      case (Some ts)
      have dist: "distinct (map fst ts)" using graph_wfD(1) [OF sound_wf [OF mem_soundD [OF s(4) Some]]] .
      let ?rows = "rows_of_dag gid d"
      have drows: "distinct (map (\<lambda>r. t_id (r_task r)) ?rows)"
      proof -
        have "distinct (map row_key ?rows)" using u by (simp add: keys_unique_def rows_of_dag_def)
        then show ?thesis by (auto simp: distinct_map row_key_def rows_of_dag_def inj_on_def)
      qed
      have sub: "filter (row_cancellable gid now) (task_rows d) = filter (row_cancellable gid now) ?rows"
        unfolding rows_of_dag_def filter_filter by (rule filter_cong) (auto simp: row_cancellable_def)
      have "length (filter (row_cancellable gid now) ?rows) = length (filter (\<lambda>p. cancellable (snd p) now) ts)"
      proof (rule count_bij [OF drows dist])
        fix k
        have bij: "(\<exists>x \<in> set ?rows. t_id (r_task x) = k \<and> row_cancellable gid now x) \<longleftrightarrow>
            (\<exists>r. row_at gid k d = Some r \<and> row_cancellable gid now r)"
          using row_of_dag [OF u, of _ gid] row_at_is [of gid k d] by (auto simp: is_task_def)
        have "(\<exists>y \<in> set ts. fst y = k \<and> cancellable (snd y) now) \<longleftrightarrow> (\<exists>t. task_at gid k m = Some t \<and> cancellable t now)"
          using dist Some by (force simp: task_at_def)
        also have "\<dots> \<longleftrightarrow> (\<exists>r. row_at gid k d = Some r \<and> row_cancellable gid now r)"
        proof (cases "row_at gid k d")
          case (Some r)
          from same_tasks_twin(1) [OF s(2) Some] obtain t where t: "task_at gid k m = Some t" "twin r t" by blast
          have "t_goal (r_task r) = gid" using row_at_is [OF Some] by (simp add: is_task_def)
          with t Some twin_cancel(1) [OF t(2)] show ?thesis by simp
        qed (use same_tasks_twin(3) [OF s(2), of gid k] in simp)
        finally show "(\<exists>x \<in> set ?rows. t_id (r_task x) = k \<and> row_cancellable gid now x) \<longleftrightarrow>
            (\<exists>y \<in> set ts. fst y = k \<and> cancellable (snd y) now)" using bij by blast
      qed
      then show ?thesis by (simp add: update_where_def mem Some tr1 sub split_def)
    qed
    have "same_tasks (snd ?w) ?m2"
    proof (rule same_tasks_step [OF s(2)])
      show "keys_unique (snd ?w)" using u1 by (simp add: keys_update)
      show "row_at h j (snd ?w) = map_option (\<lambda>r. if row_cancellable gid now r then cancel_row now r else r) (row_at h j d)" for h j
        by (rule at)
      show "task_at h j ?m2 = map_option (if h = gid then cancel_task now else id) (task_at h j m)" for h j by (rule tat)
      show "twin (if row_cancellable gid now r then cancel_row now r else r) ((if h = gid then cancel_task now else id) t)"
        if "row_at h j d = Some r" "twin r t" for h j r t
        using twin_cancel(2) [OF that(2), of gid now] that row_at_is [OF that(1)]
        by (auto simp: is_task_def row_cancellable_def)
      show "tasks_of ?m2 h \<noteq> Some []" for h
        using s(2) by (auto simp: mem same_tasks_def store_simps split: option.split)
    qed
    moreover have "same_goals (snd ?w) ?m2"
      using same_goals_state [OF s(1) assms(2), of GoalCancelled now]
      by (rule same_goals_rest) (simp_all add: mem store_simps split: option.split)
    moreover have "same_checkpoints (snd ?w) ?m2"
      using s(3) by (rule same_checkpoints_rest) (simp_all add: set_goal_state_def mem store_simps split: option.split)
    moreover have "mem_sound ?m2" using cancel_keeps [of gid now m "fst (cancel gid now m)" ?m2] s(4) by (simp add: keeps_def)
    moreover have "snd (fst (cancel gid now m)) = None" by (simp add: mem split: option.split)
    ultimately show ?thesis using cnt by (auto simp: pg mirrors_def split: prod.split option.split)
  qed
qed

end
