(* ===== verification/Store_Agree.thy ===== *)
theory Store_Agree
  imports Store_Sim
begin

text \<open>
  The simulation continued: goals, graphs, checkpoints and reads, the tenant views around them, and the interpretation of
  \<open>simulation\<close>: every sequence of calls is answered alike by both stores.
\<close>

section \<open>Goals\<close>

lemma keeps_time_nz: "keeps_time P t \<Longrightarrow> pe_keep P (nz_epoch t) = t"
  by (simp add: keeps_time_def nz_epoch_def)

lemma storable_goal_row: "storable_goal P g \<Longrightarrow> goal_row P g = g"
  by (auto simp: storable_goal_def goal_row_def keeps_time_nz null_time_def keeps_time_def)

lemma keyed_put_goal: "keyed m \<Longrightarrow> keyed (put_goal g m)"
  by (simp add: put_goal_def keyed_update)

lemma same_tasks_rest: "same_tasks d m \<Longrightarrow> task_rows d' = task_rows d \<Longrightarrow> tasks_of m' = tasks_of m \<Longrightarrow> same_tasks d' m'"
  by (simp add: same_tasks_def keys_unique_def row_at_def task_at_def)

lemma checkpoints_put_goal [simp]: "checkpoints (put_goal g m) = checkpoints m"
  by (simp add: put_goal_def)

lemma create_sim:
  assumes "mirrors d m" "storable_goal P g"
  shows "agrees (pg_create_goal P no_faults g d) (create_goal g m)"
proof -
  from assms(1) have s: "same_goals d m" "same_tasks d m" "same_checkpoints d m" "mem_sound m" by (auto simp: mirrors_def)
  have rc: "refusal_has_cause g" using assms(2) by (simp add: storable_goal_def)
  have row: "goal_row_of (g_id g) d = map_of (goals m) (g_id g)" using s(1) by (simp add: same_goals_def)
  show ?thesis
  proof (cases "map_of (goals m) (g_id g)")
    case (Some x)
    with assms(1) row rc show ?thesis
      by (simp add: agrees_def pg_create_goal_def insert_goal_def create_goal_def wrapped_def)
  next
    case None
    let ?d = "d\<lparr>goal_rows := goal_rows d @ [g]\<rparr>" and ?m = "put_goal g m"
    have fresh: "\<forall>x \<in> set (goal_rows d). g_id x \<noteq> g_id g" using row None by (simp add: goal_row_of_def find_none)
    have "goal_row_of j ?d = map_of (goals ?m) j" for j
      using s(1) None by (auto simp: goal_row_of_def find_append same_goals_def put_goal_def split: option.split)
    then have "same_goals ?d ?m" using s(1) fresh by (auto simp: same_goals_def keyed_put_goal)
    moreover have "same_tasks ?d ?m" using s(2) by (rule same_tasks_rest) (simp_all add: store_simps)
    moreover have "same_checkpoints ?d ?m" using s(3) by (rule same_checkpoints_rest) simp_all
    moreover have "mem_sound ?m"
      using create_goal_keeps [of g m "Inr ()" ?m] s(4) None by (simp add: create_goal_def keeps_def)
    ultimately have "mirrors ?d ?m" by (simp add: mirrors_def)
    with None row rc storable_goal_row [OF assms(2)] show ?thesis
      by (simp add: agrees_def pg_create_goal_def insert_goal_def create_goal_def)
  qed
qed

lemma save_goal_sim:
  assumes "mirrors d m" "storable_goal P g" "map_of (goals m) (g_id g) = Some cur" "g_created cur = g_created g"
  shows "agrees (pg_save_goal P no_faults g d) (save_goal g m)"
proof -
  from assms(1) have s: "same_goals d m" "same_tasks d m" "same_checkpoints d m" "mem_sound m" by (auto simp: mirrors_def)
  have rc: "refusal_has_cause g" using assms(2) by (simp add: storable_goal_def)
  have row: "goal_row_of (g_id g) d = Some cur" using s(1) assms(3) by (simp add: same_goals_def)
  show ?thesis
  proof (cases "refuse_terminal_overwrite (g_state cur) g")
    case (Inl e)
    with row assms(1,3) show ?thesis
      by (simp add: agrees_def pg_save_goal_def Let_def transaction_def sql_def save_goal_def)
  next
    case (Inr x)
    let ?h = "\<lambda>x :: goal. if g_id x = g_id g then g\<lparr>g_created := g_created x\<rparr> else x"
    let ?d = "d\<lparr>goal_rows := map ?h (goal_rows d)\<rparr>" and ?m = "put_goal g m"
    have key: "g_id x = j" if "map_of (goals m) j = Some x" for j x
      using s(1) map_of_SomeD [OF that] by (auto simp: same_goals_def keyed_def)
    have "g_id \<circ> ?h = g_id" by (simp add: fun_eq_iff)
    then have "distinct (map g_id (map ?h (goal_rows d)))" using s(1) unfolding map_map by (simp only: same_goals_def)
    moreover have "goal_row_of j ?d = map_of (goals ?m) j" for j
    proof -
      have "goal_row_of j ?d = map_option ?h (map_of (goals m) j)" using s(1) by (simp add: goal_row_map same_goals_def)
      then show ?thesis
        by (cases "j = g_id g"; cases "map_of (goals m) j") (use key assms(3,4) in \<open>auto simp: put_goal_def\<close>)
    qed
    ultimately have "same_goals ?d ?m" using s(1) by (simp add: same_goals_def keyed_put_goal)
    moreover have "same_tasks ?d ?m" using s(2) by (rule same_tasks_rest) (simp_all add: store_simps)
    moreover have "same_checkpoints ?d ?m" using s(3) by (rule same_checkpoints_rest) simp_all
    moreover have "mem_sound ?m"
      using save_goal_keeps [of g m "Inr ()" ?m] s(4) Inr assms(3) by (simp add: save_goal_def keeps_def)
    ultimately have mir: "mirrors ?d ?m" by (simp add: mirrors_def)
    have "filter (\<lambda>x. g_id x = g_id g) (goal_rows d) \<noteq> []"
      using row by (auto simp: goal_row_of_def find_Some_iff filter_empty_conv)
    moreover have "update_goal P g d = Inr (length (filter (\<lambda>x. g_id x = g_id g) (goal_rows d)), ?d)"
      unfolding update_goal_def storable_goal_row [OF assms(2)] using rc by simp
    ultimately show ?thesis using mir Inr row assms(3)
      by (simp add: agrees_def pg_save_goal_def Let_def transaction_def sql_def save_goal_def)
  qed
qed

section \<open>Graphs\<close>

text \<open>What holds while the tasks of a graph are written: each row of the goal mirrors a task of the new graph.\<close>

definition partly_saved :: "string \<Rightarrow> tasks \<Rightarrow> store_db \<Rightarrow> bool" where
  "partly_saved gid ts d \<longleftrightarrow> keys_unique d \<and>
     (\<forall>i r. row_at gid i d = Some r \<longrightarrow> (\<exists>t. map_of ts i = Some t \<and> twin r t))"

lemma new_row_twin:
  assumes "t_goal t = gid" "\<not> approved t" "leased_by t = ''''" "lease_expiry t = zero_time" "keeps_time P (t_created t)"
  shows "twin (new_task_row P gid t) t"
  using assms by (simp add: twin_def lease_whole_def new_task_row_def plain_def scan_task_def keeps_time_nz)

lemma restructured_twin:
  assumes "twin r t"
  shows "twin (restructured P t r) t"
proof -
  have "plain (scan_task (restructured P t r)) =
      (plain (scan_task r))\<lparr>t_kind := t_kind t, depends_on := depends_on t, contributes := contributes t\<rparr>"
    by (simp add: plain_def scan_task_def restructured_def)
  also have "\<dots> = (plain t)\<lparr>t_kind := t_kind t, depends_on := depends_on t, contributes := contributes t\<rparr>"
    using assms by (simp add: twin_def)
  also have "\<dots> = plain t" by (simp add: plain_def)
  finally show ?thesis using assms by (simp add: twin_def lease_whole_def restructured_def)
qed

lemma upsert_task_step:
  assumes p: "partly_saved gid ts d" and t: "map_of ts (t_id t) = Some t"
    and keys: "\<And>i u. map_of ts i = Some u \<Longrightarrow> idempotency_key u = idempotency_key t \<Longrightarrow> idempotency_key t \<noteq> '''' \<Longrightarrow> i = t_id t"
    and goal: "goal_row_of gid d \<noteq> None"
    and fresh: "row_at gid (t_id t) d = None \<Longrightarrow> twin (new_task_row P gid t) t"
  obtains d' where "upsert_task P gid t d = Inr d'" "partly_saved gid ts d'" "row_at gid (t_id t) d' \<noteq> None"
    "goal_rows d' = goal_rows d" "checkpoint_rows d' = checkpoint_rows d"
    "\<And>g j. g \<noteq> gid \<Longrightarrow> row_at g j d' = row_at g j d" "\<And>j. row_at gid j d \<noteq> None \<Longrightarrow> row_at gid j d' \<noteq> None"
proof (cases "row_at gid (t_id t) d")
  case (Some r)
  let ?d = "snd (update_where (is_task gid (t_id t)) (restructured P t) d)"
  have up: "upsert_task P gid t d = Inr ?d" using row_at_is [OF Some] by (auto simp: upsert_task_def)
  have at: "row_at g j ?d = map_option (\<lambda>r. if is_task gid (t_id t) r then restructured P t r else r) (row_at g j d)" for g j
    by (simp add: row_update)
  have u: "keys_unique d" using p by (simp add: partly_saved_def)
  have "\<exists>v. map_of ts i = Some v \<and> twin q v" if q: "row_at gid i ?d = Some q" for i q
  proof -
    from q at obtain q0 where q0: "row_at gid i d = Some q0"
      "q = (if is_task gid (t_id t) q0 then restructured P t q0 else q0)" by auto
    with p obtain v where v: "map_of ts i = Some v" "twin q0 v" by (auto simp: partly_saved_def)
    show ?thesis
    proof (cases "is_task gid (t_id t) q0")
      case True
      with row_at_is [OF q0(1)] have "i = t_id t" by (simp add: is_task_def)
      with v t q0 True restructured_twin show ?thesis by auto
    qed (use v q0 in auto)
  qed
  then have "partly_saved gid ts ?d" using u by (simp add: partly_saved_def keys_update)
  moreover have "row_at g j ?d = row_at g j d" if "g \<noteq> gid" for g j
    using that row_at_is [of g j d] by (cases "row_at g j d") (auto simp: at is_task_def)
  ultimately show ?thesis using up Some by (intro that [of ?d]) (simp_all add: at)
next
  case None
  let ?r = "new_task_row P gid t" and ?d = "d\<lparr>task_rows := task_rows d @ [new_task_row P gid t]\<rparr>"
  have u: "keys_unique d" using p by (simp add: partly_saved_def)
  have absent: "\<not> (\<exists>r \<in> set (task_rows d). is_task gid (t_id t) r)" using None by (simp add: row_at_None)
  have nodup: "\<not> (idempotency_key t \<noteq> '''' \<and>
      (\<exists>r \<in> set (task_rows d). t_goal (r_task r) = gid \<and> idempotency_key (r_task r) = idempotency_key t))"
  proof
    assume "idempotency_key t \<noteq> '''' \<and> (\<exists>r \<in> set (task_rows d). t_goal (r_task r) = gid \<and> idempotency_key (r_task r) = idempotency_key t)"
    then obtain r where r: "r \<in> set (task_rows d)" "t_goal (r_task r) = gid" "idempotency_key (r_task r) = idempotency_key t"
      and k: "idempotency_key t \<noteq> ''''" by blast
    have "row_at gid (t_id (r_task r)) d = Some r" using r(1,2) by (simp add: row_at_Some [OF u] is_task_def)
    with p obtain v where v: "map_of ts (t_id (r_task r)) = Some v" "twin r v" by (auto simp: partly_saved_def)
    with keys [OF v(1)] twinD(8) [OF v(2)] r(3) k have "t_id (r_task r) = t_id t" by simp
    with \<open>row_at gid (t_id (r_task r)) d = Some r\<close> None show False by simp
  qed
  have up: "upsert_task P gid t d = Inr ?d" using absent nodup goal by (simp add: upsert_task_def)
  have at: "row_at g j ?d = (case row_at g j d of None \<Rightarrow> if g = gid \<and> j = t_id t then Some ?r else None | Some x \<Rightarrow> Some x)" for g j
    by (auto simp: row_at_def find_append is_task_def new_task_row_def split: option.split)
  have "keys_unique ?d" using u absent by (auto simp: keys_unique_def is_task_key row_key_def new_task_row_def)
  moreover have "\<exists>v. map_of ts i = Some v \<and> twin q v" if "row_at gid i ?d = Some q" for i q
    using that p t fresh [OF None] by (auto simp: at partly_saved_def split: option.splits if_splits)
  ultimately have "partly_saved gid ts ?d" by (simp add: partly_saved_def)
  moreover have "row_at g j ?d = row_at g j d" if "g \<noteq> gid" for g j
    using that by (simp add: at split: option.split)
  ultimately show ?thesis using up None by (intro that [of ?d]) (auto simp: at split: option.split)
qed

lemma upsert_tasks_spec:
  assumes "partly_saved gid ts d" "goal_row_of gid d \<noteq> None"
    and "\<And>t. t \<in> set us \<Longrightarrow> map_of ts (t_id t) = Some t \<and> require_idempotency t = Inr () \<and>
       (row_at gid (t_id t) d = None \<longrightarrow> twin (new_task_row P gid t) t)"
    and keys: "\<And>t i u. t \<in> set us \<Longrightarrow> map_of ts i = Some u \<Longrightarrow> idempotency_key u = idempotency_key t \<Longrightarrow> idempotency_key t \<noteq> '''' \<Longrightarrow> i = t_id t"
  shows "\<exists>d'. upsert_tasks P no_faults k gid us d = Inr d' \<and> partly_saved gid ts d' \<and> (\<forall>t \<in> set us. row_at gid (t_id t) d' \<noteq> None) \<and>
    goal_rows d' = goal_rows d \<and> checkpoint_rows d' = checkpoint_rows d \<and>
    (\<forall>g j. g \<noteq> gid \<longrightarrow> row_at g j d' = row_at g j d) \<and> (\<forall>j. row_at gid j d \<noteq> None \<longrightarrow> row_at gid j d' \<noteq> None)"
  using assms
proof (induction us arbitrary: k d)
  case (Cons t us)
  from Cons.prems(3) [of t] have t: "map_of ts (t_id t) = Some t" "require_idempotency t = Inr ()"
    "row_at gid (t_id t) d = None \<Longrightarrow> twin (new_task_row P gid t) t" by simp_all
  obtain d1 where d1: "upsert_task P gid t d = Inr d1" "partly_saved gid ts d1" "row_at gid (t_id t) d1 \<noteq> None"
    "goal_rows d1 = goal_rows d" "checkpoint_rows d1 = checkpoint_rows d"
    "\<And>g j. g \<noteq> gid \<Longrightarrow> row_at g j d1 = row_at g j d" "\<And>j. row_at gid j d \<noteq> None \<Longrightarrow> row_at gid j d1 \<noteq> None"
  proof -
    have k: "map_of ts i = Some u \<Longrightarrow> idempotency_key u = idempotency_key t \<Longrightarrow> idempotency_key t \<noteq> '''' \<Longrightarrow> i = t_id t" for i u
      by (rule Cons.prems(4) [OF list.set_intros(1)])
    show ?thesis
      by (rule upsert_task_step [OF Cons.prems(1) t(1), where P = P]; (erule (2) k | rule Cons.prems(2) | erule t(3) | (rule that; assumption)))
  qed
  have "\<exists>d'. upsert_tasks P no_faults (Suc k) gid us d1 = Inr d' \<and> partly_saved gid ts d' \<and> (\<forall>t \<in> set us. row_at gid (t_id t) d' \<noteq> None) \<and>
    goal_rows d' = goal_rows d1 \<and> checkpoint_rows d' = checkpoint_rows d1 \<and>
    (\<forall>g j. g \<noteq> gid \<longrightarrow> row_at g j d' = row_at g j d1) \<and> (\<forall>j. row_at gid j d1 \<noteq> None \<longrightarrow> row_at gid j d' \<noteq> None)"
  proof (rule Cons.IH [OF d1(2)])
    show "goal_row_of gid d1 \<noteq> None" using Cons.prems(2) d1(4) by (simp add: goal_row_of_def)
    show "map_of ts (t_id u) = Some u \<and> require_idempotency u = Inr () \<and>
       (row_at gid (t_id u) d1 = None \<longrightarrow> twin (new_task_row P gid u) u)" if "u \<in> set us" for u
      using Cons.prems(3) [of u] that d1(7) [of "t_id u"] by auto
    show "i = t_id u" if "u \<in> set us" "map_of ts i = Some v" "idempotency_key v = idempotency_key u" "idempotency_key u \<noteq> ''''"
      for u i v
      by (rule Cons.prems(4) [OF list.set_intros(2) that(2-4)]) (rule that(1))
  qed
  then obtain d2 where d2: "upsert_tasks P no_faults (Suc k) gid us d1 = Inr d2" "partly_saved gid ts d2"
    "\<And>t. t \<in> set us \<Longrightarrow> row_at gid (t_id t) d2 \<noteq> None" "goal_rows d2 = goal_rows d1" "checkpoint_rows d2 = checkpoint_rows d1"
    "\<And>g j. g \<noteq> gid \<Longrightarrow> row_at g j d2 = row_at g j d1" "\<And>j. row_at gid j d1 \<noteq> None \<Longrightarrow> row_at gid j d2 \<noteq> None" by blast
  have "upsert_tasks P no_faults k gid (t # us) d = Inr d2" using d1(1) d2(1) t(2) by (simp add: sql_def)
  moreover have "row_at gid (t_id u) d2 \<noteq> None" if "u \<in> set (t # us)" for u
    using that d1(3) d2(3,7) by (cases "u = t") auto
  moreover have "row_at gid j d2 \<noteq> None" if "row_at gid j d \<noteq> None" for j by (rule d2(7) [OF d1(7) [OF that]])
  ultimately show ?case using d1(4-6) d2(2,4-6) by (intro exI [of _ d2]) simp
qed simp

lemma filtered_keys_unique:
  "distinct (filter Q (map f xs)) \<Longrightarrow> x \<in> set xs \<Longrightarrow> y \<in> set xs \<Longrightarrow> f x = f y \<Longrightarrow> Q (f x) \<Longrightarrow> x = y"
proof (induction xs)
  case (Cons a xs)
  then show ?case by (auto split: if_splits simp: image_iff)
qed simp

lemma save_dag_sim:
  assumes "mirrors d m" "op_ok m (OpSaveDag g)" "storable_dag P g m" "map_of (goals m) (dag_goal g) \<noteq> None"
  shows "agrees (pg_save_dag P no_faults g d) (Inr (), save_dag g m)"
proof -
  let ?gid = "dag_goal g" and ?ts = "dag_tasks g"
  from assms(1) have s: "same_goals d m" "same_tasks d m" "same_checkpoints d m" "mem_sound m" and u: "keys_unique d"
    by (auto simp: mirrors_def same_tasks_def)
  have gr: "grows (case tasks_of m ?gid of None \<Rightarrow> [] | Some ts \<Rightarrow> ts) ?ts" using assms(2) by simp
  then have wf: "graph_wf ?ts" by (simp add: grows_def)
  have old: "map_of ?ts i = Some t" if "task_at ?gid i m = Some t" for i t
    using gr that by (auto simp: grows_def task_at_def split: option.splits)
  have lookup: "map_of ?ts i = Some t \<and> t_id t = i" if "(i, t) \<in> set ?ts" for i t
    using that graph_wfD(1) [OF wf] graph_wfD(4) [OF wf] by (meson map_of_is_SomeI)
  have p: "partly_saved ?gid ?ts d"
    using u same_tasks_twin(1) [OF s(2)] old by (fastforce simp: partly_saved_def)
  have st: "require_idempotency t = Inr () \<and> (task_at ?gid i m = None \<longrightarrow> t_goal t = ?gid \<and> \<not> approved t \<and> leased_by t = '''' \<and>
      lease_expiry t = zero_time \<and> keeps_time P (t_created t))" if "(i, t) \<in> set ?ts" for i t
    using assms(3) that by (auto simp: storable_dag_def)
  have goal: "goal_row_of ?gid d \<noteq> None" using s(1) assms(4) by (simp add: same_goals_def)
  have "\<exists>d'. upsert_tasks P no_faults 1 ?gid (map snd ?ts) d = Inr d' \<and> partly_saved ?gid ?ts d' \<and>
    (\<forall>t \<in> set (map snd ?ts). row_at ?gid (t_id t) d' \<noteq> None) \<and> goal_rows d' = goal_rows d \<and> checkpoint_rows d' = checkpoint_rows d \<and>
    (\<forall>h j. h \<noteq> ?gid \<longrightarrow> row_at h j d' = row_at h j d) \<and> (\<forall>j. row_at ?gid j d \<noteq> None \<longrightarrow> row_at ?gid j d' \<noteq> None)"
  proof (rule upsert_tasks_spec [OF p goal])
    fix t assume "t \<in> set (map snd ?ts)"
    then obtain i where i: "(i, t) \<in> set ?ts" by auto
    note l = lookup [OF i] and f = st [OF i]
    show "map_of ?ts (t_id t) = Some t \<and> require_idempotency t = Inr () \<and>
        (row_at ?gid (t_id t) d = None \<longrightarrow> twin (new_task_row P ?gid t) t)"
      using l f same_tasks_twin(3) [OF s(2), of ?gid i] new_row_twin by auto
    fix j v assume v: "map_of ?ts j = Some v" "idempotency_key v = idempotency_key t" "idempotency_key t \<noteq> ''''"
    have "distinct (filter (\<lambda>k. k \<noteq> '''') (map (\<lambda>(_, t). idempotency_key t) ?ts))" using assms(3) by (simp add: storable_dag_def)
    from filtered_keys_unique [OF this map_of_SomeD [OF v(1)] i] v have "(j, v) = (i, t)" by simp
    with l show "j = t_id t" by simp
  qed
  then obtain d' where d': "upsert_tasks P no_faults 1 ?gid (map snd ?ts) d = Inr d'" "partly_saved ?gid ?ts d'"
    "\<And>t. t \<in> set (map snd ?ts) \<Longrightarrow> row_at ?gid (t_id t) d' \<noteq> None" "goal_rows d' = goal_rows d" "checkpoint_rows d' = checkpoint_rows d"
    "\<And>h j. h \<noteq> ?gid \<Longrightarrow> row_at h j d' = row_at h j d" by blast
  have here: "row_at ?gid i d' \<noteq> None" if "map_of ?ts i = Some t" for i t
    using d'(3) [of t] lookup [OF map_of_SomeD [OF that]] map_of_SomeD [OF that] by force
  have tat: "task_at h i (save_dag g m) = (if h = ?gid then map_of ?ts i else task_at h i m)" for h i
    by (simp add: task_at_def store_simps)
  have "same_tasks d' (save_dag g m)"
    unfolding same_tasks_def
  proof (intro conjI allI impI)
    show "keys_unique d'" using d'(2) by (simp add: partly_saved_def)
    fix h i
    show "map_option (\<lambda>r. plain (scan_task r)) (row_at h i d') = map_option plain (task_at h i (save_dag g m))"
    proof (cases "h = ?gid")
      case True
      show ?thesis
      proof (cases "row_at ?gid i d'")
        case None
        with here [of i] have "map_of ?ts i = None" by (cases "map_of ?ts i") auto
        with None True show ?thesis by (simp add: tat)
      next
        case (Some r)
        with d'(2) obtain t where "map_of ?ts i = Some t" "twin r t" by (auto simp: partly_saved_def)
        with Some True show ?thesis by (simp add: tat twin_def)
      qed
    next
      case False
      with d'(6) s(2) show ?thesis by (simp add: tat same_tasks_def)
    qed
    show "lease_whole r" if "row_at h i d' = Some r" for r
    proof (cases "h = ?gid")
      case True
      with that d'(2) show ?thesis by (auto simp: partly_saved_def twin_def)
    qed (use that d'(6) s(2) in \<open>auto simp: same_tasks_def\<close>)
    show "tasks_of (save_dag g m) h \<noteq> Some []"
      using s(2) assms(3) by (auto simp: same_tasks_def storable_dag_def store_simps)
  qed
  moreover have "same_goals d' (save_dag g m)" using s(1) d'(4) by (rule same_goals_rest) (simp add: store_simps)
  moreover have "same_checkpoints d' (save_dag g m)" using s(3) d'(5) by (rule same_checkpoints_rest) (simp add: save_dag_def)
  moreover have "mem_sound (save_dag g m)" using save_dag_keeps [OF gr s(4)] by (simp add: keeps_def)
  ultimately show ?thesis using d'(1) by (simp add: agrees_def mirrors_def pg_save_dag_def transaction_def)
qed

section \<open>Checkpoints\<close>

lemma last_of_sorted:
  fixes f :: "'a \<Rightarrow> 'k :: linorder"
  assumes "x \<in> set xs" "\<And>y. y \<in> set xs \<Longrightarrow> f y \<le> f x" "\<And>y. y \<in> set xs \<Longrightarrow> f y = f x \<Longrightarrow> y = x"
  shows "\<exists>ys. rev (sort_key f xs) = x # ys"
proof -
  have "set (rev (sort_key f xs)) \<noteq> {}" using assms(1) by auto
  then obtain z zs where z: "rev (sort_key f xs) = z # zs" by (cases "rev (sort_key f xs)") auto
  then have zin: "z \<in> set xs" by (metis list.set_intros(1) set_rev set_sort)
  have "x \<in> set (z # zs)" using assms(1) z by (metis set_rev set_sort)
  moreover have "sorted (map f (rev (z # zs)))" using z by (metis rev_rev_ident sorted_sort_key)
  ultimately have "f x \<le> f z" by (auto simp: sorted_append)
  with assms(2,3) [OF zin] have "z = x" by simp
  with z show ?thesis by blast
qed

lemma newest_is_last:
  assumes "pg_latest_checkpoint no_faults gid d = Inr (Some c)" "y \<in> set (checkpoint_rows d)" "cp_goal y = gid"
  shows "cp_iteration y \<le> cp_iteration c"
proof -
  let ?xs = "filter (\<lambda>c. cp_goal c = gid) (checkpoint_rows d)"
  obtain zs where z: "rev (sort_key cp_iteration ?xs) = c # zs"
    using assms(1) by (auto simp: pg_latest_checkpoint_def sql_def split: list.splits)
  have "y \<in> set (rev (sort_key cp_iteration ?xs))" using assms(2,3) by simp
  then have "y \<in> set (c # zs)" unfolding z .
  moreover have "sorted (map cp_iteration (rev (c # zs)))" using z by (metis rev_rev_ident sorted_sort_key)
  ultimately show ?thesis by (auto simp: sorted_append)
qed

lemma checkpoint_sim:
  assumes "mirrors d m" "write_ok P T (OpCheckpoint cp) m" "map_of (goals m) (cp_goal cp) \<noteq> None"
  shows "agrees (pg_checkpoint P no_faults cp d) (Inr (), add_checkpoint cp m)"
proof -
  let ?gid = "cp_goal cp" and ?same = "\<lambda>c. cp_goal c = cp_goal cp \<and> cp_iteration c = cp_iteration cp"
  let ?key = "\<lambda>c. (cp_goal c, cp_iteration c)"
  from assms(1) have s: "same_goals d m" "same_tasks d m" "same_checkpoints d m" "mem_sound m" by (auto simp: mirrors_def)
  have ok: "cp_spend cp = ''''" "pe_keep P (nz_epoch (cp_at cp)) = cp_at cp"
    "\<And>c. latest_checkpoint ?gid m = Some c \<Longrightarrow> cp_iteration c \<le> cp_iteration cp"
    using assms(2) by (auto simp: keeps_time_nz)
  have row: "cp\<lparr>cp_spend := '''', cp_at := pe_keep P (nz_epoch (cp_at cp))\<rparr> = cp" using ok(1,2) by simp
  have goal: "goal_row_of ?gid d \<noteq> None" using s(1) assms(3) by (simp add: same_goals_def)
  have dist: "distinct (map ?key (checkpoint_rows d))" and newest: "pg_latest_checkpoint no_faults h d = Inr (latest_checkpoint h m)" for h
    using s(3) by (simp_all add: same_checkpoints_def)
  have below: "cp_iteration y \<le> cp_iteration cp" if y: "y \<in> set (checkpoint_rows d)" "cp_goal y = ?gid" for y
  proof (cases "latest_checkpoint ?gid m")
    case None
    then have "rev (sort_key cp_iteration (filter (\<lambda>c. cp_goal c = ?gid) (checkpoint_rows d))) = []"
      using newest [of ?gid] by (auto simp: pg_latest_checkpoint_def sql_def split: list.splits)
    then have "set (filter (\<lambda>c. cp_goal c = ?gid) (checkpoint_rows d)) = {}" by (metis set_empty set_rev set_sort)
    with y show ?thesis by auto
  next
    case (Some c)
    with newest_is_last [of ?gid d c y] newest [of ?gid] y ok(3) show ?thesis by force
  qed
  obtain d' where up: "upsert_checkpoint P cp d = Inr d'" and tr: "task_rows d' = task_rows d" "goal_rows d' = goal_rows d"
    and rows: "distinct (map ?key (checkpoint_rows d'))" "cp \<in> set (checkpoint_rows d')"
      "\<And>y. y \<in> set (checkpoint_rows d') \<Longrightarrow> y = cp \<or> y \<in> set (checkpoint_rows d) \<and> \<not> ?same y"
      "\<And>h. h \<noteq> ?gid \<Longrightarrow> filter (\<lambda>c. cp_goal c = h) (checkpoint_rows d') = filter (\<lambda>c. cp_goal c = h) (checkpoint_rows d)"
  proof (cases "\<exists>c \<in> set (checkpoint_rows d). ?same c")
    case True
    let ?h = "\<lambda>c. if ?same c then cp else c"
    let ?d = "d\<lparr>checkpoint_rows := map ?h (checkpoint_rows d)\<rparr>"
    have "?key \<circ> ?h = ?key" by (simp add: fun_eq_iff)
    then have "distinct (map ?key (map ?h (checkpoint_rows d)))" using dist unfolding map_map by simp
    moreover have "filter (\<lambda>c. cp_goal c = h) (map ?h cs) = filter (\<lambda>c. cp_goal c = h) cs" if "h \<noteq> ?gid" for h cs
      using that by (induction cs) auto
    ultimately show ?thesis
      using True by (intro that [of ?d]) (auto simp: upsert_checkpoint_def Let_def row image_iff)
  next
    case False
    let ?d = "d\<lparr>checkpoint_rows := checkpoint_rows d @ [cp]\<rparr>"
    have "distinct (map ?key (checkpoint_rows ?d))" using dist False by auto
    then show ?thesis using False goal by (intro that [of ?d]) (auto simp: upsert_checkpoint_def Let_def row)
  qed
  have "pg_latest_checkpoint no_faults h d' = Inr (latest_checkpoint h (add_checkpoint cp m))" for h
  proof (cases "h = ?gid")
    case True
    have "\<exists>ys. rev (sort_key cp_iteration (filter (\<lambda>c. cp_goal c = ?gid) (checkpoint_rows d'))) = cp # ys"
    proof (rule last_of_sorted)
      show "cp_iteration y \<le> cp_iteration cp" "cp_iteration y = cp_iteration cp \<Longrightarrow> y = cp"
        if "y \<in> set (filter (\<lambda>c. cp_goal c = ?gid) (checkpoint_rows d'))" for y
        using that rows(3) [of y] below [of y] by auto
    qed (use rows(2) in simp)
    then have "pg_latest_checkpoint no_faults ?gid d' = Inr (Some cp)" by (auto simp: pg_latest_checkpoint_def sql_def)
    with True show ?thesis by (simp add: latest_checkpoint_def add_checkpoint_def checkpoints_of_def Let_def)
  next
    case False
    then have "pg_latest_checkpoint no_faults h d' = pg_latest_checkpoint no_faults h d"
      using rows(4) by (simp add: pg_latest_checkpoint_def)
    with False newest show ?thesis by (simp add: latest_checkpoint_def add_checkpoint_def checkpoints_of_def Let_def)
  qed
  then have "same_checkpoints d' (add_checkpoint cp m)" using rows(1) by (simp add: same_checkpoints_def)
  moreover have "same_goals d' (add_checkpoint cp m)" using s(1) tr(2) by (rule same_goals_rest) (simp add: store_simps)
  moreover have "same_tasks d' (add_checkpoint cp m)" using s(2) tr(1) by (rule same_tasks_rest) (simp add: store_simps)
  moreover have "mem_sound (add_checkpoint cp m)" using s(4) by (simp add: mem_sound_def store_simps)
  ultimately show ?thesis using up by (simp add: agrees_def mirrors_def pg_checkpoint_def)
qed

end
