(* ===== verification/Store_PG_Props.thy ===== *)
theory Store_PG_Props
  imports Store_Agree Samples
begin

text \<open>
  The theorems about the PostgreSQL goal store: it answers every sequence of calls as the in-process store does; a
  claim gives out one runnable row that nobody holds; its transactions are all or nothing whichever statement fails, and what happens where the code has none.
\<close>

section \<open>Reads\<close>

lemma find_conj:
  "distinct (map key xs) \<Longrightarrow> List.find (\<lambda>x. key x = k \<and> Q x) xs =
     (case List.find (\<lambda>x. key x = k) xs of None \<Rightarrow> None | Some x \<Rightarrow> if Q x then Some x else None)"
proof (induction xs)
  case (Cons a xs)
  show ?case
  proof (cases "key a = k \<and> \<not> Q a")
    case True
    then have "\<forall>x \<in> set xs. key x \<noteq> k" using Cons.prems by (auto simp: image_iff)
    then have "List.find (\<lambda>x. key x = k) xs = None" "List.find (\<lambda>x. key x = k \<and> Q x) xs = None" by (auto simp: find_none)
    with True show ?thesis by simp
  qed (use Cons in auto)
qed simp

lemma db_owns_iff: "same_goals d m \<Longrightarrow> db_owns T gid d \<longleftrightarrow> owns T gid m"
proof -
  assume s: "same_goals d m"
  have "g \<in> set (goal_rows d) \<and> g_id g = gid \<longleftrightarrow> map_of (goals m) gid = Some g" for g
    using s find_key [of g_id "goal_rows d" gid g] by (simp add: same_goals_def goal_row_of_def)
  then have "db_owns T gid d \<longleftrightarrow> (\<exists>g. map_of (goals m) gid = Some g \<and> g_tenant g = T)"
    unfolding db_owns_def by metis
  also have "\<dots> \<longleftrightarrow> owns T gid m" by (simp add: owns_def split: option.split)
  finally show ?thesis .
qed

lemma guard_eq: "same_goals d m \<Longrightarrow> db_guard words no_faults T gid d = (if owns T gid m then Inr () else Inl (goal_not_found gid))"
  by (simp add: db_guard_def db_owns_iff sql_def)

lemma load_goal_reads:
  assumes "same_goals d m"
  shows "pgs_load_goal no_faults T gid d = scoped_load_goal T gid m"
proof -
  have "List.find (\<lambda>g. g_id g = gid \<and> g_tenant g = T) (goal_rows d) =
      (case map_of (goals m) gid of None \<Rightarrow> None | Some g \<Rightarrow> if g_tenant g = T then Some g else None)"
    using assms find_conj [of g_id "goal_rows d" gid "\<lambda>g. g_tenant g = T"] by (simp add: same_goals_def goal_row_of_def)
  then show ?thesis
    by (auto simp: pgs_load_goal_def one_goal_def scoped_load_goal_def load_goal_def owns_def split: option.split)
qed

lemma list_goals_reads:
  assumes "same_goals d m" "\<And>s. pe_collate P s = s"
  shows "pgs_list_goals P no_faults T st d = Inr (scoped_list_goals T st m)"
proof -
  let ?Q = "\<lambda>g. g_tenant g = T \<and> (st = None \<or> st = Some (g_state g))"
  have d: "distinct (map g_id (goal_rows d))" and k: "keyed m" using assms(1) by (simp_all add: same_goals_def)
  have "g \<in> set (goal_rows d) \<longleftrightarrow> map_of (goals m) (g_id g) = Some g" for g
    using assms(1) find_key [of g_id "goal_rows d" "g_id g" g] by (simp add: same_goals_def goal_row_of_def)
  then have "set (goal_rows d) = set (map snd (goals m))" using keyed_goals [OF k] by auto
  moreover have "distinct (goal_rows d)" using d by (simp add: distinct_map)
  moreover have "distinct (map snd (goals m))" using keyed_distinct [OF k] by (auto simp: distinct_map intro: inj_on_imageI2)
  ultimately have ms: "mset (goal_rows d) = mset (map snd (goals m))" by (simp only: set_eq_iff_mset_eq_distinct [symmetric])
  then have "mset (filter ?Q (goal_rows d)) = mset (filter ?Q (map snd (goals m)))" by (simp only: mset_filter)
  then have "mset (filter ?Q (goal_rows d)) = mset (sort_key g_id (filter ?Q (map snd (goals m))))" by simp
  moreover have "inj_on g_id (set (filter ?Q (goal_rows d)))" using d by (auto simp: distinct_map inj_on_def)
  ultimately have "sort_key g_id (filter ?Q (goal_rows d)) = sort_key g_id (filter ?Q (map snd (goals m)))"
    by (intro sort_key_inj_key_eq) simp_all
  then show ?thesis by (simp add: pgs_list_goals_def scoped_list_sorted sql_def assms(2))
qed

lemma graph_wf_cong:
  assumes "graph_wf ts" "distinct (map fst us)"
    and eq: "\<And>i. map_option plain (map_of us i) = map_option plain (map_of ts i)"
  shows "graph_wf us"
proof -
  have look: "map_of us i = Some u \<Longrightarrow> \<exists>t. map_of ts i = Some t \<and> plain u = plain t" for i u
    using eq [of i] by (cases "map_of ts i") auto
  have "map_option edges (map_of us x) = map_option edges (map_of ts x)" for x
    using eq [of x] by (cases "map_of ts x"; cases "map_of us x") (auto simp: edges_alt, metis plain_eqD(5,6))
  then have rel: "dep_rel us = dep_rel ts" by (simp add: dep_rel_edges)
  have "i \<in> set (map fst us) \<longleftrightarrow> i \<in> set (map fst ts)" for i
    using eq [of i] by (metis map_of_eq_None_iff option.map_disc_iff list.set_map)
  then have keys: "set (map fst us) = set (map fst ts)" by blast
  have "refs_closed us"
    using refs_closed_iff_rel [OF assms(2)] refs_closed_iff_rel [OF graph_wfD(1) [OF assms(1)]] graph_wfD(2) [OF assms(1)] rel keys
    by simp
  moreover have "t_id u = i" if "(i, u) \<in> set us" for i u
  proof -
    have "map_of us i = Some u" using assms(2) that by simp
    with look graph_wfD(4) [OF assms(1)] plain_eqD(2) show ?thesis by metis
  qed
  ultimately show ?thesis using assms(2) rel graph_wfD(3) [OF assms(1)] by (auto simp: graph_wf_def)
qed

lemma load_dag_reads:
  assumes "mirrors d m" "\<And>s. pe_collate P s = s"
  shows "seen_dag (pg_load_dag P no_faults gid d) = seen_dag (load_dag gid m)"
proof -
  from assms(1) have s: "same_tasks d m" "mem_sound m" and u: "keys_unique d" by (auto simp: mirrors_def same_tasks_def)
  let ?rows = "sort_key (\<lambda>r. t_id (r_task r)) (rows_of_dag gid d)"
  let ?ts = "map scan_task ?rows"
  have at: "map_of (by_id ?ts) i = map_option scan_task (row_at gid i d)" for i
  proof -
    have b: "by_id ?ts = map (\<lambda>r. (t_id (r_task r), scan_task r)) ?rows" by (simp add: by_id_def)
    have dist: "distinct (map row_key (rows_of_dag gid d))" using u by (simp add: keys_unique_def rows_of_dag_def)
    then have "inj_on (\<lambda>r. t_id (r_task r)) (set (rows_of_dag gid d))" "distinct (rows_of_dag gid d)"
      by (auto simp: distinct_map inj_on_def row_key_def rows_of_dag_def)
    then have d: "distinct (map fst (by_id ?ts))" "distinct (map fst (graph_of gid d))"
      by (simp_all add: b graph_of_def comp_def distinct_map)
    moreover have "set (by_id ?ts) = set (graph_of gid d)" by (simp add: b graph_of_def)
    ultimately have "map_of (by_id ?ts) = map_of (graph_of gid d)" using map_of_inject_set by blast
    then show ?thesis by (simp add: map_of_graph)
  qed
  show ?thesis
  proof (cases "tasks_of m gid")
    case None
    then have "row_at gid i d = None" for i using same_tasks_twin(3) [OF s(1), of gid i] by (simp add: task_at_def)
    then have "rows_of_dag gid d = []" by (auto simp: row_at_None is_task_def rows_of_dag_def filter_empty_conv)
    with None show ?thesis
      by (auto simp: pg_load_dag_def sql_def load_dag_def tasks_of_def seen_dag_def split: option.split)
  next
    case (Some ts)
    have eq: "map_option plain (map_of (by_id ?ts) i) = map_option plain (map_of ts i)" for i
      using s(1) Some by (simp add: at same_tasks_def task_at_def option.map_comp comp_def)
    have "distinct (map fst (by_id ?ts))"
    proof -
      have "distinct (map row_key (rows_of_dag gid d))" using u by (simp add: keys_unique_def rows_of_dag_def)
      then show ?thesis by (auto simp: distinct_map inj_on_def row_key_def rows_of_dag_def comp_def)
    qed
    from graph_wf_cong [OF sound_wf [OF mem_soundD [OF s(2) Some]] this eq]
    have nd: "new_dag gid ?ts = Inr \<lparr>dag_goal = gid, dag_tasks = by_id ?ts\<rparr>" by (simp add: new_dag_wf_iff)
    have "ts \<noteq> []" using Some s(1) by (auto simp: same_tasks_def)
    then have "map_of ts (fst (hd ts)) = Some (snd (hd ts))" by (cases ts) auto
    with eq [of "fst (hd ts)"] have "?ts \<noteq> []" by (auto simp: by_id_def)
    moreover obtain g where "map_of (dags m) gid = Some g" "dag_tasks g = ts" using Some by (auto simp: tasks_of_def)
    ultimately show ?thesis using nd eq
      by (simp add: pg_load_dag_def sql_def load_dag_def seen_dag_def assms(2) fun_eq_iff)
  qed
qed

section \<open>The simulation\<close>

lemma db_guarded_eq:
  assumes "same_goals d m"
  shows "db_guarded no_faults T gid op d = (if owns T gid m then op no_faults d else (Inl (goal_not_found gid), d))"
  by (simp add: db_guarded_def guard_eq [OF assms])

lemma owned_goal: "owns T gid m \<Longrightarrow> \<exists>g. map_of (goals m) gid = Some g \<and> g_tenant g = T"
  by (auto simp: owns_def split: option.splits)

definition sim_step :: "seen \<times> store_db \<Rightarrow> seen \<times> mem \<Rightarrow> bool" where
  "sim_step x y \<longleftrightarrow> fst x = fst y \<and> mirrors (snd x) (snd y)"

lemma sim_unit:
  assumes "agrees x y"
  shows "sim_step (map_prod seen_of id (map_prod RUnit id x)) (map_prod seen_of id (map_prod RUnit id y))"
  using assms by (cases x; cases y) (simp add: agrees_def sim_step_def)

lemma sim_guarded:
  assumes "mirrors d m" "owns T gid m \<Longrightarrow> agrees (op no_faults d) (f m)"
  shows "sim_step (map_prod seen_of id (map_prod RUnit id (db_guarded no_faults T gid op d)))
     (map_prod seen_of id (map_prod RUnit id (if \<not> owns T gid m then (Inl (goal_not_found gid), m) else f m)))"
proof (rule sim_unit)
  have "same_goals d m" using assms(1) by (simp add: mirrors_def)
  from db_guarded_eq [OF this, of T gid op] assms
  show "agrees (db_guarded no_faults T gid op d) (if \<not> owns T gid m then (Inl (goal_not_found gid), m) else f m)"
    by (simp add: agrees_def)
qed

lemma scoped_writes:
  "mem_call (T, Write (OpSaveGoal g)) m = map_prod seen_of id (map_prod RUnit id
     (if \<not> owns T (g_id g) m then (Inl (goal_not_found (g_id g)), m) else save_goal (g\<lparr>g_tenant := T\<rparr>) m))"
  "mem_call (T, Write (OpSaveDag dg)) m = map_prod seen_of id (map_prod RUnit id
     (if \<not> owns T (dag_goal dg) m then (Inl (goal_not_found (dag_goal dg)), m) else (Inr (), save_dag dg m)))"
  "mem_call (T, Write (OpRenew gid i w l now)) m = map_prod seen_of id (map_prod RUnit id
     (if \<not> owns T gid m then (Inl (goal_not_found gid), m) else renew gid i w l now m))"
  "mem_call (T, Write (OpComplete gid i w nx res fl now)) m = map_prod seen_of id (map_prod RUnit id
     (if \<not> owns T gid m then (Inl (goal_not_found gid), m) else complete gid i w nx res fl now m))"
  "mem_call (T, Write (OpRelease gid i w now)) m = map_prod seen_of id (map_prod RUnit id
     (if \<not> owns T gid m then (Inl (goal_not_found gid), m) else release gid i w now m))"
  "mem_call (T, Write (OpDecide gid i ok now)) m = map_prod seen_of id (map_prod RUnit id
     (if \<not> owns T gid m then (Inl (goal_not_found gid), m) else decide gid i ok now m))"
  "mem_call (T, Write (OpCheckpoint cp)) m = map_prod seen_of id (map_prod RUnit id
     (if \<not> owns T (cp_goal cp) m then (Inl (goal_not_found (cp_goal cp)), m) else (Inr (), add_checkpoint cp m)))"
  by (simp_all add: scoped_save_goal_def scoped_save_dag_def scoped_renew_def scoped_complete_def scoped_release_def
      scoped_decide_def scoped_checkpoint_def guarded_alt split: prod.split)

lemmas pgs_defs = pgs_create_goal_def pgs_save_goal_def pgs_save_dag_def pgs_renew_def pgs_complete_def pgs_release_def
  pgs_decide_def pgs_checkpoint_def

lemma storable_tenant: "storable_goal P (g\<lparr>g_tenant := T\<rparr>) = storable_goal P g"
  by (simp add: storable_goal_def refusal_has_cause_def)

lemma write_step:
  assumes "mirrors d m" "call_ok P (T, Write op) d m"
  shows "sim_step (pg_call P no_faults (\<lambda>_. False) (T, Write op) d) (mem_call (T, Write op) m)"
proof -
  have ok: "T \<noteq> ''''" "\<And>s. pe_collate P s = s" "op_ok m op" "write_ok P T op m" using assms(2) by auto
  have goals: "same_goals d m" using assms(1) by (simp add: mirrors_def)
  note guarded = sim_guarded [OF assms(1)]
  show ?thesis
  proof (cases op)
    case (OpCreateGoal g)
    with ok create_sim [OF assms(1), of P "g\<lparr>g_tenant := T\<rparr>"]
    have "agrees (pgs_create_goal P no_faults T g d) (scoped_create_goal T g m)"
      by (simp add: pgs_create_goal_def scoped_create_goal_def storable_tenant)
    from sim_unit [OF this] show ?thesis by (simp add: OpCreateGoal map_prod_def split_def)
  next
    case (OpSaveGoal g)
    show ?thesis unfolding OpSaveGoal scoped_writes pg_call.simps pg_write.simps pgs_defs
    proof (rule guarded)
      assume own: "owns T (g_id g) m"
      then obtain cur where "map_of (goals m) (g_id g) = Some cur" using owned_goal by blast
      with save_goal_sim [OF assms(1), of P "g\<lparr>g_tenant := T\<rparr>" cur] ok own OpSaveGoal
      show "agrees (pg_save_goal P no_faults (g\<lparr>g_tenant := T\<rparr>) d) (save_goal (g\<lparr>g_tenant := T\<rparr>) m)"
        by (simp add: storable_tenant)
    qed
  next
    case (OpSaveDag g)
    show ?thesis unfolding OpSaveDag scoped_writes pg_call.simps pg_write.simps pgs_defs
      by (rule guarded, rule save_dag_sim) (use assms(1) ok OpSaveDag owned_goal [of T "dag_goal g" m] in auto)
  next
    case (OpClaim gid w l now)
    show ?thesis
    proof (cases "owns T gid m")
      case False
      with OpClaim assms(1) guard_eq [OF goals] show ?thesis by (simp add: sim_step_def pgs_claim_def scoped_claim_def)
    next
      case True
      then obtain g ts where "map_of (goals m) gid = Some g" "tasks_of m gid = Some ts" using owned_goal ok OpClaim by fastforce
      from claim_sim [OF assms(1) _ this(2,1), of w P now l] ok OpClaim True guard_eq [OF goals]
      show ?thesis
        by (auto simp: sim_step_def pgs_claim_def scoped_claim_def map_prod_def split_def)
    qed
  next
    case (OpRenew gid i w l now)
    show ?thesis unfolding OpRenew scoped_writes pg_call.simps pg_write.simps pgs_defs
      by (rule guarded) (use renew_sim [OF assms(1)] ok OpRenew in \<open>auto simp: known_def\<close>)
  next
    case (OpComplete gid i w nx res fl now)
    show ?thesis unfolding OpComplete scoped_writes pg_call.simps pg_write.simps pgs_defs
      by (rule guarded) (use complete_sim [OF assms(1)] ok OpComplete in \<open>auto simp: known_def\<close>)
  next
    case (OpRelease gid i w now)
    show ?thesis unfolding OpRelease scoped_writes pg_call.simps pg_write.simps pgs_defs
      by (rule guarded) (use release_sim [OF assms(1)] ok OpRelease in \<open>auto simp: known_def\<close>)
  next
    case (OpDecide gid i b now)
    show ?thesis unfolding OpDecide scoped_writes pg_call.simps pg_write.simps pgs_defs
      by (rule guarded) (use decide_sim [OF assms(1)] ok OpDecide in \<open>auto simp: known_def\<close>)
  next
    case (OpCancel gid now)
    show ?thesis
    proof (cases "owns T gid m")
      case False
      with OpCancel assms(1) show ?thesis
        by (simp add: sim_step_def pgs_cancel_def scoped_cancel_def guard_def db_guarded_eq [OF goals])
    next
      case True
      then obtain g where "map_of (goals m) gid = Some g" using owned_goal by blast
      moreover obtain n e m2 where "cancel gid now m = ((n, e), m2)" by (metis surj_pair)
      ultimately show ?thesis using cancel_sim [OF assms(1), of gid g P now] ok OpCancel True
        by (auto simp: sim_step_def pgs_cancel_def scoped_cancel_def guard_def map_prod_def split_def db_guarded_eq [OF goals]
            split: sum.splits option.splits)
    qed
  next
    case (OpCheckpoint cp)
    show ?thesis unfolding OpCheckpoint scoped_writes pg_call.simps pg_write.simps pgs_defs
      by (rule guarded, rule checkpoint_sim) (use assms(1) ok OpCheckpoint owned_goal [of T "cp_goal cp" m] in auto)
  qed
qed

interpretation pg_store: simulation mirrors "pg_call P no_faults (\<lambda>_. False)" mem_call "call_ok P" for P
proof (unfold_locales, goal_cases)
  case (1 d m call)
  obtain T c where call: "call = (T, c)" by fastforce
  have s: "same_goals d m" "same_checkpoints d m" using 1(1) by (auto simp: mirrors_def)
  show ?case
  proof (cases c)
    case (Write op)
    with write_step [OF 1(1), of P T op] 1(2) call show ?thesis by (simp add: sim_step_def)
  next
    case (ReadGoal gid)
    with call 1(1) load_goal_reads [OF s(1)] show ?thesis by simp
  next
    case (ReadGoals st)
    with call 1 list_goals_reads [OF s(1), of P] show ?thesis by simp
  next
    case (ReadDag gid)
    with call 1 load_dag_reads [OF 1(1), of P gid] guard_eq [OF s(1), of "''store''" T gid] show ?thesis
      by (simp add: pgs_load_dag_def scoped_load_dag_def)
  next
    case (ReadCheckpoint gid)
    with call 1(1) s(2) guard_eq [OF s(1), of "''store''" T gid] show ?thesis
      by (simp add: pgs_latest_checkpoint_def scoped_latest_checkpoint_def guard_def same_checkpoints_def)
  qed
qed

definition empty_store :: store_db where
  "empty_store = \<lparr>goal_rows = [], task_rows = [], checkpoint_rows = []\<rparr>"

lemma mirrors_empty: "mirrors empty_store new_memory"
  by (simp add: mirrors_def same_goals_def same_tasks_def same_checkpoints_def new_memory_sound keyed_def)
    (simp add: empty_store_def new_memory_def goal_row_of_def keys_unique_def row_at_def task_at_def tasks_of_def
      pg_latest_checkpoint_def sql_def latest_checkpoint_def checkpoints_of_def)

section \<open>Properties\<close>

text \<open>C10. The durable store refines the in-process one: starting empty, every sequence of calls made through the tenant
  views (by any tenants, in any order: creating, saving and reading goals, saving and reading graphs, claiming, renewing, completing,
  releasing, deciding, cancelling, checkpoints) is answered alike by both, errors by their sentinel, and leaves
  states that mirror each other, when no statement fails and each call meets the stated conditions.\<close>

theorem pg_store_agrees:
  assumes "all_ok (call_ok P) (pg_call P no_faults (\<lambda>_. False)) mem_call calls empty_store new_memory"
  shows "fst (run_all (pg_call P no_faults (\<lambda>_. False)) calls empty_store) = fst (run_all mem_call calls new_memory) \<and>
    mirrors (snd (run_all (pg_call P no_faults (\<lambda>_. False)) calls empty_store)) (snd (run_all mem_call calls new_memory))"
  using pg_store.run_agrees [OF mirrors_empty assms] .

definition exact_env :: pg_env where
  "exact_env = \<lparr>pe_keep = id, pe_collate = id\<rparr>"

definition sample_store_calls :: "(string \<times> store_call) list" where
  "sample_store_calls = [(''acme'', Write (OpCreateGoal sample_goal)), (''acme'', Write (OpSaveDag sample_dag)),
     (''acme'', Write (OpClaim ''g'' ''w'' 20 10)), (''acme'', ReadDag ''g'')]"

lemma sample_store_calls_ok: "all_ok (call_ok exact_env) (pg_call exact_env no_faults (\<lambda>_. False)) mem_call sample_store_calls empty_store new_memory"
proof -
  have 1: "snd (mem_call (''acme'', Write (OpCreateGoal sample_goal)) new_memory) = \<lparr>goals = [(''g'', sample_goal)], dags = [], checkpoints = []\<rparr>"
    by (simp add: scoped_create_goal_def create_goal_def put_goal_def new_memory_def sample_goal_def)
  have 2: "snd (mem_call (''acme'', Write (OpSaveDag sample_dag)) \<lparr>goals = [(''g'', sample_goal)], dags = [], checkpoints = []\<rparr>) = sample_mem"
    by (simp add: scoped_save_dag_def owns_def save_dag_def sample_mem_def sample_dag_def) (simp add: sample_goal_def)
  have g: "storable_goal exact_env sample_goal"
    by (simp add: storable_goal_def keeps_time_def exact_env_def refusal_has_cause_def sample_goal_def)
  have "grows [] (dag_tasks sample_dag)"
    using sample_wf [of Pending Pending Pending] by (auto simp: grows_def sample_dag_def by_id_def sample_defs split: if_splits)
  then have d: "op_ok \<lparr>goals = [(''g'', sample_goal)], dags = [], checkpoints = []\<rparr> (OpSaveDag sample_dag)"
    by (simp add: tasks_of_def)
  have s: "storable_dag exact_env sample_dag \<lparr>goals = [(''g'', sample_goal)], dags = [], checkpoints = []\<rparr>"
    by (simp add: storable_dag_def sample_dag_def by_id_def sample_defs require_idempotency_def effect_bearing_def
        effect_bearing_kinds_def keeps_time_def exact_env_def)
  have c: "\<And>s. pe_collate exact_env s = s" by (simp add: exact_env_def)
  have w: "write_ok exact_env ''acme'' (OpClaim ''g'' ''w'' 20 10) sample_mem"
    by (simp add: keeps_time_def exact_env_def tasks_of_def sample_mem_def)
  show ?thesis
    unfolding sample_store_calls_def all_ok.simps 1 2 call_ok.simps using g d s c w by simp
qed

theorem pg_store_agrees_witness:
  "fst (run_all (pg_call exact_env no_faults (\<lambda>_. False)) sample_store_calls empty_store) = fst (run_all mem_call sample_store_calls new_memory) \<and>
    mirrors (snd (run_all (pg_call exact_env no_faults (\<lambda>_. False)) sample_store_calls empty_store)) (snd (run_all mem_call sample_store_calls new_memory))"
  by (rule pg_store_agrees [OF sample_store_calls_ok])

section \<open>Claims\<close>

lemma pg_claim_Inr:
  assumes "pg_claim P f locked gid w l now d = (Inr t, d')"
  obtains r where "r \<in> set (rows_of_dag gid d)" "row_claimable gid (pe_keep P now) d r" "\<not> locked (t_id (r_task r))" "w \<noteq> ''''"
    "t = scan_task (lease_row w (pe_keep P (now + l)) (pe_keep P now) r)"
    "d' = snd (update_where (is_task gid (t_id (r_task r))) (lease_row w (pe_keep P (now + l)) (pe_keep P now)) d)"
proof -
  let ?rs = "sort_key (\<lambda>r. pe_collate P (t_id (r_task r)))
      (filter (\<lambda>r. row_claimable gid (pe_keep P now) d r \<and> \<not> locked (t_id (r_task r))) (rows_of_dag gid d))"
  from assms obtain r rs where r: "?rs = r # rs" and rest: "w \<noteq> ''''"
    "t = scan_task (lease_row w (pe_keep P (now + l)) (pe_keep P now) r)"
    "d' = snd (update_where (is_task gid (t_id (r_task r))) (lease_row w (pe_keep P (now + l)) (pe_keep P now)) d)"
    by (auto simp: pg_claim_def claim_statement_def split: sum.splits option.splits if_splits list.splits)
  have "r \<in> set ?rs" using r by (metis list.set_intros(1))
  with rest show ?thesis by (intro that [of r]) simp_all
qed


section \<open>Errors\<close>

fun failed_result :: "op_result \<Rightarrow> bool" where
  "failed_result (RUnit r) \<longleftrightarrow> (case r of Inl _ \<Rightarrow> True | Inr _ \<Rightarrow> False)"
| "failed_result (RTask r) \<longleftrightarrow> (case r of Inl _ \<Rightarrow> True | Inr _ \<Rightarrow> False)"
| "failed_result (RCount r) \<longleftrightarrow> snd r \<noteq> None"

text \<open>The operations that block dependents: they are followed by statements of their own, outside any transaction.\<close>

fun propagates :: "store_op \<Rightarrow> bool" where
  "propagates (OpComplete gid i w next res fl now) \<longleftrightarrow> next = Failed"
| "propagates (OpDecide gid i approve now) \<longleftrightarrow> \<not> approve"
| "propagates _ \<longleftrightarrow> False"

lemma propagate_Inl: "pg_propagate f k gid now d = (Inl e, d') \<Longrightarrow> \<exists>j \<ge> k. f j \<noteq> None"
proof (induction f k gid now d rule: pg_propagate.induct)
  case (1 f k gid now d)
  show ?case
  proof (cases "f k")
    case None
    obtain n d1 where b: "block_statement gid now d = (n, d1)" by fastforce
    with 1(2) None have "n \<noteq> 0" "pg_propagate f (Suc k) gid now d1 = (Inl e, d')"
      by (subst (asm) pg_propagate.simps, auto simp: stmt_def split: if_splits)+
    with 1(1) [of "(n, d1)" n d1] b None show ?thesis by (auto simp: stmt_def) (metis Suc_leD)
  qed auto
qed

lemma affected_Inl:
  "affected_or_lease_lost op i (stmt f k (Inr (update_where Q h d))) d = (Inl e, d') \<Longrightarrow> d' = d"
  using update_none [of Q h d] by (auto simp: affected_or_lease_lost_def stmt_def update_where_def split: option.splits if_splits sum.splits)

lemma guarded_Inl:
  assumes "db_guarded f T gid op d = (Inl e, d')" "\<And>e d'. op (\<lambda>k. f (Suc k)) d = (Inl e, d') \<Longrightarrow> d' = d \<or> Q"
  shows "d' = d \<or> Q"
  using assms by (auto simp: db_guarded_def split: sum.splits)



lemma failed_unit: "map_prod RUnit id x = (r, d') \<Longrightarrow> failed_result r \<Longrightarrow> \<exists>e. x = (Inl e, d')"
  by (cases x) (auto split: sum.splits)


text \<open>
  The exception on a concrete table: the worker's completion fails the task, the statement that should block the task that depends on it
  fails, and the caller gets an error for an update that has been made; the dependent stays pending although it can never run.
\<close>

definition torn_db :: store_db where
  "torn_db = \<lparr>goal_rows = [sample_goal],
     task_rows = [\<lparr>r_task = (sample_task ''a'' ''assess_axis'' [] Running)\<lparr>leased_by := ''w''\<rparr>, r_expiry = Some 30\<rparr>,
       \<lparr>r_task = sample_task ''j'' ''synthesise_assessment'' [''a''] Pending, r_expiry = None\<rparr>],
     checkpoint_rows = []\<rparr>"

definition second_fails :: faults where
  "second_fails k = (if k = 2 then Some ''down'' else None)"

definition torn_run :: "op_result \<times> store_db" where
  "torn_run = pg_write exact_env second_fails (\<lambda>_. False) ''acme'' (OpComplete ''g'' ''a'' ''w'' Failed '''' ''boom'' 20) torn_db"

lemma torn_complete:
  "failed_result (fst torn_run)" "map (\<lambda>r. t_state (r_task r)) (task_rows (snd torn_run)) = [Failed, Pending]"
  by code_simp+


text \<open>
  The in-process store refuses to complete a cancelled task, whatever the clock of the worker says.  This one asks only for
  the lease, which a cancellation leaves on the row: a worker that still counts in the time of its claim completes it.
\<close>

lemma late_complete_revives:
  "let d1 = snd (pg_cancel exact_env no_faults ''g'' 40 torn_db) in
   map (\<lambda>r. t_state (r_task r)) (task_rows d1) = [Cancelled, Cancelled] \<and>
   map (\<lambda>r. t_state (r_task r)) (task_rows (snd (pg_complete exact_env no_faults ''g'' ''a'' ''w'' Succeeded '''' '''' 20 d1))) =
     [Succeeded, Cancelled]"
  by code_simp

end
