(* ===== verification/Edit.thy ===== *)
theory Edit
  imports Password
begin

text \<open>
  \<open>internal/edit/edit.go\<close>: the only place a customer's source is rewritten.  The files are a map from real paths to
  bodies and modes.  Every operating-system call has a number, in the order the code makes them:
  it may fail with a message (\<open>os_fail\<close>), and other processes may have changed the files before it
  (\<open>os_meddle\<close>); \<open>filepath.EvalSymlinks\<close> and the random name of the temporary file are arguments too.  Paths are those of a Unix system.
\<close>

section \<open>Text\<close>

definition newline :: char where "newline = char_of (10 :: nat)"

definition first_line :: "string \<Rightarrow> string" where
  "first_line s = takeWhile (\<lambda>c. c \<noteq> newline) s"

definition leading_space :: "string \<Rightarrow> string" where
  "leading_space s = takeWhile (\<lambda>c. c = CHR '' '' \<or> c = char_of (9 :: nat)) s"

section \<open>Proposals\<close>

record proposal =
  pr_path :: string
  pr_line :: int
  pr_before :: string
  pr_after :: string
  pr_axis :: string
  pr_rationale :: string

definition check_indent :: "string \<Rightarrow> string \<Rightarrow> go_error + unit" where
  "check_indent before after =
     (let b = leading_space (first_line before); a = leading_space (first_line after) in
      if b \<noteq> a then Inl (ErrIndentation, ''edit: the replacement's indentation does not match the code it replaces: '' @
          ''replaced text starts with '' @ nat_digits (length b) @ '' space(s), replacement with '' @ nat_digits (length a))
      else Inr ())"

section \<open>Paths\<close>

text \<open>\<open>filepath.Clean\<close> as the list of elements of a path and whether it is rooted; \<open>Join\<close> and \<open>Rel\<close> over it.\<close>

definition rooted :: "string \<Rightarrow> bool" where
  "rooted p \<longleftrightarrow> has_prefix p ''/''"

definition clean_step :: "bool \<Rightarrow> string list \<Rightarrow> string \<Rightarrow> string list" where
  "clean_step r acc c =
     (if c = '''' \<or> c = ''.'' then acc
      else if c = ''..'' then
        (if acc \<noteq> [] \<and> last acc \<noteq> ''..'' then butlast acc else if r then acc else acc @ [''..''])
      else acc @ [c])"

definition clean_parts :: "string \<Rightarrow> string list" where
  "clean_parts p = foldl (clean_step (rooted p)) [] (split_char (CHR ''/'') p)"

definition clean :: "string \<Rightarrow> string" where
  "clean p =
     (if rooted p then ''/'' @ join_sep ''/'' (clean_parts p)
      else if clean_parts p = [] then ''.'' else join_sep ''/'' (clean_parts p))"

definition join_path :: "string \<Rightarrow> string \<Rightarrow> string" where
  "join_path a b = (if a = '''' \<and> b = '''' then '''' else if a = '''' then clean b else if b = '''' then clean a else clean (a @ ''/'' @ b))"

fun strip_common :: "string list \<Rightarrow> string list \<Rightarrow> string list \<times> string list" where
  "strip_common (b # bs) (t # ts) = (if b = t then strip_common bs ts else (b # bs, t # ts))"
| "strip_common bs ts = (bs, ts)"

text \<open>\<open>None\<close> when one is rooted and the other is not, or the base still goes up.\<close>

definition rel_path :: "string \<Rightarrow> string \<Rightarrow> string option" where
  "rel_path base targ =
     (if clean targ = clean base then Some ''.''
      else if rooted base \<noteq> rooted targ then None
      else (case strip_common (clean_parts base) (clean_parts targ) of (bs, ts) \<Rightarrow>
              if bs \<noteq> [] \<and> hd bs = ''..'' then None
              else Some (join_sep ''/'' (replicate (length bs) ''..'' @ ts))))"

section \<open>The file system\<close>

record file_entry =
  fl_body :: string
  fl_mode :: nat

type_synonym files = "(string \<times> file_entry) list"

record os_env =
  os_fail :: "nat \<Rightarrow> string option"
  os_meddle :: "nat \<Rightarrow> files \<Rightarrow> files"
  os_real :: "nat \<Rightarrow> string \<Rightarrow> string + string"
  os_temp :: string

definition no_such_file :: "string \<Rightarrow> string \<Rightarrow> string" where
  "no_such_file op path = op @ '' '' @ path @ '': no such file or directory''"

text \<open>
  A write goes through the handle from the start of the temporary file, whether or not its name is still there.
  The \<open>k\<close>th call finds the files as others have left them; it fails, or does its work.\<close>

definition os_call :: "os_env \<Rightarrow> nat \<Rightarrow> (files \<Rightarrow> string + 'a \<times> files) \<Rightarrow> files \<Rightarrow> (string + 'a) \<times> files" where
  "os_call E k act fs =
     (let fs1 = os_meddle E k fs in
      case os_fail E k of Some msg \<Rightarrow> (Inl msg, fs1)
      | None \<Rightarrow> (case act fs1 of Inl msg \<Rightarrow> (Inl msg, fs1) | Inr (a, fs2) \<Rightarrow> (Inr a, fs2)))"

text \<open>\<open>os.ReadFile\<close> and \<open>os.Stat\<close>, named by the word their error starts with.\<close>

definition read_file :: "string \<Rightarrow> string \<Rightarrow> files \<Rightarrow> string + file_entry \<times> files" where
  "read_file op path fs = (case map_of fs path of None \<Rightarrow> Inl (no_such_file op path) | Some f \<Rightarrow> Inr (f, fs))"

definition create_temp :: "string \<Rightarrow> files \<Rightarrow> string + unit \<times> files" where
  "create_temp path fs = Inr ((), AList.update path \<lparr>fl_body = '''', fl_mode = 0x180\<rparr> fs)"

definition write_file :: "string \<Rightarrow> string \<Rightarrow> files \<Rightarrow> string + unit \<times> files" where
  "write_file path body fs =
     (case map_of fs path of None \<Rightarrow> Inr ((), fs) | Some f \<Rightarrow> Inr ((), AList.update path (f\<lparr>fl_body := body @ drop (length body) (fl_body f)\<rparr>) fs))"

definition chmod_file :: "string \<Rightarrow> nat \<Rightarrow> files \<Rightarrow> string + unit \<times> files" where
  "chmod_file path mode fs =
     (case map_of fs path of None \<Rightarrow> Inl (no_such_file ''chmod'' path) | Some f \<Rightarrow> Inr ((), AList.update path (f\<lparr>fl_mode := mode\<rparr>) fs))"

definition rename_file :: "string \<Rightarrow> string \<Rightarrow> files \<Rightarrow> string + unit \<times> files" where
  "rename_file src dst fs =
     (case map_of fs src of None \<Rightarrow> Inl (no_such_file ''rename'' (src @ '' '' @ dst)) | Some f \<Rightarrow> Inr ((), AList.update dst f (AList.delete src fs)))"

section \<open>Validation\<close>

definition edit_not_found :: "proposal \<Rightarrow> go_error" where
  "edit_not_found p = (ErrEditNotFound, ''edit: the text to change is not in that file any more: '' @ pr_path p)"

text \<open>Call \<open>k\<close> resolves the root, call \<open>k + 1\<close> the file.\<close>

definition resolve_path :: "os_env \<Rightarrow> nat \<Rightarrow> string \<Rightarrow> proposal \<Rightarrow> go_error + string" where
  "resolve_path E k root p =
     (case os_real E k root of
        Inl msg \<Rightarrow> Inl (Opaque, ''edit: '' @ root @ '': '' @ msg)
      | Inr real_root \<Rightarrow>
          (case os_real E (Suc k) (join_path real_root (pr_path p)) of
             Inl _ \<Rightarrow> Inl (edit_not_found p)
           | Inr real_full \<Rightarrow>
               (case rel_path real_root real_full of
                  None \<Rightarrow> Inl (ErrOutsideRoot, ''edit: the path leaves the repository: '' @ pr_path p)
                | Some rel \<Rightarrow>
                    if rel = ''..'' \<or> has_prefix rel ''../''
                    then Inl (ErrOutsideRoot, ''edit: the path leaves the repository: '' @ pr_path p)
                    else Inr real_full)))"

definition check_text :: "proposal \<Rightarrow> string \<Rightarrow> go_error + unit" where
  "check_text p text =
     (let n = count_str text (pr_before p) in
      if n = 0 then Inl (edit_not_found p)
      else if n > 1 then Inl (ErrAmbiguous, ''edit: the text to change occurs more than once, so which one is meant is a guess: '' @
             nat_digits n @ '' occurrences in '' @ pr_path p)
      else check_indent (pr_before p) (pr_after p))"

definition reading :: "proposal \<Rightarrow> string \<Rightarrow> go_error" where
  "reading p msg = (Opaque, ''edit: reading '' @ pr_path p @ '': '' @ msg)"

definition validate_edit :: "os_env \<Rightarrow> string \<Rightarrow> proposal \<Rightarrow> files \<Rightarrow> (go_error + unit) \<times> files" where
  "validate_edit E root p fs =
     (if pr_path p = '''' \<or> pr_before p = '''' \<or> pr_after p = '''' then
        (Inl (ErrEmpty, ''edit: the proposal is incomplete: path, before and after are all required''), fs)
      else if pr_before p = pr_after p then
        (Inl (ErrNoChange, ''edit: the replacement is identical to what is already there''), fs)
      else (case resolve_path E 0 root p of
              Inl e \<Rightarrow> (Inl e, fs)
            | Inr full \<Rightarrow>
                (case os_call E 2 (read_file ''open'' full) fs of
                   (Inl msg, fs1) \<Rightarrow> (Inl (reading p msg), fs1)
                 | (Inr f, fs1) \<Rightarrow> (check_text p (fl_body f), fs1))))"

section \<open>Application\<close>

text \<open>The deferred \<open>os.Remove\<close> of the temporary file, whose error is ignored.\<close>

definition remove_temp :: "os_env \<Rightarrow> files \<Rightarrow> files" where
  "remove_temp E fs = (if os_fail E 13 \<noteq> None then os_meddle E 13 fs else AList.delete (os_temp E) (os_meddle E 13 fs))"

text \<open>The calls after the temporary file exists, and the last look at the file.\<close>

definition os_step :: "(string + 'a) \<times> files \<Rightarrow> (string \<Rightarrow> go_error) \<Rightarrow> ('a \<Rightarrow> files \<Rightarrow> (go_error + unit) \<times> files) \<Rightarrow> (go_error + unit) \<times> files" where
  "os_step r wrap k = (case r of (Inl msg, fs) \<Rightarrow> (Inl (wrap msg), fs) | (Inr a, fs) \<Rightarrow> k a fs)"

definition edit_err :: "string \<Rightarrow> string \<Rightarrow> go_error" where
  "edit_err words msg = (Opaque, ''edit: '' @ words @ '': '' @ msg)"

definition write_edit :: "os_env \<Rightarrow> proposal \<Rightarrow> string \<Rightarrow> nat \<Rightarrow> string \<Rightarrow> files \<Rightarrow> (go_error + unit) \<times> files" where
  "write_edit E p full mode updated fs =
     os_step (os_call E 8 (write_file (os_temp E) updated) fs) (edit_err (''writing '' @ pr_path p)) (\<lambda>_ fs.
     os_step (os_call E 9 (\<lambda>fs. Inr ((), fs)) fs) (edit_err (''closing '' @ pr_path p)) (\<lambda>_ fs.
     os_step (os_call E 10 (chmod_file (os_temp E) mode) fs) (\<lambda>msg. (Opaque, ''edit: '' @ msg)) (\<lambda>_ fs.
     os_step (os_call E 11 (rename_file (os_temp E) full) fs) (edit_err (''replacing '' @ pr_path p)) (\<lambda>_ fs.
     os_step (os_call E 12 (read_file ''open'' full) fs) (edit_err (''re-reading '' @ pr_path p)) (\<lambda>f fs.
       if fl_body f \<noteq> updated
       then (Inl (ErrNotVerified, ''edit: the file does not contain the approved text after writing: '' @ pr_path p @
               '' does not match the approved change after writing''), fs)
       else (Inr (), fs))))))"

definition apply_edit :: "os_env \<Rightarrow> string \<Rightarrow> proposal \<Rightarrow> files \<Rightarrow> (go_error + unit) \<times> files" where
  "apply_edit E root p fs =
     (case validate_edit E root p fs of
        (Inl e, fs) \<Rightarrow> (Inl e, fs)
      | (Inr _, fs) \<Rightarrow>
          (case resolve_path E 3 root p of
             Inl e \<Rightarrow> (Inl e, fs)
           | Inr full \<Rightarrow>
               os_step (os_call E 5 (read_file ''stat'' full) fs) (edit_err (pr_path p)) (\<lambda>info fs.
               os_step (os_call E 6 (read_file ''open'' full) fs) (reading p) (\<lambda>f fs.
               os_step (os_call E 7 (create_temp (os_temp E)) fs) (\<lambda>msg. (Opaque, ''edit: '' @ msg)) (\<lambda>_ fs.
                 (case write_edit E p full (fl_mode info) (replace_first (fl_body f) (pr_before p) (pr_after p)) fs of
                    (r, fs) \<Rightarrow> (r, remove_temp E fs)))))))"

section \<open>Presentation\<close>

definition diff_lines :: "string \<Rightarrow> string list \<Rightarrow> string" where
  "diff_lines sign ls = concat (map (\<lambda>l. sign @ l @ [newline]) ls)"

definition diff :: "proposal \<Rightarrow> string" where
  "diff p =
     (let before = split_char newline (pr_before p); after = split_char newline (pr_after p) in
      ''--- a/'' @ pr_path p @ [newline] @ ''+++ b/'' @ pr_path p @ [newline] @
      ''@@ -'' @ itoa (pr_line p) @ '','' @ nat_digits (length before) @ '' +'' @ itoa (pr_line p) @ '','' @ nat_digits (length after) @
      '' @@'' @ [newline] @ diff_lines ''-'' before @ diff_lines ''+'' after)"

definition hash_basis :: "64 word" where "hash_basis = 1469598103934665603"
definition hash_prime :: "64 word" where "hash_prime = 1099511628211"

definition hash_word :: "string \<Rightarrow> 64 word" where
  "hash_word s = foldl (\<lambda>h c. (xor h (of_nat (of_char c))) * hash_prime) hash_basis s"

definition hash_of :: "string \<Rightarrow> string" where
  "hash_of s = (let n = unat (hash_word s) in map (\<lambda>i. hex_digit (n div 16 ^ (15 - i) mod 16)) [0 ..< 16])"

definition idempotency_key_of :: "proposal \<Rightarrow> string \<Rightarrow> string" where
  "idempotency_key_of p revision =
     revision @ '':'' @ pr_path p @ '':'' @ nat_digits (length (pr_before p)) @ '':'' @
     hash_of (pr_before p @ [char_of (0 :: nat)] @ pr_after p)"

end
