(* ===== verification/Edit_Props.thy ===== *)
theory Edit_Props
  imports Edit
begin

text \<open>
  What an edit of a customer's source guarantees.  First facts of the text search, then one application seen from the
  outside: \<open>quiet\<close> says nobody else touches the files while it runs, and every failure of the operating system remains possible.
\<close>

section \<open>Text search\<close>

declare has_prefix_append [simp]

lemma count_once:
  assumes "count_str s p = 1" and "p \<noteq> []"
  obtains us vs where "s = us @ p @ vs" "index_of s p = Some (length us)" "\<not> contains_str vs p"
proof -
  from assms obtain i where i: "index_of s p = Some i"
    by (subst (asm) count_str.simps) (auto split: option.splits)
  then obtain us vs where s: "s = us @ p @ vs" and us: "length us = i" using index_of_Some by blast
  have "drop (i + length p) s = vs" using s us by simp
  with assms i have "count_str vs p = 0"
    by (subst (asm) count_str.simps) auto
  with assms(2) have "index_of vs p = None"
    by (subst (asm) count_str.simps) (simp split: option.splits)
  then have "\<not> contains_str vs p" using index_of_None by blast
  moreover have "index_of s p = Some (length us)" using i us by simp
  ultimately show thesis using that [OF s] by blast
qed

lemma replace_at: "index_of (us @ old @ vs) old = Some (length us) \<Longrightarrow> replace_first (us @ old @ vs) old new = us @ new @ vs"
  by (simp add: replace_first_def)

text \<open>A text that begins at one position only is found there, and counted once.\<close>

definition sole :: "string \<Rightarrow> string \<Rightarrow> string \<Rightarrow> string \<Rightarrow> bool" where
  "sole s us p vs \<longleftrightarrow> s = us @ p @ vs \<and> list_all (\<lambda>i. has_prefix (drop i s) p \<longrightarrow> i = length us) [0 ..< Suc (length s)]"

lemma sole_split: "sole s us p vs \<Longrightarrow> s = xs @ p @ ys \<Longrightarrow> xs = us"
proof -
  assume a: "sole s us p vs" and s: "s = xs @ p @ ys"
  have "length xs \<le> length s" and "has_prefix (drop (length xs) s) p" using s by simp_all
  with a have "length xs = length us" unfolding sole_def list_all_iff by (metis atLeast_upt lessThan_Suc_atMost atMost_iff)
  moreover have "us @ p @ vs = xs @ p @ ys" using a s unfolding sole_def by simp
  ultimately show ?thesis by simp
qed

lemma sole_index:
  assumes "sole s us p vs" shows "index_of s p = Some (length us)"
proof (cases "index_of s p")
  case None
  with assms show ?thesis by (auto simp: index_of_None contains_str_iff sole_def)
next
  case (Some i)
  with index_of_Some obtain xs ys where "s = xs @ p @ ys" "length xs = i" by blast
  with sole_split [OF assms] Some show ?thesis by auto
qed

lemma sole_count:
  assumes "sole s us p vs" and "p \<noteq> []" shows "count_str s p = 1"
proof -
  have "\<not> contains_str vs p"
  proof
    assume "contains_str vs p"
    then obtain xs ys where "vs = xs @ p @ ys" by (auto simp: contains_str_iff)
    with assms(1) have "s = (us @ p @ xs) @ p @ ys" by (auto simp: sole_def)
    with sole_split [OF assms(1)] have "us @ p @ xs = us" by blast
    with assms(2) show False by simp
  qed
  then have "index_of vs p = None" by (simp add: index_of_None)
  then have "count_str vs p = 0" using assms(2) by (subst count_str.simps) simp
  moreover have "drop (length us + length p) s = vs" using assms(1) by (auto simp: sole_def)
  ultimately show ?thesis using sole_index [OF assms(1)] assms(2) by (subst count_str.simps) simp
qed

section \<open>One application, undisturbed\<close>

definition quiet :: "os_env \<Rightarrow> files \<Rightarrow> bool" where
  "quiet E fs \<longleftrightarrow> os_meddle E = (\<lambda>_ fs. fs) \<and> os_real E = (\<lambda>_. os_real E 0) \<and> map_of fs (os_temp E) = None"

lemma os_call_quiet:
  assumes "quiet E gs"
  shows "os_call E k act fs = (case os_fail E k of Some msg \<Rightarrow> (Inl msg, fs)
           | None \<Rightarrow> (case act fs of Inl msg \<Rightarrow> (Inl msg, fs) | Inr (a, fs2) \<Rightarrow> (Inr a, fs2)))"
  using assms by (simp add: os_call_def quiet_def Let_def)

lemma os_step_quiet:
  assumes "quiet E gs"
  shows "os_step (os_call E k act fs) wrap cont = (case os_fail E k of Some msg \<Rightarrow> (Inl (wrap msg), fs)
           | None \<Rightarrow> (case act fs of Inl msg \<Rightarrow> (Inl (wrap msg), fs) | Inr (a, fs2) \<Rightarrow> cont a fs2))"
  by (simp add: os_call_quiet [OF assms] os_step_def split: option.splits sum.splits prod.splits)

lemma resolve_quiet: "quiet E gs \<Longrightarrow> resolve_path E k root p = resolve_path E 0 root p"
proof -
  assume "quiet E gs"
  then obtain R where "os_real E = (\<lambda>_. R)" unfolding quiet_def by blast
  then have r: "os_real E = (\<lambda>_. R)" .
  show ?thesis unfolding resolve_path_def r by (rule refl)
qed

lemmas file_ops = read_file_def create_temp_def write_file_def chmod_file_def rename_file_def

lemma write_edit_quiet:
  assumes q: "quiet E gs" and t: "map_of fs (os_temp E) = Some tmp" "fl_body tmp = []" and n: "full \<noteq> os_temp E"
    and w: "write_edit E p full mode updated fs = (r, fs')"
  shows "(r = Inr () \<or> os_fail E 12 \<noteq> None) \<and>
           map_of fs' = (map_of fs)(os_temp E := None, full \<mapsto> tmp\<lparr>fl_body := updated, fl_mode := mode\<rparr>) \<or>
         r \<noteq> Inr () \<and> map_of (AList.delete (os_temp E) fs') = (map_of fs)(os_temp E := None)"
  using w t n unfolding write_edit_def os_step_quiet [OF q]
  by (auto simp: file_ops update_conv' delete_conv' fun_eq_iff split: option.splits if_splits)

lemma write_edit_lands:
  assumes q: "quiet E gs" and t: "map_of fs (os_temp E) = Some tmp" "fl_body tmp = []" and n: "full \<noteq> os_temp E"
    and f: "os_fail E = (\<lambda>_. None)"
  shows "fst (write_edit E p full mode updated fs) = Inr ()"
  using t n unfolding write_edit_def os_step_quiet [OF q] f
  by (simp add: file_ops update_conv' delete_conv')

lemma remove_quiet:
  assumes "quiet E gs"
  shows "map_of (AList.delete (os_temp E) (remove_temp E fs)) = map_of (AList.delete (os_temp E) fs) \<and>
         (map_of fs (os_temp E) = None \<longrightarrow> map_of (remove_temp E fs) = map_of fs) \<and>
         (os_fail E 13 = None \<longrightarrow> map_of (remove_temp E fs) = (map_of fs)(os_temp E := None))"
  using assms by (auto simp: remove_temp_def quiet_def delete_conv' fun_eq_iff)

text \<open>What \<open>Validate\<close> accepts.\<close>

definition acceptable :: "os_env \<Rightarrow> string \<Rightarrow> proposal \<Rightarrow> files \<Rightarrow> string \<Rightarrow> file_entry \<Rightarrow> bool" where
  "acceptable E root p fs full f \<longleftrightarrow>
     pr_path p \<noteq> '''' \<and> pr_before p \<noteq> '''' \<and> pr_after p \<noteq> '''' \<and> pr_before p \<noteq> pr_after p \<and>
     resolve_path E 0 root p = Inr full \<and> map_of fs full = Some f \<and> count_str (fl_body f) (pr_before p) = 1 \<and>
     leading_space (first_line (pr_before p)) = leading_space (first_line (pr_after p))"

lemma check_text_ok: "check_text p text = Inr () \<longleftrightarrow> count_str text (pr_before p) = 1 \<and>
    leading_space (first_line (pr_before p)) = leading_space (first_line (pr_after p))"
  by (auto simp: check_text_def check_indent_def Let_def)

lemma validate_quiet:
  assumes "quiet E fs" and "validate_edit E root p fs = (r, fs')"
  shows "fs' = fs \<and> (r = Inr () \<longrightarrow> (\<exists>full f. acceptable E root p fs full f))"
  using assms(2) unfolding validate_edit_def os_call_quiet [OF assms(1)]
  by (auto simp: acceptable_def check_text_ok file_ops split: if_splits sum.splits option.splits)

lemma validate_accepts:
  assumes "quiet E fs" "acceptable E root p fs full f" "os_fail E = (\<lambda>_. None)"
  shows "validate_edit E root p fs = (Inr (), fs)"
  using assms(2) unfolding validate_edit_def os_call_quiet [OF assms(1)] assms(3)
  by (simp add: acceptable_def check_text_ok file_ops)

text \<open>One application: it did everything, or nothing that another file shows.\<close>

definition edited :: "proposal \<Rightarrow> string \<Rightarrow> file_entry \<Rightarrow> files \<Rightarrow> files \<Rightarrow> bool" where
  "edited p full f fs fs' \<longleftrightarrow>
     map_of fs' = (map_of fs)(full \<mapsto> f\<lparr>fl_body := replace_first (fl_body f) (pr_before p) (pr_after p)\<rparr>)"

lemma apply_quiet:
  assumes q: "quiet E fs" and a: "apply_edit E root p fs = (r, fs')"
  shows "(r = Inr () \<or> os_fail E 12 \<noteq> None) \<and> (\<exists>full f. acceptable E root p fs full f \<and> edited p full f fs fs') \<or>
         r \<noteq> Inr () \<and> map_of (AList.delete (os_temp E) fs') = map_of fs \<and>
           (os_fail E 13 = None \<longrightarrow> map_of fs' (os_temp E) = None)"
proof (cases "\<exists>full f. acceptable E root p fs full f \<and> validate_edit E root p fs = (Inr (), fs)")
  case False
  have t: "map_of fs (os_temp E) = None" using q by (simp add: quiet_def)
  obtain r1 fs1 where v: "validate_edit E root p fs = (r1, fs1)" by fastforce
  with validate_quiet [OF q v] False obtain e where "r1 = Inl e" "fs1 = fs" by (cases r1) auto
  with v a t show ?thesis by (auto simp: apply_edit_def delete_conv' fun_eq_iff)
next
  case True
  then obtain full f where acc: "acceptable E root p fs full f" and v: "validate_edit E root p fs = (Inr (), fs)" by blast
  let ?t = "os_temp E" and ?u = "replace_first (fl_body f) (pr_before p) (pr_after p)"
  let ?gs = "AList.update ?t \<lparr>fl_body = '''', fl_mode = 0x180\<rparr> fs"
  have t: "map_of fs ?t = None" using q by (simp add: quiet_def)
  have f: "map_of fs full = Some f" and r: "resolve_path E 3 root p = Inr full"
    using acc resolve_quiet [OF q, of 3] by (simp_all add: acceptable_def)
  from f t have n: "full \<noteq> ?t" by auto
  obtain r2 fs2 where w: "write_edit E p full (fl_mode f) ?u ?gs = (r2, fs2)" by fastforce
  have t2: "map_of ?gs ?t = Some \<lparr>fl_body = '''', fl_mode = 0x180\<rparr>" by (simp add: update_conv')
  have base: "(map_of ?gs)(?t := None) = map_of fs" using t by (auto simp: update_conv' fun_eq_iff)
  note W = write_edit_quiet [OF q t2 _ n w]
  have cases: "r \<noteq> Inr () \<and> fs' = fs \<or> r = r2 \<and> fs' = remove_temp E fs2"
    using a v r f w unfolding apply_edit_def os_step_quiet [OF q]
    by (auto simp: file_ops split: option.splits)
  then show ?thesis
  proof (elim disjE conjE)
    assume "r \<noteq> Inr ()" "fs' = fs"
    with t show ?thesis by (auto simp: delete_conv' fun_eq_iff)
  next
    assume r2: "r = r2" and fs': "fs' = remove_temp E fs2"
    from W consider
        "r2 = Inr () \<or> os_fail E 12 \<noteq> None" "map_of fs2 = (map_of fs)(full \<mapsto> f\<lparr>fl_body := ?u\<rparr>)"
      | "r2 \<noteq> Inr ()" "map_of (AList.delete ?t fs2) = map_of fs"
      unfolding base by (cases f) auto
    then show ?thesis
    proof cases
      case 1
      then have "map_of fs' = map_of fs2" using remove_quiet [OF q, of fs2] t n fs' by auto
      with 1 acc r2 show ?thesis by (auto simp: edited_def)
    next
      case 2
      with remove_quiet [OF q, of fs2] fs' r2 show ?thesis by auto
    qed
  qed
qed

lemma apply_lands:
  assumes q: "quiet E fs" and acc: "acceptable E root p fs full f" and n: "os_fail E = (\<lambda>_. None)"
  shows "fst (apply_edit E root p fs) = Inr ()"
proof -
  let ?t = "os_temp E" and ?u = "replace_first (fl_body f) (pr_before p) (pr_after p)"
  let ?gs = "AList.update ?t \<lparr>fl_body = '''', fl_mode = 0x180\<rparr> fs"
  have f: "map_of fs full = Some f" and r: "resolve_path E 3 root p = Inr full"
    using acc resolve_quiet [OF q, of 3] by (simp_all add: acceptable_def)
  have "full \<noteq> ?t" using f q by (auto simp: quiet_def)
  then have "fst (write_edit E p full (fl_mode f) ?u ?gs) = Inr ()"
    by (intro write_edit_lands [OF q]) (auto simp: n update_conv')
  then show ?thesis using validate_accepts [OF q acc n] r f unfolding apply_edit_def os_step_quiet [OF q] n
    by (auto simp: file_ops split: prod.splits)
qed

section \<open>What a caller may rely on\<close>

text \<open>An edit nobody disturbs and whose every system call works succeeds exactly when the proposal is complete, changes
  something, names a path inside the repository whose file contains the text to replace exactly once by Go's count, and keeps the
  indentation of its first line.\<close>

theorem edit_accepted_iff:
  assumes "quiet E fs" and "os_fail E = (\<lambda>_. None)"
  shows "fst (apply_edit E root p fs) = Inr () \<longleftrightarrow>
    pr_path p \<noteq> '''' \<and> pr_before p \<noteq> '''' \<and> pr_after p \<noteq> '''' \<and> pr_before p \<noteq> pr_after p \<and>
    (\<exists>full f. resolve_path E 0 root p = Inr full \<and> map_of fs full = Some f \<and> count_str (fl_body f) (pr_before p) = 1) \<and>
    leading_space (first_line (pr_before p)) = leading_space (first_line (pr_after p))"
proof
  assume "fst (apply_edit E root p fs) = Inr ()"
  then obtain fs' where "apply_edit E root p fs = (Inr (), fs')" by (metis prod.collapse)
  with apply_quiet [OF assms(1) this]
  show "pr_path p \<noteq> '''' \<and> pr_before p \<noteq> '''' \<and> pr_after p \<noteq> '''' \<and> pr_before p \<noteq> pr_after p \<and>
    (\<exists>full f. resolve_path E 0 root p = Inr full \<and> map_of fs full = Some f \<and> count_str (fl_body f) (pr_before p) = 1) \<and>
    leading_space (first_line (pr_before p)) = leading_space (first_line (pr_after p))"
    by (auto simp: acceptable_def)
next
  assume "pr_path p \<noteq> '''' \<and> pr_before p \<noteq> '''' \<and> pr_after p \<noteq> '''' \<and> pr_before p \<noteq> pr_after p \<and>
    (\<exists>full f. resolve_path E 0 root p = Inr full \<and> map_of fs full = Some f \<and> count_str (fl_body f) (pr_before p) = 1) \<and>
    leading_space (first_line (pr_before p)) = leading_space (first_line (pr_after p))"
  then obtain full f where "acceptable E root p fs full f" by (auto simp: acceptable_def)
  with apply_lands [OF assms(1) _ assms(2)] show "fst (apply_edit E root p fs) = Inr ()" by blast
qed



text \<open>C21. An edit can be taken back: the proposal that swaps the two texts is accepted and restores every file, when
  the new text begins at one place only in the edited file.\<close>

theorem edit_taken_back:
  assumes "quiet E fs" and "apply_edit E root p fs = (Inr (), fs1)"
    and "quiet E' fs1" and "os_fail E' = (\<lambda>_. None)" and "os_real E' = os_real E"
    and "resolve_path E 0 root p = Inr full" and "map_of fs1 full = Some g" and "sole (fl_body g) us (pr_after p) vs"
  shows "fst (apply_edit E' root (p\<lparr>pr_before := pr_after p, pr_after := pr_before p\<rparr>) fs1) = Inr () \<and>
         map_of (snd (apply_edit E' root (p\<lparr>pr_before := pr_after p, pr_after := pr_before p\<rparr>) fs1)) = map_of fs"
proof -
  let ?p = "p\<lparr>pr_before := pr_after p, pr_after := pr_before p\<rparr>"
  from apply_quiet [OF assms(1, 2)] obtain f where acc: "acceptable E root p fs full f" and e: "edited p full f fs fs1"
    using assms(6) by (auto simp: acceptable_def)
  then have "count_str (fl_body f) (pr_before p) = 1" "pr_before p \<noteq> []" by (simp_all add: acceptable_def)
  then obtain xs ys where s: "fl_body f = xs @ pr_before p @ ys" and i: "index_of (fl_body f) (pr_before p) = Some (length xs)"
    by (rule count_once)
  have "replace_first (fl_body f) (pr_before p) (pr_after p) = xs @ pr_after p @ ys"
    using i unfolding s by (rule replace_at)
  with e assms(7) have g: "g = f\<lparr>fl_body := xs @ pr_after p @ ys\<rparr>" and m: "map_of fs1 = (map_of fs)(full \<mapsto> g)"
    by (auto simp: edited_def)
  have "xs = us" using sole_split [OF assms(8)] g by simp
  with g assms(8) have ys: "ys = vs" by (simp add: sole_def)
  have r: "resolve_path E' 0 root ?p = resolve_path E 0 root p"
  proof -
    have pp: "pr_path ?p = pr_path p" by simp
    show ?thesis unfolding resolve_path_def edit_not_found_def assms(5) pp by (rule refl)
  qed
  have acc': "acceptable E' root ?p fs1 full g"
    using acc r assms(6, 7) sole_count [OF assms(8)] by (auto simp: acceptable_def)
  have ok: "fst (apply_edit E' root ?p fs1) = Inr ()" by (rule apply_lands [OF assms(3) acc' assms(4)])
  then have "apply_edit E' root ?p fs1 = (Inr (), snd (apply_edit E' root ?p fs1))" by (metis prod.collapse)
  from apply_quiet [OF assms(3) this] obtain full' g' where acc2: "acceptable E' root ?p fs1 full' g'"
    and e2: "edited ?p full' g' fs1 (snd (apply_edit E' root ?p fs1))" by auto
  from acc2 acc' have [simp]: "full' = full" "g' = g" by (auto simp: acceptable_def)
  have "replace_first (fl_body g) (pr_after p) (pr_before p) = fl_body f"
    using sole_index [OF assms(8)] \<open>xs = us\<close> by (simp add: replace_first_def g s)
  with e2 m have "map_of (snd (apply_edit E' root ?p fs1)) = (map_of fs)(full \<mapsto> f)" by (simp add: edited_def g)
  also have "\<dots> = map_of fs" using acc by (simp add: acceptable_def fun_upd_idem)
  finally show ?thesis using ok by simp
qed

section \<open>Concrete runs\<close>

definition calm :: os_env where
  "calm = \<lparr>os_fail = (\<lambda>_. None), os_meddle = (\<lambda>_ fs. fs), os_real = (\<lambda>_ path. Inr path), os_temp = ''/r/.heros-edit-1''\<rparr>"

definition repo :: files where
  "repo = [(''/r/agent.py'', \<lparr>fl_body = ''model=gpt-4o, k=1'', fl_mode = 0x1ED\<rparr>), (''/r/b'', \<lparr>fl_body = ''gpt-4o'', fl_mode = 0x1A4\<rparr>)]"

definition bigger :: proposal where
  "bigger = \<lparr>pr_path = ''agent.py'', pr_line = 1, pr_before = ''gpt-4o'', pr_after = ''gpt-4o-mini'', pr_axis = ''model'', pr_rationale = ''''\<rparr>"

definition repo_edited :: files where
  "repo_edited = [(''/r/agent.py'', \<lparr>fl_body = ''model=gpt-4o-mini, k=1'', fl_mode = 0x1ED\<rparr>), (''/r/b'', \<lparr>fl_body = ''gpt-4o'', fl_mode = 0x1A4\<rparr>)]"

lemma calm_quiet: "quiet calm repo" "quiet calm repo_edited" "os_fail calm = (\<lambda>_. None)"
  by (simp_all add: quiet_def calm_def repo_def repo_edited_def)

lemma bigger_applies: "apply_edit calm ''/r'' bigger repo = (Inr (), repo_edited)"
  by code_simp

lemma edit_accepted_iff_witness:
  "fst (apply_edit calm ''/r'' bigger repo) = Inr () \<and>
   fst (apply_edit calm ''/r'' (bigger\<lparr>pr_path := ''../x''\<rparr>) repo) \<noteq> Inr ()"
proof -
  have "resolve_path calm 0 ''/r'' (bigger\<lparr>pr_path := ''../x''\<rparr>) = Inl (ErrOutsideRoot, ''edit: the path leaves the repository: ../x'')"
    by code_simp
  then show ?thesis using edit_accepted_iff [OF calm_quiet(1, 3), of "''/r''" "bigger\<lparr>pr_path := ''../x''\<rparr>"] bigger_applies by auto
qed



lemma edit_taken_back_witness:
  "map_of (snd (apply_edit calm ''/r'' (bigger\<lparr>pr_before := pr_after bigger, pr_after := pr_before bigger\<rparr>) repo_edited)) = map_of repo"
proof -
  have r: "resolve_path calm 0 ''/r'' bigger = Inr ''/r/agent.py''" by code_simp
  have m: "map_of repo_edited ''/r/agent.py'' = Some \<lparr>fl_body = ''model=gpt-4o-mini, k=1'', fl_mode = 0x1ED\<rparr>" by code_simp
  have s: "sole (fl_body \<lparr>fl_body = ''model=gpt-4o-mini, k=1'', fl_mode = 0x1ED\<rparr>) ''model='' (pr_after bigger) '', k=1''"
    by code_simp
  from edit_taken_back [OF calm_quiet(1) bigger_applies calm_quiet(2, 3) refl r m s] show ?thesis by (rule conjunct2)
qed

section \<open>Where the guarantees end\<close>

text \<open>Occurrences that overlap are counted once: an ambiguous text is accepted, and the edit cannot be taken back by its inverse.\<close>

lemma overlap_counts_once: "count_str ''aaa'' ''aa'' = 1 \<and> has_prefix (drop 1 ''aaa'') ''aa''"
  by code_simp

lemma overlap_not_reversible:
  "replace_first ''aX'' ''X'' ''aa'' = ''aaa'' \<and> count_str ''aaa'' ''aa'' = 1 \<and> replace_first ''aaa'' ''aa'' ''X'' = ''Xa''"
  by code_simp

text \<open>When the text disappears between the check and the second read of the file, nothing is replaced and the edit reports success.\<close>

lemma vanished_text_succeeds:
  "let gone = [(''/r/agent.py'', \<lparr>fl_body = ''model=other'', fl_mode = 0x1ED\<rparr>), (''/r/b'', \<lparr>fl_body = ''gpt-4o'', fl_mode = 0x1A4\<rparr>)] in
   apply_edit (calm\<lparr>os_meddle := (\<lambda>k fs. if k = 5 then gone else fs)\<rparr>) ''/r'' bigger repo = (Inr (), gone)"
  by code_simp

text \<open>The hash starts from another number than FNV-1a's 64-bit offset basis.\<close>

lemma hash_basis_differs: "hash_basis \<noteq> 14695981039346656037"
  by (simp add: hash_basis_def)

end
