(* ===== verification/Router.thy ===== *)
theory Router
  imports Complex_Main Intent Gostrings "HOL-Library.Product_Lexorder"
begin

text \<open>
  Package \<open>internal/router\<close>: a sentence becomes one of the nineteen intents, a redirection to another surface, or an
  abstention (\<open>router.go\<close>), and the evaluation of the router over labelled questions (\<open>holdout.go\<close>).  The vocabulary and the axis words are
  Go maps, visited in any order: the functions that walk them take the map as an association list.
\<close>

section \<open>Words\<close>

text \<open>One rune of the lower-cased text: letters, digits and blanks stay, three marks become blanks, everything else goes.\<close>

definition norm_rune :: "string \<Rightarrow> string" where
  "norm_rune r = (case map of_char r of
     [n] \<Rightarrow> if 97 \<le> n \<and> n \<le> 122 \<or> 48 \<le> n \<and> n \<le> 57 \<or> n = (32 :: nat) then r
            else if n = 45 \<or> n = 95 \<or> n = 47 then '' '' else ''''
   | _ \<Rightarrow> '''')"

definition normalise :: "string \<Rightarrow> string" where
  "normalise s = join_sep '' '' (words_of (concat (map (\<lambda>r. norm_rune (lower_rune r)) (rune_split (trim_space s)))))"

definition contains_word :: "string \<Rightarrow> string \<Rightarrow> bool" where
  "contains_word q phrase \<longleftrightarrow>
     (let hay = words_of q; needle = words_of phrase in
      phrase \<noteq> '''' \<and> needle \<noteq> [] \<and> length needle \<le> length hay \<and>
      list_ex (\<lambda>i. take (length needle) (drop i hay) = needle) [0 ..< Suc (length hay - length needle)])"

section \<open>Vocabulary\<close>

definition abstain_threshold :: int where "abstain_threshold = 2"

type_synonym signal = "string \<times> int"

definition vocabulary :: "(string \<times> signal list) list" where
  "vocabulary =
    [(''assess'',
       [(''what is weak'', 4), (''whats weak'', 4), (''look at my repo'', 4), (''look at my repository'', 4),
        (''assess'', 3), (''review my agent'', 4), (''audit'', 3), (''health check'', 3), (''what could be better'', 4),
        (''whats wrong with'', 4), (''tell me what'', 2), (''weak'', 1)]),
     (''improve'',
       [(''fix it'', 4), (''fix them'', 4), (''open a pull request'', 4), (''open a pr'', 4), (''make it better'', 4),
        (''improve'', 3), (''apply the fix'', 4), (''go ahead and fix'', 4)]),
     (''evalset'',
       [(''eval set'', 4), (''evaluation set'', 4), (''eval suite'', 4), (''test cases'', 3), (''build me an eval'', 4),
        (''generate evals'', 4), (''benchmark'', 3), (''eval'', 1)]),
     (''compare'',
       [(''better than'', 4), (''compare'', 3), (''versus'', 3), (''vs'', 1), (''did it help'', 4), (''regression'', 3),
        (''which version'', 4)]),
     (''graph'',
       [(''what does my agent do'', 4), (''step by step'', 3), (''show me the graph'', 4), (''what does it do'', 3),
        (''how does it work'', 3)]),
     (''graph_order'',
       [(''run in this order'', 4), (''right order'', 4), (''should these run'', 4), (''ordering'', 3), (''sequence'', 2),
        (''topology'', 3)]),
     (''run_history'',
       [(''what happened'', 4), (''that run'', 3), (''last run'', 4), (''run history'', 4), (''trace'', 1)]),
     (''coverage'',
       [(''what did you measure'', 4), (''what did you not'', 4), (''coverage'', 3), (''how much did you check'', 4)]),
     (''context'',
       [(''conversation history'', 4), (''what history'', 4), (''context window'', 4), (''message list'', 4),
        (''context'', 1)]),
     (''memory'',
       [(''remember between'', 4), (''what does it remember'', 4), (''between sessions'', 4), (''persist'', 3),
        (''memory'', 1)]),
     (''harness'',
       [(''allowed to do'', 4), (''what can it reach'', 4), (''what can it spend'', 4), (''sandbox'', 3),
        (''permissions'', 3), (''ceiling'', 3), (''harness'', 1)]),
     (''loop'',
       [(''how many turns'', 4), (''max turns'', 4), (''what loop'', 4), (''iterations'', 3), (''stop condition'', 4),
        (''loop'', 1)]),
     (''skills'',
       [(''what skills'', 4), (''skills bound'', 4), (''which skills'', 4), (''skill'', 1)]),
     (''tools'',
       [(''what tools'', 4), (''which tools'', 4), (''tools does'', 4), (''tool calls'', 3), (''unused tool'', 4),
        (''tools'', 1), (''tool'', 1)]),
     (''preview_change'',
       [(''would you write'', 4), (''show me the diff'', 4), (''preview'', 3), (''what would change'', 4),
        (''would change if'', 4), (''see the change first'', 4), (''diff'', 2)]),
     (''author'',
       [(''change something on'', 4), (''edit the axis'', 4), (''author a change'', 4), (''author'', 1), (''axis config'', 3)]),
     (''prompt'',
       [(''change the prompt'', 4), (''change what it is told'', 4), (''rewrite the prompt'', 4), (''system prompt'', 3),
        (''prompt'', 1)]),
     (''model'',
       [(''change the model'', 4), (''switch model'', 4), (''use a different model'', 4), (''which model'', 3),
        (''model'', 1)]),
     (''deliver'',
       [(''reach my repository'', 4), (''how does a change get'', 4), (''delivery'', 3), (''merge'', 3)])]"

definition unbounded_signals :: "string list" where
  "unbounded_signals = [''until it is perfect'', ''until its perfect'', ''keep going until'', ''as many as it takes'', ''no limit'',
     ''unlimited'', ''forever'', ''until you run out'', ''everything you can find'']"

definition axis_words :: "(string \<times> string list) list" where
  "axis_words =
    [(''prompt'', [''prompt'', ''prompts'', ''instruction'', ''instructions'', ''system message'']),
     (''model'', [''model'', ''models'', ''temperature'', ''sampling'']),
     (''tools'', [''tool'', ''tools'', ''function calling'']),
     (''skills'', [''skill'', ''skills'', ''capability'', ''capabilities'']),
     (''context'', [''context'', ''history'', ''message list'', ''context window'', ''conversation history'']),
     (''memory'', [''memory'', ''remember'', ''persistence'', ''recall'']),
     (''harness'', [''harness'', ''permission'', ''permissions'', ''sandbox'', ''timeout'', ''retries'', ''ceiling'']),
     (''loop'', [''loop'', ''loops'', ''turns'', ''iteration'', ''iterations'', ''stop condition'']),
     (''graph'', [''graph'', ''topology'', ''edges'', ''ordering'', ''wiring''])]"

section \<open>Routing\<close>

text \<open>\<open>AxisOf\<close>: the one axis whose words the sentence contains.\<close>

definition axis_over :: "(string \<times> string list) list \<Rightarrow> string \<Rightarrow> string" where
  "axis_over axis_map text =
     (let q = normalise text; found = filter (\<lambda>(axis, words). list_ex (contains_word q) words) axis_map in
      case found of [(axis, _)] \<Rightarrow> axis | _ \<Rightarrow> '''')"

definition axis_of :: "string \<Rightarrow> string" where
  "axis_of = axis_over axis_words"

definition unbounded :: "string \<Rightarrow> bool" where
  "unbounded text = list_ex (contains_str (normalise text)) unbounded_signals"

record routing =
  o_intent :: string
  o_redirect :: "out_of_scope_topic option"
  o_score :: int
  o_axis :: string
  o_runner_up :: string
  o_runner_up_score :: int

definition no_routing :: routing where
  "no_routing = \<lparr>o_intent = '''', o_redirect = None, o_score = 0, o_axis = '''', o_runner_up = '''', o_runner_up_score = 0\<rparr>"

definition abstained :: "routing \<Rightarrow> bool" where
  "abstained o1 \<longleftrightarrow> o_intent o1 = '''' \<and> o_redirect o1 = None"

text \<open>An intent is in the map of scores when one of its signals is in the sentence.\<close>

definition matched :: "string \<Rightarrow> signal list \<Rightarrow> signal list" where
  "matched q sigs = filter (\<lambda>s. contains_word q (fst s)) sigs"

definition scores :: "(string \<times> signal list) list \<Rightarrow> string \<Rightarrow> (string \<times> int) list" where
  "scores vocab q = map (\<lambda>(i, sigs). (i, sum_list (map snd (matched q sigs)))) (filter (\<lambda>(i, sigs). matched q sigs \<noteq> []) vocab)"

text \<open>By score, the highest first, then by name.\<close>

definition ranked :: "(string \<times> int) list \<Rightarrow> (string \<times> int) list" where
  "ranked sc = sort_key (\<lambda>(i, n). (- n, i)) sc"

definition route_over :: "(string \<times> signal list) list \<Rightarrow> string \<Rightarrow> routing" where
  "route_over vocab text =
     (let q = normalise text in
      if q = '''' then no_routing
      else (case find (\<lambda>t. contains_word q (normalise (oos_topic t))) out_of_scope of
              Some t \<Rightarrow> no_routing\<lparr>o_redirect := Some t, o_score := 4\<rparr>
            | None \<Rightarrow>
                (case ranked (scores vocab q) of
                   [] \<Rightarrow> no_routing
                 | (i, n) # rest \<Rightarrow>
                     let out = no_routing\<lparr>o_score := n, o_axis := axis_of text\<rparr>;
                         out2 = (case rest of [] \<Rightarrow> out | (j, m) # _ \<Rightarrow> out\<lparr>o_runner_up := j, o_runner_up_score := m\<rparr>)
                     in if n < abstain_threshold then out2 else out2\<lparr>o_intent := i\<rparr>)))"

definition route :: "string \<Rightarrow> routing" where
  "route = route_over vocabulary"

section \<open>The holdout\<close>

record question =
  q_text :: string
  q_intent :: string
  q_redirect :: string

record row =
  rw_intent :: string
  rw_labelled :: int
  rw_correct :: int
  rw_confused :: "(string \<times> int) list"
  rw_abstained :: int

text \<open>A fraction, or -1 when there was nothing to count; exact where the code divides \<open>float64\<close>s.\<close>

definition recall :: "row \<Rightarrow> rat" where
  "recall r = (if rw_labelled r = 0 then -1 else of_int (rw_correct r) / of_int (rw_labelled r))"

record report =
  rp_rows :: "row list"
  rp_abstain_labelled :: int
  rp_abstain_correct :: int
  rp_false_routes :: "string list"

definition abstention_precision :: "report \<Rightarrow> rat" where
  "abstention_precision r =
     (if rp_abstain_labelled r = 0 then -1 else of_int (rp_abstain_correct r) / of_int (rp_abstain_labelled r))"

definition new_row :: "string \<Rightarrow> row" where
  "new_row i = \<lparr>rw_intent = i, rw_labelled = 0, rw_correct = 0, rw_confused = [], rw_abstained = 0\<rparr>"

definition count_at :: "string \<Rightarrow> (string \<times> int) list \<Rightarrow> (string \<times> int) list" where
  "count_at i m = AList.update i ((case map_of m i of None \<Rightarrow> 0 | Some n \<Rightarrow> n) + 1) m"

definition count_route :: "routing \<Rightarrow> string \<Rightarrow> row \<Rightarrow> row" where
  "count_route out i r =
     (let r1 = r\<lparr>rw_labelled := rw_labelled r + 1\<rparr> in
      if o_intent out = i then r1\<lparr>rw_correct := rw_correct r1 + 1\<rparr>
      else if abstained out then r1\<lparr>rw_abstained := rw_abstained r1 + 1\<rparr>
      else r1\<lparr>rw_confused := count_at (o_intent out) (rw_confused r1)\<rparr>)"

text \<open>The rows are the map from intents, the report holds the counters for abstentions.\<close>

definition abstain_result :: "bool \<Rightarrow> string \<Rightarrow> report \<Rightarrow> report" where
  "abstain_result ok line rep =
     (let rep1 = rep\<lparr>rp_abstain_labelled := rp_abstain_labelled rep + 1\<rparr> in
      if ok then rep1\<lparr>rp_abstain_correct := rp_abstain_correct rep1 + 1\<rparr>
      else rep1\<lparr>rp_false_routes := rp_false_routes rep1 @ [line]\<rparr>)"

definition evaluate_question :: "(string \<Rightarrow> routing) \<Rightarrow> question \<Rightarrow> (string \<times> row) list \<times> report \<Rightarrow> (string \<times> row) list \<times> report" where
  "evaluate_question rt q st =
     (let out = rt (q_text q); rows = fst st; rep = snd st in
      if q_intent q = '''' \<and> q_redirect q = '''' then
        (rows, abstain_result (abstained out)
           (fmt_q (q_text q) @ '' routed to '' @
            (case o_redirect out of None \<Rightarrow> o_intent out | Some t \<Rightarrow> arrow_sign @ '' '' @ oos_surface t) @
            '' (score '' @ itoa (o_score out) @ '')'') rep)
      else if q_redirect q \<noteq> '''' then
        (rows, abstain_result (case o_redirect out of None \<Rightarrow> False | Some t \<Rightarrow> oos_surface t = q_redirect q)
           (fmt_q (q_text q) @ '' should redirect to '' @ q_redirect q) rep)
      else (case map_of rows (q_intent q) of
              None \<Rightarrow> (rows, rep)
            | Some r \<Rightarrow> (AList.update (q_intent q) (count_route out (q_intent q) r) rows, rep)))"

definition evaluate :: "(string \<Rightarrow> routing) \<Rightarrow> question list \<Rightarrow> report" where
  "evaluate rt qs =
     (let rows = map (\<lambda>s. (sp_intent s, new_row (sp_intent s))) specs;
          rep = \<lparr>rp_rows = [], rp_abstain_labelled = 0, rp_abstain_correct = 0, rp_false_routes = []\<rparr>;
          (rows1, rep1) = fold (evaluate_question rt) qs (rows, rep)
      in rep1\<lparr>rp_rows := sort_key rw_intent (map (\<lambda>s. the (map_of rows1 (sp_intent s))) specs)\<rparr>)"

end
