(* ===== verification/Router_Props.thy ===== *)
theory Router_Props
  imports Router "HOL-Library.Multiset"
begin

text \<open>
  What the router answers: the normal form of a sentence, the winner of the scoring and its independence of the order of the Go
  maps, the vocabulary as it is, and the counts of the evaluation.
\<close>

section \<open>Normal forms\<close>

definition plain_char :: "char \<Rightarrow> bool" where
  "plain_char c \<longleftrightarrow> 97 \<le> (of_char c :: nat) \<and> (of_char c :: nat) \<le> 122 \<or> 48 \<le> (of_char c :: nat) \<and> (of_char c :: nat) \<le> 57"

definition plain_word :: "string \<Rightarrow> bool" where
  "plain_word w \<longleftrightarrow> w \<noteq> [] \<and> (\<forall>c \<in> set w. plain_char c)"

lemma rune_split_ascii: "\<forall>c \<in> set s. of_char c < (128 :: nat) \<Longrightarrow> rune_split s = map (\<lambda>c. [c]) s"
proof (induction s)
  case (Cons c s)
  then have "rune_width (c # s) = 1" by (auto simp: Let_def)
  with Cons show ?case by (subst rune_split.simps) simp
qed simp

lemma plain_not_space [simp]: "plain_char c \<Longrightarrow> \<not> space_rune [c]"
  by (auto simp: plain_char_def space_rune_def space_runes_def)

lemma blank_is_space [simp]: "space_rune '' ''"
  by (simp add: space_rune_def space_runes_def)

lemma plain_ascii: "plain_char c \<Longrightarrow> of_char c < (128 :: nat)"
  by (auto simp: plain_char_def)

lemma norm_plain: "plain_char c \<Longrightarrow> norm_rune (lower_rune [c]) = [c]"
  by (auto simp: plain_char_def lower_rune_def norm_rune_def)

lemma norm_blank: "norm_rune (lower_rune '' '') = '' ''"
  by (simp add: lower_rune_def norm_rune_def)

lemma blank_char: "of_char c = (32 :: nat) \<longleftrightarrow> c = CHR '' ''"
proof -
  have "of_char (CHR '' '') = (32 :: nat)" by simp
  then show ?thesis by (metis char_of_char)
qed

lemma norm_rune_chars: "c \<in> set (norm_rune r) \<Longrightarrow> plain_char c \<or> c = CHR '' ''"
  by (auto simp: norm_rune_def plain_char_def map_eq_Cons_conv blank_char split: list.splits if_splits)

text \<open>The words of a text of plain characters and blanks are plain.\<close>

lemma runs_plain:
  "\<forall>c \<in> set s. plain_char c \<or> c = CHR '' '' \<Longrightarrow> \<forall>c \<in> set w. plain_char c \<Longrightarrow>
    u \<in> set (runs w (map (\<lambda>c. [c]) s)) \<Longrightarrow> plain_word u"
proof (induction s arbitrary: w)
  case Nil then show ?case by (auto simp: plain_word_def split: if_splits)
next
  case (Cons c s)
  from Cons.prems(1) consider "plain_char c" | "c = CHR '' ''" by auto
  then show ?case
  proof cases
    case 1
    with Cons.prems Cons.IH [of "w @ [c]"] show ?thesis by auto
  next
    case 2
    with Cons.prems Cons.IH [of "''''"] show ?thesis by (auto simp: plain_word_def split: if_splits)
  qed
qed

lemma fields_plain:
  assumes "\<forall>c \<in> set s. plain_char c \<or> c = CHR '' ''" and "u \<in> set (words_of s)" shows "plain_word u"
proof -
  have "\<forall>c \<in> set s. of_char c < (128 :: nat)" using assms(1) plain_ascii by fastforce
  then have "words_of s = runs '''' (map (\<lambda>c. [c]) s)" by (simp add: words_of_def rune_split_ascii)
  with runs_plain [OF assms(1), of "''''" u] assms(2) show ?thesis by simp
qed

lemma runs_word: "\<forall>c \<in> set w. plain_char c \<Longrightarrow> runs v (map (\<lambda>c. [c]) w @ rs) = runs (v @ w) rs"
  by (induction w arbitrary: v) auto

lemma runs_join: "\<forall>w \<in> set ws. plain_word w \<Longrightarrow> runs '''' (map (\<lambda>c. [c]) (join_sep '' '' ws)) = ws"
proof (induction "'' ''" ws rule: join_sep.induct)
  case (2 w)
  then show ?case using runs_word [of w "''''" "[]"] by (simp add: plain_word_def)
next
  case (3 w v vs)
  then show ?case by (auto simp: runs_word plain_word_def)
qed simp

lemma join_chars: "\<forall>w \<in> set ws. plain_word w \<Longrightarrow> c \<in> set (join_sep '' '' ws) \<Longrightarrow> plain_char c \<or> c = CHR '' ''"
  by (induction "'' ''" ws rule: join_sep.induct) (auto simp: plain_word_def)

lemma fields_join: "\<forall>w \<in> set ws. plain_word w \<Longrightarrow> words_of (join_sep '' '' ws) = ws"
proof -
  assume a: "\<forall>w \<in> set ws. plain_word w"
  then have "\<forall>c \<in> set (join_sep '' '' ws). of_char c < (128 :: nat)" using join_chars plain_ascii by fastforce
  with runs_join [OF a] show ?thesis by (simp add: words_of_def rune_split_ascii)
qed

lemma join_ends:
  assumes "\<forall>w \<in> set ws. plain_word w" "ws \<noteq> []"
  shows "join_sep '' '' ws \<noteq> [] \<and> plain_char (hd (join_sep '' '' ws)) \<and> plain_char (last (join_sep '' '' ws))"
  using assms by (induction "'' ''" ws rule: join_sep.induct) (auto simp: plain_word_def)

lemma trim_plain:
  assumes "s \<noteq> []" "plain_char (hd s)" "plain_char (last s)" "\<forall>c \<in> set s. of_char c < (128 :: nat)"
  shows "trim_space s = s"
proof -
  have "rune_split s = map (\<lambda>c. [c]) s" by (rule rune_split_ascii) fact
  moreover have "dropWhile space_rune (map (\<lambda>c. [c]) s) = map (\<lambda>c. [c]) s"
    using assms(1, 2) by (cases s) auto
  moreover have "dropWhile space_rune (rev (map (\<lambda>c. [c]) s)) = rev (map (\<lambda>c. [c]) s)"
    using assms(1, 3) by (cases s rule: rev_cases) auto
  ultimately show ?thesis by (simp add: trim_space_def rev_map)
qed

lemma normalise_words: "\<exists>ws. normalise s = join_sep '' '' ws \<and> (\<forall>w \<in> set ws. plain_word w) \<and> words_of (normalise s) = ws"
proof -
  let ?t = "concat (map (\<lambda>r. norm_rune (lower_rune r)) (rune_split (trim_space s)))"
  have "\<forall>c \<in> set ?t. plain_char c \<or> c = CHR '' ''" using norm_rune_chars by auto
  then have "\<forall>w \<in> set (words_of ?t). plain_word w" using fields_plain by blast
  moreover have "normalise s = join_sep '' '' (words_of ?t)" by (simp add: normalise_def)
  ultimately show ?thesis using fields_join by metis
qed

lemma normalise_join:
  assumes p: "\<forall>w \<in> set ws. plain_word w"
  shows "normalise (join_sep '' '' ws) = join_sep '' '' ws"
proof (cases "ws = []")
  case True
  then show ?thesis by (simp add: normalise_def words_of_def)
next
  case False
  let ?n = "join_sep '' '' ws"
  have c: "\<forall>c \<in> set ?n. plain_char c \<or> c = CHR '' ''" using join_chars [OF p] by blast
  then have a: "\<forall>c \<in> set ?n. of_char c < (128 :: nat)" using plain_ascii by fastforce
  have t: "trim_space ?n = ?n" using join_ends [OF p False] a by (intro trim_plain) auto
  have "map (\<lambda>r. norm_rune (lower_rune r)) (map (\<lambda>c. [c]) ?n) = map (\<lambda>c. [c]) ?n"
    using c norm_plain norm_blank by auto
  then have "normalise ?n = join_sep '' '' (words_of ?n)"
    unfolding normalise_def t rune_split_ascii [OF a] by (simp only: concat_map_singleton map_ident)
  then show ?thesis by (simp only: fields_join [OF p])
qed

lemma normalise_idem: "normalise (normalise s) = normalise s"
  using normalise_words [of s] normalise_join by metis

section \<open>The order of a Go map\<close>

lemma rank_key_inj: "inj_on (\<lambda>(i :: string, n :: int). (- n, i)) A"
  by (auto simp: inj_on_def)

lemma ranked_perm: "mset sc = mset sc' \<Longrightarrow> ranked sc = ranked sc'"
  unfolding ranked_def by (rule sort_key_inj_key_eq) (auto simp: rank_key_inj)

lemma scores_perm: "mset v = mset v' \<Longrightarrow> mset (scores v q) = mset (scores v' q)"
  by (simp add: scores_def)

lemma unique_perm: "mset xs = mset ys \<Longrightarrow> (case xs of [(a, _)] \<Rightarrow> a | _ \<Rightarrow> d) = (case ys of [(a, _)] \<Rightarrow> a | _ \<Rightarrow> d)"
proof -
  assume m: "mset xs = mset ys"
  show ?thesis
  proof (cases "length xs = 1")
    case True
    then obtain x where x: "xs = [x]" by (cases xs) auto
    with m have "ys = [x]" by (metis mset_single_iff mset.simps(1) mset.simps(2))
    with x show ?thesis by simp
  next
    case False
    moreover have "length ys = length xs" using m by (metis size_mset)
    ultimately show ?thesis by (auto split: list.splits)
  qed
qed



section \<open>The winner\<close>

definition score_of :: "string \<Rightarrow> signal list \<Rightarrow> int" where
  "score_of q sigs = sum_list (map snd (matched q sigs))"

lemma ranked_set [simp]: "set (ranked sc) = set sc"
  by (simp add: ranked_def)

lemma ranked_head:
  assumes "ranked sc = (i, n) # rest" and "(j, m) \<in> set sc"
  shows "m < n \<or> m = n \<and> i \<le> j"
proof -
  have "sorted (map (\<lambda>(i, n). (- n, i)) (ranked sc))" by (simp add: ranked_def)
  with assms(1) have "\<forall>x \<in> set (ranked sc). (- n, i) \<le> (\<lambda>(i, n). (- n, i)) x" by auto
  with assms(2) show ?thesis by fastforce
qed

lemma vocabulary_names: "distinct (map fst vocabulary)" "\<forall>(i, sigs) \<in> set vocabulary. i \<noteq> '''' \<and> (\<forall>(p, w) \<in> set sigs. 1 \<le> w)"
  by (simp_all add: vocabulary_def)

lemma scores_iff: "(i, n) \<in> set (scores vocabulary q) \<longleftrightarrow>
    (\<exists>sigs. (i, sigs) \<in> set vocabulary \<and> matched q sigs \<noteq> [] \<and> n = score_of q sigs)"
  by (auto simp: scores_def score_of_def)

lemma unmatched_score: "matched q sigs = [] \<Longrightarrow> score_of q sigs = 0"
  by (simp add: score_of_def)

text \<open>C32. A sentence is routed to an intent exactly when it names no topic of another surface and the weights of the
  intent's phrases in it add up to at least the threshold, to more than those of every other intent, or to as much and the name comes first.\<close>

theorem route_picks_best:
  assumes "i \<noteq> ''''"
  shows "o_intent (route text) = i \<longleftrightarrow>
    (\<forall>t \<in> set out_of_scope. \<not> contains_word (normalise text) (normalise (oos_topic t))) \<and>
    (\<exists>sigs. (i, sigs) \<in> set vocabulary \<and> abstain_threshold \<le> score_of (normalise text) sigs \<and>
       (\<forall>(j, sigs2) \<in> set vocabulary. score_of (normalise text) sigs2 < score_of (normalise text) sigs \<or>
          score_of (normalise text) sigs2 = score_of (normalise text) sigs \<and> i \<le> j))"
    (is "?l \<longleftrightarrow> ?free \<and> ?best")
proof -
  let ?q = "normalise text" and ?sc = "scores vocabulary (normalise text)"
  have none: "find (\<lambda>t. contains_word ?q (normalise (oos_topic t))) out_of_scope = None \<longleftrightarrow> ?free" by (auto simp: find_None_iff)
  have r: "o_intent (route text) = (if ?q = '''' \<or> \<not> ?free then '''' else
      case ranked ?sc of [] \<Rightarrow> '''' | (j, n) # rest \<Rightarrow> if n < abstain_threshold then '''' else j)"
    using none by (auto simp: route_def route_over_def no_routing_def Let_def split: option.splits list.splits)
  have empty: "?q = '''' \<Longrightarrow> matched ?q sigs = []" for sigs
    by (simp add: matched_def contains_word_def words_of_def Let_def)
  have best: "?best \<longleftrightarrow> (\<exists>n rest. ranked ?sc = (i, n) # rest \<and> abstain_threshold \<le> n)"
  proof
    assume ?best
    then obtain sigs where s: "(i, sigs) \<in> set vocabulary" "abstain_threshold \<le> score_of ?q sigs"
      and max: "\<forall>(j, s2) \<in> set vocabulary. score_of ?q s2 < score_of ?q sigs \<or> score_of ?q s2 = score_of ?q sigs \<and> i \<le> j" by auto
    then have "matched ?q sigs \<noteq> []" using unmatched_score by (force simp: abstain_threshold_def)
    with s have mem: "(i, score_of ?q sigs) \<in> set (ranked ?sc)" by (auto simp: scores_iff)
    then obtain j n rest where h: "ranked ?sc = (j, n) # rest" by (cases "ranked ?sc") auto
    then have "(j, n) \<in> set ?sc" by (metis list.set_intros(1) ranked_set)
    then obtain s2 where "(j, s2) \<in> set vocabulary" "n = score_of ?q s2" by (auto simp: scores_iff)
    with max have "n < score_of ?q sigs \<or> n = score_of ?q sigs \<and> i \<le> j" by auto
    moreover have "score_of ?q sigs < n \<or> score_of ?q sigs = n \<and> j \<le> i" using ranked_head [OF h] mem by simp
    ultimately have "i = j" "n = score_of ?q sigs" by auto
    with h s(2) show "\<exists>n rest. ranked ?sc = (i, n) # rest \<and> abstain_threshold \<le> n" by auto
  next
    assume "\<exists>n rest. ranked ?sc = (i, n) # rest \<and> abstain_threshold \<le> n"
    then obtain n rest where h: "ranked ?sc = (i, n) # rest" and n: "abstain_threshold \<le> n" by blast
    then have "(i, n) \<in> set ?sc" by (metis list.set_intros(1) ranked_set)
    then obtain sigs where s: "(i, sigs) \<in> set vocabulary" "n = score_of ?q sigs" by (auto simp: scores_iff)
    have "score_of ?q s2 < n \<or> score_of ?q s2 = n \<and> i \<le> j" if "(j, s2) \<in> set vocabulary" for j s2
    proof (cases "matched ?q s2 = []")
      case True
      with n unmatched_score show ?thesis by (simp add: abstain_threshold_def)
    next
      case False
      with that have "(j, score_of ?q s2) \<in> set ?sc" by (auto simp: scores_iff)
      with ranked_head [OF h] show ?thesis by simp
    qed
    with s n show ?best by auto
  qed
  have "?q = '''' \<Longrightarrow> \<not> ?best" using empty unmatched_score by (auto simp: abstain_threshold_def)
  then show ?thesis unfolding r best using assms by (auto split: list.splits if_splits)
qed

section \<open>The vocabulary as it is\<close>

text \<open>Routing on lists of words, for sentences already in normal form: what the concrete statements are evaluated with.\<close>

fun simple_words :: "string \<Rightarrow> string \<Rightarrow> string list" where
  "simple_words w [] = (if w = [] then [] else [w])"
| "simple_words w (c # s) =
     (if c = CHR '' '' then (if w = [] then simple_words [] s else w # simple_words [] s) else simple_words (w @ [c]) s)"

fun starts_words :: "string list \<Rightarrow> string list \<Rightarrow> bool" where
  "starts_words [] ys \<longleftrightarrow> True"
| "starts_words (x # xs) [] \<longleftrightarrow> False"
| "starts_words (x # xs) (y # ys) \<longleftrightarrow> x = y \<and> starts_words xs ys"

fun sub_words :: "string list \<Rightarrow> string list \<Rightarrow> bool" where
  "sub_words xs [] \<longleftrightarrow> xs = []"
| "sub_words xs (y # ys) \<longleftrightarrow> starts_words xs (y # ys) \<or> sub_words xs ys"

definition plain_text :: "string \<Rightarrow> bool" where
  "plain_text s \<longleftrightarrow> s \<noteq> [] \<and> list_all (\<lambda>c. c \<in> set ''abcdefghijklmnopqrstuvwxyz0123456789 '') s"

lemma plain_textD: "plain_text s \<Longrightarrow> \<forall>c \<in> set s. plain_char c \<or> c = CHR '' ''"
proof -
  assume a: "plain_text s"
  have "list_all (\<lambda>c. plain_char c \<or> c = CHR '' '') ''abcdefghijklmnopqrstuvwxyz0123456789 ''" by (simp add: plain_char_def)
  with a show ?thesis unfolding plain_text_def list_all_iff by blast
qed

lemma runs_simple:
  "\<forall>c \<in> set s. plain_char c \<or> c = CHR '' '' \<Longrightarrow> runs w (map (\<lambda>c. [c]) s) = simple_words w s"
  by (induction w s rule: simple_words.induct) (auto simp: plain_char_def)

lemma words_simple: "plain_text s \<Longrightarrow> words_of s = simple_words [] s"
proof -
  assume a: "plain_text s"
  then have "\<forall>c \<in> set s. of_char c < (128 :: nat)" using plain_textD plain_ascii by fastforce
  then show ?thesis using runs_simple [OF plain_textD [OF a]] by (simp add: words_of_def rune_split_ascii)
qed

lemma starts_words_iff: "starts_words xs ys \<longleftrightarrow> take (length xs) ys = xs"
  by (induction xs ys rule: starts_words.induct) auto

lemma sub_words_iff: "xs \<noteq> [] \<Longrightarrow> sub_words xs ys \<longleftrightarrow> (\<exists>i. i + length xs \<le> length ys \<and> take (length xs) (drop i ys) = xs)"
proof (induction ys)
  case (Cons y ys)
  have "starts_words xs (y # ys) \<Longrightarrow> length xs \<le> length (y # ys)"
    by (metis length_take min_def starts_words_iff nle_le)
  then have "sub_words xs (y # ys) \<longleftrightarrow>
      length xs \<le> length (y # ys) \<and> take (length xs) (y # ys) = xs \<or> (\<exists>i. Suc i + length xs \<le> length (y # ys) \<and> take (length xs) (drop (Suc i) (y # ys)) = xs)"
    using Cons by (auto simp: starts_words_iff)
  also have "\<dots> \<longleftrightarrow> (\<exists>i. i + length xs \<le> length (y # ys) \<and> take (length xs) (drop i (y # ys)) = xs)"
    by (metis add_0 drop_0 not0_implies_Suc)
  finally show ?case .
qed simp

lemma contains_simple:
  assumes "plain_text p" and "words_of q = ws"
  shows "contains_word q p \<longleftrightarrow> simple_words [] p \<noteq> [] \<and> sub_words (simple_words [] p) ws"
proof (cases "simple_words [] p = []")
  case False
  let ?n = "simple_words [] p"
  have p: "p \<noteq> []" "words_of p = ?n" using assms(1) words_simple by (simp_all add: plain_text_def)
  have "i < Suc (length ws - length ?n) \<and> length ?n \<le> length ws \<longleftrightarrow> i + length ?n \<le> length ws" for i by linarith
  then show ?thesis using False p assms(2) unfolding contains_word_def Let_def list_ex_iff sub_words_iff [OF False]
    by (auto simp del: upt_Suc)
qed (use assms words_simple in \<open>simp add: contains_word_def\<close>)

text \<open>The phrases cut into words.\<close>

definition phrase_words :: "(string \<times> (string list \<times> int) list) list" where
  "phrase_words =
    [(''assess'', [([''what'', ''is'', ''weak''], 4), ([''whats'', ''weak''], 4), ([''look'', ''at'', ''my'', ''repo''], 4),
       ([''look'', ''at'', ''my'', ''repository''], 4), ([''assess''], 3), ([''review'', ''my'', ''agent''], 4),
       ([''audit''], 3), ([''health'', ''check''], 3), ([''what'', ''could'', ''be'', ''better''], 4),
       ([''whats'', ''wrong'', ''with''], 4), ([''tell'', ''me'', ''what''], 2), ([''weak''], 1)]),
     (''improve'', [([''fix'', ''it''], 4), ([''fix'', ''them''], 4), ([''open'', ''a'', ''pull'', ''request''], 4),
       ([''open'', ''a'', ''pr''], 4), ([''make'', ''it'', ''better''], 4), ([''improve''], 3),
       ([''apply'', ''the'', ''fix''], 4), ([''go'', ''ahead'', ''and'', ''fix''], 4)]),
     (''evalset'', [([''eval'', ''set''], 4), ([''evaluation'', ''set''], 4), ([''eval'', ''suite''], 4), ([''test'', ''cases''], 3),
       ([''build'', ''me'', ''an'', ''eval''], 4), ([''generate'', ''evals''], 4), ([''benchmark''], 3), ([''eval''], 1)]),
     (''compare'', [([''better'', ''than''], 4), ([''compare''], 3), ([''versus''], 3), ([''vs''], 1), ([''did'', ''it'', ''help''], 4),
       ([''regression''], 3), ([''which'', ''version''], 4)]),
     (''graph'', [([''what'', ''does'', ''my'', ''agent'', ''do''], 4), ([''step'', ''by'', ''step''], 3),
       ([''show'', ''me'', ''the'', ''graph''], 4), ([''what'', ''does'', ''it'', ''do''], 3),
       ([''how'', ''does'', ''it'', ''work''], 3)]),
     (''graph_order'', [([''run'', ''in'', ''this'', ''order''], 4), ([''right'', ''order''], 4), ([''should'', ''these'', ''run''], 4),
       ([''ordering''], 3), ([''sequence''], 2), ([''topology''], 3)]),
     (''run_history'', [([''what'', ''happened''], 4), ([''that'', ''run''], 3), ([''last'', ''run''], 4), ([''run'', ''history''], 4),
       ([''trace''], 1)]),
     (''coverage'', [([''what'', ''did'', ''you'', ''measure''], 4), ([''what'', ''did'', ''you'', ''not''], 4), ([''coverage''], 3),
       ([''how'', ''much'', ''did'', ''you'', ''check''], 4)]),
     (''context'', [([''conversation'', ''history''], 4), ([''what'', ''history''], 4), ([''context'', ''window''], 4),
       ([''message'', ''list''], 4), ([''context''], 1)]),
     (''memory'', [([''remember'', ''between''], 4), ([''what'', ''does'', ''it'', ''remember''], 4), ([''between'', ''sessions''], 4),
       ([''persist''], 3), ([''memory''], 1)]),
     (''harness'', [([''allowed'', ''to'', ''do''], 4), ([''what'', ''can'', ''it'', ''reach''], 4),
       ([''what'', ''can'', ''it'', ''spend''], 4), ([''sandbox''], 3), ([''permissions''], 3), ([''ceiling''], 3),
       ([''harness''], 1)]),
     (''loop'', [([''how'', ''many'', ''turns''], 4), ([''max'', ''turns''], 4), ([''what'', ''loop''], 4), ([''iterations''], 3),
       ([''stop'', ''condition''], 4), ([''loop''], 1)]),
     (''skills'', [([''what'', ''skills''], 4), ([''skills'', ''bound''], 4), ([''which'', ''skills''], 4), ([''skill''], 1)]),
     (''tools'', [([''what'', ''tools''], 4), ([''which'', ''tools''], 4), ([''tools'', ''does''], 4), ([''tool'', ''calls''], 3),
       ([''unused'', ''tool''], 4), ([''tools''], 1), ([''tool''], 1)]),
     (''preview_change'', [([''would'', ''you'', ''write''], 4), ([''show'', ''me'', ''the'', ''diff''], 4), ([''preview''], 3),
       ([''what'', ''would'', ''change''], 4), ([''would'', ''change'', ''if''], 4),
       ([''see'', ''the'', ''change'', ''first''], 4), ([''diff''], 2)]),
     (''author'', [([''change'', ''something'', ''on''], 4), ([''edit'', ''the'', ''axis''], 4), ([''author'', ''a'', ''change''], 4),
       ([''author''], 1), ([''axis'', ''config''], 3)]),
     (''prompt'', [([''change'', ''the'', ''prompt''], 4), ([''change'', ''what'', ''it'', ''is'', ''told''], 4),
       ([''rewrite'', ''the'', ''prompt''], 4), ([''system'', ''prompt''], 3), ([''prompt''], 1)]),
     (''model'', [([''change'', ''the'', ''model''], 4), ([''switch'', ''model''], 4), ([''use'', ''a'', ''different'', ''model''], 4),
       ([''which'', ''model''], 3), ([''model''], 1)]),
     (''deliver'', [([''reach'', ''my'', ''repository''], 4), ([''how'', ''does'', ''a'', ''change'', ''get''], 4), ([''delivery''], 3),
       ([''merge''], 3)])]"

lemma phrase_words: "map (\<lambda>(i, sigs). (i, map (\<lambda>(p, w). (simple_words [] p, w)) sigs)) vocabulary = phrase_words"
  by code_simp

definition word_scores :: "string list \<Rightarrow> (string \<times> int) list" where
  "word_scores ws = concat (map (\<lambda>(i, sigs).
     case filter (\<lambda>(n, w). sub_words n ws) sigs of [] \<Rightarrow> [] | m \<Rightarrow> [(i, sum_list (map snd m))]) phrase_words)"

definition word_intent :: "string list \<Rightarrow> string" where
  "word_intent ws =
     (if list_ex (\<lambda>t. sub_words (simple_words [] (oos_topic t)) ws) out_of_scope then ''''
      else case ranked (word_scores ws) of [] \<Rightarrow> '''' | (i, n) # rest \<Rightarrow> if n < abstain_threshold then '''' else i)"

definition normal_text :: "string \<Rightarrow> bool" where
  "normal_text s \<longleftrightarrow> plain_text s \<and> simple_words [] s \<noteq> [] \<and> join_sep '' '' (simple_words [] s) = s"

lemma vocabulary_normal: "list_all (\<lambda>(i, sigs). list_all (\<lambda>(p, w). normal_text p) sigs) vocabulary"
  by code_simp

lemma topics_normal: "list_all (\<lambda>t. normal_text (oos_topic t)) out_of_scope"
  by code_simp

lemma normal_textD:
  assumes "normal_text s" shows "normalise s = s" "words_of s = simple_words [] s" "plain_text s" "simple_words [] s \<noteq> []"
proof -
  show p: "plain_text s" and n: "simple_words [] s \<noteq> []" using assms by (simp_all add: normal_text_def)
  show w: "words_of s = simple_words [] s" by (rule words_simple [OF p])
  have "\<forall>w \<in> set (simple_words [] s). plain_word w" using fields_plain [OF plain_textD [OF p]] w by simp
  with normalise_join assms show "normalise s = s" by (metis normal_text_def)
qed

lemma scores_words: "words_of q = ws \<Longrightarrow> scores vocabulary q = word_scores ws"
proof -
  assume w: "words_of q = ws"
  have m: "matched q sigs = filter (\<lambda>(p, w). sub_words (simple_words [] p) ws) sigs" if "(i, sigs) \<in> set vocabulary" for i sigs
    unfolding matched_def
  proof (rule filter_cong [OF refl], clarify)
    fix p n assume "(p, n) \<in> set sigs"
    with that vocabulary_normal have "normal_text p" by (fastforce simp: list_all_iff)
    then show "contains_word q (fst (p, n)) \<longleftrightarrow> sub_words (simple_words [] p) ws"
      using contains_simple [OF _ w, of p] by (simp add: normal_text_def)
  qed
  have s: "scores v q = concat (map (\<lambda>(i, sigs). case map snd (matched q sigs) of [] \<Rightarrow> [] | m \<Rightarrow> [(i, sum_list m)]) v)" for v
    by (induction v) (auto simp: scores_def split: list.splits)
  have f: "map snd (filter (\<lambda>(p, w). sub_words (simple_words [] p) ws) sigs) =
      map snd (filter (\<lambda>(n, w). sub_words n ws) (map (\<lambda>(p, w). (simple_words [] p, w)) sigs))" for sigs :: "signal list"
    by (induction sigs) auto
  have t: "(case filter P xs of [] \<Rightarrow> [] | m \<Rightarrow> [(i :: string, sum_list (map snd m))]) =
      (case map snd (filter P xs) of [] \<Rightarrow> [] | m \<Rightarrow> [(i, sum_list m)])" for P i and xs :: "(string list \<times> int) list"
    by (cases "filter P xs") auto
  show ?thesis unfolding s word_scores_def phrase_words [symmetric] map_map o_def t
    by (intro arg_cong [of _ _ concat] map_cong refl) (auto simp: m f)
qed

lemma route_words: "words_of (normalise s) = ws \<Longrightarrow> normalise s \<noteq> '''' \<Longrightarrow> o_intent (route s) = word_intent ws"
proof -
  assume w: "words_of (normalise s) = ws" and q: "normalise s \<noteq> ''''"
  have t: "contains_word (normalise s) (normalise (oos_topic t)) \<longleftrightarrow> sub_words (simple_words [] (oos_topic t)) ws"
    if "t \<in> set out_of_scope" for t
  proof -
    have "normal_text (oos_topic t)" using that topics_normal by (simp add: list_all_iff)
    then show ?thesis using contains_simple [OF _ w, of "oos_topic t"] normal_textD(1) by (simp add: normal_text_def)
  qed
  then have "find (\<lambda>t. contains_word (normalise s) (normalise (oos_topic t))) out_of_scope = None \<longleftrightarrow>
      \<not> list_ex (\<lambda>t. sub_words (simple_words [] (oos_topic t)) ws) out_of_scope"
    by (auto simp: find_None_iff list_ex_iff)
  then show ?thesis using q
    by (auto simp: route_def route_over_def word_intent_def scores_words [OF w] no_routing_def Let_def split: option.splits list.splits)
qed

lemma route_normal: "normal_text s \<Longrightarrow> o_intent (route s) = word_intent (simple_words [] s)"
  using route_words normal_textD by (metis plain_text_def)

lemma phrases_checked:
  "list_all (\<lambda>(i, sigs). list_all (\<lambda>(p, w). word_intent (simple_words [] p) = (if w < abstain_threshold then '''' else i)) sigs) vocabulary"
  by code_simp

text \<open>Every phrase of the vocabulary, said alone, reaches the intent it is listed under when it weighs the threshold or
  more, and abstains when it does not: no phrase is unreachable, ambiguous or captured by a redirection.\<close>

theorem every_phrase_routes:
  assumes "(i, sigs) \<in> set vocabulary" and "(p, w) \<in> set sigs"
  shows "o_intent (route p) = (if w < abstain_threshold then '''' else i)"
proof -
  have n: "normal_text p" using vocabulary_normal assms by (fastforce simp: list_all_iff)
  have "word_intent (simple_words [] p) = (if w < abstain_threshold then '''' else i)"
    using phrases_checked assms unfolding list_all_iff by fast
  with route_normal [OF n] show ?thesis by simp
qed

lemma every_phrase_routes_witness: "o_intent (route ''fix it'') = ''improve'' \<and> o_intent (route ''memory'') = ''''"
  using every_phrase_routes [of "''improve''" _ "''fix it''" 4] every_phrase_routes [of "''memory''" _ "''memory''" 1]
  by (simp add: vocabulary_def abstain_threshold_def)

lemma route_picks_best_witness: "o_intent (route ''fix it'') = ''improve'' \<and>
    (\<exists>sigs. (''improve'', sigs) \<in> set vocabulary \<and> abstain_threshold \<le> score_of (normalise ''fix it'') sigs)"
proof -
  have "normal_text ''fix it''" by code_simp
  moreover have "word_intent (simple_words [] ''fix it'') = ''improve''" by code_simp
  ultimately have "o_intent (route ''fix it'') = ''improve''" by (simp add: route_normal)
  with route_picks_best [of "''improve''" "''fix it''"] show ?thesis by auto
qed

text \<open>
  The questions an abstention offers: three of the nineteen, typed as they are shown, do not reach their own intent.
\<close>

lemma offered_question_unroutable:
  "''change what this node is told'' \<in> set can_do \<and> o_intent (route ''change what this node is told'') = '''' \<and>
   ''put an approved change into my repository'' \<in> set can_do \<and> o_intent (route ''put an approved change into my repository'') = '''' \<and>
   ''change something on an axis and show me the diff'' \<in> set can_do \<and>
   o_intent (route ''change something on an axis and show me the diff'') = ''preview_change''"
proof (intro conjI)
  show "''change what this node is told'' \<in> set can_do" "''put an approved change into my repository'' \<in> set can_do"
    "''change something on an axis and show me the diff'' \<in> set can_do" by (simp_all add: can_do_def specs_def mk_spec_def)
  have "normal_text ''change what this node is told''" "normal_text ''put an approved change into my repository''"
    "normal_text ''change something on an axis and show me the diff''" by code_simp+
  note r = this [THEN route_normal]
  show "o_intent (route ''change what this node is told'') = ''''" unfolding r by code_simp
  show "o_intent (route ''put an approved change into my repository'') = ''''" unfolding r by code_simp
  show "o_intent (route ''change something on an axis and show me the diff'') = ''preview_change''" unfolding r by code_simp
qed

text \<open>A line break is dropped, not turned into a blank, so the words around it become one.\<close>

lemma line_break_glues: "normalise (''fix'' @ [char_of (10 :: nat)] @ ''it'') = ''fixit''"
  by code_simp

text \<open>The refusal of a run without a bound looks for substrings, where the rest of the router compares words.\<close>

lemma unbounded_substring: "unbounded ''there are no limitations''"
  by code_simp

end
