(* ===== verification/Holdout_Props.thy ===== *)
theory Holdout_Props
  imports Router "HOL-Library.Multiset"
begin

text \<open>The evaluation of a router over labelled questions: its report counts every question once.\<close>

definition row_balanced :: "row \<Rightarrow> bool" where
  "row_balanced r \<longleftrightarrow> rw_labelled r = rw_correct r + rw_abstained r + sum_list (map snd (rw_confused r)) \<and> distinct (map fst (rw_confused r))"

lemma update_sum: "distinct (map fst m) \<Longrightarrow>
    sum_list (map snd (AList.update i n m)) = sum_list (map snd m) + n - (case map_of m i of None \<Rightarrow> (0 :: int) | Some k \<Rightarrow> k)"
  by (induction m) (auto split: option.splits)

lemma count_at_sum: "distinct (map fst m) \<Longrightarrow> sum_list (map snd (count_at i m)) = sum_list (map snd m) + 1"
  by (simp add: count_at_def update_sum)

lemma count_at_distinct: "distinct (map fst m) \<Longrightarrow> distinct (map fst (count_at i m))"
  by (simp add: count_at_def distinct_update)

lemma count_route_balanced: "row_balanced r \<Longrightarrow> row_balanced (count_route out i r)"
  by (simp add: row_balanced_def count_route_def count_at_sum count_at_distinct Let_def)

text \<open>The questions of a row, those that should be answered with an abstention or a redirection, and the state they lead to.\<close>

definition labels :: "string \<Rightarrow> question \<Rightarrow> bool" where
  "labels i q \<longleftrightarrow> q_intent q = i \<and> q_redirect q = ''''"

definition silent :: "question \<Rightarrow> bool" where
  "silent q \<longleftrightarrow> q_intent q = '''' \<or> q_redirect q \<noteq> ''''"

definition tallied :: "(string \<Rightarrow> routing) \<Rightarrow> question list \<Rightarrow> (string \<times> row) list \<times> report \<Rightarrow> bool" where
  "tallied rt qs st \<longleftrightarrow>
     map fst (fst st) = map sp_intent specs \<and>
     (\<forall>(i, r) \<in> set (fst st). rw_intent r = i \<and> row_balanced r \<and>
        rw_labelled r = int (length (filter (labels i) qs)) \<and>
        rw_correct r = int (length (filter (\<lambda>q. labels i q \<and> o_intent (rt (q_text q)) = i) qs))) \<and>
     rp_abstain_labelled (snd st) = int (length (filter silent qs)) \<and>
     rp_abstain_labelled (snd st) = rp_abstain_correct (snd st) + int (length (rp_false_routes (snd st)))"

lemma intents_named: "'''' \<notin> set (map sp_intent specs)"
  by (simp add: spec_table)

lemma update_row:
  assumes "map_of rows i = Some r"
  shows "map fst (AList.update i r' rows) = map fst rows"
    and "distinct (map fst rows) \<Longrightarrow> (j, x) \<in> set (AList.update i r' rows) \<Longrightarrow> (j = i \<and> x = r') \<or> (j \<noteq> i \<and> (j, x) \<in> set rows)"
proof -
  show "map fst (AList.update i r' rows) = map fst rows"
    using assms by (induction rows) (auto split: if_splits)
  assume "distinct (map fst rows)" and m: "(j, x) \<in> set (AList.update i r' rows)"
  then have "map_of (AList.update i r' rows) j = Some x" by (intro map_of_is_SomeI distinct_update) auto
  then show "(j = i \<and> x = r') \<or> (j \<noteq> i \<and> (j, x) \<in> set rows)"
    by (auto simp: update_conv' map_of_SomeD split: if_splits)
qed

lemma map_sort_key: "map f (sort_key f xs) = sort (map f xs)"
  by (rule properties_for_sort [symmetric]) simp_all

lemma abstain_result_counts:
  "rp_abstain_labelled (abstain_result ok l rep) = rp_abstain_labelled rep + 1"
  "rp_abstain_correct (abstain_result ok l rep) + int (length (rp_false_routes (abstain_result ok l rep))) =
     rp_abstain_correct rep + int (length (rp_false_routes rep)) + 1"
  by (simp_all add: abstain_result_def Let_def)

lemma tallied_step:
  assumes t: "tallied rt qs st"
  shows "tallied rt (qs @ [q]) (evaluate_question rt q st)"
proof -
  obtain rows rep where st: "st = (rows, rep)" by fastforce
  have names: "map fst rows = map sp_intent specs" and d: "distinct (map fst rows)"
    and rows: "\<And>i r. (i, r) \<in> set rows \<Longrightarrow> rw_intent r = i \<and> row_balanced r \<and> rw_labelled r = int (length (filter (labels i) qs)) \<and>
        rw_correct r = int (length (filter (\<lambda>q. labels i q \<and> o_intent (rt (q_text q)) = i) qs))"
    and rep: "rp_abstain_labelled rep = int (length (filter silent qs))"
      "rp_abstain_labelled rep = rp_abstain_correct rep + int (length (rp_false_routes rep))"
    using t distinct_intents by (auto simp: tallied_def st)
  show ?thesis
  proof (cases "silent q")
    case True
    then obtain ok l where e: "evaluate_question rt q st = (rows, abstain_result ok l rep)"
      by (cases "q_intent q = '''' \<and> q_redirect q = ''''") (auto simp: evaluate_question_def silent_def st Let_def)
    have "\<not> labels i q" if "(i, r) \<in> set rows" for i r
    proof -
      have "i \<in> set (map sp_intent specs)" using that names by (metis fst_conv image_eqI list.set_map)
      with True intents_named show ?thesis by (auto simp: labels_def silent_def)
    qed
    with rows rep names True show ?thesis
      unfolding e tallied_def by (auto simp: abstain_result_counts)
  next
    case False
    then have s: "q_intent q \<noteq> ''''" "q_redirect q = ''''" by (simp_all add: silent_def)
    show ?thesis
    proof (cases "map_of rows (q_intent q)")
      case None
      then have e: "evaluate_question rt q st = (rows, rep)" using s by (simp add: evaluate_question_def st Let_def)
      have "\<not> labels i q" if "(i, r) \<in> set rows" for i r using None that by (auto simp: labels_def map_of_eq_None_iff image_iff)
      with rows rep names False show ?thesis unfolding e tallied_def by auto
    next
      case (Some r)
      let ?i = "q_intent q" and ?r = "count_route (rt (q_text q)) (q_intent q) r"
      have e: "evaluate_question rt q st = (AList.update ?i ?r rows, rep)" using s Some by (simp add: evaluate_question_def st Let_def)
      have r: "(?i, r) \<in> set rows" using Some by (rule map_of_SomeD)
      have "row_balanced ?r" using rows [OF r] count_route_balanced by blast
      moreover have "rw_intent ?r = ?i \<and> rw_labelled ?r = rw_labelled r + 1 \<and>
          rw_correct ?r = rw_correct r + (if o_intent (rt (q_text q)) = ?i then 1 else 0)"
        using rows [OF r] by (simp add: count_route_def Let_def)
      ultimately show ?thesis
        using rows rep names False s update_row [OF Some] d rows [OF r]
        unfolding e tallied_def by (auto simp: labels_def dest!: update_row(2) [OF Some d])
    qed
  qed
qed

lemma tallied_fold:
  assumes "tallied rt done_qs st" shows "tallied rt (done_qs @ qs) (fold (evaluate_question rt) qs st)"
  using assms
proof (induction qs arbitrary: done_qs st)
  case (Cons q qs)
  from Cons.IH [OF tallied_step [OF Cons.prems, of q]] show ?case by simp
qed simp



end
