(* ===== verification/Provider.thy ===== *)
theory Provider
  imports Complex_Main Gostrings
begin

text \<open>
  Package \<open>internal/provider\<close>: the request to a language model and the bounds it must carry, the classes of
  failure, and the price of a call.  A price is an exact rational where the code has a \<open>float64\<close>; a cost is a
  number of micro-cents, assumed to fit 64 bits.
\<close>

section \<open>Requests\<close>

record message =
  m_role :: string
  m_content :: string

definition NoReasoning :: string where "NoReasoning = ''none''"
definition LowReasoning :: string where "LowReasoning = ''low''"
definition HighReasoning :: string where "HighReasoning = ''high''"
definition MaxReasoning :: string where "MaxReasoning = ''max''"

definition reasoning_valid :: "string \<Rightarrow> bool" where
  "reasoning_valid r \<longleftrightarrow> r = NoReasoning \<or> r = LowReasoning \<or> r = HighReasoning \<or> r = MaxReasoning"

record request =
  rq_model :: string
  rq_messages :: "message list"
  rq_max_tokens :: int
  rq_temperature :: "rat option"
  rq_reasoning :: string
  rq_json :: bool

definition validate_request :: "request \<Rightarrow> go_error + unit" where
  "validate_request r =
     (if rq_model r = '''' then Inl (ErrRequest, ''provider: request rejected: no model named'')
      else if rq_messages r = [] then Inl (ErrRequest, ''provider: request rejected: no messages'')
      else if rq_max_tokens r \<le> 0 then
        Inl (ErrBudget, ''provider: request violates its own bounds: MaxTokens is '' @ itoa (rq_max_tokens r) @ '' '' @ em_dash @
          '' a completion with no output bound is an unbounded spend inside a single call, which no outer ceiling can interrupt'')
      else if \<not> reasoning_valid (rq_reasoning r) then
        Inl (ErrBudget, ''provider: request violates its own bounds: Reasoning is '' @ fmt_q (rq_reasoning r) @ '' '' @ em_dash @
          '' the provider enables thinking by default at high effort, so leaving this unset silently buys chain-of-thought '' @
          ''that is billed as output and consumes MaxTokens before the answer starts. State one of: none, low, high, max'')
      else Inr ())"

section \<open>Usage and price\<close>

record usage =
  us_input :: int
  us_output :: int
  us_cached :: int
  us_reasoning :: int

definition no_usage :: usage where
  "no_usage = \<lparr>us_input = 0, us_output = 0, us_cached = 0, us_reasoning = 0\<rparr>"

definition usage_total :: "usage \<Rightarrow> int" where
  "usage_total u = wrap64 (us_input u + us_output u)"

record price =
  pr_input :: rat
  pr_cached :: rat
  pr_output :: rat
  pr_stated_at :: string
  pr_source :: string

definition uncached :: "usage \<Rightarrow> int" where
  "uncached u = (let n = wrap64 (us_input u - us_cached u) in if n < 0 then 0 else n)"

definition cost_cents :: "price \<Rightarrow> usage \<Rightarrow> rat" where
  "cost_cents p u =
     of_int (uncached u) / 1000000 * pr_input p + of_int (us_cached u) / 1000000 * pr_cached p +
     of_int (us_output u) / 1000000 * pr_output p"

definition price_resolution :: int where "price_resolution = 1000000"

definition cost_micro_cents :: "price \<Rightarrow> usage \<Rightarrow> int" where
  "cost_micro_cents p u =
     (let cents = cost_cents p u in
      if cents \<le> 0 then 0
      else let micro = cents * of_int price_resolution; whole = \<lfloor>micro\<rfloor>
           in if micro > of_int whole then whole + 1 else whole)"

section \<open>Responses and failures\<close>

record response =
  rs_content :: string
  rs_usage :: usage
  rs_cost :: int
  rs_model :: string
  rs_latency :: duration
  rs_finish :: string

definition no_response :: response where
  "no_response = \<lparr>rs_content = '''', rs_usage = no_usage, rs_cost = 0, rs_model = '''', rs_latency = 0, rs_finish = ''''\<rparr>"

definition truncated :: "response \<Rightarrow> bool" where
  "truncated r \<longleftrightarrow> rs_finish r = ''length''"

definition retryable :: "go_error \<Rightarrow> bool" where
  "retryable e \<longleftrightarrow> errors_is e ErrRateLimited \<or> errors_is e ErrUpstream \<or> errors_is e DeadlineExceeded"

record delta =
  de_text :: string
  de_reasoning :: string

section \<open>Facts of the price\<close>

lemma cost_is_ceiling: "cost_micro_cents p u = (if cost_cents p u \<le> 0 then 0 else \<lceil>cost_cents p u * 1000000\<rceil>)"
proof -
  have "(if x > of_int \<lfloor>x\<rfloor> then \<lfloor>x\<rfloor> + 1 else \<lfloor>x\<rfloor>) = \<lceil>x\<rceil>" for x :: rat
  proof (cases "x > of_int \<lfloor>x\<rfloor>")
    case True
    then have "\<lceil>x\<rceil> = \<lfloor>x\<rfloor> + 1" using floor_correct [of x] by (intro ceiling_unique) auto
    with True show ?thesis by simp
  next
    case False
    then have "x = of_int \<lfloor>x\<rfloor>" using of_int_floor_le [of x] by linarith
    then have "\<lceil>x\<rceil> = \<lfloor>x\<rfloor>" by (metis ceiling_of_int)
    with False show ?thesis by simp
  qed
  then show ?thesis by (simp add: cost_micro_cents_def Let_def price_resolution_def)
qed

lemma cost_nonneg: "0 \<le> cost_micro_cents p u"
  unfolding cost_is_ceiling by (auto simp: not_le zero_le_ceiling)

end
