(* ===== verification/Qwen.thy ===== *)
theory Qwen
  imports Provider "HOL-Library.AList"
begin

text \<open>
  Package \<open>internal/provider/qwen\<close>: one request becomes one HTTP call and one response.  The transport, the
  JSON decoder and the latency are arguments; the transport threads the state of the outside world.  A streamed reply is the lines of its body
  and the error the scanner ended with, if any.
\<close>

section \<open>The client\<close>

definition model_flash :: string where "model_flash = ''qwen3.8-flash''"
definition model_max :: string where "model_max = ''qwen3.8-max''"

definition default_base_url :: string where
  "default_base_url = ''https://dashscope.aliyuncs.com/compatible-mode/v1''"

definition price_source :: string where
  "price_source = ''third-party pricing trackers (openrouter.ai, felloai.com); Alibaba's own pages do not publish machine-readable rates''"

definition default_prices :: "(string \<times> price) list" where
  "default_prices =
     [(model_flash, \<lparr>pr_input = 14, pr_cached = 14, pr_output = 42, pr_stated_at = ''2026-09-03'', pr_source = price_source\<rparr>),
      (model_max, \<lparr>pr_input = 200, pr_cached = 25, pr_output = 600, pr_stated_at = ''2026-09-03'', pr_source = price_source\<rparr>)]"

record client =
  cl_key :: string
  cl_base :: string
  cl_prices :: "(string \<times> price) list"

definition new_client :: "string \<Rightarrow> client" where
  "new_client key = \<lparr>cl_key = key, cl_base = default_base_url, cl_prices = default_prices\<rparr>"

definition price_for :: "client \<Rightarrow> string \<Rightarrow> price option" where
  "price_for c m = map_of (cl_prices c) m"

section \<open>The request on the wire\<close>

record wire_req =
  wq_model :: string
  wq_messages :: "message list"
  wq_max_tokens :: int
  wq_temperature :: "rat option"
  wq_json :: bool
  wq_stream :: bool
  wq_include_usage :: bool
  wq_thinking :: bool
  wq_budget :: "int option"

definition budget_for :: "string \<Rightarrow> int" where
  "budget_for r =
     (if r = LowReasoning then 1024 else if r = HighReasoning then 8192 else if r = MaxReasoning then 32768 else 0)"

definition clamp_budget :: "int \<Rightarrow> int \<Rightarrow> int" where
  "clamp_budget budget max_tok = (let half = max_tok div 2 in if budget > half then half else budget)"

definition mentions_json :: "message list \<Rightarrow> bool" where
  "mentions_json msgs = list_ex (\<lambda>m. contains_str (lower_ascii (m_content m)) ''json'') msgs"

definition build_body :: "request \<Rightarrow> go_error + wire_req" where
  "build_body req =
     (let thinking = rq_reasoning req \<noteq> NoReasoning;
          budget = clamp_budget (budget_for (rq_reasoning req)) (rq_max_tokens req);
          body = \<lparr>wq_model = rq_model req, wq_messages = rq_messages req, wq_max_tokens = rq_max_tokens req,
                  wq_temperature = (if thinking then None else rq_temperature req), wq_json = rq_json req,
                  wq_stream = False, wq_include_usage = False, wq_thinking = thinking,
                  wq_budget = (if thinking \<and> budget > 0 then Some budget else None)\<rparr>
      in if rq_json req \<and> \<not> mentions_json (rq_messages req)
         then Inl (ErrRequest, ''provider: request rejected: json_object was requested but no message mentions JSON, which this API rejects'')
         else Inr body)"

section \<open>Failures\<close>

definition clip :: "string \<Rightarrow> string" where
  "clip payload = (let msg = trim_space payload in
     if length msg > 400 then take 400 msg @ map char_of [0xE2, 0x80, 0xA6 :: nat] else msg)"

definition classify :: "int \<Rightarrow> string \<Rightarrow> go_error" where
  "classify status payload =
     (let msg = clip payload; http = '': HTTP '' @ itoa status in
      if status = 401 \<or> status = 403 then
        (ErrAuth, ''provider: authentication rejected'' @ http @ '' '' @ em_dash @ '' the key is wrong, revoked, out of credit, or issued for a '' @
           ''different Model Studio region than BaseURL points at; retrying will not change that: '' @ msg)
      else if status = 429 then (ErrRateLimited, ''provider: rate limited'' @ http @ '': '' @ msg)
      else if status = 413 \<or> status = 400 then
        (ErrRequest, ''provider: request rejected'' @ http @ '' '' @ em_dash @ '' the same request will fail the same way: '' @ msg)
      else (ErrUpstream, ''provider: upstream error'' @ http @ '': '' @ msg))"

definition upstream :: "string \<Rightarrow> go_error" where
  "upstream msg = (ErrUpstream, ''provider: upstream error: '' @ msg)"

definition no_price :: "string \<Rightarrow> go_error" where
  "no_price m = (ErrRequest, ''provider: request rejected: no price for model '' @ fmt_q m @
     '', and a call with no price would report zero spend against a money ceiling'')"

section \<open>One call\<close>

record wire_choice =
  wc_content :: string
  wc_reasoning :: string
  wc_finish :: string

record wire_resp =
  wp_model :: string
  wp_choices :: "wire_choice list"
  wp_usage :: usage
  wp_error :: "string option"

text \<open>No reply at all, with the error of the context when it is over; or a status and a body that may fail to be read.\<close>

datatype http_reply = NoReply string "go_error option" | Reply int "string + string"

record 'w outside =
  out_bad_url :: "string \<Rightarrow> string option"
  out_http :: "string \<Rightarrow> string \<Rightarrow> wire_req \<Rightarrow> 'w \<Rightarrow> http_reply \<times> 'w"
  out_decode :: "string \<Rightarrow> string + wire_resp"
  out_latency :: duration

fun trim_right :: "char \<Rightarrow> string \<Rightarrow> string" where
  "trim_right c s = rev (dropWhile (\<lambda>x. x = c) (rev s))"

definition endpoint :: "client \<Rightarrow> string" where
  "endpoint c = trim_right (CHR ''/'') (cl_base c) @ ''/chat/completions''"

text \<open>The answering model's price, or the requested one's.\<close>

definition priced :: "client \<Rightarrow> request \<Rightarrow> string \<Rightarrow> price option" where
  "priced c req m = (case price_for c m of Some p \<Rightarrow> Some p | None \<Rightarrow> price_for c (rq_model req))"

definition body_limit :: nat where "body_limit = 8388608"

definition read_reply :: "client \<Rightarrow> request \<Rightarrow> duration \<Rightarrow> wire_resp \<Rightarrow> go_error + response" where
  "read_reply c req lat out =
     (case wp_error out of Some msg \<Rightarrow> Inl (upstream msg)
      | None \<Rightarrow>
          (case wp_choices out of
             [] \<Rightarrow> Inl (upstream ''HTTP 200 with no choices'')
           | ch # _ \<Rightarrow>
               (case priced c req (wp_model out) of
                  None \<Rightarrow> Inl (no_price (wp_model out))
                | Some p \<Rightarrow> Inr \<lparr>rs_content = wc_content ch, rs_usage = wp_usage out, rs_cost = cost_micro_cents p (wp_usage out),
                                rs_model = wp_model out, rs_latency = lat, rs_finish = wc_finish ch\<rparr>)))"

definition qwen_complete :: "client \<Rightarrow> 'w outside \<Rightarrow> request \<Rightarrow> 'w \<Rightarrow> (go_error + response) \<times> 'w" where
  "qwen_complete c O1 req w =
     (case validate_request req of Inl e \<Rightarrow> (Inl e, w)
      | Inr _ \<Rightarrow>
          if cl_key c = '''' then (Inl (ErrAuth, ''provider: authentication rejected: no API key configured''), w)
          else (case build_body req of Inl e \<Rightarrow> (Inl e, w)
           | Inr body \<Rightarrow>
               (case out_bad_url O1 (endpoint c) of Some msg \<Rightarrow> (Inl (ErrRequest, ''provider: request rejected: '' @ msg), w)
                | None \<Rightarrow>
                    (case out_http O1 (endpoint c) (cl_key c) body w of
                       (NoReply msg ctx, w1) \<Rightarrow> (Inl (case ctx of Some e \<Rightarrow> e | None \<Rightarrow> upstream msg), w1)
                     | (Reply status (Inl msg), w1) \<Rightarrow> (Inl (upstream (''reading body: '' @ msg)), w1)
                     | (Reply status (Inr payload), w1) \<Rightarrow>
                         let seen = take body_limit payload in
                         if status \<noteq> 200 then (Inl (classify status seen), w1)
                         else (case out_decode O1 seen of
                                 Inl msg \<Rightarrow> (Inl (upstream (''undecodable body: '' @ msg)), w1)
                               | Inr out \<Rightarrow> (read_reply c req (out_latency O1) out, w1))))))"

section \<open>One streamed call\<close>

record chunk =
  ck_model :: string
  ck_choices :: "wire_choice list"
  ck_usage :: "usage option"
  ck_error :: "string option"

datatype stream_reply = StreamNoReply string "go_error option" | StreamStatus int string | StreamLines "string list" "string option"

record 'w stream_outside =
  so_bad_url :: "string \<Rightarrow> string option"
  so_http :: "string \<Rightarrow> string \<Rightarrow> wire_req \<Rightarrow> 'w \<Rightarrow> stream_reply \<times> 'w"
  so_decode :: "string \<Rightarrow> string + chunk"
  so_latency :: duration

record stream_acc =
  sa_content :: string
  sa_usage :: usage
  sa_model :: string
  sa_finish :: string
  sa_saw :: bool

definition new_acc :: "request \<Rightarrow> stream_acc" where
  "new_acc req = \<lparr>sa_content = '''', sa_usage = no_usage, sa_model = rq_model req, sa_finish = '''', sa_saw = False\<rparr>"

definition add_choice :: "wire_choice \<Rightarrow> stream_acc \<Rightarrow> stream_acc" where
  "add_choice ch a =
     a\<lparr>sa_finish := (if wc_finish ch \<noteq> '''' then wc_finish ch else sa_finish a), sa_content := sa_content a @ wc_content ch\<rparr>"

definition deltas_of :: "wire_choice list \<Rightarrow> delta list" where
  "deltas_of chs = map (\<lambda>ch. \<lparr>de_text = wc_content ch, de_reasoning = wc_reasoning ch\<rparr>)
     (filter (\<lambda>ch. wc_content ch \<noteq> '''' \<or> wc_reasoning ch \<noteq> '''') chs)"

definition add_chunk :: "chunk \<Rightarrow> stream_acc \<Rightarrow> stream_acc" where
  "add_chunk k a =
     fold add_choice (ck_choices k)
       (a\<lparr>sa_saw := True, sa_model := (if ck_model k \<noteq> '''' then ck_model k else sa_model a),
          sa_usage := (case ck_usage k of None \<Rightarrow> sa_usage a | Some u \<Rightarrow> u)\<rparr>)"

text \<open>The lines of the body; what the sink received comes with the result.\<close>

fun read_lines :: "(string \<Rightarrow> string + chunk) \<Rightarrow> string list \<Rightarrow> string option \<Rightarrow> stream_acc \<Rightarrow> (go_error + stream_acc) \<times> delta list" where
  "read_lines dec [] err a = ((case err of Some msg \<Rightarrow> Inl (upstream (''the stream ended badly: '' @ msg)) | None \<Rightarrow> Inr a), [])"
| "read_lines dec (l # ls) err a =
     (let line = trim_space l in
      if line = '''' \<or> \<not> has_prefix line ''data:'' then read_lines dec ls err a
      else let data = trim_space (drop 5 line) in
           if data = ''[DONE]'' then (Inr a, [])
           else (case dec data of
                   Inl msg \<Rightarrow> (Inl (upstream (''undecodable stream frame: '' @ msg)), [])
                 | Inr k \<Rightarrow>
                     (case ck_error k of Some msg \<Rightarrow> (Inl (upstream msg), [])
                      | None \<Rightarrow>
                          (case read_lines dec ls err (add_chunk k a) of
                             (r, ds) \<Rightarrow> (r, deltas_of (ck_choices k) @ ds)))))"

definition finish_stream :: "client \<Rightarrow> request \<Rightarrow> duration \<Rightarrow> stream_acc \<Rightarrow> go_error + response" where
  "finish_stream c req lat a =
     (if \<not> sa_saw a then Inl (upstream ''HTTP 200 with no stream frames'')
      else (case priced c req (sa_model a) of
              None \<Rightarrow> Inl (no_price (sa_model a))
            | Some p \<Rightarrow> Inr \<lparr>rs_content = sa_content a, rs_usage = sa_usage a, rs_cost = cost_micro_cents p (sa_usage a),
                            rs_model = sa_model a, rs_latency = lat, rs_finish = sa_finish a\<rparr>))"

definition qwen_stream :: "client \<Rightarrow> 'w stream_outside \<Rightarrow> request \<Rightarrow> 'w \<Rightarrow> (go_error + response) \<times> delta list \<times> 'w" where
  "qwen_stream c O1 req w =
     (case validate_request req of Inl e \<Rightarrow> (Inl e, [], w)
      | Inr _ \<Rightarrow>
          if cl_key c = '''' then (Inl (ErrAuth, ''provider: authentication rejected: no API key configured''), [], w)
          else (case build_body req of Inl e \<Rightarrow> (Inl e, [], w)
           | Inr body \<Rightarrow>
               (case so_bad_url O1 (endpoint c) of Some msg \<Rightarrow> (Inl (ErrRequest, ''provider: request rejected: '' @ msg), [], w)
                | None \<Rightarrow>
                    (case so_http O1 (endpoint c) (cl_key c) (body\<lparr>wq_stream := True, wq_include_usage := True\<rparr>) w of
                       (StreamNoReply msg ctx, w1) \<Rightarrow> (Inl (case ctx of Some e \<Rightarrow> e | None \<Rightarrow> upstream msg), [], w1)
                     | (StreamStatus status payload, w1) \<Rightarrow> (Inl (classify status (take 8192 payload)), [], w1)
                     | (StreamLines ls err, w1) \<Rightarrow>
                         (case read_lines (so_decode O1) ls err (new_acc req) of
                            (Inl e, ds) \<Rightarrow> (Inl e, ds, w1)
                          | (Inr a, ds) \<Rightarrow> (finish_stream c req (so_latency O1) a, ds, w1))))))"

end
