(* ===== verification/Stream_Field.thy ===== *)
theory Stream_Field
  imports Gostrings
begin

text \<open>
  \<open>internal/converse/stream.go\<close>: the value of the \<open>text\<close> field of a JSON object, decoded while the object arrives in
  chunks.  The field \<open>done\<close> of the Go struct is never set and is left out.
\<close>

datatype stream_state = SeekingKey | InValue | Finished

record text_stream =
  ts_buf :: string
  ts_state :: stream_state
  ts_pending :: string

definition new_stream :: text_stream where
  "new_stream = \<lparr>ts_buf = '''', ts_state = SeekingKey, ts_pending = ''''\<rparr>"

definition text_key :: string where
  "text_key = [CHR 0x22] @ ''text'' @ [CHR 0x22]"

definition json_space :: "char \<Rightarrow> bool" where
  "json_space c \<longleftrightarrow> c \<in> {CHR '' '', CHR 0x09, CHR 0x0A, CHR 0x0D}"

section \<open>Decoding\<close>

definition hex_value :: "char \<Rightarrow> nat option" where
  "hex_value c =
     (let n = (of_char c :: nat) in
      if 48 \<le> n \<and> n \<le> 57 then Some (n - 48)
      else if 97 \<le> n \<and> n \<le> 102 then Some (n - 97 + 10)
      else if 65 \<le> n \<and> n \<le> 70 then Some (n - 65 + 10)
      else None)"

text \<open>The rune \<open>U+FFFD\<close> stands for an escape that cannot be read.\<close>

fun decode_hex :: "nat \<Rightarrow> string \<Rightarrow> nat" where
  "decode_hex v [] = v"
| "decode_hex v (c # h) = (case hex_value c of None \<Rightarrow> 0xFFFD | Some d \<Rightarrow> decode_hex (v * 16 + d) h)"

definition decode_hex4 :: "string \<Rightarrow> nat" where
  "decode_hex4 h = decode_hex 0 h"

text \<open>\<open>Builder.WriteRune\<close> on a rune below \<open>0x10000\<close>; a surrogate is written as \<open>U+FFFD\<close>.\<close>

definition write_rune :: "nat \<Rightarrow> string" where
  "write_rune r0 =
     (let r = (if 0xD800 \<le> r0 \<and> r0 \<le> 0xDFFF then 0xFFFD else r0) in
      if r < 0x80 then [char_of r]
      else if r < 0x800 then map char_of [0xC0 + r div 64, 0x80 + r mod 64]
      else map char_of [0xE0 + r div 4096, 0x80 + r div 64 mod 64, 0x80 + r mod 64])"

definition unescape :: "char \<Rightarrow> char" where
  "unescape e =
     (if e = CHR ''n'' then CHR 0x0A else if e = CHR ''t'' then CHR 0x09 else if e = CHR ''r'' then CHR 0x0D
      else if e = CHR ''b'' then CHR 0x08 else if e = CHR ''f'' then CHR 0x0C else e)"

text \<open>The loop of \<open>consume\<close>: what is decoded, what is held back, and whether the closing quote was reached.\<close>

function scan_value :: "string \<Rightarrow> string \<times> string \<times> bool" where
  "scan_value s =
     (case s of
        [] \<Rightarrow> ('''', '''', False)
      | c # s1 \<Rightarrow>
          if c = CHR 0x22 then ('''', '''', True)
          else if c = CHR 0x5C then
            (case s1 of
               [] \<Rightarrow> ('''', s, False)
             | e # s2 \<Rightarrow>
                 if e = CHR ''u'' then
                   (if length s2 < 4 then ('''', s, False)
                    else (case scan_value (drop 4 s2) of (out, rest) \<Rightarrow> (write_rune (decode_hex4 (take 4 s2)) @ out, rest)))
                 else (case scan_value s2 of (out, rest) \<Rightarrow> (unescape e # out, rest)))
          else (case scan_value s1 of (out, rest) \<Rightarrow> (c # out, rest)))"
  by pat_completeness auto
termination by (relation "measure length") auto

declare scan_value.simps [simp del]

definition consume :: "string \<Rightarrow> text_stream \<Rightarrow> string \<times> text_stream" where
  "consume s t =
     (case scan_value (ts_pending t @ s) of (out, held, closed) \<Rightarrow>
        (out, t\<lparr>ts_pending := held, ts_state := (if closed then Finished else ts_state t)\<rparr>))"

section \<open>Writing a chunk\<close>

text \<open>Between the key and its value: space, a colon, space, the opening quote.\<close>

definition after_key :: "string \<Rightarrow> string \<Rightarrow> text_stream \<Rightarrow> string \<times> text_stream" where
  "after_key from rest t =
     (case dropWhile json_space rest of
        [] \<Rightarrow> ('''', t\<lparr>ts_buf := from\<rparr>)
      | c # r1 \<Rightarrow>
          if c \<noteq> CHR '':'' then ('''', t\<lparr>ts_buf := rest\<rparr>)
          else (case dropWhile json_space r1 of
                  [] \<Rightarrow> ('''', t\<lparr>ts_buf := from\<rparr>)
                | d # r2 \<Rightarrow>
                    if d \<noteq> CHR 0x22 then ('''', t\<lparr>ts_state := Finished\<rparr>)
                    else consume r2 (t\<lparr>ts_state := InValue, ts_buf := ''''\<rparr>)))"

definition stream_write :: "string \<Rightarrow> text_stream \<Rightarrow> string \<times> text_stream" where
  "stream_write chunk t =
     (if chunk = '''' then ('''', t)
      else (case ts_state t of
              Finished \<Rightarrow> ('''', t)
            | InValue \<Rightarrow> consume chunk t
            | SeekingKey \<Rightarrow>
                (let s = ts_buf t @ chunk in
                 case index_of s text_key of
                   None \<Rightarrow>
                     ('''', t\<lparr>ts_buf := (if length s > length text_key then drop (length s - length text_key) s else s)\<rparr>)
                 | Some i \<Rightarrow> after_key (drop i s) (drop (i + length text_key) s) (t\<lparr>ts_buf := s\<rparr>))))"

text \<open>A whole reply, chunk by chunk.\<close>

fun stream_all :: "string list \<Rightarrow> text_stream \<Rightarrow> string \<times> text_stream" where
  "stream_all [] t = ('''', t)"
| "stream_all (c # cs) t =
     (case stream_write c t of (out, t1) \<Rightarrow> case stream_all cs t1 of (rest, t2) \<Rightarrow> (out @ rest, t2))"

end
