(* ===== verification/Converse.thy ===== *)
theory Converse
  imports Prompt Stream_Field
begin

text \<open>
  \<open>internal/converse/converse.go\<close>: one turn of the conversation.  The agent asks a model for a JSON object, checks
  every field of the reply and turns it into an outcome.  The provider is a pair of functions on the outside world, the second
  one (streaming) optional; the JSON decoder is an argument.
\<close>

section \<open>Bounds\<close>

record turn_bounds =
  tb_calls :: int
  tb_tokens :: int
  tb_cost :: int
  tb_window :: int

definition default_bounds :: turn_bounds where
  "default_bounds = \<lparr>tb_calls = 4, tb_tokens = 700, tb_cost = 150000, tb_window = 12\<rparr>"

definition bounds_valid :: "turn_bounds \<Rightarrow> go_error option" where
  "bounds_valid b =
     (if tb_calls b \<le> 0 then Some (Opaque, ''converse: MaxCalls is '' @ itoa (tb_calls b) @ '' '' @ em_dash @ '' a loop with no bound is not a turn'')
      else if tb_tokens b \<le> 0 then Some (Opaque, ''converse: MaxTokens is '' @ itoa (tb_tokens b) @ '' '' @ em_dash @
          '' an unbounded completion cannot be interrupted by any outer ceiling'')
      else if tb_cost b \<le> 0 then Some (Opaque, ''converse: MaxCostMicroCents is '' @ itoa (tb_cost b) @ '' '' @ em_dash @
          '' a turn with no money ceiling is a customer holding the send key'')
      else None)"

section \<open>The agent\<close>

record 'w chat =
  ch_complete :: "request \<Rightarrow> 'w \<Rightarrow> (go_error + response) \<times> 'w"
  ch_stream :: "(request \<Rightarrow> 'w \<Rightarrow> (go_error + response) \<times> delta list \<times> 'w) option"

record wire_reply =
  wr_action :: string
  wr_text :: string
  wr_capability :: string
  wr_axis :: string
  wr_why :: string

record 'w agent =
  ag_provider :: "'w chat option"
  ag_model :: string
  ag_bounds :: turn_bounds
  ag_unmarshal :: "string \<Rightarrow> string + wire_reply"

record turn_outcome =
  oc_say :: string
  oc_ask :: string
  oc_capability :: string
  oc_axis :: string
  oc_why :: string
  oc_cost :: int
  oc_calls :: int

definition new_outcome :: turn_outcome where
  "new_outcome = \<lparr>oc_say = '''', oc_ask = '''', oc_capability = '''', oc_axis = '''', oc_why = '''', oc_cost = 0, oc_calls = 0\<rparr>"

definition talked :: "turn_outcome \<Rightarrow> bool" where
  "talked o1 \<longleftrightarrow> oc_capability o1 = ''''"

section \<open>Checking a reply\<close>

definition unusable :: "string \<Rightarrow> go_error" where
  "unusable msg = (ErrUnusable, ''converse: the model's reply could not be used: '' @ msg)"

definition axis_for :: "spec \<Rightarrow> string \<Rightarrow> string" where
  "axis_for s named =
     (if sp_axis s \<noteq> '''' then sp_axis s
      else let n = lower_ascii (trim_space named) in if n \<in> set axes then n else '''')"

text \<open>Whether the turn is decided and the outcome after a reply, or why the reply is refused.\<close>

definition apply_reply :: "turn_outcome \<Rightarrow> wire_reply \<Rightarrow> go_error + bool \<times> turn_outcome" where
  "apply_reply out w =
     (if wr_action w = ''say'' \<or> wr_action w = ''ask'' then
        (let text = trim_space (wr_text w) in
         if text = '''' then Inl (unusable (fmt_q (wr_action w) @ '' with no text''))
         else Inr (True, if wr_action w = ''ask'' then out\<lparr>oc_ask := text\<rparr> else out\<lparr>oc_say := text\<rparr>))
      else if wr_action w = ''do'' then
        (let i = trim_space (wr_capability w) in
         case lookup i of
           None \<Rightarrow> Inl (unusable (fmt_q (wr_capability w) @ '' is not one of the capabilities''))
         | Some s \<Rightarrow>
             let why = trim_space (wr_why w) in
             Inr (True, out\<lparr>oc_capability := i, oc_axis := axis_for s (wr_axis w), oc_why := (if why = '''' then sp_question s else why)\<rparr>))
      else Inl (unusable (''unknown action '' @ fmt_q (wr_action w))))"

section \<open>A turn\<close>

definition turn_request :: "'w agent \<Rightarrow> message list \<Rightarrow> request" where
  "turn_request a msgs =
     \<lparr>rq_model = ag_model a, rq_messages = msgs, rq_max_tokens = tb_tokens (ag_bounds a), rq_temperature = Some 0,
      rq_reasoning = NoReasoning, rq_json = True\<rparr>"

text \<open>The sink: the pieces the scanner makes of the deltas, those that are empty left out.\<close>

fun pieces_of :: "delta list \<Rightarrow> text_stream \<Rightarrow> string list" where
  "pieces_of [] t = []"
| "pieces_of (d # ds) t =
     (if de_text d = '''' then pieces_of ds t
      else case stream_write (de_text d) t of (piece, t1) \<Rightarrow> (if piece \<noteq> '''' then piece # pieces_of ds t1 else pieces_of ds t1))"

definition one_call :: "'w chat \<Rightarrow> bool \<Rightarrow> request \<Rightarrow> 'w \<Rightarrow> (go_error + response) \<times> string list \<times> 'w" where
  "one_call p want_text req w =
     (case ch_stream p of
        Some stream \<Rightarrow>
          if want_text then (case stream req w of (r, ds, w1) \<Rightarrow> (r, pieces_of ds new_stream, w1))
          else (case ch_complete p req w of (r, w1) \<Rightarrow> (r, [], w1))
      | None \<Rightarrow> (case ch_complete p req w of (r, w1) \<Rightarrow> (r, [], w1)))"

definition exhausted :: "string \<Rightarrow> go_error" where
  "exhausted msg = (ErrExhausted, ''converse: the turn reached its ceiling without deciding: '' @ msg)"

text \<open>The checks of one response.\<close>

definition judge :: "'w agent \<Rightarrow> turn_outcome \<Rightarrow> response \<Rightarrow> go_error + bool \<times> turn_outcome" where
  "judge a out resp =
     (if truncated resp then Inl (unusable (''the reply was cut off at '' @ itoa (tb_tokens (ag_bounds a)) @ '' tokens''))
      else (case ag_unmarshal a (trim_space (rs_content resp)) of
              Inl msg \<Rightarrow> Inl (unusable (''not the requested JSON object: '' @ msg))
            | Inr w \<Rightarrow> apply_reply out w))"

text \<open>The loop, at most \<open>n\<close> more times, with the result, the pieces shown and the world.\<close>

fun turn_loop :: "'w agent \<Rightarrow> 'w chat \<Rightarrow> bool \<Rightarrow> message list \<Rightarrow> nat \<Rightarrow> turn_outcome \<Rightarrow> 'w \<Rightarrow>
    (turn_outcome \<times> go_error option) \<times> string list \<times> 'w" where
  "turn_loop a p want_text msgs 0 out w = ((out, Some (exhausted (itoa (oc_calls out) @ '' calls''))), [], w)"
| "turn_loop a p want_text msgs (Suc n) out w =
     (if oc_cost out \<ge> tb_cost (ag_bounds a) then
        ((out, Some (exhausted (itoa (oc_cost out) @ '' micro-cents spent against a ceiling of '' @ itoa (tb_cost (ag_bounds a))))), [], w)
      else (case one_call p want_text (turn_request a msgs) w of
              (Inl e, ps, w1) \<Rightarrow>
                ((out\<lparr>oc_calls := oc_calls out + 1\<rparr>, Some (ErrUnavailable, ''converse: the model could not be reached: '' @ snd e)), ps, w1)
            | (Inr resp, ps, w1) \<Rightarrow>
                (let out1 = out\<lparr>oc_calls := oc_calls out + 1, oc_cost := wrap64 (oc_cost out + rs_cost resp)\<rparr> in
                 case judge a out1 resp of
                   Inl e \<Rightarrow> ((out1, Some e), ps, w1)
                 | Inr (decided, out2) \<Rightarrow>
                     if decided then ((out2, None), ps, w1)
                     else (case turn_loop a p want_text msgs n out2 w1 of (r, more_ps, w2) \<Rightarrow> (r, ps @ more_ps, w2)))))"

definition turn_messages :: "'w agent \<Rightarrow> turn list \<Rightarrow> string \<Rightarrow> facts \<Rightarrow> message list" where
  "turn_messages a history text f =
     \<lparr>m_role = ''system'', m_content = system_prompt f\<rparr> # conversation_messages history (tb_window (ag_bounds a)) @
     [\<lparr>m_role = ''user'', m_content = text\<rparr>]"

definition interpret_stream :: "'w agent \<Rightarrow> turn list \<Rightarrow> string \<Rightarrow> facts \<Rightarrow> bool \<Rightarrow> 'w \<Rightarrow>
    (turn_outcome \<times> go_error option) \<times> string list \<times> 'w" where
  "interpret_stream a history text f want_text w =
     (case ag_provider a of
        None \<Rightarrow> ((new_outcome, Some (ErrUnavailable, ''converse: the model could not be reached: no provider is configured'')), [], w)
      | Some p \<Rightarrow>
          if ag_model a = '''' then
            ((new_outcome, Some (ErrUnavailable, ''converse: the model could not be reached: no provider is configured'')), [], w)
          else (case bounds_valid (ag_bounds a) of
                  Some e \<Rightarrow> ((new_outcome, Some e), [], w)
                | None \<Rightarrow> turn_loop a p want_text (turn_messages a history text f) (nat (tb_calls (ag_bounds a))) new_outcome w))"

definition interpret_turn :: "'w agent \<Rightarrow> turn list \<Rightarrow> string \<Rightarrow> facts \<Rightarrow> 'w \<Rightarrow> (turn_outcome \<times> go_error option) \<times> string list \<times> 'w" where
  "interpret_turn a history text f w = interpret_stream a history text f False w"

definition needs_confirmation :: "string \<Rightarrow> bool" where
  "needs_confirmation i = (case lookup i of None \<Rightarrow> False | Some s \<Rightarrow> sp_tier s \<noteq> TierQuery)"

end
