(* ===== verification/Stream_Props.thy ===== *)
theory Stream_Props
  imports Stream_Field
begin

text \<open>
  The text field decoder does not depend on how the network cuts the reply into chunks, for replies in which the key is
  followed by a colon where it first occurs; on an encoded text it gives back the text.
\<close>

declare dropWhile_eq_Nil_conv [simp del]

section \<open>The string value\<close>

lemma scan_value_Nil [simp]: "scan_value [] = ([], [], False)"
  by (subst scan_value.simps) simp

lemma scan_value_quote [simp]: "scan_value (CHR 0x22 # s) = ([], [], True)"
  by (subst scan_value.simps) simp

lemma scan_value_plain:
  "c \<noteq> CHR 0x22 \<Longrightarrow> c \<noteq> CHR 0x5C \<Longrightarrow> scan_value (c # s) = (c # fst (scan_value s), snd (scan_value s))"
  by (subst scan_value.simps) (simp split: prod.splits)

lemma scan_value_escape:
  "e \<noteq> CHR ''u'' \<Longrightarrow> scan_value (CHR 0x5C # e # s) = (unescape e # fst (scan_value s), snd (scan_value s))"
  by (subst scan_value.simps) (simp split: prod.splits)

lemma scan_value_unicode:
  "length h = 4 \<Longrightarrow> scan_value (CHR 0x5C # CHR ''u'' # h @ s) = (write_rune (decode_hex4 h) @ fst (scan_value s), snd (scan_value s))"
  by (subst scan_value.simps) (simp split: prod.splits)

lemma scan_value_held:
  "scan_value [CHR 0x5C] = ([], [CHR 0x5C], False)"
  "length s < 4 \<Longrightarrow> scan_value (CHR 0x5C # CHR ''u'' # s) = ([], CHR 0x5C # CHR ''u'' # s, False)"
  by (subst scan_value.simps, simp)+

text \<open>Cutting the value anywhere and putting what was held back in front of the rest changes nothing.\<close>

lemma scan_value_append:
  "scan_value (s @ x) =
     (case scan_value s of (out, held, closed) \<Rightarrow>
        if closed then (out, [], True)
        else (out @ fst (scan_value (held @ x)), snd (scan_value (held @ x))))"
proof (induction s rule: scan_value.induct)
  case (1 s)
  show ?case
  proof (cases s)
    case Nil then show ?thesis by simp
  next
    case (Cons c s1)
    consider "c = CHR 0x22" | "c = CHR 0x5C" "s1 = []" | e s2 where "c = CHR 0x5C" "s1 = e # s2" | "c \<noteq> CHR 0x22" "c \<noteq> CHR 0x5C"
      by (cases s1) auto
    then show ?thesis
    proof cases
      case 1 with Cons show ?thesis by simp
    next
      case 2 with Cons show ?thesis by (simp add: scan_value_held)
    next
      case e: (3 e s2)
      consider "e \<noteq> CHR ''u''" | "e = CHR ''u''" "length s2 < 4" | "e = CHR ''u''" "4 \<le> length s2" by linarith
      then show ?thesis
      proof cases
        case 1
        with e Cons "1.IH"(2) [OF Cons, of e s2] show ?thesis by (simp add: scan_value_escape split: prod.splits)
      next
        case 2 with e Cons show ?thesis by (simp add: scan_value_held)
      next
        case 3
        define h r where "h = take 4 s2" and "r = drop 4 s2"
        then have s2: "s2 = h @ r" and h: "length h = 4" using 3 by simp_all
        have "scan_value (r @ x) = (case scan_value r of (out, held, closed) \<Rightarrow> if closed then (out, [], True)
            else (out @ fst (scan_value (held @ x)), snd (scan_value (held @ x))))"
          using "1.IH"(1) [OF Cons, of e s2] e 3 by (simp add: r_def)
        with e 3 Cons h show ?thesis by (simp add: s2 scan_value_unicode split: prod.splits)
      qed
    next
      case 4
      with Cons "1.IH"(3) [OF Cons] show ?thesis by (simp add: scan_value_plain split: prod.splits)
    qed
  qed
qed

section \<open>Chunks\<close>

text \<open>The first time the key occurs it is followed by a colon, as far as the text goes.\<close>

definition key_sound :: "string \<Rightarrow> bool" where
  "key_sound s \<longleftrightarrow>
     (case index_of s text_key of None \<Rightarrow> True
      | Some i \<Rightarrow> (case dropWhile json_space (drop (i + length text_key) s) of [] \<Rightarrow> True | c # _ \<Rightarrow> c = CHR '':''))"

text \<open>The states between two chunks, and what is still to be read in each as a text that starts at the buffer.\<close>

definition waiting :: "text_stream \<Rightarrow> bool" where
  "waiting t \<longleftrightarrow> (ts_state t = SeekingKey \<longrightarrow> ts_pending t = '''')"

definition unread :: "text_stream \<Rightarrow> string \<Rightarrow> bool" where
  "unread t x \<longleftrightarrow> (ts_state t = SeekingKey \<longrightarrow> key_sound (ts_buf t @ x))"

lemma text_key_length [simp]: "length text_key = 6" "text_key \<noteq> []"
  by (simp_all add: text_key_def)

lemma dropWhile_split: "dropWhile P xs = y # ys \<Longrightarrow> dropWhile P (xs @ x) = y # ys @ x"
  by (induction xs) auto

lemma scan_value_settled: "scan_value s = (out, held, False) \<Longrightarrow> scan_value held = ([], held, False)"
proof -
  assume s: "scan_value s = (out, held, False)"
  have "scan_value s = (out @ fst (scan_value held), snd (scan_value held))" using scan_value_append [of s "[]"] s by simp
  with s show ?thesis by (cases "scan_value held") auto
qed

lemma consume_write: "ts_state t = InValue \<Longrightarrow>
    fst (consume (c @ x) t) = fst (consume c t) @ fst (stream_write x (snd (consume c t)))"
  using scan_value_append [of "ts_pending t @ c" x] scan_value_settled [of "ts_pending t @ c"]
  by (auto simp: stream_write_def consume_def split: prod.splits)

lemma consume_state: "ts_state (snd (consume c t)) = ts_state t \<or> ts_state (snd (consume c t)) = Finished"
  by (auto simp: consume_def split: prod.splits)

lemma after_key_out:
  "ts_pending t = ts_pending t' \<Longrightarrow> fst (after_key f rest t) = fst (after_key f' rest t')"
  by (auto simp: after_key_def consume_def simp del: dropWhile_eq_Nil_conv split: list.splits prod.splits)

text \<open>What follows a key that has been found, cut anywhere.\<close>

definition colon_next :: "string \<Rightarrow> bool" where
  "colon_next rest \<longleftrightarrow> (case dropWhile json_space rest of [] \<Rightarrow> True | c # _ \<Rightarrow> c = CHR '':'')"

lemma found_key:
  assumes p: "ts_pending t = ''''" and st: "ts_state t = SeekingKey"
    and c: "colon_next (rest @ x)" and f: "from = text_key @ rest"
    and w: "after_key from rest t = (out, t')"
  shows "fst (after_key (from @ x) (rest @ x) t) = out @ fst (stream_write x t') \<and> waiting t' \<and> unread t' x"
proof -
  have again: "fst (after_key (from @ x) (rest @ x) t) = '''' @ fst (stream_write x (t\<lparr>ts_buf := from\<rparr>)) \<and>
      waiting (t\<lparr>ts_buf := from\<rparr>) \<and> unread (t\<lparr>ts_buf := from\<rparr>) x"
    if "fst (after_key from rest t) = ''''"
  proof -
    have "has_prefix (from @ x) text_key" by (simp add: f has_prefix_append)
    moreover have "from @ x \<noteq> []" using text_key_length(2) f by simp
    ultimately have i: "index_of (from @ x) text_key = Some 0" by (cases "from @ x") simp_all
    have r: "drop 6 (from @ x) = rest @ x" by (simp add: f text_key_def)
    have "fst (after_key (from @ x) (rest @ x) t) = fst (stream_write x (t\<lparr>ts_buf := from\<rparr>))"
    proof (cases "x = ''''")
      case True
      with that after_key_out [of t t "from @ x" rest "from"] show ?thesis by (simp add: stream_write_def)
    next
      case False
      then show ?thesis using st i r by (simp add: stream_write_def Let_def after_key_out [of t "t\<lparr>ts_buf := from @ x\<rparr>"])
    qed
    moreover have "unread (t\<lparr>ts_buf := from\<rparr>) x" using c i r by (simp add: unread_def key_sound_def colon_next_def)
    ultimately show ?thesis using p by (simp add: waiting_def)
  qed
  show ?thesis
  proof (cases "dropWhile json_space rest")
    case Nil
    then have "out = ''''" "t' = t\<lparr>ts_buf := from\<rparr>" using w by (simp_all add: after_key_def)
    with again w show ?thesis by simp
  next
    case (Cons d r1)
    then have d: "d = CHR '':''" and dx: "dropWhile json_space (rest @ x) = d # r1 @ x"
      using c dropWhile_split [OF Cons, of x] by (simp_all add: colon_next_def)
    show ?thesis
    proof (cases "dropWhile json_space r1")
      case Nil
      then have "out = ''''" "t' = t\<lparr>ts_buf := from\<rparr>" using w Cons d by (simp_all add: after_key_def)
      with again w show ?thesis by simp
    next
      case q: (Cons e r2)
      then have ex: "dropWhile json_space (r1 @ x) = e # r2 @ x" by (rule dropWhile_split)
      let ?t = "t\<lparr>ts_state := InValue, ts_buf := ''''\<rparr>"
      show ?thesis
      proof (cases "e = CHR 0x22")
        case True
        then have o: "(out, t') = consume r2 ?t" using w Cons d q by (simp add: after_key_def)
        have "fst (after_key (from @ x) (rest @ x) t) = fst (consume (r2 @ x) ?t)"
          using dx ex d True by (simp add: after_key_def)
        also have "\<dots> = out @ fst (stream_write x t')" using consume_write [of ?t r2 x] o by (metis fst_conv snd_conv text_stream.select_convs(2) text_stream.surjective text_stream.update_convs(1) text_stream.update_convs(2))
        finally have "fst (after_key (from @ x) (rest @ x) t) = out @ fst (stream_write x t')" .
        moreover have "ts_state t' \<noteq> SeekingKey" using consume_state [of r2 ?t] o by (auto simp: prod_eq_iff)
        ultimately show ?thesis by (simp add: waiting_def unread_def)
      next
        case False
        then have "out = ''''" "t' = t\<lparr>ts_state := Finished\<rparr>" using w Cons d q by (simp_all add: after_key_def)
        moreover have "fst (after_key (from @ x) (rest @ x) t) = ''''" using dx ex d False by (simp add: after_key_def)
        ultimately show ?thesis by (simp add: stream_write_def waiting_def unread_def)
      qed
    qed
  qed
qed

lemma write_seeking:
  assumes "ts_state t = SeekingKey" "chunk \<noteq> ''''"
  shows "fst (stream_write chunk t) = (case index_of (ts_buf t @ chunk) text_key of None \<Rightarrow> ''''
           | Some i \<Rightarrow> fst (after_key '''' (drop (i + 6) (ts_buf t @ chunk)) t))"
  using assms unfolding stream_write_def Let_def
  by (auto intro: after_key_out simp del: drop_append split: option.splits)

lemma write_append:
  assumes "waiting t" and "unread t (c @ x)" and w: "stream_write c t = (out, t')"
  shows "fst (stream_write (c @ x) t) = out @ fst (stream_write x t') \<and> waiting t' \<and> unread t' x"
proof (cases "c = '''' \<or> ts_state t \<noteq> SeekingKey")
  case True
  then consider "c = ''''" | "c \<noteq> ''''" "ts_state t = Finished" | "c \<noteq> ''''" "ts_state t = InValue" by (cases "ts_state t") auto
  then show ?thesis
  proof cases
    case 3
    then have o: "(out, t') = consume c t" using w by (simp add: stream_write_def)
    then have "ts_state t' \<noteq> SeekingKey" using consume_state [of c t] 3 by (auto simp: prod_eq_iff)
    moreover have "fst (stream_write (c @ x) t) = fst (consume (c @ x) t)" using 3 by (simp add: stream_write_def)
    ultimately show ?thesis using consume_write [OF 3(2), of c x] o by (auto simp: waiting_def unread_def prod_eq_iff)
  qed (use assms in \<open>auto simp: stream_write_def waiting_def unread_def\<close>)
next
  case False
  then have ne: "c \<noteq> ''''" and st: "ts_state t = SeekingKey" by simp_all
  let ?s = "ts_buf t @ c"
  have p: "ts_pending t = ''''" and k: "key_sound (?s @ x)" using assms(1, 2) st by (simp_all add: waiting_def unread_def)
  show ?thesis
  proof (cases "index_of ?s text_key")
    case None
    define a b where "a = take (length ?s - 6) ?s" and "b = drop (length ?s - 6) ?s"
    have ab: "?s = a @ b" by (simp only: a_def b_def append_take_drop_id)
    have o: "out = ''''" and t': "t' = t\<lparr>ts_buf := b\<rparr>"
      using w ne st None by (auto simp: stream_write_def Let_def b_def)
    have sh: "index_of (?s @ x) text_key = map_option ((+) (length a)) (index_of (b @ x) text_key)"
    proof (cases "6 \<le> length ?s")
      case True
      then have "length text_key \<le> length b" by (simp add: b_def)
      from index_of_forget [OF _ this text_key_length(2), of a x] None show ?thesis unfolding ab append_assoc by blast
    next
      case False
      then have "a = ''''" by (simp add: a_def)
      then show ?thesis unfolding ab by (cases "index_of (b @ x) text_key") simp_all
    qed
    have dr: "drop (length a + n) (?s @ x) = drop n (b @ x)" for n unfolding ab by simp
    have "key_sound (b @ x)"
    proof (cases "index_of (b @ x) text_key")
      case (Some j)
      with k dr [of "j + 6"] show ?thesis by (simp only: key_sound_def sh option.map option.case text_key_length add.assoc)
    qed (simp add: key_sound_def)
    moreover have "fst (stream_write (c @ x) t) = fst (stream_write x t')"
    proof (cases "x = ''''")
      case True
      with w show ?thesis by (simp add: o stream_write_def)
    next
      case False
      have l: "fst (stream_write (c @ x) t) = (case index_of (?s @ x) text_key of None \<Rightarrow> ''''
           | Some i \<Rightarrow> fst (after_key '''' (drop (i + 6) (?s @ x)) t))"
        using write_seeking [OF st, of "c @ x"] ne by (simp only: append_assoc append_is_Nil_conv simp_thms)
      have r: "fst (stream_write x t') = (case index_of (b @ x) text_key of None \<Rightarrow> ''''
           | Some i \<Rightarrow> fst (after_key '''' (drop (i + 6) (b @ x)) t))"
        using write_seeking [of t' x] False st unfolding t'
        by (cases "index_of (b @ x) text_key") (simp_all add: after_key_out [of "t\<lparr>ts_buf := b\<rparr>" t] del: drop_append)
      show ?thesis unfolding l r sh
        by (cases "index_of (b @ x) text_key") (simp_all only: option.map option.case add.assoc dr)
    qed
    ultimately show ?thesis using o p by (simp add: t' waiting_def unread_def)
  next
    case (Some i)
    let ?from = "drop i ?s" and ?rest = "drop (i + 6) ?s"
    from index_of_Some [OF Some] obtain us vs where s: "?s = us @ text_key @ vs" "length us = i" by blast
    then have fr: "?from = text_key @ ?rest" and le: "i + 6 \<le> length ?s" by auto
    have ix: "index_of (?s @ x) text_key = Some i" by (rule index_of_append [OF Some])
    have "colon_next (?rest @ x)" using k ix le by (simp add: key_sound_def colon_next_def)
    moreover have "after_key ?from ?rest (t\<lparr>ts_buf := ?s\<rparr>) = (out, t')"
      using w ne st Some by (simp add: stream_write_def Let_def)
    ultimately have "fst (after_key (?from @ x) (?rest @ x) (t\<lparr>ts_buf := ?s\<rparr>)) = out @ fst (stream_write x t') \<and> waiting t' \<and> unread t' x"
      using fr st p by (intro found_key) auto
    moreover have "fst (stream_write (c @ x) t) = fst (after_key (?from @ x) (?rest @ x) (t\<lparr>ts_buf := ?s\<rparr>))"
      using ne st ix le by (simp add: stream_write_def Let_def after_key_out [of _ "t\<lparr>ts_buf := ?s\<rparr>"])
    ultimately show ?thesis by simp
  qed
qed

lemma stream_all_write:
  "waiting t \<Longrightarrow> unread t (concat cs) \<Longrightarrow> fst (stream_all cs t) = fst (stream_write (concat cs) t)"
proof (induction cs arbitrary: t)
  case Nil then show ?case by (simp add: stream_write_def)
next
  case (Cons c cs)
  obtain out t1 where w: "stream_write c t = (out, t1)" by fastforce
  from write_append [OF Cons.prems(1) _ w, of "concat cs"] Cons.prems(2)
  have a: "fst (stream_write (c @ concat cs) t) = out @ fst (stream_write (concat cs) t1)" "waiting t1" "unread t1 (concat cs)" by simp_all
  with Cons.IH [OF a(2, 3)] w show ?case by (cases "stream_all cs t1") simp
qed

section \<open>Round trip\<close>

text \<open>A JSON encoder of strings: the two-character escapes, \<open>\u\<close> for the other control characters and for three marks of HTML.\<close>

definition json_char :: "char \<Rightarrow> string" where
  "json_char c =
     (let n = (of_char c :: nat); bs = CHR 0x5C in
      if c = CHR 0x22 \<or> c = bs then [bs, c]
      else if n = 10 then [bs, CHR ''n''] else if n = 13 then [bs, CHR ''r''] else if n = 9 then [bs, CHR ''t'']
      else if n < 32 \<or> n = 38 \<or> n = 60 \<or> n = 62 then [bs, CHR ''u'', CHR ''0'', CHR ''0'', hex_digit (n div 16), hex_digit (n mod 16)]
      else [c])"

definition json_string :: "string \<Rightarrow> string" where
  "json_string s = [CHR 0x22] @ concat (map json_char s) @ [CHR 0x22]"

definition say_reply :: "string \<Rightarrow> string" where
  "say_reply text = ''{'' @ json_string ''action'' @ '':'' @ json_string ''say'' @ '','' @ text_key @ '':'' @ json_string text @ ''}''"

lemma hex_value_digit: "d < 16 \<Longrightarrow> hex_value (hex_digit d) = Some d"
  by (auto simp: hex_value_def hex_digit_def Let_def)

lemma decode_two: "n < 128 \<Longrightarrow> decode_hex4 [CHR ''0'', CHR ''0'', hex_digit (n div 16), hex_digit (n mod 16)] = n"
proof -
  assume n: "n < 128"
  have z: "hex_value (CHR ''0'') = Some 0" by (simp add: hex_value_def)
  have "hex_value (hex_digit (n div 16)) = Some (n div 16)" "hex_value (hex_digit (n mod 16)) = Some (n mod 16)"
    using n by (intro hex_value_digit; simp)+
  with z show ?thesis by (simp add: decode_hex4_def)
qed

lemma scan_json_char: "scan_value (json_char c @ s) = (c # fst (scan_value s), snd (scan_value s))"
proof -
  let ?n = "of_char c :: nat"
  have c: "char_of ?n = c" by simp
  consider "c = CHR 0x22 \<or> c = CHR 0x5C" | "?n = 10" | "?n = 13" | "?n = 9"
    | "c \<noteq> CHR 0x22" "c \<noteq> CHR 0x5C" "?n \<noteq> 10" "?n \<noteq> 13" "?n \<noteq> 9" "?n < 32 \<or> ?n = 38 \<or> ?n = 60 \<or> ?n = 62"
    | "c \<noteq> CHR 0x22" "c \<noteq> CHR 0x5C" "?n \<noteq> 10" "?n \<noteq> 13" "?n \<noteq> 9" "\<not> (?n < 32 \<or> ?n = 38 \<or> ?n = 60 \<or> ?n = 62)"
    by blast
  then show ?thesis
  proof cases
    case 1 then show ?thesis by (auto simp: json_char_def Let_def scan_value_escape unescape_def)
  next
    case 2
    moreover have "of_char (CHR 0x0A) = (10 :: nat)" by simp
    ultimately have "c = CHR 0x0A" by (metis char_of_char)
    then show ?thesis by (simp add: json_char_def Let_def scan_value_escape unescape_def)
  next
    case 3
    moreover have "of_char (CHR 0x0D) = (13 :: nat)" by simp
    ultimately have "c = CHR 0x0D" by (metis char_of_char)
    then show ?thesis by (simp add: json_char_def Let_def scan_value_escape unescape_def)
  next
    case 4
    moreover have "of_char (CHR 0x09) = (9 :: nat)" by simp
    ultimately have "c = CHR 0x09" by (metis char_of_char)
    then show ?thesis by (simp add: json_char_def Let_def scan_value_escape unescape_def)
  next
    case 5
    then have n: "?n < 128" by linarith
    have "scan_value (CHR 0x5C # CHR ''u'' # [CHR ''0'', CHR ''0'', hex_digit (?n div 16), hex_digit (?n mod 16)] @ s) =
        (write_rune ?n @ fst (scan_value s), snd (scan_value s))"
      by (subst scan_value_unicode) (simp_all add: decode_two [OF n])
    moreover have "write_rune ?n = [c]" using n c by (simp add: write_rune_def Let_def)
    ultimately show ?thesis using 5 by (simp add: json_char_def Let_def)
  next
    case 6 then show ?thesis by (simp add: json_char_def Let_def scan_value_plain)
  qed
qed

lemma scan_json_string: "scan_value (concat (map json_char s) @ CHR 0x22 # x) = (s, '''', True)"
  by (induction s) (simp_all add: scan_json_char)

lemma say_reply_head:
  "say_reply text = (''{'' @ json_string ''action'' @ '':'' @ json_string ''say'' @ '','') @ text_key @ '':'' @ CHR 0x22 # concat (map json_char text) @ CHR 0x22 # ''}''"
  by (simp add: say_reply_def json_string_def)

lemma say_reply_index: "index_of (say_reply text) text_key = Some 16"
proof -
  let ?h = "''{'' @ json_string ''action'' @ '':'' @ json_string ''say'' @ '','' @ text_key"
  have "index_of ?h text_key = Some 16" by code_simp
  from index_of_append [OF this] show ?thesis by (simp add: say_reply_head del: index_of.simps)
qed

lemma say_reply_rest: "drop 22 (say_reply text) = '':'' @ CHR 0x22 # concat (map json_char text) @ CHR 0x22 # ''}''"
proof -
  have "length (''{'' @ json_string ''action'' @ '':'' @ json_string ''say'' @ '','' @ text_key) = 22" by code_simp
  then show ?thesis unfolding say_reply_head by (simp add: append_assoc [symmetric] del: append_assoc)
qed

lemma stream_as_one: "key_sound (concat chunks) \<Longrightarrow> fst (stream_all chunks new_stream) = fst (stream_write (concat chunks) new_stream)"
  by (rule stream_all_write) (simp_all add: waiting_def unread_def new_stream_def)

lemma say_reply_sound: "key_sound (say_reply text)"
  using say_reply_index say_reply_rest by (simp add: key_sound_def json_space_def)

lemma say_reply_at_once: "fst (stream_write (say_reply text) new_stream) = text"
proof -
  have ne: "say_reply text \<noteq> ''''" by (simp add: say_reply_def)
  have "fst (stream_write (say_reply text) new_stream) = fst (after_key '''' (drop 22 (say_reply text)) new_stream)"
    using write_seeking [of new_stream "say_reply text"] ne say_reply_index by (simp add: new_stream_def)
  then show ?thesis
    by (simp add: say_reply_rest after_key_def json_space_def consume_def new_stream_def scan_json_string)
qed

text \<open>C35. What the console shows of a reply while it arrives does not depend on where the network cuts it: the pieces add
  up to what the decoder makes of the whole reply at once, for every reply in which the key is followed by a colon where it first occurs.\<close>

theorem stream_ignores_chunks:
  assumes "key_sound (concat chunks)"
  shows "fst (stream_all chunks new_stream) = fst (stream_write (concat chunks) new_stream)"
  using assms by (rule stream_as_one)


section \<open>Concrete replies\<close>

definition say_chunks :: "string list" where
  "say_chunks = (let s = say_reply (''a'' @ [CHR 0x22, CHR 0x0A] @ ''b'') in [take 19 s, take 7 (drop 19 s), '''', drop 26 s])"

lemma say_chunks_concat: "concat say_chunks = say_reply (''a'' @ [CHR 0x22, CHR 0x0A] @ ''b'')"
  by code_simp


lemma stream_ignores_chunks_witness:
  "fst (stream_all say_chunks new_stream) = fst (stream_write (concat say_chunks) new_stream)"
proof -
  have "key_sound (concat say_chunks)" by code_simp
  then show ?thesis by (rule stream_ignores_chunks)
qed

text \<open>
  Where the key first occurs as a value, the decoder skips past it and looks at the rest only when the next chunk arrives: a reply
  that comes in one piece shows nothing.
\<close>

definition decoy :: string where
  "decoy = ''{'' @ json_string ''a'' @ '':'' @ json_string ''text'' @ '','' @ text_key @ '':'' @ json_string ''hi'' @ ''}''"

lemma decoy_shows_nothing:
  "fst (stream_all [decoy] new_stream) = '''' \<and> fst (stream_all [take 12 decoy, drop 12 decoy] new_stream) = ''hi''"
  by code_simp

text \<open>A surrogate pair, the JSON escape of a rune beyond the first plane, is shown as two replacement characters.\<close>

lemma surrogates_lost:
  "scan_value ([CHR 0x5C] @ ''ud83d'' @ [CHR 0x5C] @ ''ude00'' @ [CHR 0x22]) = (write_rune 0xFFFD @ write_rune 0xFFFD, '''', True)"
proof -
  have r: "write_rune (decode_hex4 ''d83d'') = write_rune 0xFFFD" "write_rune (decode_hex4 ''de00'') = write_rune 0xFFFD"
    by (simp_all add: decode_hex4_def hex_value_def Let_def write_rune_def)
  show ?thesis
    using scan_value_unicode [of "''d83d''" "[CHR 0x5C] @ ''ude00'' @ [CHR 0x22]"] scan_value_unicode [of "''de00''" "[CHR 0x22]"]
    by (simp add: r)
qed

end
