(* ===== verification/Chat.thy ===== *)
theory Chat
  imports Converse Stream_Props
begin

text \<open>
  What a turn of the conversation relies on in a provider, as a locale: a response carries a cost that is not negative, and the
  deltas of a streamed call spell the content of its response.  Inside it, what a turn guarantees of any such provider.
\<close>

section \<open>Facts of a turn\<close>

lemma apply_reply_decides: "apply_reply out w = Inr (d, out') \<Longrightarrow> d"
  by (auto simp: apply_reply_def Let_def split: if_splits option.splits)

lemma judge_decides: "judge a out resp = Inr (d, out') \<Longrightarrow> d"
  by (auto simp: judge_def dest: apply_reply_decides split: if_splits sum.splits)

text \<open>A turn is one call: every branch of the loop returns.\<close>

definition call_once :: "'w agent \<Rightarrow> 'w chat \<Rightarrow> bool \<Rightarrow> message list \<Rightarrow> 'w \<Rightarrow> (turn_outcome \<times> go_error option) \<times> string list \<times> 'w" where
  "call_once a p want_text msgs w =
     (case one_call p want_text (turn_request a msgs) w of
        (Inl e, ps, w1) \<Rightarrow> ((new_outcome\<lparr>oc_calls := 1\<rparr>, Some (ErrUnavailable, ''converse: the model could not be reached: '' @ snd e)), ps, w1)
      | (Inr resp, ps, w1) \<Rightarrow>
          (let out1 = new_outcome\<lparr>oc_calls := 1, oc_cost := wrap64 (rs_cost resp)\<rparr> in
           case judge a out1 resp of Inl e \<Rightarrow> ((out1, Some e), ps, w1) | Inr (_, out2) \<Rightarrow> ((out2, None), ps, w1)))"

lemma turn_loop_once:
  "0 < n \<Longrightarrow> 0 < tb_cost (ag_bounds a) \<Longrightarrow> turn_loop a p want_text msgs n new_outcome w = call_once a p want_text msgs w"
proof (cases n)
  case (Suc m)
  assume "0 < tb_cost (ag_bounds a)"
  with Suc show ?thesis
    by (auto simp: call_once_def new_outcome_def Let_def split: prod.splits sum.splits dest: judge_decides)
qed simp

lemma bounds_valid_None: "bounds_valid b = None \<longleftrightarrow> 0 < tb_calls b \<and> 0 < tb_tokens b \<and> 0 < tb_cost b"
  by (auto simp: bounds_valid_def)

lemma interpret_cases:
  obtains e where "\<And>wt w. interpret_stream a h text f wt w = ((new_outcome, Some e), [], w)" "fst e \<noteq> ErrExhausted"
    | p where "ag_provider a = Some p" "bounds_valid (ag_bounds a) = None"
        "\<And>wt w. interpret_stream a h text f wt w = call_once a p wt (turn_messages a h text f) w"
proof (cases "ag_provider a")
  case None
  then show ?thesis using that(1) by (auto simp: interpret_stream_def)
next
  case (Some p)
  consider "ag_model a = ''''" | e where "ag_model a \<noteq> ''''" "bounds_valid (ag_bounds a) = Some e"
    | "ag_model a \<noteq> ''''" "bounds_valid (ag_bounds a) = None" by fastforce
  then show ?thesis
  proof cases
    case 1 then show ?thesis using that(1) Some by (auto simp: interpret_stream_def)
  next
    case (2 e)
    then have "fst e \<noteq> ErrExhausted" by (auto simp: bounds_valid_def split: if_splits)
    then show ?thesis using that(1) [of e] Some 2 by (auto simp: interpret_stream_def)
  next
    case 3
    then have "0 < nat (tb_calls (ag_bounds a))" "0 < tb_cost (ag_bounds a)" by (simp_all add: bounds_valid_None)
    from turn_loop_once [OF this] 3 Some show ?thesis using that(2) by (simp add: interpret_stream_def)
  qed
qed

text \<open>What the sink receives spells what the scanner makes of the whole content.\<close>

lemma pieces_concat: "concat (pieces_of ds t) = fst (stream_all (map de_text ds) t)"
proof (induction ds t rule: pieces_of.induct)
  case (2 d ds t)
  show ?case
  proof (cases "de_text d = ''''")
    case True
    with 2 show ?thesis by (cases "stream_all (map de_text ds) t") (simp add: stream_write_def)
  next
    case False
    obtain out t1 where w: "stream_write (de_text d) t = (out, t1)" by fastforce
    obtain rest t2 where a: "stream_all (map de_text ds) t1 = (rest, t2)" by fastforce
    from False 2 w a show ?thesis by (auto simp: a)
  qed
qed simp

definition chat_of :: "(request \<Rightarrow> 'w \<Rightarrow> (go_error + response) \<times> 'w) \<Rightarrow>
    (request \<Rightarrow> 'w \<Rightarrow> (go_error + response) \<times> delta list \<times> 'w) \<Rightarrow> 'w chat" where
  "chat_of ask strm = \<lparr>ch_complete = ask, ch_stream = Some strm\<rparr>"

section \<open>The contract\<close>

locale chat_service =
  fixes complete :: "request \<Rightarrow> 'w \<Rightarrow> (go_error + response) \<times> 'w"
    and stream :: "request \<Rightarrow> 'w \<Rightarrow> (go_error + response) \<times> delta list \<times> 'w"
  assumes complete_cost: "complete r w = (Inr resp, w') \<Longrightarrow> 0 \<le> rs_cost resp"
    and stream_cost: "stream r w = (Inr resp, ds, w') \<Longrightarrow> 0 \<le> rs_cost resp"
    and stream_text: "stream r w = (Inr resp, ds, w') \<Longrightarrow> concat (map de_text ds) = rs_content resp"
begin

lemma one_call_cost: "one_call (chat_of complete stream) wt r w = (Inr resp, ps, w') \<Longrightarrow> 0 \<le> rs_cost resp"
  using complete_cost stream_cost by (auto simp: one_call_def chat_of_def split: if_splits prod.splits)

lemma turn_cost:
  assumes "ag_provider a = Some (chat_of complete stream)" and "interpret_stream a h text f wt w = ((out, err), ps, w')"
    and "\<And>resp ps w'. one_call (chat_of complete stream) wt (turn_request a (turn_messages a h text f)) w = (Inr resp, ps, w') \<Longrightarrow> in_int64 (rs_cost resp)"
  shows "0 \<le> oc_cost out"
proof (cases rule: interpret_cases [of a h "text" f])
  case (1 e)
  with assms(2) show ?thesis by (auto simp: new_outcome_def)
next
  case (2 p)
  with assms(1, 2) have c: "call_once a (chat_of complete stream) wt (turn_messages a h text f) w = ((out, err), ps, w')" by simp
  show ?thesis
  proof (cases "one_call (chat_of complete stream) wt (turn_request a (turn_messages a h text f)) w")
    case (fields r ps1 w1)
    show ?thesis
    proof (cases r)
      case (Inl e)
      with fields c show ?thesis by (auto simp: call_once_def new_outcome_def)
    next
      case (Inr resp)
      with fields have "0 \<le> rs_cost resp" "in_int64 (rs_cost resp)" using one_call_cost assms(3) by auto
      with fields c Inr show ?thesis
        by (auto simp: call_once_def new_outcome_def Let_def judge_def apply_reply_def split: if_splits sum.splits option.splits)
    qed
  qed
qed

lemma shown_is_read:
  assumes "stream r w = (Inr resp, ds, w')" and "rs_content resp = say_reply text"
  shows "concat (pieces_of ds new_stream) = text"
  using stream_text [OF assms(1)] assms(2) stream_as_one [of "map de_text ds"] by (simp add: pieces_concat say_reply_sound say_reply_at_once)

text \<open>A reply that says something is shown as it is written, and is the outcome.\<close>

lemma say_turn:
  assumes p: "ag_provider a = Some (chat_of complete stream)" and m: "ag_model a \<noteq> ''''" "bounds_valid (ag_bounds a) = None"
    and s: "stream (turn_request a (turn_messages a h text f)) w = (Inr resp, ds, w')"
    and c: "rs_content resp = say_reply reply" "\<not> truncated resp" "trim_space reply \<noteq> ''''"
    and u: "ag_unmarshal a (trim_space (say_reply reply)) =
        Inr \<lparr>wr_action = ''say'', wr_text = reply, wr_capability = '''', wr_axis = '''', wr_why = ''''\<rparr>"
  shows "\<exists>out. interpret_stream a h text f True w = ((out, None), pieces_of ds new_stream, w') \<and>
     concat (pieces_of ds new_stream) = reply \<and> oc_say out = trim_space reply \<and> talked out"
proof -
  have b: "0 < nat (tb_calls (ag_bounds a))" "0 < tb_cost (ag_bounds a)" using m(2) by (simp_all add: bounds_valid_None)
  have "interpret_stream a h text f True w = call_once a (chat_of complete stream) True (turn_messages a h text f) w"
    using p m turn_loop_once [OF b] by (simp add: interpret_stream_def)
  then show ?thesis
    using s c u shown_is_read [OF s c(1)]
    by (simp add: call_once_def one_call_def chat_of_def judge_def apply_reply_def Let_def talked_def new_outcome_def)
qed

end

end
