(* ===== verification/Qwen_Props.thy ===== *)
theory Qwen_Props
  imports Qwen Chat
begin

text \<open>
  The Qwen client: what a successful call guarantees, its classes of failure, the request it sends, and that it is a
  provider the conversation can rely on.
\<close>

section \<open>Requests\<close>

text \<open>C36. A request that goes out leaves at least half of its token ceiling to the answer: the thinking budget is positive and at most
  half of the ceiling, is sent exactly when thinking is on (and there is room for any), and a temperature only when it is off; a request that
  asks for a JSON object says so in a message.\<close>

theorem wire_request_bounded:
  assumes "validate_request req = Inr ()" and "build_body req = Inr body"
  shows "(case wq_budget body of None \<Rightarrow> wq_thinking body \<longrightarrow> rq_max_tokens req < 2
          | Some b \<Rightarrow> wq_thinking body \<and> 0 < b \<and> 2 * b \<le> rq_max_tokens req) \<and>
    (wq_thinking body \<longleftrightarrow> rq_reasoning req \<noteq> NoReasoning) \<and> (wq_temperature body \<noteq> None \<longrightarrow> \<not> wq_thinking body) \<and>
    (wq_json body \<longrightarrow> mentions_json (wq_messages body)) \<and> wq_max_tokens body = rq_max_tokens req \<and> 0 < rq_max_tokens req"
proof -
  have v: "0 < rq_max_tokens req" "reasoning_valid (rq_reasoning req)" using assms(1) by (auto simp: validate_request_def split: if_splits)
  have b: "rq_reasoning req \<noteq> NoReasoning \<Longrightarrow> 1024 \<le> budget_for (rq_reasoning req)"
    using v(2) by (auto simp: reasoning_valid_def budget_for_def)
  have c: "2 * clamp_budget n m \<le> m" if "0 < m" for n m using that by (auto simp: clamp_budget_def Let_def)
  have p: "0 < clamp_budget n m \<longleftrightarrow> 2 \<le> m" if "1024 \<le> n" for n m using that by (auto simp: clamp_budget_def Let_def)
  show ?thesis using assms(2) v b c p unfolding build_body_def
    by (auto simp: Let_def not_le split: if_splits)
qed

lemma wire_request_bounded_witness:
  "\<exists>body. build_body \<lparr>rq_model = model_flash, rq_messages = [\<lparr>m_role = ''user'', m_content = ''as JSON''\<rparr>], rq_max_tokens = 700,
       rq_temperature = Some 0, rq_reasoning = HighReasoning, rq_json = True\<rparr> = Inr body \<and> wq_budget body = Some 350 \<and>
     (\<forall>b. wq_budget body = Some b \<longrightarrow> 2 * b \<le> 700)"
proof -
  let ?r = "\<lparr>rq_model = model_flash, rq_messages = [\<lparr>m_role = ''user'', m_content = ''as JSON''\<rparr>], rq_max_tokens = 700,
       rq_temperature = Some 0, rq_reasoning = HighReasoning, rq_json = True\<rparr>"
  have "validate_request ?r = Inr ()" by code_simp
  moreover have "mentions_json (rq_messages ?r)" by code_simp
  then have "\<exists>body. build_body ?r = Inr body \<and> wq_budget body = Some 350"
    by (simp add: build_body_def Let_def HighReasoning_def NoReasoning_def LowReasoning_def MaxReasoning_def budget_for_def clamp_budget_def)
  ultimately show ?thesis using wire_request_bounded [of ?r] by fastforce
qed

section \<open>Failures\<close>

text \<open>A failed status is classified once and for all: it may be retried exactly when it is neither an authentication failure nor
  a rejected request.\<close>

theorem classify_retryable:
  "retryable (classify status payload) \<longleftrightarrow> status \<notin> {400, 401, 403, 413}"
  by (auto simp: retryable_def classify_def errors_is_def Let_def)

text \<open>A missing model (404) is retried, as is every other status the table does not name.\<close>

lemma unknown_status_retried: "retryable (classify 404 ''model not found'')"
  by (simp add: retryable_def classify_def errors_is_def Let_def)

section \<open>Prices\<close>

text \<open>The cost of a call is the exact price rounded up to the next micro-cent, never negative: a sum of many small calls
  is never below what they cost.\<close>

theorem cost_rounds_up:
  assumes "0 \<le> cost_cents p u"
  shows "cost_cents p u * 1000000 \<le> of_int (cost_micro_cents p u) \<and> of_int (cost_micro_cents p u) < cost_cents p u * 1000000 + 1"
  using assms unfolding cost_is_ceiling by (auto simp: le_less) linarith+

lemma cost_rounds_up_witness:
  "of_int (cost_micro_cents \<lparr>pr_input = 14, pr_cached = 14, pr_output = 42, pr_stated_at = '''', pr_source = ''''\<rparr>
      \<lparr>us_input = 1, us_output = 0, us_cached = 0, us_reasoning = 0\<rparr>) < (14 :: rat) + 1"
  using cost_rounds_up [of "\<lparr>pr_input = 14, pr_cached = 14, pr_output = 42, pr_stated_at = '''', pr_source = ''''\<rparr>"
      "\<lparr>us_input = 1, us_output = 0, us_cached = 0, us_reasoning = 0\<rparr>"]
  by (simp add: cost_cents_def uncached_def wrap64_def)

section \<open>Calls\<close>

lemma read_reply_Inr:
  "read_reply c req lat out = Inr resp \<Longrightarrow>
    \<exists>ch chs p. wp_error out = None \<and> wp_choices out = ch # chs \<and> priced c req (wp_model out) = Some p \<and>
      rs_content resp = wc_content ch \<and> rs_usage resp = wp_usage out \<and> rs_cost resp = cost_micro_cents p (wp_usage out) \<and>
      rs_finish resp = wc_finish ch"
  by (auto simp: read_reply_def split: option.splits list.splits)

lemma qwen_complete_Inr:
  "qwen_complete c O1 req w = (Inr resp, w') \<Longrightarrow>
    \<exists>body payload out. validate_request req = Inr () \<and> cl_key c \<noteq> '''' \<and> build_body req = Inr body \<and>
      out_http O1 (endpoint c) (cl_key c) body w = (Reply 200 (Inr payload), w') \<and>
      out_decode O1 (take body_limit payload) = Inr out \<and> read_reply c req (out_latency O1) out = Inr resp"
  by (auto simp: qwen_complete_def Let_def split: sum.splits if_splits option.splits prod.splits http_reply.splits)

text \<open>A call succeeds only on a valid request sent with a key, a reply with status 200 that decodes to at least one choice and no
  error, and a model with a price: the response carries that choice, the usage as reported and its price, rounded up.\<close>

theorem complete_success_is_priced:
  assumes "qwen_complete c O1 req w = (Inr resp, w')"
  shows "validate_request req = Inr () \<and> cl_key c \<noteq> '''' \<and>
    (\<exists>body payload out ch chs p. out_http O1 (endpoint c) (cl_key c) body w = (Reply 200 (Inr payload), w') \<and>
       out_decode O1 (take body_limit payload) = Inr out \<and> wp_error out = None \<and> wp_choices out = ch # chs \<and>
       rs_content resp = wc_content ch \<and> rs_usage resp = wp_usage out \<and> priced c req (wp_model out) = Some p \<and>
       rs_cost resp = cost_micro_cents p (wp_usage out))"
  using qwen_complete_Inr [OF assms] read_reply_Inr by metis

definition sample_request :: request where
  "sample_request = \<lparr>rq_model = model_flash, rq_messages = [\<lparr>m_role = ''user'', m_content = ''as JSON''\<rparr>], rq_max_tokens = 700,
     rq_temperature = Some 0, rq_reasoning = NoReasoning, rq_json = True\<rparr>"

definition sample_usage :: usage where
  "sample_usage = \<lparr>us_input = 100, us_output = 10, us_cached = 0, us_reasoning = 0\<rparr>"

definition sample_outside :: "unit outside" where
  "sample_outside = \<lparr>out_bad_url = (\<lambda>_. None), out_http = (\<lambda>_ _ _ w. (Reply 200 (Inr ''ok''), w)),
     out_decode = (\<lambda>_. Inr \<lparr>wp_model = model_flash, wp_choices = [\<lparr>wc_content = ''hi'', wc_reasoning = '''', wc_finish = ''stop''\<rparr>],
        wp_usage = sample_usage, wp_error = None\<rparr>), out_latency = 5\<rparr>"

lemma sample_complete:
  "\<exists>resp. qwen_complete (new_client ''k'') sample_outside sample_request () = (Inr resp, ()) \<and> rs_content resp = ''hi''"
proof -
  have v: "validate_request sample_request = Inr ()" by code_simp
  have j: "mentions_json (rq_messages sample_request)" by code_simp
  have p: "\<exists>p. priced (new_client ''k'') sample_request model_flash = Some p"
    by (simp add: priced_def price_for_def new_client_def default_prices_def)
  show ?thesis using v j p
    by (auto simp: qwen_complete_def new_client_def sample_outside_def build_body_def read_reply_def Let_def)
qed

lemma complete_success_is_priced_witness:
  "\<exists>resp p. qwen_complete (new_client ''k'') sample_outside sample_request () = (Inr resp, ()) \<and>
     rs_cost resp = cost_micro_cents p sample_usage"
proof -
  from sample_complete obtain resp where r: "qwen_complete (new_client ''k'') sample_outside sample_request () = (Inr resp, ())" by blast
  from complete_success_is_priced [OF r] r show ?thesis by (auto simp: sample_outside_def)
qed

section \<open>Streamed calls\<close>

lemma deltas_text: "concat (map de_text (deltas_of chs)) = concat (map wc_content chs)"
  by (induction chs) (auto simp: deltas_of_def)

lemma add_choices_content: "sa_content (fold add_choice chs a) = sa_content a @ concat (map wc_content chs)"
  by (induction chs arbitrary: a) (simp_all add: add_choice_def)

lemma add_choices_rest: "sa_usage (fold add_choice chs a) = sa_usage a" "sa_saw (fold add_choice chs a) = sa_saw a"
    "sa_model (fold add_choice chs a) = sa_model a"
  by (induction chs arbitrary: a) (simp_all add: add_choice_def)

lemma read_lines_content:
  "read_lines dec ls err a = (Inr a', ds) \<Longrightarrow> sa_content a' = sa_content a @ concat (map de_text ds)"
proof (induction dec ls err a arbitrary: a' ds rule: read_lines.induct)
  case (1 dec err a)
  then show ?case by (auto split: option.splits)
next
  case (2 dec l ls err a)
  let ?line = "trim_space l"
  let ?data = "trim_space (drop 5 ?line)"
  show ?case
  proof (cases "?line = '''' \<or> \<not> has_prefix ?line ''data:''")
    case True
    then show ?thesis using 2(1) [OF refl True] 2(3) by simp
  next
    case False
    show ?thesis
    proof (cases "?data = ''[DONE]''")
      case True
      then show ?thesis using False 2(3) by (auto simp: Let_def)
    next
      case d: False
      then obtain k where k: "dec ?data = Inr k" "ck_error k = None" using False 2(3) by (auto simp: Let_def split: sum.splits option.splits)
      obtain r ds1 where rl: "read_lines dec ls err (add_chunk k a) = (r, ds1)" by fastforce
      with False d k 2(3) have "r = Inr a'" "ds = deltas_of (ck_choices k) @ ds1" by (auto simp: Let_def)
      moreover have "sa_content a' = sa_content (add_chunk k a) @ concat (map de_text ds1)"
        by (rule 2(2) [OF refl False refl d k]) (simp add: rl calculation)
      ultimately show ?thesis by (simp add: deltas_text add_chunk_def add_choices_content)
    qed
  qed
qed

lemma finish_stream_Inr:
  "finish_stream c req lat a = Inr resp \<Longrightarrow> sa_saw a \<and> rs_content resp = sa_content a \<and> rs_usage resp = sa_usage a \<and>
     (\<exists>p. priced c req (sa_model a) = Some p \<and> rs_cost resp = cost_micro_cents p (sa_usage a))"
  by (auto simp: finish_stream_def split: if_splits option.splits)

lemma qwen_stream_Inr:
  "qwen_stream c O1 req w = (Inr resp, ds, w') \<Longrightarrow>
    \<exists>body ls err a. validate_request req = Inr () \<and> build_body req = Inr body \<and>
      so_http O1 (endpoint c) (cl_key c) (body\<lparr>wq_stream := True, wq_include_usage := True\<rparr>) w = (StreamLines ls err, w') \<and>
      read_lines (so_decode O1) ls err (new_acc req) = (Inr a, ds) \<and> finish_stream c req (so_latency O1) a = Inr resp"
  by (auto simp: qwen_stream_def split: sum.splits if_splits option.splits prod.splits stream_reply.splits)

lemma stream_read:
  assumes "qwen_stream c O1 req w = (Inr resp, ds, w')"
  shows "concat (map de_text ds) = rs_content resp" "validate_request req = Inr ()"
    "\<exists>m p. priced c req m = Some p \<and> rs_cost resp = cost_micro_cents p (rs_usage resp)"
proof -
  from qwen_stream_Inr [OF assms] obtain ls err a where v: "validate_request req = Inr ()"
    and r: "read_lines (so_decode O1) ls err (new_acc req) = (Inr a, ds)" and f: "finish_stream c req (so_latency O1) a = Inr resp" by blast
  from read_lines_content [OF r] have "sa_content a = concat (map de_text ds)" by (simp add: new_acc_def)
  with finish_stream_Inr [OF f] show "concat (map de_text ds) = rs_content resp" by simp
  show "validate_request req = Inr ()" by (rule v)
  from finish_stream_Inr [OF f] show "\<exists>m p. priced c req m = Some p \<and> rs_cost resp = cost_micro_cents p (rs_usage resp)" by auto
qed

text \<open>What a streamed call shows is what it answers: on success the texts of the deltas handed to the sink spell the content
  of the response, which carries a price for the model that answered or the one asked for.\<close>

theorem stream_spells_content:
  assumes "qwen_stream c O1 req w = (Inr resp, ds, w')"
  shows "concat (map de_text ds) = rs_content resp \<and> validate_request req = Inr () \<and>
    (\<exists>p. (\<exists>m. priced c req m = Some p) \<and> rs_cost resp = cost_micro_cents p (rs_usage resp))"
  using stream_read [OF assms] by auto

text \<open>The client is a provider a conversation can rely on.\<close>

interpretation qwen: chat_service "qwen_complete c O1" "qwen_stream c S1" for c O1 S1
proof (unfold_locales, goal_cases)
  case (1 r w resp w')
  from qwen_complete_Inr [OF 1] obtain out where "read_reply c r (out_latency O1) out = Inr resp" by blast
  from read_reply_Inr [OF this] show ?case using cost_nonneg by auto
next
  case (2 r w resp ds w')
  from stream_read(3) [OF 2] show ?case using cost_nonneg by auto
next
  case (3 r w resp ds w')
  show ?case by (rule stream_read(1) [OF 3])
qed

text \<open>A stream with one frame, on a decoder that knows it; the connection then ends without the frame that carries the usage.\<close>

definition sample_stream :: "string \<Rightarrow> unit stream_outside" where
  "sample_stream content = \<lparr>so_bad_url = (\<lambda>_. None), so_http = (\<lambda>_ _ _ w. (StreamLines [''data: 1''] None, w)),
     so_decode = (\<lambda>_. Inr \<lparr>ck_model = model_flash, ck_choices = [\<lparr>wc_content = content, wc_reasoning = '''', wc_finish = ''''\<rparr>],
        ck_usage = None, ck_error = None\<rparr>), so_latency = 5\<rparr>"

lemma stream_request: "validate_request sample_request = Inr ()" "mentions_json (rq_messages sample_request)"
  by code_simp+

lemma sample_lines: "rq_model r = model_flash \<Longrightarrow> content \<noteq> '''' \<Longrightarrow>
    read_lines (so_decode (sample_stream content)) [''data: 1''] None (new_acc r) =
      (Inr \<lparr>sa_content = content, sa_usage = no_usage, sa_model = model_flash, sa_finish = '''', sa_saw = True\<rparr>,
       [\<lparr>de_text = content, de_reasoning = ''''\<rparr>])"
proof -
  assume c: "rq_model r = model_flash" "content \<noteq> ''''"
  have "trim_space ''data: 1'' = ''data: 1''" "has_prefix ''data: 1'' ''data:''" "trim_space (drop 5 ''data: 1'') = ''1''" by code_simp+
  with c show ?thesis by (simp add: sample_stream_def model_flash_def add_chunk_def add_choice_def deltas_of_def new_acc_def no_usage_def)
qed

definition sample_answer :: "string \<Rightarrow> response" where
  "sample_answer content = \<lparr>rs_content = content, rs_usage = no_usage, rs_cost = 0, rs_model = model_flash, rs_latency = 5, rs_finish = ''''\<rparr>"

lemma sample_stream_answers:
  assumes "validate_request r = Inr ()" "mentions_json (rq_messages r)" "rq_model r = model_flash" "content \<noteq> ''''"
  shows "qwen_stream (new_client ''k'') (sample_stream content) r () = (Inr (sample_answer content), [\<lparr>de_text = content, de_reasoning = ''''\<rparr>], ())"
proof -
  have "so_http (sample_stream content) = (\<lambda>_ _ _ w. (StreamLines [''data: 1''] None, w))" "so_bad_url (sample_stream content) = (\<lambda>_. None)"
      "so_latency (sample_stream content) = 5"
    by (simp_all add: sample_stream_def)
  moreover have "\<exists>body. build_body r = Inr body" using assms(2) by (simp add: build_body_def Let_def)
  moreover have "\<exists>p. priced (new_client ''k'') r model_flash = Some p"
    by (simp add: priced_def price_for_def new_client_def default_prices_def)
  moreover have "cost_micro_cents p no_usage = 0" for p
    by (simp add: cost_micro_cents_def cost_cents_def no_usage_def uncached_def wrap64_def Let_def)
  ultimately show ?thesis using assms(1) sample_lines [OF assms(3, 4)]
    by (auto simp: qwen_stream_def new_client_def finish_stream_def sample_answer_def)
qed

text \<open>Nothing tells it from a reply that ended: it costs nothing and does not count as cut off.\<close>

lemma truncated_stream_free:
  "content \<noteq> '''' \<Longrightarrow> qwen_stream (new_client ''k'') (sample_stream content) sample_request () =
      (Inr (sample_answer content), [\<lparr>de_text = content, de_reasoning = ''''\<rparr>], ()) \<and>
     rs_cost (sample_answer content) = 0 \<and> \<not> truncated (sample_answer content)"
  using sample_stream_answers [of sample_request content] stream_request by (simp add: sample_request_def sample_answer_def truncated_def)

lemma stream_spells_content_witness:
  "qwen_stream (new_client ''k'') (sample_stream ''hi'') sample_request () = (Inr (sample_answer ''hi''), [\<lparr>de_text = ''hi'', de_reasoning = ''''\<rparr>], ()) \<and>
     concat (map de_text [\<lparr>de_text = ''hi'', de_reasoning = ''''\<rparr>]) = rs_content (sample_answer ''hi'')"
proof -
  have s: "qwen_stream (new_client ''k'') (sample_stream ''hi'') sample_request () = (Inr (sample_answer ''hi''), [\<lparr>de_text = ''hi'', de_reasoning = ''''\<rparr>], ())"
    using truncated_stream_free [of "''hi''"] by simp
  from s stream_spells_content [OF s] show ?thesis by simp
qed

end
