(* ===== verification/Converse_Props.thy ===== *)
theory Converse_Props
  imports Qwen_Props
begin

text \<open>
  What a turn of the conversation guarantees: its outcome is one act of a closed set, it makes one call, streaming changes
  nothing but what is shown, and what is shown is the reply.
\<close>

lemma specs_described: "s \<in> set specs \<Longrightarrow> sp_question s \<noteq> '''' \<and> (sp_axis s = '''' \<or> sp_axis s \<in> set axes)"
  by (auto simp: spec_table axes_def)

lemma axis_for_known: "s \<in> set specs \<Longrightarrow> axis_for s named = '''' \<or> axis_for s named \<in> set axes"
  using specs_described by (auto simp: axis_for_def Let_def)

lemma intents_nonempty: "lookup i = Some s \<Longrightarrow> i \<noteq> ''''"
  using lookup_in_Some by (fastforce simp: lookup_def spec_table)

lemma apply_reply_Inr:
  assumes "apply_reply out w = Inr (d, o1)" and "oc_say out = ''''" "oc_ask out = ''''" "oc_capability out = ''''" "oc_axis out = ''''"
  shows "length (filter (\<lambda>x. x \<noteq> '''') [oc_say o1, oc_ask o1, oc_capability o1]) = 1 \<and>
    (oc_capability o1 \<noteq> '''' \<longrightarrow> valid_intent (oc_capability o1) \<and> oc_why o1 \<noteq> '''') \<and>
    (oc_axis o1 = '''' \<or> oc_axis o1 \<in> set axes)"
proof -
  consider "wr_action w = ''say''" | "wr_action w = ''ask''" | "wr_action w = ''do''" | "wr_action w \<notin> {''say'', ''ask'', ''do''}" by blast
  then show ?thesis
  proof cases
    case 3
    then obtain s where s: "lookup (trim_space (wr_capability w)) = Some s"
      and o1: "o1 = out\<lparr>oc_capability := trim_space (wr_capability w), oc_axis := axis_for s (wr_axis w),
          oc_why := (if trim_space (wr_why w) = '''' then sp_question s else trim_space (wr_why w))\<rparr>"
      using assms(1) by (auto simp: apply_reply_def Let_def split: option.splits)
    have "s \<in> set specs" using s lookup_in_Some by (fastforce simp: lookup_def)
    with s o1 assms specs_described axis_for_known intents_nonempty [OF s] show ?thesis
      by (auto simp: valid_intent_def)
  qed (use assms in \<open>auto simp: apply_reply_def Let_def split: if_splits\<close>)
qed

text \<open>C37. Whatever the model answers, a turn that succeeds is exactly one act: something said, something asked, or one of the nineteen
  capabilities with an explanation to confirm; its axis is one of the nine or none.\<close>

theorem turn_is_one_known_act:
  assumes "interpret_stream a h text f wt w = ((out, None), ps, w')"
  shows "length (filter (\<lambda>x. x \<noteq> '''') [oc_say out, oc_ask out, oc_capability out]) = 1 \<and>
    (oc_capability out \<noteq> '''' \<longrightarrow> valid_intent (oc_capability out) \<and> oc_why out \<noteq> '''') \<and>
    (oc_axis out = '''' \<or> oc_axis out \<in> set axes)"
proof (cases rule: interpret_cases [of a h "text" f])
  case (1 e)
  with assms show ?thesis by simp
next
  case (2 p)
  with assms have "call_once a p wt (turn_messages a h text f) w = ((out, None), ps, w')" by simp
  then obtain resp d where "judge a (new_outcome\<lparr>oc_calls := 1, oc_cost := wrap64 (rs_cost resp)\<rparr>) resp = Inr (d, out)"
    by (auto simp: call_once_def Let_def split: prod.splits sum.splits)
  then obtain wr where "apply_reply (new_outcome\<lparr>oc_calls := 1, oc_cost := wrap64 (rs_cost resp)\<rparr>) wr = Inr (d, out)"
    by (auto simp: judge_def split: if_splits sum.splits)
  from apply_reply_Inr [OF this] show ?thesis by (simp add: new_outcome_def)
qed


section \<open>Showing the reply while it is written\<close>

text \<open>C40. Streaming is decoration: a provider whose streamed call answers what its plain call answers gives the same turn, whether or not
  the reply is shown while it is written; without a sink nothing is shown.\<close>

theorem streaming_is_decoration:
  assumes "ag_provider a = Some (chat_of ask strm)" and "\<And>r w. ask r w = (case strm r w of (x, ds, w') \<Rightarrow> (x, w'))"
  shows "interpret_turn a h text f w = (case interpret_stream a h text f True w of (r, ps, w') \<Rightarrow> (r, [], w'))"
proof (cases rule: interpret_cases [of a h "text" f])
  case (1 e)
  then show ?thesis by (simp add: interpret_turn_def)
next
  case (2 p)
  with assms(1) have p: "p = chat_of ask strm" by simp
  show ?thesis unfolding interpret_turn_def 2(3) p call_once_def
    by (auto simp: one_call_def chat_of_def assms(2) Let_def split: prod.splits sum.splits)
qed


section \<open>Concrete turns\<close>

definition sample_facts :: facts where
  "sample_facts = \<lparr>fa_loaded = False, fa_reference = '''', fa_revision = '''', fa_is_agent = False, fa_why = '''', fa_found = [], fa_missing = [],
     fa_person = \<lparr>ps_name = '''', ps_role = '''', ps_instructions = '''', ps_language = ''''\<rparr>\<rparr>"

definition sample_say :: wire_reply where
  "sample_say = \<lparr>wr_action = ''say'', wr_text = ''hi'', wr_capability = '''', wr_axis = '''', wr_why = ''''\<rparr>"

definition sample_agent :: "string \<Rightarrow> (request \<Rightarrow> unit \<Rightarrow> (go_error + response) \<times> unit) \<Rightarrow> wire_reply \<Rightarrow> unit agent" where
  "sample_agent content ask r = \<lparr>ag_provider = Some (chat_of ask (qwen_stream (new_client ''k'') (sample_stream content))),
     ag_model = model_flash, ag_bounds = default_bounds, ag_unmarshal = (\<lambda>_. Inr r)\<rparr>"

lemma sample_turn_streams:
  assumes "content \<noteq> ''''"
  shows "qwen_stream (new_client ''k'') (sample_stream content)
      (turn_request (sample_agent content ask r) (turn_messages (sample_agent content ask r) [] ''as JSON'' f)) () =
    (Inr (sample_answer content), [\<lparr>de_text = content, de_reasoning = ''''\<rparr>], ())"
proof (rule sample_stream_answers)
  have "contains_str (lower_ascii ''as JSON'') ''json''" by code_simp
  then show "mentions_json (rq_messages (turn_request (sample_agent content ask r) (turn_messages (sample_agent content ask r) [] ''as JSON'' f)))"
    by (simp add: mentions_json_def turn_request_def turn_messages_def)
  have "model_flash \<noteq> ''''" "reasoning_valid NoReasoning" by code_simp+
  then show "validate_request (turn_request (sample_agent content ask r) (turn_messages (sample_agent content ask r) [] ''as JSON'' f)) = Inr ()"
    by (simp add: validate_request_def turn_request_def turn_messages_def sample_agent_def default_bounds_def)
qed (simp_all add: turn_request_def sample_agent_def assms)

lemma sample_agent_parts: "ag_provider (sample_agent content ask r) = Some (chat_of ask (qwen_stream (new_client ''k'') (sample_stream content)))"
    "ag_model (sample_agent content ask r) \<noteq> ''''" "bounds_valid (ag_bounds (sample_agent content ask r)) = None"
    "ag_unmarshal (sample_agent content ask r) x = Inr r"
  by (simp_all add: sample_agent_def model_flash_def bounds_valid_None default_bounds_def)


definition sample_do :: wire_reply where
  "sample_do = \<lparr>wr_action = ''do'', wr_text = '''', wr_capability = ''assess'', wr_axis = ''cost'', wr_why = ''''\<rparr>"

text \<open>The plain call that forgets what was shown.\<close>

definition plain_call :: "(request \<Rightarrow> unit \<Rightarrow> (go_error + response) \<times> delta list \<times> unit) \<Rightarrow> request \<Rightarrow> unit \<Rightarrow> (go_error + response) \<times> unit" where
  "plain_call strm r w = (case strm r w of (x, ds, w') \<Rightarrow> (x, w'))"

lemma streaming_is_decoration_witness:
  "interpret_turn (sample_agent ''{}'' (plain_call (qwen_stream (new_client ''k'') (sample_stream ''{}''))) sample_do) [] ''as JSON'' sample_facts () =
    (case interpret_stream (sample_agent ''{}'' (plain_call (qwen_stream (new_client ''k'') (sample_stream ''{}''))) sample_do) [] ''as JSON'' sample_facts True () of
       (r, ps, w') \<Rightarrow> (r, [], w'))"
  by (rule streaming_is_decoration [OF sample_agent_parts(1)]) (rule plain_call_def)

lemma sample_do_turn:
  "\<exists>out ps. interpret_stream (sample_agent ''{}'' ask sample_do) [] ''as JSON'' sample_facts True () = ((out, None), ps, ()) \<and> oc_capability out = ''assess''"
proof -
  let ?a = "sample_agent ''{}'' ask sample_do" and ?s = "qwen_stream (new_client ''k'') (sample_stream ''{}'')"
  let ?m = "turn_messages ?a [] ''as JSON'' sample_facts"
  have t: "trim_space ''assess'' = ''assess''" "lookup ''assess'' \<noteq> None" by code_simp+
  have "0 < nat (tb_calls (ag_bounds ?a))" "0 < tb_cost (ag_bounds ?a)" by (simp_all add: sample_agent_def default_bounds_def)
  from turn_loop_once [OF this]
  have "interpret_stream ?a [] ''as JSON'' sample_facts True () = call_once ?a (chat_of ask ?s) True ?m ()"
    by (simp add: interpret_stream_def sample_agent_parts)
  moreover have "one_call (chat_of ask ?s) True (turn_request ?a ?m) () =
      (Inr (sample_answer ''{}''), pieces_of [\<lparr>de_text = ''{}'', de_reasoning = ''''\<rparr>] new_stream, ())"
    using sample_turn_streams [of "''{}''" ask sample_do sample_facts] by (simp add: one_call_def chat_of_def)
  ultimately show ?thesis using t
    by (auto simp: call_once_def judge_def apply_reply_def sample_agent_parts sample_do_def sample_answer_def truncated_def Let_def)
qed

lemma turn_is_one_known_act_witness:
  "\<exists>out ps. interpret_stream (sample_agent ''{}'' (qwen_complete (new_client ''k'') sample_outside) sample_do) [] ''as JSON'' sample_facts True () =
      ((out, None), ps, ()) \<and> valid_intent (oc_capability out) \<and> oc_why out \<noteq> ''''"
proof -
  obtain out ps where o: "interpret_stream (sample_agent ''{}'' (qwen_complete (new_client ''k'') sample_outside) sample_do) [] ''as JSON'' sample_facts True () =
      ((out, None), ps, ())" "oc_capability out = ''assess''" using sample_do_turn by blast
  from turn_is_one_known_act [OF o(1)] o show ?thesis by auto
qed

end
