(* ===== verification/Spec2Isabelle.thy ===== *)
theory Spec2Isabelle
  imports Core_Props Store_Props Worker_Props Identity_Props Ratelimit Memory_Props
    Password_Props Store_PG_Props Edit_Props Router_Props Holdout_Props Converse_Props
begin

text \<open>
  A verification library for heros-agent: a service that plans durable goals as graphs of tasks, runs them
  one leased task at a time within ceilings, and answers to organizations whose members it authenticates.

  \<^bold>\<open>The program and its parts.\<close>  A goal (\<open>internal/goal\<close>) is admitted with ceilings (\<open>internal/bounds\<close>) and an intent of a
  closed set (\<open>internal/intent\<close>).  A planner (\<open>internal/planner\<close>) turns it into a graph of tasks (\<open>internal/task\<close>), which
  a store keeps (\<open>internal/store\<close>, in process and on PostgreSQL, each seen through a view bound to one tenant).
  A worker (\<open>internal/worker\<close>) claims a task under a lease, asks the autonomy policy
  (\<open>internal/autonomy\<close>), calls the tool through its contract (\<open>internal/toolcontract\<close>), records the outcome, and replans
  or completes the goal.  What it learns goes into \<open>internal/memory\<close>.  People and sessions are in \<open>internal/auth\<close> over
  \<open>internal/tenancy\<close>, guarded by \<open>internal/ratelimit\<close>.  \<open>internal/edit\<close> is the only code that rewrites a customer's file.
  A sentence that somebody types is routed by its words (\<open>internal/router\<close>) or, in a conversation
  (\<open>internal/converse\<close>), by one call to a language model (\<open>internal/provider\<close>) whose answer is checked against the same closed set.

  \<^bold>\<open>Theories.\<close>
  \<^item> \<open>Prelude\<close>: errors as a sentinel and a message, times, maps as association lists, wrapped 64-bit arithmetic,
    the shared automation.  \<open>Gostrings\<close>: strings as bytes, runes, \<open>TrimSpace\<close>.  \<open>Sql\<close>: statements that can fail, transactions.
  \<^item> \<open>Task\<close>, \<open>Task_Graph\<close>, \<open>Task_Cycle\<close>: \<open>task.go\<close>; validation of graphs, the three-colour search with its explicit stack,
    readiness, failure propagation, stalls.
  \<^item> \<open>Bounds\<close>, \<open>Intent\<close>, \<open>Goal\<close>: \<open>bounds.go\<close>, \<open>intent.go\<close>, \<open>goal.go\<close>.
  \<^item> \<open>Store\<close>, \<open>Scoped\<close>: the in-process store and its tenant view (\<open>store.go\<close>, \<open>scoped.go\<close>), every operation an atomic state
    transformer, as the mutex makes it.  \<open>Lease\<close> is the locale of what a worker relies on; \<open>Store_Lease\<close>,
    \<open>Store_Inv\<close>, \<open>Store_Run\<close> prove leases, invariants and reachable stores.
  \<^item> \<open>Store_PG\<close>: the durable store and its view (\<open>postgres.go\<close>, \<open>scoped_pg.go\<close>), each SQL statement a function on the tables with
    the constraints of the migrations, which may fail.  \<open>Store_Rows\<close> reads the tables row by row,
    \<open>Store_Mirror\<close>, \<open>Store_Sim\<close>, \<open>Store_Agree\<close> relate them to the in-process store.
  \<^item> \<open>Toolcontract\<close>, \<open>Autonomy\<close>, \<open>Planner\<close>, \<open>Planner_Contract\<close>: \<open>toolcontract.go\<close>, \<open>autonomy.go\<close>, \<open>planner.go\<close> and \<open>plans.go\<close>.
  \<^item> \<open>Worker\<close>, \<open>Worker_Facts\<close>: one whole cycle \<open>RunOnce\<close>; while a tool runs the rest of the platform may do
    anything to the store, because the tool acts on the store as its world.
  \<^item> \<open>Memory\<close>, \<open>Memory_Store\<close>, \<open>Memory_PG\<close>: \<open>memory.go\<close>, both stores of \<open>store.go\<close> and both views of \<open>scoped.go\<close>.
    \<open>Memory_Sim\<close>, \<open>Memory_Conform\<close>, \<open>Memory_Listing\<close> relate the two stores; \<open>Interfaces\<close> holds the locales
    \<open>numbered_log\<close> and \<open>simulation\<close>.
  \<^item> \<open>Tenancy\<close>, \<open>Identity\<close>, \<open>Members\<close>, \<open>Tokens\<close>, \<open>Password\<close>: \<open>role.go\<close>, \<open>tenancy.go\<close>, and \<open>store.go\<close>, \<open>signup.go\<close>, \<open>members.go\<close>,
    \<open>tokens.go\<close>, \<open>password.go\<close> of \<open>internal/auth\<close>.  \<open>Identity_Inv\<close> is the machine of their operations; \<open>Link\<close> is the locale of a single-use link.
  \<^item> \<open>Ratelimit\<close>: the token bucket of \<open>ratelimit.go\<close>.  \<open>Edit\<close>: \<open>edit.go\<close>, with the operating-system calls it makes.
  \<^item> \<open>Router\<close>: \<open>router.go\<close> and \<open>holdout.go\<close>, with the whole vocabulary.  \<open>Provider\<close>, \<open>Qwen\<close>: \<open>provider.go\<close>, \<open>qwen.go\<close>, a call and a
    streamed call over an HTTP exchange that is an argument.  \<open>Prompt\<close>, \<open>Stream_Field\<close>, \<open>Converse\<close>: \<open>prompt.go\<close>, \<open>stream.go\<close>,
    \<open>converse.go\<close>; \<open>Chat\<close> holds the locale of what a turn relies on in a provider, which \<open>Qwen_Props\<close> interprets on the client.
  \<^item> The theories ending in \<open>_Props\<close> hold the properties and their witnesses; \<open>Samples\<close> the concrete stores they use.

  \<^bold>\<open>What the lemmas show.\<close>  Types and invariants: every reachable store holds validated graphs, tasks that run only when their
  dependencies are met, and organizations with an owner.  Safety: a live lease excludes other workers, on both stores;
  one tenant neither reads nor changes what another has; a tool runs only behind the approval gate; an edit changes exactly the approved
  text.  Function: the branches of claiming, completing, cancelling, replanning, resetting, compressing.  Refinement: both
  PostgreSQL stores answer every sequence of calls as the in-process ones do, under conditions each call states.
  Conversation: routing is independent of the order of Go maps, a turn is one call and one act of the closed set, what is shown while a
  reply arrives is the reply however the network cuts it.
  Round trips: a stored hash is read back, an edit can be taken back.  Errors: a failed statement changes nothing, but for the
  stated exceptions.

  \<^bold>\<open>Conventions.\<close>  A Go string is a list of bytes.  An error is a sentinel with its message; \<open>errors.Is\<close> compares the
  sentinel.  A panic is \<open>None\<close> or \<open>Panic\<close>.  Times and durations are integers of nanoseconds, the zero time is 0.  Maps are association
  lists; where the order of a Go map could show, the theorem or the finding says so.  The arithmetic that can overflow wraps at 64
  bits; \<open>float64\<close> is an exact rational.  Clocks, random tokens, SHA-256, argon2, JSON, \<open>lower\<close> and collation of the
  database, symbolic links and tool bodies are arguments.

  \<^bold>\<open>Termination and fuel.\<close>  Every loop of the code is a total function: the depth-first search by the number of open vertices and edges,
  the propagation of failures by the number of open tasks, the revision of a plan by
  the list of proposed tasks, the count of occurrences by the length of the text.
  No theorem is conditional on a loop returning.

  \<^bold>\<open>Not modelled.\<close>  The HTTP handlers of \<open>internal/api\<close>, discovery over syntax trees, the tools, mail, the intake of repositories over git, configuration and commands.  They are input
  and output over what is modelled here, or libraries and services outside the repository.  Concurrency inside one operation is
  not modelled: a mutex or a row lock makes it one step.
\<close>

end
